(* ===== verification/Prelude.thy ===== *)
theory Prelude
  imports Main "HOL-Library.Sublist" "HOL-Library.Multiset"
begin

text \<open>
  What every component of the gateway model shares: clocks and durations, the arithmetic
  of Rust's fixed-width unsigned integers, the \<open>str\<close> operations the sources call, the
  model of \<open>dashmap::DashMap\<close>, and two interfaces stated as locales, a keyed store and a
  state machine with an invariant. Everything here models the Rust language, its standard
  library or a container's documented behaviour; the program itself starts in the
  component theories.
\<close>

named_theorems dashmap_simps
  \<open>rewrite rules for lookups, keys and well-formedness of the DashMap model\<close>
named_theorems str_simps
  \<open>rewrite rules for the model of Rust's str operations\<close>
named_theorems model_defs
  \<open>definitions of components that their own proofs unfold\<close>

section \<open>Clocks and machine integers\<close>

text \<open>
  A \<open>std::time::Instant\<close> is a number of nanoseconds on the monotonic clock, a
  \<open>Duration\<close> a number of nanoseconds. \<open>Instant::duration_since\<close> and \<open>elapsed\<close> saturate at
  zero, as subtraction on \<^typ>\<open>nat\<close> does. Wall-clock readings (\<open>SystemTime\<close> in
  seconds) are also numbers. A component never reads a clock: the reading is an argument.
\<close>

type_synonym instant = nat
type_synonym uuid = nat

definition from_secs :: "nat \<Rightarrow> nat" where
  "from_secs s = s * 1000000000"

lemma from_secs_mono: "a \<le> b \<Longrightarrow> from_secs a \<le> from_secs b"
  by (simp add: from_secs_def)

lemma from_secs_0 [simp]: "from_secs 0 = 0"
  by (simp add: from_secs_def)

lemma from_secs_pos [simp]: "0 < from_secs s \<longleftrightarrow> 0 < s"
  by (simp add: from_secs_def)

text \<open>
  Unsigned integers are \<^typ>\<open>nat\<close> with the width written out. \<open>saturating_add\<close> stops at
  the maximum, \<open>fetch_add\<close> and the plain \<open>+=\<close> of a release build wrap around;
  \<open>saturating_sub\<close> is subtraction on \<^typ>\<open>nat\<close>.
\<close>

definition u32_max :: nat where "u32_max = 4294967295"
definition u64_max :: nat where "u64_max = 18446744073709551615"

definition sat_add32 :: "nat \<Rightarrow> nat \<Rightarrow> nat" where
  "sat_add32 a b = min (a + b) u32_max"

definition wrap_add32 :: "nat \<Rightarrow> nat \<Rightarrow> nat" where
  "wrap_add32 a b = (a + b) mod (u32_max + 1)"

definition wrap_add64 :: "nat \<Rightarrow> nat \<Rightarrow> nat" where
  "wrap_add64 a b = (a + b) mod (u64_max + 1)"

definition wrap_sub64 :: "nat \<Rightarrow> nat \<Rightarrow> nat" where
  "wrap_sub64 a b = (if b \<le> a then a - b else u64_max + 1 + a - b)"

lemma wrap_sub64_exact [simp]: "b \<le> a \<Longrightarrow> wrap_sub64 a b = a - b"
  by (simp add: wrap_sub64_def)

lemma sat_add32_le [simp]: "sat_add32 a b \<le> u32_max"
  by (simp add: sat_add32_def)

lemma sat_add32_exact: "a + b \<le> u32_max \<Longrightarrow> sat_add32 a b = a + b"
  by (simp add: sat_add32_def)

lemma sat_add32_ge: "a \<le> u32_max \<Longrightarrow> a \<le> sat_add32 a b"
  by (simp add: sat_add32_def)

lemma wrap_add32_le [simp]: "wrap_add32 a b \<le> u32_max"
  by (simp add: wrap_add32_def u32_max_def)

lemma wrap_add32_exact: "a + b \<le> u32_max \<Longrightarrow> wrap_add32 a b = a + b"
  by (simp add: wrap_add32_def)

lemma wrap_add64_le [simp]: "wrap_add64 a b \<le> u64_max"
  by (simp add: wrap_add64_def u64_max_def)

lemma wrap_add64_exact: "a + b \<le> u64_max \<Longrightarrow> wrap_add64 a b = a + b"
  by (simp add: wrap_add64_def)

lemma nat_mod_add_cancel:
  assumes "(a + c) mod n = (b + c) mod (n :: nat)"
  shows "a mod n = b mod n"
proof -
  have "int ((a + c) mod n) = int ((b + c) mod n)" using assms by simp
  then have "int n dvd int a - int b" by (simp add: zmod_int mod_eq_dvd_iff)
  then have "int (a mod n) = int (b mod n)" by (simp add: zmod_int mod_eq_dvd_iff)
  then show ?thesis by simp
qed

section \<open>Results\<close>

text \<open>
  A \<open>Result<T, E>\<close> is a sum, \<open>Inl\<close> the error. \<open>and_then\<close> is what the question mark
  operator does, \<open>ok_or\<close> and \<open>map_err\<close> are the methods of \<open>Option\<close> and \<open>Result\<close>, and
  \<open>ensure\<close> is an early return of an error.
\<close>

definition and_then :: "'e + 'a \<Rightarrow> ('a \<Rightarrow> 'e + 'b) \<Rightarrow> 'e + 'b" where
  "and_then r f = (case r of Inl e \<Rightarrow> Inl e | Inr x \<Rightarrow> f x)"

definition ok_or :: "'e \<Rightarrow> 'a option \<Rightarrow> 'e + 'a" where
  "ok_or e x = (case x of None \<Rightarrow> Inl e | Some v \<Rightarrow> Inr v)"

definition map_err :: "('d \<Rightarrow> 'e) \<Rightarrow> 'd + 'a \<Rightarrow> 'e + 'a" where
  "map_err f r = (case r of Inl e \<Rightarrow> Inl (f e) | Inr x \<Rightarrow> Inr x)"

definition ensure :: "bool \<Rightarrow> 'e \<Rightarrow> 'e + unit" where
  "ensure b e = (if b then Inr () else Inl e)"

lemma and_then_simps [simp]: "and_then (Inl e) f = Inl e" "and_then (Inr x) f = f x"
  by (simp_all add: and_then_def)

lemma and_then_Inr: "and_then r f = Inr y \<longleftrightarrow> (\<exists>x. r = Inr x \<and> f x = Inr y)"
  by (cases r) simp_all

lemma ok_or_Inr: "ok_or e x = Inr v \<longleftrightarrow> x = Some v"
  by (simp add: ok_or_def split: option.splits)

lemma map_err_Inr: "map_err f r = Inr v \<longleftrightarrow> r = Inr v"
  by (simp add: map_err_def split: sum.splits)

lemma ensure_Inr: "ensure b e = Inr u \<longleftrightarrow> b"
  by (simp add: ensure_def)

lemmas result_simps = and_then_Inr ok_or_Inr map_err_Inr ensure_Inr

section \<open>Strings\<close>

text \<open>
  A Rust \<open>String\<close> is its UTF-8 bytes, so \<open>len\<close> is \<^const>\<open>length\<close> and a byte is a
  \<^typ>\<open>char\<close>. The operations below are those of \<open>str\<close> the sources call.
\<close>

definition ascii_lower :: "char \<Rightarrow> char" where
  "ascii_lower c =
     (let n = of_char c :: nat in if 65 \<le> n \<and> n \<le> 90 then char_of (n + 32) else c)"

definition to_ascii_lowercase :: "string \<Rightarrow> string" where
  "to_ascii_lowercase s = map ascii_lower s"

definition eq_ignore_ascii_case :: "string \<Rightarrow> string \<Rightarrow> bool" where
  "eq_ignore_ascii_case s t \<longleftrightarrow> to_ascii_lowercase s = to_ascii_lowercase t"

text \<open>
  \<open>to_lowercase\<close> (Unicode). The sources only compare its result with ASCII words, so of the
  non-ASCII letters only the two whose lower case contains an ASCII letter matter: the
  Kelvin sign (\<open>k\<close>) and the dotted capital I (\<open>i\<close> and a combining dot); other non-ASCII
  characters are kept.
\<close>

fun to_lowercase :: "string \<Rightarrow> string" where
  "to_lowercase [] = []"
| "to_lowercase (c # cs) =
     (if map of_char (take 3 (c # cs)) = [0xE2, 0x84, 0xAA :: nat]
      then CHR ''k'' # to_lowercase (drop 2 cs)
      else if map of_char (take 2 (c # cs)) = [0xC4, 0xB0 :: nat]
      then map char_of [0x69, 0xCC, 0x87 :: nat] @ to_lowercase (drop 1 cs)
      else ascii_lower c # to_lowercase cs)"

fun str_contains :: "string \<Rightarrow> string \<Rightarrow> bool" where
  "str_contains s pat =
     (prefix pat s \<or> (case s of [] \<Rightarrow> False | _ # s' \<Rightarrow> str_contains s' pat))"

declare str_contains.simps [simp del]

text \<open>\<open>s.split(c)\<close>: the pieces between the separators, at least one.\<close>

fun split_on :: "char \<Rightarrow> string \<Rightarrow> string list" where
  "split_on c [] = [[]]"
| "split_on c (x # xs) =
     (if x = c then [] # split_on c xs
      else case split_on c xs of [] \<Rightarrow> [[x]] | p # ps \<Rightarrow> (x # p) # ps)"

text \<open>\<open>s.split_once(c)\<close>: around the first separator, if there is one.\<close>

fun split_once :: "char \<Rightarrow> string \<Rightarrow> (string \<times> string) option" where
  "split_once c [] = None"
| "split_once c (x # xs) =
     (if x = c then Some ([], xs)
      else map_option (\<lambda>(a, b). (x # a, b)) (split_once c xs))"

definition trim_end_matches :: "char \<Rightarrow> string \<Rightarrow> string" where
  "trim_end_matches c s = rev (dropWhile ((=) c) (rev s))"

fun join_with :: "string \<Rightarrow> string list \<Rightarrow> string" where
  "join_with sep [] = []"
| "join_with sep [x] = x"
| "join_with sep (x # xs) = x @ sep @ join_with sep xs"

text \<open>\<open>strip_prefix\<close>.\<close>

definition strip_prefix :: "string \<Rightarrow> string \<Rightarrow> string option" where
  "strip_prefix p s = (if take (length p) s = p then Some (drop (length p) s) else None)"

lemma strip_prefix_eq: "strip_prefix p s = Some t \<longleftrightarrow> s = p @ t"
  by (auto simp: strip_prefix_def) (metis append_take_drop_id)

text \<open>
  \<open>s.trim()\<close> strips the characters with the Unicode property White_Space; these are their
  UTF-8 encodings (ASCII blanks, then U+0085, U+00A0, U+1680, U+2000 to U+200A, U+2028,
  U+2029, U+202F, U+205F and U+3000).
\<close>

definition whitespace :: "string list" where
  "whitespace =
     [[CHR 0x09], [CHR 0x0A], [CHR 0x0B], [CHR 0x0C], [CHR 0x0D], [CHR 0x20],
      [CHR 0xC2, CHR 0x85], [CHR 0xC2, CHR 0xA0], [CHR 0xE1, CHR 0x9A, CHR 0x80],
      [CHR 0xE2, CHR 0x80, CHR 0x80], [CHR 0xE2, CHR 0x80, CHR 0x81],
      [CHR 0xE2, CHR 0x80, CHR 0x82], [CHR 0xE2, CHR 0x80, CHR 0x83],
      [CHR 0xE2, CHR 0x80, CHR 0x84], [CHR 0xE2, CHR 0x80, CHR 0x85],
      [CHR 0xE2, CHR 0x80, CHR 0x86], [CHR 0xE2, CHR 0x80, CHR 0x87],
      [CHR 0xE2, CHR 0x80, CHR 0x88], [CHR 0xE2, CHR 0x80, CHR 0x89],
      [CHR 0xE2, CHR 0x80, CHR 0x8A], [CHR 0xE2, CHR 0x80, CHR 0xA8],
      [CHR 0xE2, CHR 0x80, CHR 0xA9], [CHR 0xE2, CHR 0x80, CHR 0xAF],
      [CHR 0xE2, CHR 0x81, CHR 0x9F], [CHR 0xE3, CHR 0x80, CHR 0x80]]"

definition leading_ws :: "string list \<Rightarrow> string \<Rightarrow> string option" where
  "leading_ws ws s = find (\<lambda>w. w \<noteq> [] \<and> prefix w s) ws"

lemma leading_ws_SomeD:
  "leading_ws ws s = Some w \<Longrightarrow> w \<in> set ws \<and> w \<noteq> [] \<and> prefix w s"
  by (auto simp: leading_ws_def find_Some_iff)

lemma leading_ws_None:
  "leading_ws ws s = None \<longleftrightarrow> (\<forall>w \<in> set ws. w \<noteq> [] \<longrightarrow> \<not> prefix w s)"
  by (auto simp: leading_ws_def find_None_iff)

lemma leading_ws_shorter:
  assumes "leading_ws ws s = Some w"
  shows "length (drop (length w) s) < length s"
  using leading_ws_SomeD [OF assms] by (cases s) auto

function strip_front :: "string list \<Rightarrow> string \<Rightarrow> string" where
  "strip_front ws s =
     (case leading_ws ws s of None \<Rightarrow> s | Some w \<Rightarrow> strip_front ws (drop (length w) s))"
  by pat_completeness auto
termination
  by (relation "measure (length o snd)") (simp_all add: leading_ws_shorter del: length_drop)

declare strip_front.simps [simp del]

definition trim_start :: "string \<Rightarrow> string" where
  "trim_start s = strip_front whitespace s"

definition trim_end :: "string \<Rightarrow> string" where
  "trim_end s = rev (strip_front (map rev whitespace) (rev s))"

definition trim :: "string \<Rightarrow> string" where
  "trim s = trim_start (trim_end s)"

lemma strip_front_suffix: "\<exists>u. s = u @ strip_front ws s"
proof (induction ws s rule: strip_front.induct)
  case (1 ws s)
  show ?case
  proof (cases "leading_ws ws s")
    case None
    then show ?thesis by (simp add: strip_front.simps [of ws s])
  next
    case (Some w)
    then obtain u where "drop (length w) s = u @ strip_front ws (drop (length w) s)"
      using "1.IH" by blast
    then have "s = (take (length w) s @ u) @ strip_front ws (drop (length w) s)"
      by (metis append.assoc append_take_drop_id)
    moreover from Some have "strip_front ws s = strip_front ws (drop (length w) s)"
      by (simp add: strip_front.simps [of ws s])
    ultimately show ?thesis by metis
  qed
qed

lemma strip_front_clean: "leading_ws ws (strip_front ws s) = None"
proof (induction ws s rule: strip_front.induct)
  case (1 ws s)
  then show ?case
    by (cases "leading_ws ws s") (simp_all add: strip_front.simps [of ws s])
qed

lemma strip_front_id: "leading_ws ws s = None \<Longrightarrow> strip_front ws s = s"
  by (simp add: strip_front.simps)

lemma trim_start_suffix: "suffix (trim_start s) s"
  unfolding trim_start_def suffix_def by (rule strip_front_suffix)

lemma trim_end_prefix: "prefix (trim_end s) s"
proof -
  obtain u where "rev s = u @ rev (trim_end s)"
    unfolding trim_end_def rev_rev_ident using strip_front_suffix by blast
  then have "s = trim_end s @ rev u" by (metis rev_append rev_rev_ident)
  then show ?thesis by (rule prefixI)
qed

text \<open>A trimmed string neither starts nor ends with white space.\<close>

lemma trim_clean:
  assumes "w \<in> set whitespace" "w \<noteq> []"
  shows "\<not> prefix w (trim s)" and "\<not> suffix w (trim s)"
proof -
  show "\<not> prefix w (trim s)"
    using strip_front_clean [of whitespace "trim_end s"] assms
    by (auto simp: trim_def trim_start_def leading_ws_None)
  have "leading_ws (map rev whitespace) (rev (trim_end s)) = None"
    by (simp add: trim_end_def strip_front_clean)
  then have no_end: "\<not> suffix w (trim_end s)"
    using assms by (auto simp: leading_ws_None suffix_to_prefix)
  have "suffix (trim s) (trim_end s)"
    by (simp add: trim_def trim_start_suffix)
  with no_end show "\<not> suffix w (trim s)"
    using suffix_order.trans by blast
qed

lemma trim_noop:
  assumes "list_all (\<lambda>w. hd w \<noteq> hd s \<and> last w \<noteq> last s) whitespace"
  shows "trim s = s"
proof (cases "s = []")
  case True
  then show ?thesis
    using trim_start_suffix [of "trim_end []"] trim_end_prefix [of "[]"] by (simp add: trim_def)
next
  case False
  have no: "\<not> prefix w s" "\<not> suffix w s" if "w \<in> set whitespace" "w \<noteq> []" for w
    using assms that False
    by (auto simp: list_all_iff prefix_def suffix_def)
  have "leading_ws (map rev whitespace) (rev s) = None"
    using no(2) by (auto simp: leading_ws_None suffix_to_prefix)
  then have "trim_end s = s" by (simp add: trim_end_def strip_front_id)
  moreover have "leading_ws whitespace s = None"
    using no(1) by (auto simp: leading_ws_None)
  then have "trim_start s = s" by (simp add: trim_start_def strip_front_id)
  ultimately show ?thesis by (simp add: trim_def)
qed

lemma trim_idem [str_simps]: "trim (trim s) = trim s"
proof -
  let ?t = "trim s"
  have "leading_ws (map rev whitespace) (rev ?t) = None"
    using trim_clean(2) by (fastforce simp: leading_ws_None suffix_to_prefix)
  then have e: "trim_end ?t = ?t"
    by (simp add: trim_end_def strip_front_id)
  have "leading_ws whitespace ?t = None"
    using trim_clean(1) by (auto simp: leading_ws_None)
  then have "trim_start ?t = ?t"
    by (simp add: trim_start_def strip_front_id)
  with e show ?thesis by (simp add: trim_def)
qed

lemma to_ascii_lowercase_Nil [simp]: "to_ascii_lowercase [] = []"
  by (simp add: to_ascii_lowercase_def)

lemma to_ascii_lowercase_append [str_simps]:
  "to_ascii_lowercase (s @ t) = to_ascii_lowercase s @ to_ascii_lowercase t"
  by (simp add: to_ascii_lowercase_def)

lemma length_to_ascii_lowercase [simp]: "length (to_ascii_lowercase s) = length s"
  by (simp add: to_ascii_lowercase_def)

lemma ascii_lower_idem [str_simps]: "ascii_lower (ascii_lower c) = ascii_lower c"
proof -
  have "(of_char c :: nat) < 256" by simp
  then show ?thesis by (auto simp: ascii_lower_def Let_def)
qed

lemma to_ascii_lowercase_idem [str_simps]:
  "to_ascii_lowercase (to_ascii_lowercase s) = to_ascii_lowercase s"
  by (simp add: to_ascii_lowercase_def ascii_lower_idem)

lemma eq_ignore_ascii_case_refl [simp]: "eq_ignore_ascii_case s s"
  by (simp add: eq_ignore_ascii_case_def)

lemma str_contains_sublist: "str_contains s pat \<longleftrightarrow> sublist pat s"
proof (induction s)
  case Nil
  then show ?case by (simp add: str_contains.simps)
next
  case (Cons c s)
  then show ?case
    by (simp add: str_contains.simps [of "c # s"] sublist_Cons_right)
qed

lemma split_on_nonempty [simp]: "split_on c s \<noteq> []"
  by (induction c s rule: split_on.induct) (auto split: list.splits)

lemma suffix_single: "suffix [c] s \<longleftrightarrow> s \<noteq> [] \<and> last s = c"
  by (cases s rule: rev_cases) (auto simp: suffix_def)

lemma split_on_append: "split_on c (s @ c # t) = split_on c s @ split_on c t"
  by (induction s) (auto split: list.split)

lemma split_on_single: "c \<notin> set s \<Longrightarrow> split_on c s = [s]"
  by (induction s) auto

lemma split_on_no_sep: "p \<in> set (split_on c s) \<Longrightarrow> c \<notin> set p"
proof (induction c s arbitrary: p rule: split_on.induct)
  case (2 c x xs)
  then show ?case
    by (cases "split_on c xs") (auto split: if_splits)
qed simp

lemma trim_end_matches_no_end: "trim_end_matches c s = [] \<or> last (trim_end_matches c s) \<noteq> c"
proof -
  let ?d = "dropWhile ((=) c) (rev s)"
  have "?d = [] \<or> hd ?d \<noteq> c"
    using hd_dropWhile [of "(=) c" "rev s"] by metis
  then show ?thesis
    by (auto simp: trim_end_matches_def last_rev)
qed

lemma trim_end_matches_idem [str_simps]:
  "trim_end_matches c (trim_end_matches c s) = trim_end_matches c s"
  by (simp add: trim_end_matches_def)

lemma trim_end_matches_id:
  "s = [] \<or> last s \<noteq> c \<Longrightarrow> trim_end_matches c s = s"
proof -
  assume h: "s = [] \<or> last s \<noteq> c"
  have "dropWhile ((=) c) (rev s) = rev s"
    using h by (cases "rev s") (auto simp: last_conv_nth hd_rev [symmetric] simp flip: hd_rev)
  then show ?thesis by (simp add: trim_end_matches_def)
qed

section \<open>Characters\<close>

text \<open>The UTF-8 encoding of a character.\<close>

definition utf8_encode :: "nat \<Rightarrow> string" where
  "utf8_encode n = map char_of
     (if n < 0x80 then [n]
      else if n < 0x800 then [0xC0 + n div 0x40, 0x80 + n mod 0x40]
      else if n < 0x10000 then [0xE0 + n div 0x1000, 0x80 + n div 0x40 mod 0x40, 0x80 + n mod 0x40]
      else [0xF0 + n div 0x40000, 0x80 + n div 0x1000 mod 0x40, 0x80 + n div 0x40 mod 0x40, 0x80 + n mod 0x40])"

text \<open>\<open>ch.len_utf8()\<close>, from the first byte of the character.\<close>

definition utf8_len :: "char \<Rightarrow> nat" where
  "utf8_len c = (let n = of_char c :: nat in if n < 0x80 then 1 else if n < 0xE0 then 2 else if n < 0xF0 then 3 else 4)"

text \<open>\<open>s.chars()\<close>, each character as its bytes.\<close>

function utf8_chars :: "string \<Rightarrow> string list" where
  "utf8_chars [] = []"
| "utf8_chars (b # bs) = (b # take (utf8_len b - 1) bs) # utf8_chars (drop (utf8_len b - 1) bs)"
  by pat_completeness auto
termination
  by (relation "measure length") auto

lemma concat_utf8_chars [simp]: "concat (utf8_chars s) = s"
  by (induction s rule: utf8_chars.induct) auto

text \<open>
  \<open>String::from_utf8_lossy\<close>: each maximal ill-formed part becomes the replacement character.
  \<open>utf8_width\<close> is the length a first byte announces (0 for none), \<open>utf8_second\<close> the range of
  the byte after it.
\<close>

definition utf8_width :: "nat \<Rightarrow> nat" where
  "utf8_width n =
     (if n < 0x80 then 1 else if 0xC2 \<le> n \<and> n \<le> 0xDF then 2
      else if 0xE0 \<le> n \<and> n \<le> 0xEF then 3 else if 0xF0 \<le> n \<and> n \<le> 0xF4 then 4 else 0)"

definition utf8_cont :: "char \<Rightarrow> bool" where
  "utf8_cont c \<longleftrightarrow> (let m = of_char c :: nat in 0x80 \<le> m \<and> m \<le> 0xBF)"

definition utf8_second :: "nat \<Rightarrow> char \<Rightarrow> bool" where
  "utf8_second n c \<longleftrightarrow>
     (let m = of_char c :: nat
      in if n = 0xE0 then 0xA0 \<le> m \<and> m \<le> 0xBF else if n = 0xED then 0x80 \<le> m \<and> m \<le> 0x9F
         else if n = 0xF0 then 0x90 \<le> m \<and> m \<le> 0xBF else if n = 0xF4 then 0x80 \<le> m \<and> m \<le> 0x8F
         else 0x80 \<le> m \<and> m \<le> 0xBF)"

definition utf8_tail :: "nat \<Rightarrow> string \<Rightarrow> nat" where
  "utf8_tail n bs =
     (case bs of
        [] \<Rightarrow> 0
      | c # cs \<Rightarrow> if utf8_second n c then Suc (length (takeWhile utf8_cont (take (utf8_width n - 2) cs))) else 0)"

function from_utf8_lossy :: "string \<Rightarrow> string" where
  "from_utf8_lossy [] = []"
| "from_utf8_lossy (b # bs) =
     (let n = of_char b; k = utf8_tail n bs
      in if n < 0x80 then b # from_utf8_lossy bs
         else if utf8_width n = 0 then [CHR 0xEF, CHR 0xBF, CHR 0xBD] @ from_utf8_lossy bs
         else if k = utf8_width n - 1 then b # take k bs @ from_utf8_lossy (drop k bs)
         else [CHR 0xEF, CHR 0xBF, CHR 0xBD] @ from_utf8_lossy (drop k bs))"
  by pat_completeness auto
termination
  by (relation "measure length") auto

declare from_utf8_lossy.simps [simp del]

lemma from_utf8_lossy_ascii:
  "list_all (\<lambda>c. (of_char c :: nat) < 0x80) s \<Longrightarrow> from_utf8_lossy s = s"
  by (induction s) (simp_all add: from_utf8_lossy.simps)

section \<open>Numbers as text\<close>

definition digit_char :: "nat \<Rightarrow> char" where
  "digit_char d = char_of (48 + d)"

text \<open>\<open>char::to_digit(radix)\<close> for a radix up to 16.\<close>

definition to_digit :: "nat \<Rightarrow> char \<Rightarrow> nat option" where
  "to_digit radix c =
     (let n = of_char c :: nat;
          d = (if 48 \<le> n \<and> n \<le> 57 then Some (n - 48)
               else if 97 \<le> n \<and> n \<le> 102 then Some (n - 87)
               else if 65 \<le> n \<and> n \<le> 70 then Some (n - 55) else None)
      in case d of Some v \<Rightarrow> if v < radix then Some v else None | None \<Rightarrow> None)"

definition is_digit :: "nat \<Rightarrow> char \<Rightarrow> bool" where
  "is_digit radix c \<longleftrightarrow> to_digit radix c \<noteq> None"

definition digits_value :: "nat \<Rightarrow> string \<Rightarrow> nat" where
  "digits_value radix s = foldl (\<lambda>acc c. acc * radix + the (to_digit radix c)) 0 s"

text \<open>\<open>Display\<close> of an unsigned integer, and its lower-case hexadecimal form.\<close>

fun show_nat :: "nat \<Rightarrow> string" where
  "show_nat n =
     (if n < 10 then [digit_char n] else show_nat (n div 10) @ [digit_char (n mod 10)])"

declare show_nat.simps [simp del]

definition hex_char :: "nat \<Rightarrow> char" where
  "hex_char d = (if d < 10 then char_of (48 + d) else char_of (87 + d))"

fun show_hex :: "nat \<Rightarrow> string" where
  "show_hex n =
     (if n < 16 then [hex_char n] else show_hex (n div 16) @ [hex_char (n mod 16)])"

declare show_hex.simps [simp del]

text \<open>
  \<open>str::parse\<close> for an unsigned integer type with the given maximum: an optional plus sign,
  then one or more decimal digits.
\<close>

definition parse_uint :: "nat \<Rightarrow> string \<Rightarrow> nat option" where
  "parse_uint maxv s =
     (let body = (if length s > 1 \<and> hd s = CHR ''+'' then tl s else s)
      in if body \<noteq> [] \<and> list_all (is_digit 10) body \<and> digits_value 10 body \<le> maxv
         then Some (digits_value 10 body) else None)"

lemma of_char_digit_char [simp]: "d < 10 \<Longrightarrow> (of_char (digit_char d) :: nat) = 48 + d"
  by (simp add: digit_char_def)

lemma to_digit_digit_char [simp]: "d < 10 \<Longrightarrow> to_digit 10 (digit_char d) = Some d"
  by (simp add: to_digit_def Let_def)

lemma is_digit_digit_char [simp]: "d < 10 \<Longrightarrow> is_digit 10 (digit_char d)"
  by (simp add: is_digit_def)

lemma digit_chars [simp]:
  "digit_char 0 = CHR ''0''" "digit_char 1 = CHR ''1''" "digit_char (Suc 0) = CHR ''1''"
  "digit_char 2 = CHR ''2''" "digit_char 3 = CHR ''3''" "digit_char 4 = CHR ''4''"
  "digit_char 5 = CHR ''5''" "digit_char 6 = CHR ''6''" "digit_char 7 = CHR ''7''"
  "digit_char 8 = CHR ''8''" "digit_char 9 = CHR ''9''"
  by code_simp+

lemma digits_value_snoc:
  "digits_value r (s @ [c]) = digits_value r s * r + the (to_digit r c)"
  by (simp add: digits_value_def)

lemma show_nat_nonempty [simp]: "show_nat n \<noteq> []"
  by (subst show_nat.simps) simp

lemma show_nat_digits: "list_all (is_digit 10) (show_nat n)"
proof (induction n rule: show_nat.induct)
  case (1 n)
  then show ?case by (cases "n < 10") (simp_all add: show_nat.simps [of n])
qed

lemma show_nat_value: "digits_value 10 (show_nat n) = n"
proof (induction n rule: show_nat.induct)
  case (1 n)
  then show ?case
    by (cases "n < 10")
      (simp_all add: show_nat.simps [of n] digits_value_snoc,
       simp add: digits_value_def)
qed

lemma show_nat_no_leading_zero: "1 < length (show_nat n) \<Longrightarrow> hd (show_nat n) \<noteq> digit_char 0"
proof (induction n rule: show_nat.induct)
  case (1 n)
  show ?case
  proof (cases "n < 10")
    case True
    with "1.prems" show ?thesis by (simp add: show_nat.simps [of n])
  next
    case False
    have hd: "hd (show_nat n) = hd (show_nat (n div 10))"
      using False by (simp add: show_nat.simps [of n])
    show ?thesis
    proof (cases "n div 10 < 10")
      case True
      with False have "0 < n div 10" by simp
      then have "(of_char (digit_char (n div 10)) :: nat) \<noteq> of_char (digit_char 0)"
        using True by simp
      then have "digit_char (n div 10) \<noteq> digit_char 0" by metis
      then show ?thesis using hd True by (simp add: show_nat.simps [of "n div 10"])
    next
      case big: False
      then have "1 < length (show_nat (n div 10))"
        by (subst show_nat.simps) (simp add: Suc_le_eq)
      then show ?thesis using "1.IH" [OF False] hd by simp
    qed
  qed
qed

lemma length_show_nat_le: "n < 10 ^ k \<Longrightarrow> 0 < k \<Longrightarrow> length (show_nat n) \<le> k"
proof (induction k arbitrary: n)
  case (Suc k)
  show ?case
  proof (cases "n < 10")
    case True
    then show ?thesis by (simp add: show_nat.simps [of n])
  next
    case False
    then have "0 < k" using Suc.prems by (cases k) auto
    moreover have "n div 10 < 10 ^ k" using Suc.prems by auto
    ultimately show ?thesis using Suc.IH [of "n div 10"] False
      by (simp add: show_nat.simps [of n])
  qed
qed simp

lemma hd_show_nat_plus: "hd (show_nat n) \<noteq> CHR ''+''"
proof -
  have "is_digit 10 (hd (show_nat n))"
    using show_nat_digits [of n] by (cases "show_nat n") auto
  then show ?thesis by (auto simp: is_digit_def to_digit_def)
qed

lemma parse_show_nat: "n \<le> maxv \<Longrightarrow> parse_uint maxv (show_nat n) = Some n"
  using show_nat_digits [of n] hd_show_nat_plus [of n]
  by (simp add: parse_uint_def show_nat_value)

text \<open>\<open>is_char_boundary\<close>: the ends, and every byte that does not continue a character.\<close>

definition is_char_boundary :: "string \<Rightarrow> nat \<Rightarrow> bool" where
  "is_char_boundary s i \<longleftrightarrow>
     i = 0 \<or> i = length s \<or> (i < length s \<and> \<not> (0x80 \<le> (of_char (s ! i) :: nat) \<and> (of_char (s ! i) :: nat) < 0xC0))"

section \<open>Upper case\<close>

text \<open>
  \<open>to_uppercase\<close> (Unicode), as far as a search for an ASCII word can see: the non-ASCII letters
  whose upper case contains an ASCII letter, with its UTF-8 bytes; the others are kept. These are
  sharp s, n with apostrophe, j with caron, dotless i, long s, h, t, w, y and a with a mark, and
  the ligatures ff, fi, fl, ffi, ffl and the two of s and t.
\<close>

definition special_upper :: "(nat list \<times> nat list) list" where
  "special_upper =
     [([0xC3, 0x9F], [0x53, 0x53]), ([0xC5, 0x89], [0xCA, 0xBC, 0x4E]), ([0xC7, 0xB0], [0x4A, 0xCC, 0x8C]),
      ([0xC4, 0xB1], [0x49]), ([0xC5, 0xBF], [0x53]),
      ([0xE1, 0xBA, 0x96], [0x48, 0xCC, 0xB1]), ([0xE1, 0xBA, 0x97], [0x54, 0xCC, 0x88]),
      ([0xE1, 0xBA, 0x98], [0x57, 0xCC, 0x8A]), ([0xE1, 0xBA, 0x99], [0x59, 0xCC, 0x8A]),
      ([0xE1, 0xBA, 0x9A], [0x41, 0xCA, 0xBE]),
      ([0xEF, 0xAC, 0x80], [0x46, 0x46]), ([0xEF, 0xAC, 0x81], [0x46, 0x49]), ([0xEF, 0xAC, 0x82], [0x46, 0x4C]),
      ([0xEF, 0xAC, 0x83], [0x46, 0x46, 0x49]), ([0xEF, 0xAC, 0x84], [0x46, 0x46, 0x4C]),
      ([0xEF, 0xAC, 0x85], [0x53, 0x54]), ([0xEF, 0xAC, 0x86], [0x53, 0x54])]"

definition upper_char :: "char \<Rightarrow> char" where
  "upper_char c = (let n = of_char c :: nat in if 97 \<le> n \<and> n \<le> 122 then char_of (n - 32) else c)"

function str_upper :: "string \<Rightarrow> string" where
  "str_upper [] = []"
| "str_upper (c # cs) =
     (case List.find (\<lambda>(low, up). map of_char (take (length low) (c # cs)) = low) special_upper of
        Some (low, up) \<Rightarrow> map char_of up @ str_upper (drop (length low - 1) cs)
      | None \<Rightarrow> upper_char c # str_upper cs)"
  by pat_completeness auto
termination by (relation "measure length") auto

end
