(* ===== verification/Interfaces.thy ===== *)
theory Interfaces
  imports Prelude
begin

text \<open>
  The model of \<open>dashmap::DashMap\<close> and the interfaces the components share. A concurrent
  map is an association list without duplicate keys: its order stands for the order in
  which the map happens to iterate, so a fact proved for every list holds for every
  iteration order. The locales state what a client may rely on: a keyed store
  (\<open>keyed_store\<close>), a machine with an invariant (\<open>invariant_machine\<close>), and a manager of
  independent per-key machines (\<open>keyed_machine\<close>), which the circuit breakers, the rate
  limiter and the sessions instantiate.
\<close>

section \<open>Concurrent maps\<close>

type_synonym ('k, 'v) dashmap = "('k \<times> 'v) list"

abbreviation dm_get :: "('k, 'v) dashmap \<Rightarrow> 'k \<Rightarrow> 'v option" where
  "dm_get \<equiv> map_of"

fun dm_insert :: "'k \<Rightarrow> 'v \<Rightarrow> ('k, 'v) dashmap \<Rightarrow> ('k, 'v) dashmap" where
  "dm_insert k v [] = [(k, v)]"
| "dm_insert k v ((k', v') # m) =
     (if k' = k then (k, v) # m else (k', v') # dm_insert k v m)"

definition dm_remove :: "'k \<Rightarrow> ('k, 'v) dashmap \<Rightarrow> ('k, 'v) dashmap" where
  "dm_remove k m = filter (\<lambda>(k', _). k' \<noteq> k) m"

definition dm_retain :: "('k \<Rightarrow> 'v \<Rightarrow> bool) \<Rightarrow> ('k, 'v) dashmap \<Rightarrow> ('k, 'v) dashmap" where
  "dm_retain P m = filter (\<lambda>(k, v). P k v) m"

text \<open>\<open>get_mut\<close> followed by a mutation of the entry.\<close>

definition dm_update :: "'k \<Rightarrow> ('v \<Rightarrow> 'v) \<Rightarrow> ('k, 'v) dashmap \<Rightarrow> ('k, 'v) dashmap" where
  "dm_update k f m = map (\<lambda>(k', v). (k', if k' = k then f v else v)) m"

text \<open>\<open>entry(k).or_insert(d)\<close>: the entry that is there, or \<open>d\<close>.\<close>

definition dm_or_insert :: "('k, 'v) dashmap \<Rightarrow> 'k \<Rightarrow> 'v \<Rightarrow> 'v" where
  "dm_or_insert m k d = (case dm_get m k of Some v \<Rightarrow> v | None \<Rightarrow> d)"

definition dm_wf :: "('k, 'v) dashmap \<Rightarrow> bool" where
  "dm_wf m \<longleftrightarrow> distinct (map fst m)"

lemma dm_wf_Nil [simp]: "dm_wf []"
  by (simp add: dm_wf_def)

lemma dm_get_insert [dashmap_simps]:
  "dm_get (dm_insert k v m) k' = (if k = k' then Some v else dm_get m k')"
  by (induction k v m rule: dm_insert.induct) auto

lemma keys_insert [dashmap_simps]: "fst ` set (dm_insert k v m) = insert k (fst ` set m)"
  by (induction k v m rule: dm_insert.induct) auto

lemma dm_wf_insert [dashmap_simps]: "dm_wf m \<Longrightarrow> dm_wf (dm_insert k v m)"
proof (induction k v m rule: dm_insert.induct)
  case (2 k v k' v' m)
  then show ?case by (auto simp: dm_wf_def keys_insert)
qed (simp add: dm_wf_def)

lemma dm_get_remove [dashmap_simps]:
  "dm_get (dm_remove k m) k' = (if k = k' then None else dm_get m k')"
  by (induction m) (auto simp: dm_remove_def)

lemma distinct_filter_fst: "dm_wf m \<Longrightarrow> dm_wf (filter P m)"
  by (induction m) (auto simp: dm_wf_def)

lemma dm_wf_remove [dashmap_simps]: "dm_wf m \<Longrightarrow> dm_wf (dm_remove k m)"
  by (simp add: dm_remove_def distinct_filter_fst)

lemma dm_wf_retain [dashmap_simps]: "dm_wf m \<Longrightarrow> dm_wf (dm_retain P m)"
  by (simp add: dm_retain_def distinct_filter_fst)

lemma dm_get_None_iff: "dm_get m k = None \<longleftrightarrow> k \<notin> fst ` set m"
  by (rule map_of_eq_None_iff)

lemma dm_get_mem: "dm_wf m \<Longrightarrow> dm_get m k = Some v \<longleftrightarrow> (k, v) \<in> set m"
  by (simp add: dm_wf_def)

lemma dm_get_retain [dashmap_simps]:
  assumes "dm_wf m"
  shows "dm_get (dm_retain P m) k =
    (case dm_get m k of None \<Rightarrow> None | Some v \<Rightarrow> if P k v then Some v else None)"
proof -
  have wf: "dm_wf (dm_retain P m)" using assms by (rule dm_wf_retain)
  have iff: "dm_get (dm_retain P m) k = Some v \<longleftrightarrow> dm_get m k = Some v \<and> P k v" for v
    using dm_get_mem [OF wf] dm_get_mem [OF assms] by (simp add: dm_retain_def)
  show ?thesis
  proof (cases "dm_get (dm_retain P m) k")
    case None
    then show ?thesis using iff by (cases "dm_get m k") auto
  next
    case (Some v)
    then show ?thesis using iff by simp
  qed
qed

lemma dm_get_update [dashmap_simps]:
  "dm_get (dm_update k f m) k' =
     (if k' = k then map_option f (dm_get m k) else dm_get m k')"
  by (induction m) (auto simp: dm_update_def)

lemma map_fst_update [dashmap_simps]: "map fst (dm_update k f m) = map fst m"
  by (simp add: dm_update_def case_prod_unfold comp_def)

lemma dm_wf_update [dashmap_simps]: "dm_wf (dm_update k f m) = dm_wf m"
  by (simp add: dm_wf_def map_fst_update)

lemma length_update [dashmap_simps]: "length (dm_update k f m) = length m"
  by (simp add: dm_update_def)

lemma dm_or_insert_insert [dashmap_simps]:
  "dm_or_insert (dm_insert k v m) k' d = (if k = k' then v else dm_or_insert m k' d)"
  by (simp add: dm_or_insert_def dm_get_insert)

lemma dm_or_insert_remove [dashmap_simps]:
  "dm_or_insert (dm_remove k m) k' d = (if k = k' then d else dm_or_insert m k' d)"
  by (simp add: dm_or_insert_def dm_get_remove)

lemma dm_or_insert_update:
  "f d = d \<Longrightarrow>
   dm_or_insert (dm_update k f m) k' d = (if k' = k then f (dm_or_insert m k' d) else dm_or_insert m k' d)"
  by (simp add: dm_or_insert_def dm_get_update split: option.split)

lemma dm_remove_absent: "dm_get m k = None \<Longrightarrow> dm_remove k m = m"
  by (force simp: dm_remove_def dm_get_None_iff intro!: filter_True)

lemma length_remove_less: "dm_get m k = Some v \<Longrightarrow> length (dm_remove k m) < length m"
  unfolding dm_remove_def by (rule length_filter_less [of "(k, v)"]) (auto dest: map_of_SomeD)

lemma length_remove_le: "length (dm_remove k m) \<le> length m"
  by (simp add: dm_remove_def)

lemma length_retain_le: "length (dm_retain P m) \<le> length m"
  by (simp add: dm_retain_def)

lemma length_insert:
  "length (dm_insert k v m) = (if dm_get m k = None then Suc (length m) else length m)"
  by (induction k v m rule: dm_insert.induct) (auto split: if_splits)

text \<open>Lookups do not see the iteration order.\<close>

lemma dm_get_order:
  assumes "dm_wf m" "mset m = mset m'"
  shows "dm_get m = dm_get m'"
proof -
  have "mset (map fst m) = mset (map fst m')" using assms(2) by simp
  then have wf': "dm_wf m'" using assms(1)
    unfolding dm_wf_def by (metis mset_eq_imp_distinct_iff)
  have "set m = set m'" using assms(2) by (rule mset_eq_setD)
  then have "dm_get m k = Some v \<longleftrightarrow> dm_get m' k = Some v" for k v
    using dm_get_mem [OF assms(1)] dm_get_mem [OF wf'] by simp
  then show ?thesis by (metis ext option.exhaust)
qed

section \<open>Keyed stores\<close>

locale keyed_store =
  fixes get :: "'m \<Rightarrow> 'k \<Rightarrow> 'v option"
    and ins :: "'k \<Rightarrow> 'v \<Rightarrow> 'm \<Rightarrow> 'm"
    and rem :: "'k \<Rightarrow> 'm \<Rightarrow> 'm"
    and upd :: "'k \<Rightarrow> ('v \<Rightarrow> 'v) \<Rightarrow> 'm \<Rightarrow> 'm"
    and wf :: "'m \<Rightarrow> bool"
  assumes get_ins: "get (ins k v m) k' = (if k = k' then Some v else get m k')"
    and get_rem: "get (rem k m) k' = (if k = k' then None else get m k')"
    and get_upd: "get (upd k f m) k' = (if k' = k then map_option f (get m k) else get m k')"
    and wf_ins: "wf m \<Longrightarrow> wf (ins k v m)"
    and wf_rem: "wf m \<Longrightarrow> wf (rem k m)"
    and wf_upd: "wf m \<Longrightarrow> wf (upd k f m)"
begin

text \<open>Loops over a list of keys: what is left, and what is not touched.\<close>

lemma get_fold_rem: "get (fold rem ks m) k = (if k \<in> set ks then None else get m k)"
  by (induction ks arbitrary: m) (auto simp: get_rem)

lemma get_fold_upd_other:
  "k \<notin> set ks \<Longrightarrow> get (fold (\<lambda>k'. upd k' f) ks m) k = get m k"
  by (induction ks arbitrary: m) (auto simp: get_upd)

lemma get_fold_upd:
  assumes idem: "\<And>v. f (f v) = f v"
  shows "get (fold (\<lambda>k'. upd k' f) ks m) k =
    (if k \<in> set ks then map_option f (get m k) else get m k)"
proof (induction ks arbitrary: m)
  case (Cons k' ks)
  have "map_option f (map_option f x) = map_option f x" for x
    by (cases x) (simp_all add: idem)
  with Cons show ?case by (auto simp: get_upd)
qed simp

lemma wf_fold_rem: "wf m \<Longrightarrow> wf (fold rem ks m)"
  by (induction ks arbitrary: m) (auto simp: wf_rem)

lemma wf_fold_upd: "wf m \<Longrightarrow> wf (fold (\<lambda>k'. upd k' f) ks m)"
  by (induction ks arbitrary: m) (auto simp: wf_upd)

end

interpretation dm: keyed_store dm_get dm_insert dm_remove dm_update dm_wf
  by unfold_locales (simp_all add: dashmap_simps)

section \<open>Machines with an invariant\<close>

locale invariant_machine =
  fixes step :: "'e \<Rightarrow> 's \<Rightarrow> 's"
    and invar :: "'s \<Rightarrow> bool"
  assumes step_invar: "invar s \<Longrightarrow> invar (step e s)"
begin

lemma run_invar: "invar s \<Longrightarrow> invar (fold step es s)"
  by (induction es arbitrary: s) (auto intro: step_invar)

lemma trace_invar:
  assumes "invar s" "es = pre @ post"
  shows "invar (fold step pre s)"
  using assms(1) by (rule run_invar)

end

section \<open>Managers of independent per-key machines\<close>

text \<open>
  One state holds the state of many keys (a circuit breaker per service, a bucket per
  client address). \<open>view s k\<close> is what the state holds for \<open>k\<close>, \<open>out e s\<close> what the caller
  of event \<open>e\<close> sees. The two laws are the unwinding conditions of a noninterference
  argument: an event leaves the views of other keys alone, and its effect on its own view
  and its output depend on that view only.
\<close>

locale keyed_machine =
  fixes step :: "'e \<Rightarrow> 's \<Rightarrow> 's"
    and out :: "'e \<Rightarrow> 's \<Rightarrow> 'o"
    and key :: "'e \<Rightarrow> 'k"
    and view :: "'s \<Rightarrow> 'k \<Rightarrow> 'v"
  assumes view_other: "key e \<noteq> k \<Longrightarrow> view (step e s) k = view s k"
    and view_own: "view s (key e) = view t (key e) \<Longrightarrow>
      view (step e s) (key e) = view (step e t) (key e)"
    and out_own: "view s (key e) = view t (key e) \<Longrightarrow> out e s = out e t"
begin

lemma view_congruent: "view s k = view t k \<Longrightarrow> view (step e s) k = view (step e t) k"
  by (cases "key e = k") (auto simp: view_other intro: view_own)

lemma run_congruent: "view s k = view t k \<Longrightarrow> view (fold step es s) k = view (fold step es t) k"
proof (induction es arbitrary: s t)
  case (Cons e es)
  from Cons.prems have "view (step e s) k = view (step e t) k" by (rule view_congruent)
  then have "view (fold step es (step e s)) k = view (fold step es (step e t)) k"
    by (rule Cons.IH)
  then show ?case by simp
qed simp

text \<open>What a key sees of a run is its own events, whatever the others do in between.\<close>

lemma run_purge: "view (fold step es s) k = view (fold step (filter (\<lambda>e. key e = k) es) s) k"
proof (induction es arbitrary: s)
  case (Cons e es)
  show ?case
  proof (cases "key e = k")
    case True
    with Cons show ?thesis by simp
  next
    case False
    then have "view (step e s) k = view s k" by (rule view_other)
    then have "view (fold step (filter (\<lambda>e. key e = k) es) (step e s)) k
        = view (fold step (filter (\<lambda>e. key e = k) es) s) k"
      by (rule run_congruent)
    with False Cons [of "step e s"] show ?thesis by simp
  qed
qed simp

lemma out_purge:
  "out e (fold step es s) = out e (fold step (filter (\<lambda>d. key d = key e) es) s)"
  by (rule out_own) (rule run_purge)

lemma run_frame: "\<forall>e \<in> set es. key e \<noteq> k \<Longrightarrow> view (fold step es s) k = view s k"
  by (induction es arbitrary: s) (auto simp: view_other)

end

end
