(* ===== verification/Circuit_Breaker.thy ===== *)
theory Circuit_Breaker
  imports Interfaces
begin

text \<open>
  The per-service circuit breaker of \<open>src/gateway/circuit_breaker.rs\<close>. A manager holds one
  entry per service; \<open>allow_request\<close>, \<open>record_success\<close> and \<open>record_failure\<close> run under
  the entry's shard lock and are one atomic step each. The clock reading \<open>now\<close> is an
  argument. The step functions on one entry come first, then the manager, its events, the
  invariant, and what runs of events guarantee: a bound on half-open probes, the failure
  threshold, and independence of services.
\<close>

section \<open>State\<close>

datatype circuit_state = Closed | Open | HalfOpen

definition circuit_state_fmt :: "circuit_state \<Rightarrow> string" where
  "circuit_state_fmt s =
     (case s of Closed \<Rightarrow> ''CLOSED'' | Open \<Rightarrow> ''OPEN'' | HalfOpen \<Rightarrow> ''HALF_OPEN'')"

record cb_entry =
  cb_state :: circuit_state
  failure_count :: nat
  success_count_half_open :: nat
  in_flight_probes :: nat
  last_failure_time :: "instant option"
  last_state_change :: instant

record cb_config =
  failure_threshold :: nat
  reset_timeout_secs :: nat
  half_open_max_requests :: nat

record cb_manager =
  breakers :: "(uuid, cb_entry) dashmap"
  cb_cfg :: cb_config

definition cb_new :: "nat \<Rightarrow> nat \<Rightarrow> nat \<Rightarrow> cb_manager" where
  "cb_new threshold reset half_open =
     \<lparr>breakers = [],
      cb_cfg = \<lparr>failure_threshold = max threshold 1, reset_timeout_secs = reset,
                half_open_max_requests = max half_open 1\<rparr>\<rparr>"

definition cb_update_config :: "nat \<Rightarrow> nat \<Rightarrow> nat \<Rightarrow> cb_manager \<Rightarrow> cb_manager" where
  "cb_update_config threshold reset half_open m =
     m\<lparr>cb_cfg := \<lparr>failure_threshold = max threshold 1, reset_timeout_secs = reset,
                   half_open_max_requests = max half_open 1\<rparr>\<rparr>"

definition cb_snapshot_config :: "cb_manager \<Rightarrow> nat \<times> nat \<times> nat" where
  "cb_snapshot_config m =
     (failure_threshold (cb_cfg m), reset_timeout_secs (cb_cfg m),
      half_open_max_requests (cb_cfg m))"

definition cb_entry_init :: "instant \<Rightarrow> cb_entry" where
  "cb_entry_init now =
     \<lparr>cb_state = Closed, failure_count = 0, success_count_half_open = 0,
      in_flight_probes = 0, last_failure_time = None, last_state_change = now\<rparr>"

section \<open>One entry\<close>

text \<open>The answer of \<open>allow_request\<close> is a \<open>Result<(), CircuitState>\<close>: \<open>Inl\<close> rejects.\<close>

definition allow_entry ::
  "cb_config \<Rightarrow> instant \<Rightarrow> cb_entry \<Rightarrow> cb_entry \<times> (circuit_state + unit)" where
  "allow_entry cfg now e =
     (let reset_timeout = from_secs (reset_timeout_secs cfg);
          half_open_max = max (half_open_max_requests cfg) 1
      in case cb_state e of
           Closed \<Rightarrow> (e, Inr ())
         | Open \<Rightarrow>
             (case last_failure_time e of
                Some last_failure \<Rightarrow>
                  if reset_timeout \<le> now - last_failure
                  then (e\<lparr>cb_state := HalfOpen, success_count_half_open := 0,
                          in_flight_probes := 1, last_state_change := now\<rparr>, Inr ())
                  else (e, Inl Open)
              | None \<Rightarrow> (e, Inl Open))
         | HalfOpen \<Rightarrow>
             if in_flight_probes e < half_open_max
             then (e\<lparr>in_flight_probes := sat_add32 (in_flight_probes e) 1\<rparr>, Inr ())
             else (e, Inl HalfOpen))"

definition success_entry :: "cb_config \<Rightarrow> instant \<Rightarrow> cb_entry \<Rightarrow> cb_entry" where
  "success_entry cfg now e =
     (let half_open_max = max (half_open_max_requests cfg) 1
      in case cb_state e of
           HalfOpen \<Rightarrow>
             (let e1 = e\<lparr>success_count_half_open := sat_add32 (success_count_half_open e) 1,
                         in_flight_probes := in_flight_probes e - 1\<rparr>
              in if half_open_max \<le> success_count_half_open e1
                 then e1\<lparr>cb_state := Closed, failure_count := 0, in_flight_probes := 0,
                         last_state_change := now\<rparr>
                 else e1)
         | Closed \<Rightarrow> e
         | Open \<Rightarrow> e)"

definition failure_entry :: "cb_config \<Rightarrow> instant \<Rightarrow> cb_entry \<Rightarrow> cb_entry" where
  "failure_entry cfg now e =
     (let threshold = max (failure_threshold cfg) 1;
          e1 = e\<lparr>failure_count := sat_add32 (failure_count e) 1, last_failure_time := Some now\<rparr>
      in case cb_state e1 of
           Closed \<Rightarrow>
             if threshold \<le> failure_count e1
             then e1\<lparr>cb_state := Open, last_state_change := now\<rparr> else e1
         | HalfOpen \<Rightarrow>
             e1\<lparr>cb_state := Open, in_flight_probes := 0, success_count_half_open := 0,
                last_state_change := now\<rparr>
         | Open \<Rightarrow> e1)"

section \<open>The manager\<close>

definition allow_request ::
  "instant \<Rightarrow> uuid \<Rightarrow> cb_manager \<Rightarrow> cb_manager \<times> (circuit_state + unit)" where
  "allow_request now sid m =
     (let entry = dm_or_insert (breakers m) sid (cb_entry_init now);
          (entry', answer) = allow_entry (cb_cfg m) now entry
      in (m\<lparr>breakers := dm_insert sid entry' (breakers m)\<rparr>, answer))"

definition record_success :: "instant \<Rightarrow> uuid \<Rightarrow> cb_manager \<Rightarrow> cb_manager" where
  "record_success now sid m =
     m\<lparr>breakers := dm_update sid (success_entry (cb_cfg m) now) (breakers m)\<rparr>"

definition record_failure :: "instant \<Rightarrow> uuid \<Rightarrow> cb_manager \<Rightarrow> cb_manager" where
  "record_failure now sid m =
     (let entry = dm_or_insert (breakers m) sid (cb_entry_init now)
      in m\<lparr>breakers := dm_insert sid (failure_entry (cb_cfg m) now entry) (breakers m)\<rparr>)"

definition get_state :: "uuid \<Rightarrow> cb_manager \<Rightarrow> circuit_state" where
  "get_state sid m =
     (case dm_get (breakers m) sid of Some e \<Rightarrow> cb_state e | None \<Rightarrow> Closed)"

text \<open>The report is one row per breaker: service, state, failures and age in seconds.\<close>

definition cb_report :: "instant \<Rightarrow> cb_manager \<Rightarrow> (uuid \<times> string \<times> nat \<times> nat) list" where
  "cb_report now m =
     map (\<lambda>(sid, e). (sid, circuit_state_fmt (cb_state e), failure_count e,
                       (now - last_state_change e) div from_secs 1)) (breakers m)"

section \<open>Events\<close>

datatype cb_event = Allow instant uuid | Success instant uuid | Failure instant uuid

fun cb_step :: "cb_event \<Rightarrow> cb_manager \<Rightarrow> cb_manager" where
  "cb_step (Allow now sid) m = fst (allow_request now sid m)"
| "cb_step (Success now sid) m = record_success now sid m"
| "cb_step (Failure now sid) m = record_failure now sid m"

fun cb_out :: "cb_event \<Rightarrow> cb_manager \<Rightarrow> (circuit_state + unit) option" where
  "cb_out (Allow now sid) m = Some (snd (allow_request now sid m))"
| "cb_out _ m = None"

fun cb_key :: "cb_event \<Rightarrow> uuid" where
  "cb_key (Allow now sid) = sid"
| "cb_key (Success now sid) = sid"
| "cb_key (Failure now sid) = sid"

definition cb_view :: "cb_manager \<Rightarrow> uuid \<Rightarrow> cb_config \<times> cb_entry option" where
  "cb_view m sid = (cb_cfg m, dm_get (breakers m) sid)"

text \<open>The number of requests of one service a run lets through.\<close>

fun cb_admitted :: "uuid \<Rightarrow> cb_event list \<Rightarrow> cb_manager \<Rightarrow> nat" where
  "cb_admitted sid [] m = 0"
| "cb_admitted sid (e # es) m =
     (if cb_key e = sid \<and> cb_out e m = Some (Inr ()) then 1 else 0)
     + cb_admitted sid es (cb_step e m)"

lemmas cb_ops = allow_request_def record_success_def record_failure_def
lemmas cb_entry_ops = allow_entry_def success_entry_def failure_entry_def

lemma cb_cfg_step [simp]: "cb_cfg (cb_step e m) = cb_cfg m"
  by (cases e) (simp_all add: cb_ops Let_def case_prod_unfold)

lemma cb_cfg_run [simp]: "cb_cfg (fold cb_step es m) = cb_cfg m"
  by (induction es arbitrary: m) simp_all

text \<open>What one step does to the entries, in terms of the entry functions.\<close>

fun cb_entry_step :: "cb_config \<Rightarrow> cb_event \<Rightarrow> cb_entry option \<Rightarrow> cb_entry option" where
  "cb_entry_step cfg (Allow now _) eo =
     Some (fst (allow_entry cfg now (case eo of Some e \<Rightarrow> e | None \<Rightarrow> cb_entry_init now)))"
| "cb_entry_step cfg (Success now _) eo = map_option (success_entry cfg now) eo"
| "cb_entry_step cfg (Failure now _) eo =
     Some (failure_entry cfg now (case eo of Some e \<Rightarrow> e | None \<Rightarrow> cb_entry_init now))"

lemma breakers_step:
  "dm_get (breakers (cb_step e m)) k =
     (if cb_key e = k then cb_entry_step (cb_cfg m) e (dm_get (breakers m) k)
      else dm_get (breakers m) k)"
  by (cases e)
    (auto simp: cb_ops Let_def case_prod_unfold dashmap_simps dm_or_insert_def
          split: option.splits)

interpretation cb: keyed_machine cb_step cb_out cb_key cb_view
proof unfold_locales
  fix e :: cb_event and s t :: cb_manager
  assume v: "cb_view s (cb_key e) = cb_view t (cb_key e)"
  then show "cb_view (cb_step e s) (cb_key e) = cb_view (cb_step e t) (cb_key e)"
    by (simp add: cb_view_def breakers_step)
  from v show "cb_out e s = cb_out e t"
    by (cases e) (simp_all add: cb_view_def allow_request_def Let_def case_prod_unfold
        dm_or_insert_def)
qed (simp add: cb_view_def breakers_step)

section \<open>The invariant\<close>

definition cb_config_ok :: "cb_config \<Rightarrow> bool" where
  "cb_config_ok cfg \<longleftrightarrow>
     1 \<le> failure_threshold cfg \<and> failure_threshold cfg \<le> u32_max \<and>
     1 \<le> half_open_max_requests cfg \<and> half_open_max_requests cfg \<le> u32_max"

definition cb_entry_ok :: "cb_config \<Rightarrow> cb_entry \<Rightarrow> bool" where
  "cb_entry_ok cfg e \<longleftrightarrow>
     failure_count e \<le> u32_max \<and>
     (cb_state e = Closed \<longrightarrow> failure_count e < failure_threshold cfg \<and> in_flight_probes e = 0) \<and>
     (cb_state e = Open \<longrightarrow> last_failure_time e \<noteq> None \<and> in_flight_probes e = 0) \<and>
     (cb_state e = HalfOpen \<longrightarrow>
        in_flight_probes e \<le> half_open_max_requests cfg \<and>
        success_count_half_open e < half_open_max_requests cfg)"

definition cb_invar :: "cb_manager \<Rightarrow> bool" where
  "cb_invar m \<longleftrightarrow>
     cb_config_ok (cb_cfg m) \<and> dm_wf (breakers m) \<and>
     (\<forall>sid e. dm_get (breakers m) sid = Some e \<longrightarrow> cb_entry_ok (cb_cfg m) e)"

lemma cb_entry_init_ok: "cb_config_ok cfg \<Longrightarrow> cb_entry_ok cfg (cb_entry_init now)"
  by (simp add: cb_config_ok_def cb_entry_ok_def cb_entry_init_def)

lemma allow_entry_ok:
  assumes "cb_config_ok cfg" "cb_entry_ok cfg e"
  shows "cb_entry_ok cfg (fst (allow_entry cfg now e))"
  using assms
  by (auto simp: allow_entry_def cb_entry_ok_def cb_config_ok_def sat_add32_def Let_def
      split: circuit_state.splits option.splits)

lemma success_entry_ok:
  assumes "cb_config_ok cfg" "cb_entry_ok cfg e"
  shows "cb_entry_ok cfg (success_entry cfg now e)"
  using assms
  by (auto simp: success_entry_def cb_entry_ok_def cb_config_ok_def Let_def
      split: circuit_state.splits)

lemma failure_entry_ok:
  assumes "cb_config_ok cfg" "cb_entry_ok cfg e"
  shows "cb_entry_ok cfg (failure_entry cfg now e)"
  using assms
  by (auto simp: failure_entry_def cb_entry_ok_def cb_config_ok_def Let_def
      split: circuit_state.splits)

lemma cb_entry_step_ok:
  assumes "cb_config_ok cfg" "\<And>e. eo = Some e \<Longrightarrow> cb_entry_ok cfg e"
    and "cb_entry_step cfg ev eo = Some e'"
  shows "cb_entry_ok cfg e'"
  using assms
  by (cases ev; cases eo)
    (auto intro: allow_entry_ok success_entry_ok failure_entry_ok cb_entry_init_ok)

lemma breakers_step_wf: "dm_wf (breakers m) \<Longrightarrow> dm_wf (breakers (cb_step e m))"
  by (cases e) (simp_all add: cb_ops Let_def case_prod_unfold dashmap_simps)

lemma cb_step_invar: "cb_invar m \<Longrightarrow> cb_invar (cb_step e m)"
  unfolding cb_invar_def
  by (auto simp: breakers_step breakers_step_wf split: if_splits intro: cb_entry_step_ok)

interpretation cb_inv: invariant_machine cb_step cb_invar
  by unfold_locales (rule cb_step_invar)

lemma cb_new_invar:
  "threshold \<le> u32_max \<Longrightarrow> half_open \<le> u32_max \<Longrightarrow> cb_invar (cb_new threshold reset half_open)"
  by (auto simp: cb_invar_def cb_new_def cb_config_ok_def u32_max_def)

text \<open>
  In every state a fresh manager reaches by any sequence of allow, success and failure
  events, each open breaker knows when it failed last (so it can leave the open state), a
  closed one is below its failure threshold with no probe in flight, and a half-open one
  has at most \<open>half_open_max_requests\<close> probes in flight and has not yet seen enough
  successes to close.
\<close>

theorem cb_reachable_invariant:
  assumes "threshold \<le> u32_max" "half_open \<le> u32_max"
    and "dm_get (breakers (fold cb_step es (cb_new threshold reset half_open))) sid = Some e"
  shows "cb_entry_ok (cb_cfg (cb_new threshold reset half_open)) e"
proof -
  have "cb_invar (fold cb_step es (cb_new threshold reset half_open))"
    using assms(1,2) by (intro cb_inv.run_invar cb_new_invar)
  then show ?thesis using assms(3) by (auto simp: cb_invar_def)
qed

section \<open>Half-open probes\<close>

text \<open>The probes a run of one service's requests is granted.\<close>

definition allows_only :: "uuid \<Rightarrow> instant \<Rightarrow> cb_event list \<Rightarrow> bool" where
  "allows_only sid t es \<longleftrightarrow>
     (\<forall>e \<in> set es. cb_key e = sid \<longrightarrow> (\<exists>now. e = Allow now sid \<and> t \<le> now))"

definition requests_of :: "uuid \<Rightarrow> cb_event list \<Rightarrow> nat" where
  "requests_of sid es = length (filter (\<lambda>e. cb_key e = sid) es)"

lemma allows_only_Cons:
  "allows_only sid t (e # es) \<longleftrightarrow>
     (cb_key e = sid \<longrightarrow> (\<exists>now. e = Allow now sid \<and> t \<le> now)) \<and> allows_only sid t es"
  by (auto simp: allows_only_def)

lemma allow_answer:
  "snd (allow_request now sid m) =
     snd (allow_entry (cb_cfg m) now
       (case dm_get (breakers m) sid of Some e \<Rightarrow> e | None \<Rightarrow> cb_entry_init now))"
  by (simp add: allow_request_def Let_def case_prod_unfold dm_or_insert_def)

lemma half_open_admits:
  assumes "dm_get (breakers m) sid = Some e" "cb_state e = HalfOpen" "cb_config_ok (cb_cfg m)"
    and "in_flight_probes e \<le> half_open_max_requests (cb_cfg m)"
    and "allows_only sid t es"
  shows "cb_admitted sid es m =
    min (requests_of sid es) (half_open_max_requests (cb_cfg m) - in_flight_probes e)"
  using assms
proof (induction es arbitrary: m e)
  case Nil
  then show ?case by (simp add: requests_of_def)
next
  case (Cons ev es)
  let ?cfg = "cb_cfg m" and ?m = "cb_step ev m"
  have rest: "allows_only sid t es" and cfg: "cb_cfg ?m = ?cfg"
    using Cons.prems by (auto simp: allows_only_Cons)
  show ?case
  proof (cases "cb_key ev = sid")
    case False
    then have "dm_get (breakers ?m) sid = Some e"
      using Cons.prems(1) by (simp add: breakers_step)
    then have "cb_admitted sid es ?m =
        min (requests_of sid es) (half_open_max_requests ?cfg - in_flight_probes e)"
      using Cons.IH [of ?m e] Cons.prems rest cfg by simp
    with False show ?thesis by (simp add: requests_of_def)
  next
    case True
    then obtain now where ev: "ev = Allow now sid"
      using Cons.prems by (auto simp: allows_only_Cons)
    let ?e = "fst (allow_entry ?cfg now e)"
    have get: "dm_get (breakers ?m) sid = Some ?e"
      using Cons.prems(1) by (simp add: breakers_step ev del: cb_step.simps)
    show ?thesis
    proof (cases "in_flight_probes e < half_open_max_requests ?cfg")
      case True
      then have e': "?e = e\<lparr>in_flight_probes := Suc (in_flight_probes e)\<rparr>"
        and out: "cb_out ev m = Some (Inr ())"
        using Cons.prems by (auto simp: ev allow_answer allow_entry_def Let_def sat_add32_def
            cb_config_ok_def)
      have "cb_admitted sid es ?m =
          min (requests_of sid es) (half_open_max_requests ?cfg - in_flight_probes ?e)"
        using Cons.IH [OF get] Cons.prems rest cfg True by (simp add: e')
      then show ?thesis using True \<open>cb_key ev = sid\<close> out by (simp add: e' requests_of_def)
    next
      case False
      then have e': "?e = e" and out: "cb_out ev m = Some (Inl HalfOpen)"
        using Cons.prems by (auto simp: ev allow_answer allow_entry_def Let_def cb_config_ok_def)
      have "cb_admitted sid es ?m =
          min (requests_of sid es) (half_open_max_requests ?cfg - in_flight_probes ?e)"
        using Cons.IH [OF get] Cons.prems rest cfg by (simp add: e')
      then show ?thesis using False Cons.prems(4) out by (simp add: e')
    qed
  qed
qed

text \<open>
  C1: No thundering herd. When an open breaker's reset timeout has elapsed and requests
  for its service arrive in any number, interleaved with any traffic of other services and
  before any of them reports back, exactly \<open>half_open_max_requests\<close> of them (or all, if
  they are fewer) are let through.
\<close>

theorem half_open_probe_bound:
  assumes "cb_invar m" "dm_get (breakers m) sid = Some e" "cb_state e = Open"
    and "last_failure_time e = Some f"
    and "allows_only sid (f + from_secs (reset_timeout_secs (cb_cfg m))) es"
  shows "cb_admitted sid es m = min (requests_of sid es) (half_open_max_requests (cb_cfg m))"
  using assms
proof (induction es arbitrary: m)
  case Nil
  then show ?case by (simp add: requests_of_def)
next
  case (Cons ev es)
  let ?cfg = "cb_cfg m" and ?m = "cb_step ev m"
  have inv: "cb_invar ?m" using Cons.prems(1) by (rule cb_step_invar)
  have ok: "cb_config_ok ?cfg" using Cons.prems(1) by (simp add: cb_invar_def)
  show ?case
  proof (cases "cb_key ev = sid")
    case False
    then show ?thesis
      using Cons.IH [OF inv] Cons.prems
      by (simp add: breakers_step allows_only_Cons requests_of_def)
  next
    case True
    then obtain now where ev: "ev = Allow now sid"
      and late: "f + from_secs (reset_timeout_secs ?cfg) \<le> now"
      using Cons.prems by (auto simp: allows_only_Cons)
    define e' where "e' = fst (allow_entry ?cfg now e)"
    have e': "cb_state e' = HalfOpen" "in_flight_probes e' = 1"
      and out: "cb_out ev m = Some (Inr ())"
      using Cons.prems(2-4) late
      by (auto simp: e'_def ev allow_answer allow_entry_def Let_def)
    have "dm_get (breakers ?m) sid = Some e'"
      using Cons.prems(2) by (simp add: breakers_step ev e'_def del: cb_step.simps)
    then have "cb_admitted sid es ?m =
        min (requests_of sid es) (half_open_max_requests ?cfg - 1)"
      using half_open_admits [of ?m sid e'] e' ok Cons.prems(5)
      by (auto simp: allows_only_Cons cb_config_ok_def)
    then show ?thesis using True out ok
      by (auto simp: requests_of_def cb_config_ok_def)
  qed
qed

section \<open>Tripping and isolation\<close>

definition failures_of :: "uuid \<Rightarrow> cb_event list \<Rightarrow> nat" where
  "failures_of sid es = length (filter (\<lambda>e. \<exists>now. e = Failure now sid) es)"

lemma failures_of_simps [simp]:
  "failures_of sid [] = 0"
  "failures_of sid (es @ [Failure now sid]) = Suc (failures_of sid es)"
  "failures_of sid (es @ [Success now sid']) = failures_of sid es"
  "failures_of sid (es @ [Allow now sid']) = failures_of sid es"
  "sid' \<noteq> sid \<Longrightarrow> failures_of sid (es @ [Failure now sid']) = failures_of sid es"
  by (simp_all add: failures_of_def)

text \<open>While a breaker stays below its threshold it only counts failures.\<close>

definition counting :: "nat \<Rightarrow> cb_entry option \<Rightarrow> bool" where
  "counting n eo \<longleftrightarrow>
     (case eo of None \<Rightarrow> n = 0 | Some e \<Rightarrow> cb_state e = Closed \<and> failure_count e = n)"

lemma counting_step:
  assumes "counting (failures_of sid es) eo" "cb_config_ok cfg"
    and "failures_of sid (es @ [ev]) < failure_threshold cfg" "cb_key ev = sid"
  shows "counting (failures_of sid (es @ [ev])) (cb_entry_step cfg ev eo)"
  using assms
  by (cases ev; cases eo)
    (auto simp: counting_def allow_entry_def success_entry_def failure_entry_def
      cb_entry_init_def Let_def sat_add32_def cb_config_ok_def)

lemma failures_of_mono: "failures_of sid es \<le> failures_of sid (es @ es')"
  by (simp add: failures_of_def)

lemma counting_run:
  assumes "cb_config_ok (cb_cfg m)" "dm_get (breakers m) sid = None"
    and "failures_of sid es < failure_threshold (cb_cfg m)"
  shows "counting (failures_of sid es) (dm_get (breakers (fold cb_step es m)) sid)"
  using assms(3)
proof (induction es rule: rev_induct)
  case Nil
  then show ?case using assms(2) by (simp add: counting_def)
next
  case (snoc ev es)
  let ?s = "fold cb_step es m"
  have IH: "counting (failures_of sid es) (dm_get (breakers ?s) sid)"
    using snoc failures_of_mono [of sid es "[ev]"] by simp
  show ?case
  proof (cases "cb_key ev = sid")
    case True
    then show ?thesis
      using counting_step [OF IH assms(1) snoc.prems] by (simp add: breakers_step)
  next
    case False
    then have "failures_of sid (es @ [ev]) = failures_of sid es" by (cases ev) auto
    with False IH show ?thesis by (simp add: breakers_step)
  qed
qed

text \<open>
  The failure threshold. For a service the manager has not seen, whatever mix of
  requests, successes and other services' traffic happens, the breaker is closed while
  fewer than \<open>failure_threshold\<close> failures were recorded (a success never takes a failure
  back), and the failure that reaches the threshold opens it.
\<close>

theorem trips_at_threshold:
  assumes "cb_config_ok (cb_cfg m)" "dm_get (breakers m) sid = None"
    and "failures_of sid es < failure_threshold (cb_cfg m)"
  shows "get_state sid (fold cb_step es m) = Closed \<and>
    (Suc (failures_of sid es) = failure_threshold (cb_cfg m) \<longrightarrow>
     get_state sid (fold cb_step (es @ [Failure now sid]) m) = Open)"
proof
  let ?s = "fold cb_step es m"
  have c: "counting (failures_of sid es) (dm_get (breakers ?s) sid)"
    using assms by (rule counting_run)
  then show "get_state sid ?s = Closed"
    by (auto simp: counting_def get_state_def split: option.splits)
  show "Suc (failures_of sid es) = failure_threshold (cb_cfg m) \<longrightarrow>
      get_state sid (fold cb_step (es @ [Failure now sid]) m) = Open"
    using c assms(1)
    by (auto simp: get_state_def breakers_step counting_def failure_entry_def Let_def
        cb_entry_init_def sat_add32_def cb_config_ok_def
        simp del: cb_step.simps split: option.splits)
qed

text \<open>
  Services are independent. The answer a service's request gets after any run equals
  the answer after the run with every other service's events removed: one failing upstream
  never opens, closes or exhausts the probes of another's breaker.
\<close>

theorem services_independent:
  "cb_out e (fold cb_step es m) =
     cb_out e (fold cb_step (filter (\<lambda>d. cb_key d = cb_key e) es) m)"
  by (rule cb.out_purge)

section \<open>Witnesses\<close>

definition tripped :: cb_manager where
  "tripped = fold cb_step [Failure 5 7, Failure 9 7] (cb_new 2 30 1)"

theorem cb_reachable_invariant_witness:
  "\<exists>e. dm_get (breakers (fold cb_step [Failure 5 7] (cb_new 2 30 1))) 7 = Some e \<and>
       cb_entry_ok (cb_cfg (cb_new 2 30 1)) e"
proof -
  have "\<exists>e. dm_get (breakers (fold cb_step [Failure 5 7] (cb_new 2 30 1))) 7 = Some e"
    by (simp add: record_failure_def cb_new_def dm_or_insert_def Let_def)
  then show ?thesis
    using cb_reachable_invariant [of 2 1 "[Failure 5 7]" 30 7] by (auto simp: u32_max_def)
qed

theorem half_open_probe_bound_witness:
  "cb_admitted 7 [Allow (from_secs 40) 7, Allow (from_secs 40) 8, Allow (from_secs 41) 7]
     tripped = 1"
proof -
  have inv: "cb_invar tripped"
    unfolding tripped_def by (intro cb_inv.run_invar cb_new_invar) (simp_all add: u32_max_def)
  have e: "dm_get (breakers tripped) 7 = Some
      \<lparr>cb_state = Open, failure_count = 2, success_count_half_open = 0, in_flight_probes = 0,
       last_failure_time = Some 9, last_state_change = 9\<rparr>"
    and cfg: "cb_cfg tripped = cb_cfg (cb_new 2 30 1)"
    by (simp_all add: tripped_def record_failure_def cb_new_def dm_or_insert_def Let_def
        failure_entry_def cb_entry_init_def sat_add32_def u32_max_def)
  show ?thesis
    using half_open_probe_bound [OF inv e, of 9 "[Allow (from_secs 40) 7,
        Allow (from_secs 40) 8, Allow (from_secs 41) 7]"]
    by (simp add: allows_only_def requests_of_def cfg cb_new_def from_secs_def)
qed

theorem trips_at_threshold_witness:
  "get_state 7 (fold cb_step ([Failure 5 7, Success 6 7] @ [Failure 9 7]) (cb_new 2 30 1)) = Open"
  using trips_at_threshold [of "cb_new 2 30 1" 7 "[Failure 5 7, Success 6 7]" 9]
  by (simp add: cb_new_def cb_config_ok_def u32_max_def failures_of_def del: cb_step.simps)

end
