(* ===== verification/Load_Balancer.thy ===== *)
theory Load_Balancer
  imports Interfaces
begin

text \<open>
  The load balancer of \<open>src/gateway/load_balancer.rs\<close>: a round-robin counter per service
  and a connection counter per upstream URL. \<open>fetch_add\<close> on an \<open>AtomicUsize\<close> wraps at
  $2^{64}$. \<open>rand_index\<close> hashes the clock and the thread; the hash is an argument.
\<close>

section \<open>State and operations\<close>

datatype lb_strategy = RoundRobin | Random | LeastConnections

definition lb_strategy_from_str :: "string \<Rightarrow> lb_strategy" where
  "lb_strategy_from_str s =
     (let l = to_lowercase s
      in if l = ''random'' then Random
         else if l = ''least-connections'' \<or> l = ''least_connections'' then LeastConnections
         else RoundRobin)"

record load_balancer =
  lb_counters :: "(uuid, nat) dashmap"
  lb_connections :: "(string, nat) dashmap"

definition lb_new :: load_balancer where
  "lb_new = \<lparr>lb_counters = [], lb_connections = []\<rparr>"

definition rand_index :: "nat \<Rightarrow> nat \<Rightarrow> nat" where
  "rand_index hash n = hash mod n"

definition conn_count :: "load_balancer \<Rightarrow> string \<Rightarrow> nat" where
  "conn_count lb upstream =
     (case dm_get (lb_connections lb) upstream of Some c \<Rightarrow> c | None \<Rightarrow> 0)"

text \<open>The loop of the least-connections strategy, with its running minimum.\<close>

fun least_loaded :: "(string \<Rightarrow> nat) \<Rightarrow> string list \<Rightarrow> nat \<Rightarrow> string \<Rightarrow> string" where
  "least_loaded conns [] min_connections selected = selected"
| "least_loaded conns (u # us) min_connections selected =
     (if conns u < min_connections then least_loaded conns us (conns u) u
      else least_loaded conns us min_connections selected)"

definition select_upstream ::
  "nat \<Rightarrow> uuid \<Rightarrow> string list \<Rightarrow> lb_strategy \<Rightarrow> load_balancer \<Rightarrow> load_balancer \<times> string" where
  "select_upstream hash sid upstreams strategy lb =
     (if upstreams = [] then (lb, [])
      else if length upstreams = 1 then (lb, upstreams ! 0)
      else case strategy of
        RoundRobin \<Rightarrow>
          (let counter = dm_or_insert (lb_counters lb) sid 0;
               idx = counter mod length upstreams
           in (lb\<lparr>lb_counters := dm_insert sid (wrap_add64 counter 1) (lb_counters lb)\<rparr>,
               upstreams ! idx))
      | Random \<Rightarrow> (lb, upstreams ! rand_index hash (length upstreams))
      | LeastConnections \<Rightarrow>
          (lb, least_loaded (conn_count lb) upstreams u64_max (upstreams ! 0)))"

definition acquire_connection :: "string \<Rightarrow> load_balancer \<Rightarrow> load_balancer" where
  "acquire_connection upstream lb =
     lb\<lparr>lb_connections :=
       dm_insert upstream (wrap_add64 (dm_or_insert (lb_connections lb) upstream 0) 1)
         (lb_connections lb)\<rparr>"

definition release_connection :: "string \<Rightarrow> load_balancer \<Rightarrow> load_balancer" where
  "release_connection upstream lb =
     lb\<lparr>lb_connections :=
       dm_update upstream (\<lambda>prev. if 0 < prev then prev - 1 else prev) (lb_connections lb)\<rparr>"

section \<open>Selection\<close>

lemma least_loaded_mem: "least_loaded conns us m s \<in> insert s (set us)"
  by (induction conns us m s rule: least_loaded.induct) auto

lemma least_loaded_min:
  assumes "m = conns s \<or> (\<forall>u \<in> set us. m \<le> conns u \<longrightarrow> conns s \<le> conns u)"
  shows "\<forall>u \<in> set us. conns (least_loaded conns us m s) \<le> conns u"
    and "m = conns s \<Longrightarrow> conns (least_loaded conns us m s) \<le> conns s"
proof -
  have inv: "conns (least_loaded conns us (conns s) s) \<le> conns s \<and>
      (\<forall>u \<in> set us. conns (least_loaded conns us (conns s) s) \<le> conns u)" for s us
    by (induction us arbitrary: s) (force+)
  then show "m = conns s \<Longrightarrow> conns (least_loaded conns us m s) \<le> conns s" by simp
  have "(\<forall>u \<in> set us. m \<le> conns u \<longrightarrow> conns s \<le> conns u) \<Longrightarrow>
      \<forall>u \<in> set us. conns (least_loaded conns us m s) \<le> conns u"
  proof (induction us)
    case (Cons u us)
    show ?case
    proof (cases "conns u < m")
      case True
      with inv [of us u] show ?thesis by simp
    next
      case False
      have keep: "least_loaded conns us m s = s \<or>
          conns (least_loaded conns us m s) < m" for us
        by (induction us) (use inv le_less_trans in \<open>fastforce+\<close>)
      have "conns s \<le> conns u" using Cons.prems False by simp
      with keep [of us] False
      have "conns (least_loaded conns us m s) \<le> conns u" by auto
      with False Cons show ?thesis by simp
    qed
  qed simp
  then show "\<forall>u \<in> set us. conns (least_loaded conns us m s) \<le> conns u"
    using assms inv by blast
qed

lemma select_upstream_mem:
  "us \<noteq> [] \<Longrightarrow> snd (select_upstream h sid us st lb) \<in> set us"
proof (cases st)
  case LeastConnections
  assume "us \<noteq> []"
  then show ?thesis
    using LeastConnections least_loaded_mem [of "conn_count lb" us u64_max "us ! 0"]
    by (cases us) (auto simp: select_upstream_def)
qed (auto simp: select_upstream_def Let_def rand_index_def)

lemma select_upstream_connections [simp]:
  "lb_connections (fst (select_upstream h sid us st lb)) = lb_connections lb"
  by (simp add: select_upstream_def Let_def split: lb_strategy.split)

text \<open>Acquiring and releasing a connection leaves every count as it was, short of overflow.\<close>

lemma acquire_release_balanced:
  assumes "conn_count lb u < u64_max"
  shows "conn_count (release_connection u (acquire_connection u lb)) v = conn_count lb v"
  using assms
  by (auto simp: conn_count_def acquire_connection_def release_connection_def dashmap_simps dm_or_insert_def
      wrap_add64_exact split: option.splits)

lemma conn_count_cong: "lb_connections a = lb_connections b \<Longrightarrow> conn_count a u = conn_count b u"
  by (simp add: conn_count_def)

text \<open>
  The least-connections strategy returns one of the offered upstreams, and none of
  the others has fewer open connections.
\<close>

theorem least_connections_minimal:
  assumes "2 \<le> length upstreams" "\<forall>u \<in> set upstreams. conn_count lb u \<le> u64_max"
  shows "case select_upstream hash sid upstreams LeastConnections lb of (lb', chosen) \<Rightarrow>
    lb' = lb \<and> chosen \<in> set upstreams \<and>
    (\<forall>u \<in> set upstreams. conn_count lb chosen \<le> conn_count lb u)"
proof -
  let ?s = "upstreams ! 0"
  define chosen where "chosen = least_loaded (conn_count lb) upstreams u64_max ?s"
  have ne: "upstreams \<noteq> []" and len: "length upstreams \<noteq> 1" using assms(1) by auto
  then have s: "?s \<in> set upstreams" by simp
  have "chosen \<in> insert ?s (set upstreams)"
    unfolding chosen_def by (rule least_loaded_mem)
  with s have mem: "chosen \<in> set upstreams" by auto
  have "\<forall>u \<in> set upstreams. u64_max \<le> conn_count lb u \<longrightarrow> conn_count lb ?s \<le> conn_count lb u"
    using assms(2) s by (meson le_trans)
  then have "\<forall>u \<in> set upstreams. conn_count lb chosen \<le> conn_count lb u"
    unfolding chosen_def by (intro least_loaded_min(1) disjI2)
  with mem ne len show ?thesis
    by (simp add: select_upstream_def chosen_def [symmetric])
qed

text \<open>A run of \<open>n\<close> round-robin selections.\<close>

fun rr_run :: "uuid \<Rightarrow> string list \<Rightarrow> nat \<Rightarrow> load_balancer \<Rightarrow> string list" where
  "rr_run sid upstreams 0 lb = []"
| "rr_run sid upstreams (Suc n) lb =
     (let (lb', u) = select_upstream 0 sid upstreams RoundRobin lb
      in u # rr_run sid upstreams n lb')"

definition rr_counter :: "load_balancer \<Rightarrow> uuid \<Rightarrow> nat" where
  "rr_counter lb sid = dm_or_insert (lb_counters lb) sid 0"

lemma rr_run_picks:
  assumes "2 \<le> length upstreams" "rr_counter lb sid + n \<le> u64_max"
  shows "rr_run sid upstreams n lb =
    map (\<lambda>i. upstreams ! (i mod length upstreams)) [rr_counter lb sid ..< rr_counter lb sid + n]"
  using assms
proof (induction n arbitrary: lb)
  case (Suc n)
  have ne: "upstreams \<noteq> []" "length upstreams \<noteq> 1" using Suc.prems by auto
  let ?c = "rr_counter lb sid"
  define lb' where "lb' = fst (select_upstream 0 sid upstreams RoundRobin lb)"
  have c': "rr_counter lb' sid = Suc ?c"
    using ne Suc.prems(2)
    by (simp add: lb'_def select_upstream_def rr_counter_def Let_def dm_or_insert_def
        dashmap_simps wrap_add64_exact)
  have "rr_run sid upstreams (Suc n) lb =
      upstreams ! (?c mod length upstreams) # rr_run sid upstreams n lb'"
    using ne by (simp add: lb'_def select_upstream_def rr_counter_def Let_def)
  also have "rr_run sid upstreams n lb' =
      map (\<lambda>i. upstreams ! (i mod length upstreams)) [Suc ?c ..< Suc ?c + n]"
    using Suc.IH [of lb'] Suc.prems by (simp add: c')
  finally have "rr_run sid upstreams (Suc n) lb =
      map (\<lambda>i. upstreams ! (i mod length upstreams)) (?c # [Suc ?c ..< Suc ?c + n])" by simp
  also have "?c # [Suc ?c ..< Suc ?c + n] = [?c ..< ?c + Suc n]"
    by (simp add: upt_conv_Cons del: upt_Suc)
  finally show ?case .
qed simp

lemma one_round:
  assumes "xs \<noteq> []"
  shows "mset (map (\<lambda>i. xs ! (i mod length xs)) [c ..< c + length xs]) = mset xs"
proof -
  have "map (\<lambda>i. xs ! (i mod length xs)) [c ..< c + length xs] = rotate c xs"
    by (rule nth_equalityI) (simp_all add: nth_rotate add.commute)
  moreover have "mset (rotate c xs) = mset xs"
    by (simp only: rotate_drop_take) (metis append_take_drop_id mset_append union_commute)
  ultimately show ?thesis by simp
qed

lemma many_rounds:
  assumes "xs \<noteq> []"
  shows "mset (map (\<lambda>i. xs ! (i mod length xs)) [c ..< c + k * length xs]) =
    repeat_mset k (mset xs)"
proof (induction k)
  case (Suc k)
  let ?f = "\<lambda>i. xs ! (i mod length xs)"
  have "[c ..< c + Suc k * length xs] = [c ..< c + k * length xs]
      @ [c + k * length xs ..< c + k * length xs + length xs]"
    by (subst upt_add_eq_append [symmetric]) (simp_all add: ac_simps)
  with Suc one_round [OF assms, of "c + k * length xs"] show ?case by simp
qed simp

text \<open>
  C2: Round-robin is fair. As long as the 64-bit counter does not wrap, \<open>k\<close> full rounds
  hand each of the \<open>n\<close> upstreams exactly \<open>k\<close> of the \<open>k * n\<close> requests (an upstream listed
  twice gets twice as many), wherever the counter stood before.
\<close>

theorem round_robin_fair:
  assumes "2 \<le> length upstreams" "rr_counter lb sid + k * length upstreams \<le> u64_max"
  shows "mset (rr_run sid upstreams (k * length upstreams) lb) = repeat_mset k (mset upstreams)"
  using rr_run_picks [OF assms] many_rounds [of upstreams "rr_counter lb sid" k] assms(1)
  by fastforce

section \<open>Connection accounting\<close>

datatype conn_event = Acquire string | Release string

fun conn_step :: "conn_event \<Rightarrow> load_balancer \<Rightarrow> load_balancer" where
  "conn_step (Acquire u) lb = acquire_connection u lb"
| "conn_step (Release u) lb = release_connection u lb"

definition open_conns :: "string \<Rightarrow> conn_event list \<Rightarrow> int" where
  "open_conns u es = int (count_list es (Acquire u)) - int (count_list es (Release u))"

lemma conn_count_step:
  "conn_count (conn_step (Acquire u') lb) u =
     (if u' = u then wrap_add64 (conn_count lb u) 1 else conn_count lb u)"
  "conn_count (conn_step (Release u') lb) u =
     (if u' = u then conn_count lb u - 1 else conn_count lb u)"
  by (auto simp: conn_count_def acquire_connection_def release_connection_def dashmap_simps
      dm_or_insert_def split: option.splits)

text \<open>
  The connection counters count open connections. In any run in which no connection of
  an upstream is released before it was acquired, its counter is the number of acquisitions
  minus the number of releases; releases of other upstreams do not touch it, and a counter
  is never driven below zero.
\<close>

theorem connection_count_exact:
  assumes "\<forall>n \<le> length es. 0 \<le> open_conns u (take n es)" "length es \<le> u64_max"
  shows "int (conn_count (fold conn_step es lb_new) u) = open_conns u es"
  using assms
proof (induction es rule: rev_induct)
  case Nil
  then show ?case by (simp add: open_conns_def conn_count_def lb_new_def)
next
  case (snoc e es)
  let ?s = "fold conn_step es lb_new"
  have pre: "\<forall>n \<le> length es. 0 \<le> open_conns u (take n es)"
  proof (intro allI impI)
    fix n assume "n \<le> length es"
    then show "0 \<le> open_conns u (take n es)"
      using snoc.prems(1) [rule_format, of n] by simp
  qed
  have IH: "int (conn_count ?s u) = open_conns u es"
    using snoc.IH [OF pre] snoc.prems(2) by simp
  have last: "0 \<le> open_conns u (es @ [e])"
    using snoc.prems(1) [rule_format, of "length (es @ [e])"] by simp
  have "open_conns u es \<le> int (length es)"
    using count_le_length [of es "Acquire u"] by (simp add: open_conns_def)
  then have small: "conn_count ?s u < u64_max"
    using IH snoc.prems(2) by simp
  show ?case
    using IH last small
    by (cases e) (auto simp: conn_count_step open_conns_def wrap_add64_exact
        simp del: conn_step.simps)
qed

section \<open>Witnesses\<close>

theorem least_connections_minimal_witness:
  "snd (select_upstream 0 1 [''a'', ''b''] LeastConnections
     (conn_step (Acquire ''a'') lb_new)) \<in> {''a'', ''b''}"
proof -
  let ?lb = "conn_step (Acquire ''a'') lb_new"
  have "conn_count lb_new u = 0" for u by (simp add: conn_count_def lb_new_def)
  then have "\<forall>u \<in> set [''a'', ''b'']. conn_count ?lb u \<le> u64_max"
    by (simp add: conn_count_step wrap_add64_def u64_max_def del: conn_step.simps)
  then show ?thesis
    using least_connections_minimal [of "[''a'', ''b'']" ?lb 0 1]
    by (auto simp: case_prod_unfold simp del: conn_step.simps)
qed

theorem round_robin_fair_witness:
  "mset (rr_run 1 [''a'', ''b'', ''c''] (2 * 3) lb_new) =
     repeat_mset 2 (mset [''a'', ''b'', ''c''])"
  using round_robin_fair [of "[''a'', ''b'', ''c'']" lb_new 1 2]
  by (simp add: rr_counter_def dm_or_insert_def lb_new_def u64_max_def)

theorem connection_count_exact_witness:
  "int (conn_count (fold conn_step [Acquire ''a'', Acquire ''a'', Release ''a''] lb_new) ''a'') = 1"
proof -
  let ?es = "[Acquire ''a'', Acquire ''a'', Release ''a'']"
  have "\<forall>n \<le> length ?es. 0 \<le> open_conns ''a'' (take n ?es)"
    by (auto simp: open_conns_def le_Suc_eq numeral_eq_Suc)
  then show ?thesis
    using connection_count_exact [of ?es "''a''"] by (simp add: open_conns_def u64_max_def)
qed

end
