(* ===== verification/Ip_Addr.thy ===== *)
theory Ip_Addr
  imports Prelude "HOL-Library.Word"
begin

text \<open>
  \<open>std::net::IpAddr\<close> as the sources use it: parsing (the grammar of the standard library's
  address parser, for both families), \<open>Display\<close>, the bits of an address, and the predicates
  of \<open>Ipv4Addr\<close> and \<open>Ipv6Addr\<close>. An IPv4 address is four octets, an IPv6 address eight
  16-bit segments.
\<close>

unbundle bit_operations_syntax

type_synonym u8 = "8 word"
type_synonym u16 = "16 word"

datatype ip_addr = V4 u8 u8 u8 u8 | V6 u16 u16 u16 u16 u16 u16 u16 u16

section \<open>Bits\<close>

text \<open>\<open>u32::from\<close> and \<open>u128::from\<close>: the bytes in network order.\<close>

fun v4_bits :: "ip_addr \<Rightarrow> 32 word" where
  "v4_bits (V4 a b c d) =
     (push_bit 24 (ucast a) OR push_bit 16 (ucast b) OR push_bit 8 (ucast c) OR ucast d)"
| "v4_bits (V6 _ _ _ _ _ _ _ _) = 0"

fun v6_bits :: "ip_addr \<Rightarrow> 128 word" where
  "v6_bits (V6 a b c d e f g h) =
     (push_bit 112 (ucast a) OR push_bit 96 (ucast b) OR push_bit 80 (ucast c)
      OR push_bit 64 (ucast d) OR push_bit 48 (ucast e) OR push_bit 32 (ucast f)
      OR push_bit 16 (ucast g) OR ucast h)"
| "v6_bits (V4 _ _ _ _) = 0"

section \<open>Parsing\<close>

text \<open>
  A reader takes the input and returns a value and the rest, or \<open>None\<close> and leaves the input
  alone (\<open>read_atomically\<close>).
\<close>

definition read_number :: "nat \<Rightarrow> nat \<Rightarrow> bool \<Rightarrow> nat \<Rightarrow> string \<Rightarrow> (nat \<times> string) option" where
  "read_number radix max_digits allow_zero_prefix maxv s =
     (let ds = takeWhile (is_digit radix) s; rest = dropWhile (is_digit radix) s
      in if ds = [] \<or> max_digits < length ds
            \<or> (\<not> allow_zero_prefix \<and> hd ds = CHR ''0'' \<and> 1 < length ds)
            \<or> maxv < digits_value radix ds
         then None else Some (digits_value radix ds, rest))"

definition read_char :: "char \<Rightarrow> string \<Rightarrow> string option" where
  "read_char c s = (case s of x # xs \<Rightarrow> if x = c then Some xs else None | [] \<Rightarrow> None)"

text \<open>\<open>read_separator\<close>: from the second element on, the separator comes first.\<close>

definition read_sep :: "char \<Rightarrow> nat \<Rightarrow> string \<Rightarrow> string option" where
  "read_sep sep i s = (if i = 0 then Some s else read_char sep s)"

definition read_octet :: "nat \<Rightarrow> string \<Rightarrow> (u8 \<times> string) option" where
  "read_octet i s =
     (case read_sep CHR ''.'' i s of None \<Rightarrow> None
      | Some s1 \<Rightarrow> map_option (\<lambda>(v, r). (of_nat v, r)) (read_number 10 3 False 255 s1))"

definition read_ipv4 :: "string \<Rightarrow> ((u8 \<times> u8 \<times> u8 \<times> u8) \<times> string) option" where
  "read_ipv4 s =
     (case read_octet 0 s of None \<Rightarrow> None | Some (a, s1) \<Rightarrow>
     (case read_octet 1 s1 of None \<Rightarrow> None | Some (b, s2) \<Rightarrow>
     (case read_octet 2 s2 of None \<Rightarrow> None | Some (c, s3) \<Rightarrow>
     (case read_octet 3 s3 of None \<Rightarrow> None | Some (d, s4) \<Rightarrow> Some ((a, b, c, d), s4)))))"

definition u16_of_bytes :: "u8 \<Rightarrow> u8 \<Rightarrow> u16" where
  "u16_of_bytes a b = push_bit 8 (ucast a) OR ucast b"

text \<open>
  \<open>read_groups\<close>: up to \<open>limit\<close> groups from index \<open>i\<close> on. The flag says that the last two
  came from an embedded IPv4 address.
\<close>

function read_groups :: "nat \<Rightarrow> nat \<Rightarrow> string \<Rightarrow> u16 list \<times> bool \<times> string" where
  "read_groups limit i s =
     (if limit \<le> i then ([], False, s)
      else case (if i + 1 < limit
                 then (case read_sep CHR '':'' i s of None \<Rightarrow> None | Some s1 \<Rightarrow> read_ipv4 s1)
                 else None) of
        Some ((a, b, c, d), rest) \<Rightarrow> ([u16_of_bytes a b, u16_of_bytes c d], True, rest)
      | None \<Rightarrow>
          (case (case read_sep CHR '':'' i s of None \<Rightarrow> None
                 | Some s1 \<Rightarrow> read_number 16 4 True 65535 s1) of
             None \<Rightarrow> ([], False, s)
           | Some (g, rest) \<Rightarrow>
               (let (gs, v4, rest') = read_groups limit (i + 1) rest
                in (of_nat g # gs, v4, rest'))))"
  by pat_completeness auto
termination
  by (relation "measure (\<lambda>(limit, i, s). limit - i)") auto

declare read_groups.simps [simp del]

definition v6_of_groups :: "u16 list \<Rightarrow> ip_addr option" where
  "v6_of_groups gs =
     (case gs of [a, b, c, d, e, f, g, h] \<Rightarrow> Some (V6 a b c d e f g h) | _ \<Rightarrow> None)"

definition read_ipv6 :: "string \<Rightarrow> (ip_addr \<times> string) option" where
  "read_ipv6 s =
     (let (head, head_v4, s1) = read_groups 8 0 s
      in if length head = 8 then map_option (\<lambda>ip. (ip, s1)) (v6_of_groups head)
         else if head_v4 then None
         else case read_char CHR '':'' s1 of None \<Rightarrow> None | Some s2 \<Rightarrow>
              (case read_char CHR '':'' s2 of None \<Rightarrow> None | Some s3 \<Rightarrow>
                (let (tail, _, s4) = read_groups (8 - (length head + 1)) 0 s3;
                     gs = head @ replicate (8 - length head - length tail) 0 @ tail
                 in map_option (\<lambda>ip. (ip, s4)) (v6_of_groups gs))))"

definition parse_ip :: "string \<Rightarrow> ip_addr option" where
  "parse_ip s =
     (case (case read_ipv4 s of Some ((a, b, c, d), r) \<Rightarrow> Some (V4 a b c d, r)
            | None \<Rightarrow> read_ipv6 s) of
        Some (ip, []) \<Rightarrow> Some ip
      | _ \<Rightarrow> None)"

section \<open>Display\<close>

definition show_v4 :: "u8 \<Rightarrow> u8 \<Rightarrow> u8 \<Rightarrow> u8 \<Rightarrow> string" where
  "show_v4 a b c d =
     show_nat (unat a) @ ''.'' @ show_nat (unat b) @ ''.'' @ show_nat (unat c) @ ''.''
     @ show_nat (unat d)"

text \<open>The first longest run of zero segments, as start and length.\<close>

fun zero_run :: "u16 list \<Rightarrow> nat \<Rightarrow> nat \<times> nat \<Rightarrow> nat \<times> nat \<Rightarrow> nat \<times> nat" where
  "zero_run [] i current longest = longest"
| "zero_run (x # xs) i (st, len) longest =
     (if x = 0
      then (let st' = (if len = 0 then i else st); current = (st', len + 1)
            in zero_run xs (i + 1) current (if snd longest < len + 1 then current else longest))
      else zero_run xs (i + 1) (0, 0) longest)"

definition show_segments :: "u16 list \<Rightarrow> string" where
  "show_segments gs = join_with '':'' (map (\<lambda>g. show_hex (unat g)) gs)"

fun show_ip :: "ip_addr \<Rightarrow> string" where
  "show_ip (V4 a b c d) = show_v4 a b c d"
| "show_ip (V6 a b c d e f g h) =
     (let gs = [a, b, c, d, e, f, g, h]
      in if a = 0 \<and> b = 0 \<and> c = 0 \<and> d = 0 \<and> e = 0 \<and> f = 0xffff
         then ''::ffff:'' @ show_v4 (ucast (drop_bit 8 g)) (ucast g) (ucast (drop_bit 8 h)) (ucast h)
         else let (st, len) = zero_run gs 0 (0, 0) (0, 0)
              in if 1 < len
                 then show_segments (take st gs) @ ''::'' @ show_segments (drop (st + len) gs)
                 else show_segments gs)"

section \<open>Reading back what was displayed\<close>

lemma takeWhile_digits:
  assumes "list_all P ds" "rest = [] \<or> \<not> P (hd rest)"
  shows "takeWhile P (ds @ rest) = ds" and "dropWhile P (ds @ rest) = rest"
proof -
  have "takeWhile P rest = []" "dropWhile P rest = rest"
    using assms(2) by (cases rest; auto)+
  moreover have "\<forall>x \<in> set ds. P x" using assms(1) by (simp add: list_all_iff)
  ultimately show "takeWhile P (ds @ rest) = ds" "dropWhile P (ds @ rest) = rest"
    by simp_all
qed

lemma read_number_show:
  assumes "n \<le> 255" "rest = [] \<or> \<not> is_digit 10 (hd rest)"
  shows "read_number 10 3 False 255 (show_nat n @ rest) = Some (n, rest)"
proof -
  have zero: "digit_char 0 = CHR ''0''" by code_simp
  have "length (show_nat n) \<le> 3"
    using assms(1) by (intro length_show_nat_le) simp_all
  moreover have "1 < length (show_nat n) \<Longrightarrow> hd (show_nat n) \<noteq> CHR ''0''"
    using show_nat_no_leading_zero [of n] zero by simp
  ultimately show ?thesis
    using takeWhile_digits [OF show_nat_digits [of n] assms(2)] assms(1)
    by (auto simp: read_number_def show_nat_value Let_def)
qed

lemma unat_u8_le: "unat (a :: u8) \<le> 255"
proof -
  have "unat a < 2 ^ LENGTH(8)" by (rule unsigned_less)
  then show ?thesis by simp
qed

lemma read_octet_show:
  assumes "rest = [] \<or> \<not> is_digit 10 (hd rest)"
  shows "read_octet 0 (show_nat (unat a) @ rest) = Some (a, rest)"
    and "0 < i \<Longrightarrow> read_octet i (CHR ''.'' # show_nat (unat a) @ rest) = Some (a, rest)"
  using read_number_show [OF unat_u8_le assms, of a]
  by (simp_all add: read_octet_def read_sep_def read_char_def)

lemma dot_no_digit [simp]: "\<not> is_digit 10 CHR ''.''"
  by (simp add: is_digit_def to_digit_def)

text \<open>The displayed form of an IPv4 address parses back to the address.\<close>

lemma parse_show_v4: "parse_ip (show_v4 a b c d) = Some (V4 a b c d)"
proof -
  have "read_ipv4 (show_v4 a b c d) = Some ((a, b, c, d), [])"
    using read_octet_show(1) [of "''.'' @ show_nat (unat b) @ ''.'' @ show_nat (unat c) @ ''.''
        @ show_nat (unat d)" a]
      read_octet_show(2) [of "''.'' @ show_nat (unat c) @ ''.'' @ show_nat (unat d)" 1 b]
      read_octet_show(2) [of "''.'' @ show_nat (unat d)" 2 c]
      read_octet_show(2) [of "[]" 3 d]
    by (simp add: read_ipv4_def show_v4_def)
  then show ?thesis by (simp add: parse_ip_def)
qed

section \<open>Addresses as numbers\<close>

lemma or_push_bit_nat: "(m :: nat) < 2 ^ k \<Longrightarrow> push_bit k n OR m = n * 2 ^ k + m"
proof -
  assume m: "m < 2 ^ k"
  have "\<not> bit (push_bit k n) i \<or> \<not> bit m i" for i
  proof (cases "i < k")
    case True
    then show ?thesis by (simp add: bit_push_bit_iff)
  next
    case False
    have "take_bit k m = m" using m by (simp add: take_bit_nat_eq_self)
    then show ?thesis using False by (metis bit_take_bit_iff)
  qed
  then have "push_bit k n + m = push_bit k n OR m" by (intro disjunctive_add) simp
  then show ?thesis by (simp add: push_bit_nat_eq [symmetric] push_bit_eq_mult)
qed

lemma unat_u8_less: "unat (a :: u8) < 256"
  using unat_u8_le [of a] by simp

lemma unat_push_u8:
  "k + 8 \<le> 32 \<Longrightarrow> unat (push_bit k (ucast (a :: u8)) :: 32 word) = push_bit k (unat a)"
proof -
  assume k: "k + 8 \<le> 32"
  have "push_bit k (unat a) < 2 ^ k * 2 ^ 8"
    using unat_u8_less [of a] by (simp add: push_bit_eq_mult)
  also have "(2 :: nat) ^ k * 2 ^ 8 \<le> 2 ^ 32"
    using power_increasing [of "k + 8" 32 "2 :: nat"] k by (simp add: power_add)
  finally have "take_bit 32 (push_bit k (unat a)) = push_bit k (unat a)"
    by (simp add: take_bit_nat_eq_self)
  moreover have "take_bit 32 (unat a) = unat a"
    using unat_u8_less [of a] by (simp add: take_bit_nat_eq_self)
  ultimately show ?thesis
    by (simp add: unsigned_push_bit_eq unsigned_ucast_eq)
qed

lemma v4_bits_value:
  "unat (v4_bits (V4 a b c d)) = unat a * 2 ^ 24 + unat b * 2 ^ 16 + unat c * 2 ^ 8 + unat d"
proof -
  note le = unat_u8_less [of a] unat_u8_less [of b] unat_u8_less [of c] unat_u8_less [of d]
  have "unat (v4_bits (V4 a b c d)) =
      push_bit 24 (unat a) OR (push_bit 16 (unat b) OR (push_bit 8 (unat c) OR unat d))"
    using unat_push_u8 [of 24 a] unat_push_u8 [of 16 b] unat_push_u8 [of 8 c]
      unat_push_u8 [of 0 d]
    by (simp add: unsigned_or_eq or.assoc)
  also have "push_bit 8 (unat c) OR unat d = unat c * 2 ^ 8 + unat d"
    using le by (intro or_push_bit_nat) simp
  also have "push_bit 16 (unat b) OR (unat c * 2 ^ 8 + unat d)
      = unat b * 2 ^ 16 + (unat c * 2 ^ 8 + unat d)"
    using le by (intro or_push_bit_nat) simp
  also have "push_bit 24 (unat a) OR (unat b * 2 ^ 16 + (unat c * 2 ^ 8 + unat d))
      = unat a * 2 ^ 24 + (unat b * 2 ^ 16 + (unat c * 2 ^ 8 + unat d))"
    using le by (intro or_push_bit_nat) simp
  finally show ?thesis by simp
qed

lemma u16_of_bytes_parts [simp]:
  "ucast (drop_bit 8 (u16_of_bytes a b)) = a"
  "ucast (u16_of_bytes a b AND 255) = b"
proof -
  show "ucast (drop_bit 8 (u16_of_bytes a b)) = a"
    by (rule bit_word_eqI) (auto simp: u16_of_bytes_def bit_simps dest: bit_imp_le_length)
  have "ucast (u16_of_bytes a b AND mask 8) = b"
    by (rule bit_word_eqI) (auto simp: u16_of_bytes_def bit_simps)
  then show "ucast (u16_of_bytes a b AND 255) = b"
    by (simp add: mask_eq_exp_minus_1)
qed

end
