(* ===== verification/Url_Guard.thy ===== *)
theory Url_Guard
  imports Ip_Addr Interfaces
begin

text \<open>
  The SSRF guard of \<open>src/alerting/url_guard.rs\<close>. URL parsing (the \<open>url\<close> crate behind
  \<open>reqwest::Url\<close>) and name resolution are not part of the repository: they are the fields of
  a \<open>net_env\<close>, an argument of the functions that use them. What the guard does with their
  answers is modelled in full: scheme and host checks, the port allow-list, the address
  predicates at both guard levels, pinning, and the cache of pinned URLs.
\<close>

section \<open>URLs, resolution and errors\<close>

record url =
  url_scheme :: string
  url_host_str :: "string option"
  url_port :: "nat option"
  url_port_or_known_default :: "nat option"

record net_env =
  parse_url :: "string \<Rightarrow> string + url"
  lookup_host :: "string \<Rightarrow> string + ip_addr list"

datatype url_guard_error =
    Invalid string
  | BadScheme string
  | MissingHost
  | DnsError string
  | Forbidden string

datatype guard_level = Strict | UpstreamOnly

record pinned_url =
  pin_url_text :: string
  pin_host :: string
  pin_ip :: ip_addr
  pin_port :: nat

section \<open>Address predicates\<close>

fun is_metadata_ip :: "ip_addr \<Rightarrow> bool" where
  "is_metadata_ip (V4 a b c d) \<longleftrightarrow> (a, b, c, d) = (169, 254, 169, 254)"
| "is_metadata_ip (V6 s0 s1 s2 s3 s4 s5 s6 s7) \<longleftrightarrow> s0 = 0xfd00 \<and> s1 = 0xec2"

text \<open>The predicates of \<open>std::net::Ipv4Addr\<close> and \<open>Ipv6Addr\<close> the guard calls.\<close>

definition v4_is_loopback :: "u8 \<Rightarrow> u8 \<Rightarrow> u8 \<Rightarrow> u8 \<Rightarrow> bool" where
  "v4_is_loopback a b c d \<longleftrightarrow> a = 127"

definition v4_is_private :: "u8 \<Rightarrow> u8 \<Rightarrow> u8 \<Rightarrow> u8 \<Rightarrow> bool" where
  "v4_is_private a b c d \<longleftrightarrow>
     a = 10 \<or> (a = 172 \<and> 16 \<le> b \<and> b \<le> 31) \<or> (a = 192 \<and> b = 168)"

definition v4_is_link_local :: "u8 \<Rightarrow> u8 \<Rightarrow> u8 \<Rightarrow> u8 \<Rightarrow> bool" where
  "v4_is_link_local a b c d \<longleftrightarrow> a = 169 \<and> b = 254"

definition v4_is_broadcast :: "u8 \<Rightarrow> u8 \<Rightarrow> u8 \<Rightarrow> u8 \<Rightarrow> bool" where
  "v4_is_broadcast a b c d \<longleftrightarrow> a = 255 \<and> b = 255 \<and> c = 255 \<and> d = 255"

definition v4_is_documentation :: "u8 \<Rightarrow> u8 \<Rightarrow> u8 \<Rightarrow> u8 \<Rightarrow> bool" where
  "v4_is_documentation a b c d \<longleftrightarrow>
     (a = 192 \<and> b = 0 \<and> c = 2) \<or> (a = 198 \<and> b = 51 \<and> c = 100) \<or> (a = 203 \<and> b = 0 \<and> c = 113)"

definition v4_is_unspecified :: "u8 \<Rightarrow> u8 \<Rightarrow> u8 \<Rightarrow> u8 \<Rightarrow> bool" where
  "v4_is_unspecified a b c d \<longleftrightarrow> a = 0 \<and> b = 0 \<and> c = 0 \<and> d = 0"

definition v4_is_multicast :: "u8 \<Rightarrow> u8 \<Rightarrow> u8 \<Rightarrow> u8 \<Rightarrow> bool" where
  "v4_is_multicast a b c d \<longleftrightarrow> 224 \<le> a \<and> a \<le> 239"

definition is_safe_v4 :: "u8 \<Rightarrow> u8 \<Rightarrow> u8 \<Rightarrow> u8 \<Rightarrow> bool" where
  "is_safe_v4 a b c d =
     (if v4_is_loopback a b c d \<or> v4_is_private a b c d \<or> v4_is_link_local a b c d
         \<or> v4_is_broadcast a b c d \<or> v4_is_documentation a b c d \<or> v4_is_unspecified a b c d
         \<or> v4_is_multicast a b c d
      then False
      else if a = 100 \<and> 64 \<le> b \<and> b \<le> 127 then False
      else if a = 0 then False
      else True)"

fun is_safe_ip :: "ip_addr \<Rightarrow> bool" where
  "is_safe_ip (V4 a b c d) = is_safe_v4 a b c d"
| "is_safe_ip (V6 s0 s1 s2 s3 s4 s5 s6 s7) =
     (if (s0 = 0 \<and> s1 = 0 \<and> s2 = 0 \<and> s3 = 0 \<and> s4 = 0 \<and> s5 = 0 \<and> s6 = 0 \<and> s7 = 1)
         \<or> (s0 = 0 \<and> s1 = 0 \<and> s2 = 0 \<and> s3 = 0 \<and> s4 = 0 \<and> s5 = 0 \<and> s6 = 0 \<and> s7 = 0)
         \<or> s0 AND 0xff00 = 0xff00
      then False
      else if s0 AND 0xfe00 = 0xfc00 then False
      else if s0 AND 0xffc0 = 0xfe80 then False
      else if s0 = 0 \<and> s1 = 0 \<and> s2 = 0 \<and> s3 = 0 \<and> s4 = 0 \<and> s5 = 0xffff
      then is_safe_v4 (ucast (drop_bit 8 s6)) (ucast (s6 AND 0xff))
             (ucast (drop_bit 8 s7)) (ucast (s7 AND 0xff))
      else True)"

definition is_ip_allowed :: "ip_addr \<Rightarrow> guard_level \<Rightarrow> bool" where
  "is_ip_allowed ip level =
     (if is_metadata_ip ip then False
      else if level = UpstreamOnly then True
      else is_safe_ip ip)"

definition is_blocked_metadata_hostname :: "string \<Rightarrow> bool" where
  "is_blocked_metadata_hostname host \<longleftrightarrow>
     host \<in> set [''metadata.google.internal'', ''metadata.goog'', ''instance-data'', ''metadata'']"

definition is_blocked_hostname_strict :: "string \<Rightarrow> bool" where
  "is_blocked_hostname_strict host \<longleftrightarrow> host = ''localhost''"

definition is_allowed_upstream_port :: "nat \<Rightarrow> bool" where
  "is_allowed_upstream_port port \<longleftrightarrow>
     port = 80 \<or> port = 443 \<or> (8080 \<le> port \<and> port \<le> 8090) \<or> (3000 \<le> port \<and> port \<le> 3999)
     \<or> (9000 \<le> port \<and> port \<le> 9999) \<or> port = 5000 \<or> port = 5001 \<or> port = 7000 \<or> port = 7001
     \<or> (8000 \<le> port \<and> port \<le> 8079) \<or> port = 8443"

section \<open>Pinning\<close>

text \<open>
  The loop over the resolved addresses: it stops at the first forbidden one, and keeps the
  first address it saw.
\<close>

fun scan_addrs ::
  "guard_level \<Rightarrow> string \<Rightarrow> ip_addr list \<Rightarrow> ip_addr option \<Rightarrow> url_guard_error + ip_addr option"
where
  "scan_addrs level host [] pinned = Inr pinned"
| "scan_addrs level host (ip # ips) pinned =
     (if \<not> is_ip_allowed ip level
      then Inl (Forbidden (host @ '' resolves to '' @ show_ip ip))
      else scan_addrs level host ips (case pinned of None \<Rightarrow> Some ip | Some p \<Rightarrow> Some p))"

definition pin_url :: "net_env \<Rightarrow> string \<Rightarrow> guard_level \<Rightarrow> url_guard_error + pinned_url" where
  "pin_url env raw_url level =
     and_then (map_err Invalid (parse_url env raw_url)) (\<lambda>u.
     and_then (ensure (url_scheme u = ''http'' \<or> url_scheme u = ''https'')
                 (BadScheme (url_scheme u))) (\<lambda>_.
     and_then (ok_or MissingHost (url_host_str u)) (\<lambda>host.
     let host_lower = to_ascii_lowercase host in
     and_then (ensure (\<not> is_blocked_metadata_hostname host_lower)
                 (Forbidden (''metadata: '' @ host))) (\<lambda>_.
     and_then (ensure (\<not> (level = Strict \<and> is_blocked_hostname_strict host_lower))
                 (Forbidden (''blocked: '' @ host))) (\<lambda>_.
     and_then (ok_or MissingHost (url_port_or_known_default u)) (\<lambda>port.
     let pin = (\<lambda>ip. \<lparr>pin_url_text = raw_url, pin_host = host, pin_ip = ip, pin_port = port\<rparr>) in
     (case parse_ip host of
        Some ip \<Rightarrow>
          and_then (ensure (is_ip_allowed ip level) (Forbidden (show_ip ip))) (\<lambda>_. Inr (pin ip))
      | None \<Rightarrow>
          and_then (map_err DnsError (lookup_host env (host @ '':'' @ show_nat port))) (\<lambda>addrs.
          and_then (scan_addrs level host addrs None) (\<lambda>pinned.
          and_then (ok_or (DnsError ''no addresses'') pinned) (\<lambda>ip. Inr (pin ip)))))))))))"

definition pin_outbound_url :: "net_env \<Rightarrow> string \<Rightarrow> url_guard_error + pinned_url" where
  "pin_outbound_url env raw_url = pin_url env raw_url Strict"

definition pin_upstream_url :: "net_env \<Rightarrow> string \<Rightarrow> url_guard_error + pinned_url" where
  "pin_upstream_url env raw_url =
     and_then (map_err Invalid (parse_url env raw_url)) (\<lambda>u.
     and_then (case url_port u of
         Some port \<Rightarrow> ensure (is_allowed_upstream_port port)
           (Forbidden (''port '' @ show_nat port @ '' not allowed for upstream''))
       | None \<Rightarrow> Inr ()) (\<lambda>_.
     pin_url env raw_url UpstreamOnly))"

section \<open>Validation without pinning\<close>

fun check_addrs ::
  "guard_level \<Rightarrow> string \<Rightarrow> ip_addr list \<Rightarrow> bool \<Rightarrow> url_guard_error + bool" where
  "check_addrs level host [] any = Inr any"
| "check_addrs level host (ip # ips) any =
     (if \<not> is_ip_allowed ip level
      then Inl (Forbidden (host @ '' resolves to '' @ show_ip ip))
      else check_addrs level host ips True)"

definition validate_url :: "net_env \<Rightarrow> string \<Rightarrow> guard_level \<Rightarrow> url_guard_error + unit" where
  "validate_url env raw_url level =
     and_then (map_err Invalid (parse_url env raw_url)) (\<lambda>u.
     and_then (ensure (url_scheme u = ''http'' \<or> url_scheme u = ''https'')
                 (BadScheme (url_scheme u))) (\<lambda>_.
     and_then (ok_or MissingHost (url_host_str u)) (\<lambda>host.
     let host_lower = to_ascii_lowercase host in
     and_then (ensure (\<not> is_blocked_metadata_hostname host_lower)
                 (Forbidden (''blocked metadata hostname: '' @ host))) (\<lambda>_.
     and_then (ensure (\<not> (level = Strict \<and> is_blocked_hostname_strict host_lower))
                 (Forbidden (''blocked hostname: '' @ host))) (\<lambda>_.
     (case parse_ip host of
        Some ip \<Rightarrow> ensure (is_ip_allowed ip level) (Forbidden (show_ip ip))
      | None \<Rightarrow>
          let port = (case url_port_or_known_default u of Some p \<Rightarrow> p | None \<Rightarrow> 443) in
          and_then (map_err DnsError (lookup_host env (host @ '':'' @ show_nat port))) (\<lambda>addrs.
          and_then (check_addrs level host addrs False) (\<lambda>any.
          ensure any (DnsError ''no addresses resolved'')))))))))"

definition validate_outbound_url :: "net_env \<Rightarrow> string \<Rightarrow> url_guard_error + unit" where
  "validate_outbound_url env raw_url = validate_url env raw_url Strict"

definition validate_upstream_url :: "net_env \<Rightarrow> string \<Rightarrow> url_guard_error + unit" where
  "validate_upstream_url env raw_url =
     and_then (map_err Invalid (parse_url env raw_url)) (\<lambda>u.
     and_then (case url_port u of
         Some port \<Rightarrow> ensure (is_allowed_upstream_port port)
           (Forbidden (''port '' @ show_nat port @ '' not allowed for upstream ''
              @ ''(text protocols vulnerable to HTTP smuggling)''))
       | None \<Rightarrow> Inr ()) (\<lambda>_.
     validate_url env raw_url UpstreamOnly))"

section \<open>The cache of pinned URLs\<close>

record pin_cache =
  pc_inner :: "(string, pinned_url \<times> nat) dashmap"
  pc_ttl_secs :: nat

definition pin_cache_new :: "nat \<Rightarrow> pin_cache" where
  "pin_cache_new ttl = \<lparr>pc_inner = [], pc_ttl_secs = max ttl 1\<rparr>"

text \<open>
  \<open>pin_upstream\<close> reads the clock when it looks an entry up (\<open>now\<close>) and again when it stores
  the new one (\<open>now'\<close>); in between it resolves the name.
\<close>

definition pc_pin_upstream ::
  "net_env \<Rightarrow> nat \<Rightarrow> nat \<Rightarrow> string \<Rightarrow> pin_cache \<Rightarrow> pin_cache \<times> (url_guard_error + pinned_url)"
where
  "pc_pin_upstream env now now' raw_url pc =
     (let resolve = (case pin_upstream_url env raw_url of
             Inl e \<Rightarrow> (pc, Inl e)
           | Inr pinned \<Rightarrow>
               (pc\<lparr>pc_inner := dm_insert raw_url (pinned, now' + pc_ttl_secs pc) (pc_inner pc)\<rparr>,
                Inr pinned))
      in case dm_get (pc_inner pc) raw_url of
           Some (cached, expiry) \<Rightarrow> if now < expiry then (pc, Inr cached) else resolve
         | None \<Rightarrow> resolve)"

section \<open>What strict mode rejects\<close>

text \<open>
  The specification: the ranges of the IPv4 address space that are not publicly routable,
  each by its first and last address.
\<close>

fun v4_num :: "nat \<times> nat \<times> nat \<times> nat \<Rightarrow> nat" where
  "v4_num (a, b, c, d) = a * 2 ^ 24 + b * 2 ^ 16 + c * 2 ^ 8 + d"

definition reserved_v4 :: "((nat \<times> nat \<times> nat \<times> nat) \<times> (nat \<times> nat \<times> nat \<times> nat)) list" where
  "reserved_v4 =
     [((0, 0, 0, 0), (0, 255, 255, 255)), ((10, 0, 0, 0), (10, 255, 255, 255)),
      ((100, 64, 0, 0), (100, 127, 255, 255)), ((127, 0, 0, 0), (127, 255, 255, 255)),
      ((169, 254, 0, 0), (169, 254, 255, 255)), ((172, 16, 0, 0), (172, 31, 255, 255)),
      ((192, 0, 2, 0), (192, 0, 2, 255)), ((192, 168, 0, 0), (192, 168, 255, 255)),
      ((198, 51, 100, 0), (198, 51, 100, 255)), ((203, 0, 113, 0), (203, 0, 113, 255)),
      ((224, 0, 0, 0), (239, 255, 255, 255)), ((255, 255, 255, 255), (255, 255, 255, 255))]"

definition in_range :: "nat \<Rightarrow> (nat \<times> nat \<times> nat \<times> nat) \<times> (nat \<times> nat \<times> nat \<times> nat) \<Rightarrow> bool" where
  "in_range n r \<longleftrightarrow> v4_num (fst r) \<le> n \<and> n \<le> v4_num (snd r)"

lemma high_digit:
  fixes q q' r r' B :: nat
  assumes "r < B" "r' < B"
  shows "q * B + r \<le> q' * B + r' \<longleftrightarrow> q < q' \<or> (q = q' \<and> r \<le> r')"
proof -
  have up: "q1 * B + r1 < q2 * B + r2" if "q1 < q2" "r1 < B" for q1 q2 r1 r2 :: nat
  proof -
    from that(1) have "(q1 + 1) * B \<le> q2 * B" by (intro mult_right_mono) auto
    with that(2) show ?thesis by simp
  qed
  show ?thesis
    using up [of q q' r r'] up [of q' q r' r] assms
    by (cases q q' rule: linorder_cases) auto
qed

lemma v4_num_le:
  assumes "b < 256" "c < 256" "d < 256" "b' < 256" "c' < 256" "d' < 256"
  shows "v4_num (a, b, c, d) \<le> v4_num (a', b', c', d') \<longleftrightarrow>
    a < a' \<or> (a = a' \<and> (b < b' \<or> (b = b' \<and> (c < c' \<or> (c = c' \<and> d \<le> d')))))"
proof -
  have eq: "v4_num (a, b, c, d) = a * 2 ^ 24 + (b * 2 ^ 16 + (c * 2 ^ 8 + d))" for a b c d
    by simp
  show ?thesis
    unfolding eq using assms by (subst high_digit; simp)+
qed

lemma range_iff:
  assumes "b < 256" "c < 256" "d < 256" "y < 256" "y' < 256" "z < 256"
  shows "in_range (v4_num (a, b, c, d)) ((x, 0, 0, 0), (x', 255, 255, 255)) \<longleftrightarrow> x \<le> a \<and> a \<le> x'"
    and "in_range (v4_num (a, b, c, d)) ((x, y, 0, 0), (x, y', 255, 255)) \<longleftrightarrow>
      a = x \<and> y \<le> b \<and> b \<le> y'"
    and "in_range (v4_num (a, b, c, d)) ((x, y, z, 0), (x, y, z, 255)) \<longleftrightarrow>
      a = x \<and> b = y \<and> c = z"
    and "in_range (v4_num (a, b, c, d)) ((255, 255, 255, 255), (255, 255, 255, 255)) \<longleftrightarrow>
      (a, b, c, d) = (255, 255, 255, 255)"
  using assms by (auto simp: in_range_def v4_num_le simp del: v4_num.simps)

lemma unat_u8_eq: "a = b \<longleftrightarrow> unat (a :: u8) = unat b"
  by (simp add: word_unat_eq_iff)

text \<open>
  Strict mode blocks exactly the reserved IPv4 space. An IPv4 address is accepted for
  an outbound (webhook) request if and only if it lies in none of the listed ranges:
  loopback, RFC 1918, link-local with the metadata address, carrier-grade NAT, this-network,
  documentation, multicast and broadcast.
\<close>

theorem strict_v4_exact:
  "is_ip_allowed (V4 a b c d) Strict \<longleftrightarrow>
     (\<forall>r \<in> set reserved_v4. \<not> in_range (unat (v4_bits (V4 a b c d))) r)"
proof -
  note le = unat_u8_less [of a] unat_u8_less [of b] unat_u8_less [of c] unat_u8_less [of d]
  define o1 o2 o3 o4 where octets: "o1 = unat a" "o2 = unat b" "o3 = unat c" "o4 = unat d"
  note le' = le [folded octets]
  have "is_ip_allowed (V4 a b c d) Strict \<longleftrightarrow> is_safe_v4 a b c d"
    by (auto simp: is_ip_allowed_def is_safe_v4_def v4_is_link_local_def)
  also have "\<dots> \<longleftrightarrow> (\<forall>r \<in> set reserved_v4. \<not> in_range (v4_num (o1, o2, o3, o4)) r)"
    using le'
    by (simp add: reserved_v4_def range_iff is_safe_v4_def v4_is_loopback_def
        v4_is_private_def v4_is_link_local_def v4_is_broadcast_def v4_is_documentation_def
        v4_is_unspecified_def v4_is_multicast_def unat_u8_eq word_le_nat_alt octets [symmetric]
        del: v4_num.simps)
  also have "v4_num (o1, o2, o3, o4) = unat (v4_bits (V4 a b c d))"
    by (simp only: v4_bits_value octets v4_num.simps)
  finally show ?thesis .
qed

section \<open>IPv4-mapped addresses\<close>

definition mapped_v4 :: "u8 \<Rightarrow> u8 \<Rightarrow> u8 \<Rightarrow> u8 \<Rightarrow> ip_addr" where
  "mapped_v4 a b c d = V6 0 0 0 0 0 0xffff (u16_of_bytes a b) (u16_of_bytes c d)"

text \<open>
  In strict mode an IPv4-mapped IPv6 address is judged as the IPv4 address it carries,
  so wrapping a forbidden address in \<open>::ffff:a.b.c.d\<close> gains nothing.
\<close>

theorem strict_mapped_v4:
  "is_ip_allowed (mapped_v4 a b c d) Strict = is_ip_allowed (V4 a b c d) Strict"
  by (auto simp: is_ip_allowed_def mapped_v4_def is_safe_v4_def v4_is_link_local_def)

text \<open>
  The upstream mode has no such rule: it refuses the metadata address itself, and lets its
  IPv4-mapped form through.
\<close>

theorem upstream_mapped_metadata_gap:
  "\<not> is_ip_allowed (V4 169 254 169 254) UpstreamOnly \<and>
   is_ip_allowed (mapped_v4 169 254 169 254) UpstreamOnly"
  by (simp add: is_ip_allowed_def mapped_v4_def)

text \<open>Class E (240.0.0.0/4) is reserved, and strict mode accepts it up to the broadcast address.\<close>

theorem strict_accepts_class_e: "is_ip_allowed (V4 240 0 0 1) Strict"
  by (simp add: is_ip_allowed_def is_safe_v4_def v4_is_loopback_def v4_is_private_def
      v4_is_link_local_def v4_is_broadcast_def v4_is_documentation_def v4_is_unspecified_def
      v4_is_multicast_def)

section \<open>Pinned URLs\<close>

lemma scan_addrs_Inr:
  "scan_addrs level host ips p = Inr q \<longleftrightarrow>
     (\<forall>ip \<in> set ips. is_ip_allowed ip level) \<and>
     q = (case p of Some x \<Rightarrow> Some x | None \<Rightarrow> if ips = [] then None else Some (hd ips))"
  by (induction level host ips p rule: scan_addrs.induct) (auto split: option.splits)

lemma check_addrs_Inr:
  "check_addrs level host ips any = Inr q \<longleftrightarrow>
     (\<forall>ip \<in> set ips. is_ip_allowed ip level) \<and> q = (any \<or> ips \<noteq> [])"
  by (induction level host ips any rule: check_addrs.induct) auto

lemma pin_url_Inr:
  "pin_url env raw_url level = Inr p \<longleftrightarrow>
     (\<exists>u host port.
        parse_url env raw_url = Inr u \<and> url_scheme u \<in> {''http'', ''https''} \<and>
        url_host_str u = Some host \<and> url_port_or_known_default u = Some port \<and>
        \<not> is_blocked_metadata_hostname (to_ascii_lowercase host) \<and>
        (level = Strict \<longrightarrow> \<not> is_blocked_hostname_strict (to_ascii_lowercase host)) \<and>
        p = \<lparr>pin_url_text = raw_url, pin_host = host, pin_ip = pin_ip p, pin_port = port\<rparr> \<and>
        (case parse_ip host of
           Some ip \<Rightarrow> pin_ip p = ip \<and> is_ip_allowed ip level
         | None \<Rightarrow> \<exists>ips. lookup_host env (host @ '':'' @ show_nat port) = Inr ips \<and> ips \<noteq> [] \<and>
             pin_ip p = hd ips \<and> (\<forall>ip \<in> set ips. is_ip_allowed ip level)))"
  by (cases p)
    (auto simp: pin_url_def result_simps Let_def scan_addrs_Inr split: option.splits if_splits)

lemma pin_upstream_url_allowed:
  "pin_upstream_url env raw_url = Inr p \<Longrightarrow> is_ip_allowed (pin_ip p) UpstreamOnly"
  by (auto simp: pin_upstream_url_def result_simps pin_url_Inr split: option.splits)

text \<open>
  C3: A pinned URL is safe to connect to. When pinning succeeds, the scheme is http or
  https, the host is neither a metadata name nor (in strict mode) localhost, and the pinned
  address is the literal host or the first of the resolved addresses, every one of which
  the guard allows: a name that resolves to one public and one private address is refused.
\<close>

theorem pin_url_sound:
  assumes "pin_url env raw_url level = Inr p"
  shows "is_ip_allowed (pin_ip p) level \<and> pin_url_text p = raw_url \<and>
    (\<exists>u. parse_url env raw_url = Inr u \<and> url_scheme u \<in> {''http'', ''https''} \<and>
       url_host_str u = Some (pin_host p) \<and> url_port_or_known_default u = Some (pin_port p) \<and>
       \<not> is_blocked_metadata_hostname (to_ascii_lowercase (pin_host p)) \<and>
       \<not> (level = Strict \<and> is_blocked_hostname_strict (to_ascii_lowercase (pin_host p))) \<and>
       (parse_ip (pin_host p) = Some (pin_ip p) \<or>
        parse_ip (pin_host p) = None \<and>
        (\<exists>ips. lookup_host env (pin_host p @ '':'' @ show_nat (pin_port p)) = Inr ips \<and>
           ips \<noteq> [] \<and> pin_ip p = hd ips \<and> (\<forall>ip \<in> set ips. is_ip_allowed ip level))))"
proof -
  obtain u host port where
    u: "parse_url env raw_url = Inr u" "url_scheme u \<in> {''http'', ''https''}"
       "url_host_str u = Some host" "url_port_or_known_default u = Some port"
       "\<not> is_blocked_metadata_hostname (to_ascii_lowercase host)"
       "\<not> (level = Strict \<and> is_blocked_hostname_strict (to_ascii_lowercase host))"
    and p: "p = \<lparr>pin_url_text = raw_url, pin_host = host, pin_ip = pin_ip p, pin_port = port\<rparr>"
    and ip: "case parse_ip host of
           Some ip \<Rightarrow> pin_ip p = ip \<and> is_ip_allowed ip level
         | None \<Rightarrow> \<exists>ips. lookup_host env (host @ '':'' @ show_nat port) = Inr ips \<and> ips \<noteq> [] \<and>
             pin_ip p = hd ips \<and> (\<forall>ip \<in> set ips. is_ip_allowed ip level)"
    using assms unfolding pin_url_Inr by blast
  have parts: "pin_host p = host" "pin_port p = port" "pin_url_text p = raw_url" by (subst p, simp)+
  show ?thesis
  proof (cases "parse_ip host")
    case None
    with ip obtain ips where "lookup_host env (host @ '':'' @ show_nat port) = Inr ips"
      "ips \<noteq> []" "pin_ip p = hd ips" "\<forall>ip \<in> set ips. is_ip_allowed ip level"
      by auto
    then show ?thesis using u None by (auto simp: parts)
  next
    case (Some a)
    with ip u show ?thesis by (auto simp: parts)
  qed
qed

text \<open>
  Validating and pinning agree. For a URL with a known port, the pre-flight
  \<open>validate_url\<close> accepts exactly the URLs that \<open>pin_url\<close> can pin in the same network
  environment.
\<close>

theorem validate_iff_pin:
  assumes "parse_url env raw_url = Inr u" "url_port_or_known_default u = Some port"
  shows "validate_url env raw_url level = Inr () \<longleftrightarrow> (\<exists>p. pin_url env raw_url level = Inr p)"
proof (cases "url_host_str u")
  case None
  with assms show ?thesis
    by (simp add: validate_url_def pin_url_def result_simps)
next
  case (Some host)
  let ?h = "to_ascii_lowercase host"
  have v: "validate_url env raw_url level = Inr () \<longleftrightarrow> url_scheme u \<in> {''http'', ''https''} \<and>
      \<not> is_blocked_metadata_hostname ?h \<and> (level = Strict \<longrightarrow> \<not> is_blocked_hostname_strict ?h) \<and>
      (case parse_ip host of Some ip \<Rightarrow> is_ip_allowed ip level
       | None \<Rightarrow> \<exists>ips. lookup_host env (host @ '':'' @ show_nat port) = Inr ips \<and> ips \<noteq> [] \<and>
           (\<forall>ip \<in> set ips. is_ip_allowed ip level))"
    using assms Some
    by (simp add: validate_url_def result_simps Let_def check_addrs_Inr split: option.splits)
      blast
  show ?thesis
  proof (cases "parse_ip host")
    case None
    with v assms Some show ?thesis
      by (simp add: pin_url_Inr) (metis pinned_url.select_convs(3))
  next
    case (Some ip)
    with v assms \<open>url_host_str u = Some host\<close> show ?thesis
      by (simp add: pin_url_Inr) (metis pinned_url.select_convs(3))
  qed
qed

section \<open>Freshness of the cache\<close>

type_synonym pin_request = "net_env \<times> nat \<times> nat \<times> string"

fun pc_step :: "pin_request \<Rightarrow> pin_cache \<Rightarrow> pin_cache" where
  "pc_step (env, now, now', raw_url) pc = fst (pc_pin_upstream env now now' raw_url pc)"

text \<open>Each entry is the result of some resolution, stored with that moment's expiry.\<close>

definition resolved_by :: "pin_request list \<Rightarrow> nat \<Rightarrow> string \<Rightarrow> pinned_url \<Rightarrow> nat \<Rightarrow> bool" where
  "resolved_by reqs ttl raw_url p expiry \<longleftrightarrow>
     (\<exists>(env, now, now', r) \<in> set reqs.
        r = raw_url \<and> pin_upstream_url env raw_url = Inr p \<and> expiry = now' + ttl)"

definition pc_invar :: "pin_request list \<Rightarrow> pin_cache \<Rightarrow> bool" where
  "pc_invar reqs pc \<longleftrightarrow>
     (\<forall>raw_url p expiry. dm_get (pc_inner pc) raw_url = Some (p, expiry) \<longrightarrow>
        resolved_by reqs (pc_ttl_secs pc) raw_url p expiry)"

lemma resolved_by_snoc:
  "resolved_by reqs ttl raw_url p expiry \<Longrightarrow> resolved_by (reqs @ [req]) ttl raw_url p expiry"
  by (auto simp: resolved_by_def)

lemma pc_pin_upstream_cases:
  assumes "pc_pin_upstream env now now' raw_url pc = (pc', r)"
  obtains (hit) p expiry where "dm_get (pc_inner pc) raw_url = Some (p, expiry)"
      "now < expiry" "pc' = pc" "r = Inr p"
    | (fresh) p where "pin_upstream_url env raw_url = Inr p" "r = Inr p"
      "pc' = pc\<lparr>pc_inner := dm_insert raw_url (p, now' + pc_ttl_secs pc) (pc_inner pc)\<rparr>"
    | (err) e where "pin_upstream_url env raw_url = Inl e" "r = Inl e" "pc' = pc"
  using assms
  by (auto simp: pc_pin_upstream_def Let_def split: option.splits sum.splits if_splits)

lemma pc_step_invar:
  assumes "pc_invar reqs pc"
  shows "pc_invar (reqs @ [req]) (pc_step req pc) \<and> pc_ttl_secs (pc_step req pc) = pc_ttl_secs pc"
proof -
  obtain env now now' raw_url where req: "req = (env, now, now', raw_url)"
    by (cases req) auto
  obtain pc' r where step: "pc_pin_upstream env now now' raw_url pc = (pc', r)"
    by (metis prod.exhaust)
  have keep: "pc_invar (reqs @ [req]) pc"
    using assms unfolding pc_invar_def
    by (blast intro: resolved_by_snoc)
  from step show ?thesis
  proof (cases rule: pc_pin_upstream_cases)
    case (fresh p)
    have "resolved_by (reqs @ [req]) (pc_ttl_secs pc) raw_url p (now' + pc_ttl_secs pc)"
      using fresh(1) by (auto simp: resolved_by_def req)
    with fresh keep step show ?thesis
      by (auto simp: req pc_invar_def dashmap_simps)
  qed (use keep step req in auto)
qed

lemma pc_run_invar:
  "pc_invar reqs (fold pc_step reqs (pin_cache_new ttl)) \<and>
   pc_ttl_secs (fold pc_step reqs (pin_cache_new ttl)) = max ttl 1"
proof (induction reqs rule: rev_induct)
  case Nil
  then show ?case by (simp add: pc_invar_def pin_cache_new_def)
next
  case (snoc req reqs)
  then show ?case using pc_step_invar [of reqs _ req] by simp
qed

text \<open>
  The pin cache bounds the rebinding window. Whatever requests came before, a pin
  served at time \<open>now\<close> is the answer of a successful guarded resolution of the same URL
  (this request's or an earlier one's) that was stored less than the cache's TTL before
  \<open>now\<close>; so its address passed the upstream guard.
\<close>

theorem pin_cache_fresh:
  assumes "pc_pin_upstream env now now' raw_url (fold pc_step reqs (pin_cache_new ttl)) = (pc', Inr p)"
    and "now \<le> now'"
  shows "is_ip_allowed (pin_ip p) UpstreamOnly \<and>
    (\<exists>(env', t, t', r) \<in> set (reqs @ [(env, now, now', raw_url)]).
       r = raw_url \<and> pin_upstream_url env' raw_url = Inr p \<and> now < t' + max ttl 1)"
proof -
  let ?pc = "fold pc_step reqs (pin_cache_new ttl)"
  have inv: "pc_invar reqs ?pc" and ttl: "pc_ttl_secs ?pc = max ttl 1"
    using pc_run_invar by auto
  have "\<exists>(env', t, t', r) \<in> set (reqs @ [(env, now, now', raw_url)]).
       r = raw_url \<and> pin_upstream_url env' raw_url = Inr p \<and> now < t' + max ttl 1"
    using assms(1)
  proof (cases rule: pc_pin_upstream_cases)
    case (hit p' expiry)
    then have "resolved_by reqs (max ttl 1) raw_url p' expiry"
      using inv ttl unfolding pc_invar_def by metis
    with hit show ?thesis unfolding resolved_by_def by fastforce
  next
    case (fresh p')
    then show ?thesis using assms(2) by auto
  qed auto
  moreover from this have "is_ip_allowed (pin_ip p) UpstreamOnly"
    by (auto intro: pin_upstream_url_allowed)
  ultimately show ?thesis by blast
qed

section \<open>Witnesses\<close>

definition demo_env :: net_env where
  "demo_env = \<lparr>parse_url = (\<lambda>s. Inr \<lparr>url_scheme = ''http'', url_host_str = Some ''svc'',
       url_port = None, url_port_or_known_default = Some 80\<rparr>),
     lookup_host = (\<lambda>_. Inr [V4 10 0 0 7])\<rparr>"

lemma parse_ip_svc: "parse_ip ''svc'' = None"
  by (simp add: parse_ip_def read_ipv4_def read_octet_def read_sep_def read_number_def
      is_digit_def to_digit_def read_ipv6_def read_groups.simps read_char_def)

lemma demo_pin:
  "pin_url demo_env ''http://svc/'' UpstreamOnly =
     Inr \<lparr>pin_url_text = ''http://svc/'', pin_host = ''svc'', pin_ip = V4 10 0 0 7, pin_port = 80\<rparr>"
proof -
  have "\<not> is_blocked_metadata_hostname (to_ascii_lowercase ''svc'')" by code_simp
  then show ?thesis
    by (simp add: pin_url_def demo_env_def ensure_def ok_or_def map_err_def parse_ip_svc Let_def
        is_ip_allowed_def)
qed

theorem pin_url_sound_witness: "is_ip_allowed (V4 10 0 0 7) UpstreamOnly"
  using pin_url_sound [OF demo_pin] by simp

theorem validate_iff_pin_witness: "validate_url demo_env ''http://svc/'' UpstreamOnly = Inr ()"
proof -
  obtain u where "parse_url demo_env ''http://svc/'' = Inr u"
    "url_port_or_known_default u = Some 80"
    by (simp add: demo_env_def)
  from validate_iff_pin [OF this] show ?thesis using demo_pin by blast
qed

theorem pin_cache_fresh_witness:
  "\<exists>p. snd (pc_pin_upstream demo_env 100 100 ''http://svc/''
          (fold pc_step [(demo_env, 50, 50, ''http://svc/'')] (pin_cache_new 60))) = Inr p \<and>
       is_ip_allowed (pin_ip p) UpstreamOnly"
proof -
  let ?p = "\<lparr>pin_url_text = ''http://svc/'', pin_host = ''svc'', pin_ip = V4 10 0 0 7, pin_port = 80\<rparr>"
  let ?pc = "fold pc_step [(demo_env, 50, 50, ''http://svc/'')] (pin_cache_new 60)"
  have "pin_upstream_url demo_env ''http://svc/'' = Inr ?p"
    using demo_pin by (simp add: pin_upstream_url_def demo_env_def map_err_def)
  then have "snd (pc_pin_upstream demo_env 100 100 ''http://svc/'' ?pc) = Inr ?p"
    by (simp add: pc_pin_upstream_def pin_cache_new_def Let_def)
  then obtain pc' where
    r: "pc_pin_upstream demo_env 100 100 ''http://svc/'' ?pc = (pc', Inr ?p)"
    by (metis prod.collapse)
  from pin_cache_fresh [OF r] r show ?thesis by simp
qed

theorem strict_v4_exact_witness: "is_ip_allowed (V4 8 8 8 8) Strict"
  unfolding strict_v4_exact
  by (simp add: v4_bits_value reserved_v4_def range_iff in_range_def del: v4_bits.simps)

end
