(* ===== verification/Rate_Limiter.thy ===== *)
theory Rate_Limiter
  imports Ip_Addr Interfaces
begin

text \<open>
  The rate limiter of \<open>src/middleware/rate_limit.rs\<close>: CIDR entries for trusted proxies, the
  extraction of the client address from a request, the shared map of fixed windows, and the
  background evictor. A request is its peer address and the text of its
  \<open>X-Forwarded-For\<close> header (\<open>None\<close> when absent or not visible ASCII).
\<close>

section \<open>CIDR entries\<close>

record cidr_entry =
  cidr_network :: ip_addr
  cidr_prefix :: nat

fun ip_max_prefix :: "ip_addr \<Rightarrow> nat" where
  "ip_max_prefix (V4 _ _ _ _) = 32"
| "ip_max_prefix (V6 _ _ _ _ _ _ _ _) = 128"

definition cidr_parse :: "string \<Rightarrow> cidr_entry option" where
  "cidr_parse s =
     (let trimmed = trim s
      in if trimmed = [] then None
         else case split_once CHR ''/'' trimmed of
           Some (addr_part, prefix_part) \<Rightarrow>
             (case parse_ip addr_part of
                None \<Rightarrow> None
              | Some network \<Rightarrow>
                  (case parse_uint 255 prefix_part of
                     None \<Rightarrow> None
                   | Some p \<Rightarrow>
                       if ip_max_prefix network < p then None
                       else Some \<lparr>cidr_network = network, cidr_prefix = p\<rparr>))
         | None \<Rightarrow>
             (case parse_ip trimmed of
                None \<Rightarrow> None
              | Some network \<Rightarrow>
                  Some \<lparr>cidr_network = network, cidr_prefix = ip_max_prefix network\<rparr>))"

definition cidr_contains :: "cidr_entry \<Rightarrow> ip_addr \<Rightarrow> bool" where
  "cidr_contains c ip =
     (case (cidr_network c, ip) of
        (V4 _ _ _ _, V4 _ _ _ _) \<Rightarrow>
          (let net_bits = v4_bits (cidr_network c); addr_bits = v4_bits ip
           in if cidr_prefix c = 0 then True
              else let mask = push_bit (32 - cidr_prefix c) (NOT 0)
                   in net_bits AND mask = addr_bits AND mask)
      | (V6 _ _ _ _ _ _ _ _, V6 _ _ _ _ _ _ _ _) \<Rightarrow>
          (let net_bits = v6_bits (cidr_network c); addr_bits = v6_bits ip
           in if cidr_prefix c = 0 then True
              else let mask = push_bit (128 - cidr_prefix c) (NOT 0)
                   in net_bits AND mask = addr_bits AND mask)
      | _ \<Rightarrow> False)"

definition parse_proxies :: "string list \<Rightarrow> cidr_entry list" where
  "parse_proxies xs = List.map_filter cidr_parse xs"

section \<open>State\<close>

record rl_entry =
  rl_count :: nat
  rl_window_start :: instant

record rate_limiter =
  rl_max_requests :: nat
  rl_window_secs :: nat
  rl_trust_xff :: bool
  rl_trusted_proxies :: "cidr_entry list"
  rl_limits :: "(string, rl_entry) dashmap"

definition rl_with_trusted_proxies :: "nat \<Rightarrow> nat \<Rightarrow> bool \<Rightarrow> string list \<Rightarrow> rate_limiter" where
  "rl_with_trusted_proxies max_requests window_secs trust_xff trusted_proxies =
     \<lparr>rl_max_requests = max max_requests 1, rl_window_secs = max window_secs 1,
      rl_trust_xff = trust_xff, rl_trusted_proxies = parse_proxies trusted_proxies,
      rl_limits = []\<rparr>"

definition rl_with_options :: "nat \<Rightarrow> nat \<Rightarrow> bool \<Rightarrow> rate_limiter" where
  "rl_with_options max_requests window_secs trust_xff =
     rl_with_trusted_proxies max_requests window_secs trust_xff []"

definition rl_new :: "nat \<Rightarrow> nat \<Rightarrow> rate_limiter" where
  "rl_new max_requests window_secs = rl_with_options max_requests window_secs False"

definition rl_set_limits :: "nat \<Rightarrow> nat \<Rightarrow> rate_limiter \<Rightarrow> rate_limiter" where
  "rl_set_limits max_requests window_secs l =
     l\<lparr>rl_max_requests := max max_requests 1, rl_window_secs := max window_secs 1\<rparr>"

definition rl_set_trust_xff :: "bool \<Rightarrow> rate_limiter \<Rightarrow> rate_limiter" where
  "rl_set_trust_xff v l = l\<lparr>rl_trust_xff := v\<rparr>"

definition rl_set_trusted_proxies :: "string list \<Rightarrow> rate_limiter \<Rightarrow> rate_limiter" where
  "rl_set_trusted_proxies xs l = l\<lparr>rl_trusted_proxies := parse_proxies xs\<rparr>"

definition rl_snapshot :: "rate_limiter \<Rightarrow> nat \<times> nat" where
  "rl_snapshot l = (rl_max_requests l, rl_window_secs l)"

definition rl_bucket_count :: "rate_limiter \<Rightarrow> nat" where
  "rl_bucket_count l = length (rl_limits l)"

text \<open>One tick of the evictor; the product \<open>window * 2\<close> is a 64-bit one.\<close>

definition rl_evict :: "instant \<Rightarrow> rate_limiter \<Rightarrow> rate_limiter" where
  "rl_evict now l =
     (let window = max (rl_window_secs l) 1;
          stale = from_secs ((window * 2) mod (u64_max + 1))
      in l\<lparr>rl_limits := dm_retain (\<lambda>_ e. now - rl_window_start e < stale) (rl_limits l)\<rparr>)"

section \<open>The client address\<close>

record rl_request =
  rl_peer :: "ip_addr option"
  rl_xff :: "string option"

definition trusted_by :: "cidr_entry list \<Rightarrow> ip_addr \<Rightarrow> bool" where
  "trusted_by proxies ip \<longleftrightarrow> list_ex (\<lambda>c. cidr_contains c ip) proxies"

text \<open>
  The walk over the hops, from the right: \<open>Some\<close> is the answer of an early return, \<open>None\<close>
  that the loop ran through.
\<close>

fun walk_hops :: "cidr_entry list \<Rightarrow> ip_addr \<Rightarrow> string list \<Rightarrow> string option" where
  "walk_hops proxies peer_ip [] = None"
| "walk_hops proxies peer_ip (hop # hops) =
     (if hop = [] then walk_hops proxies peer_ip hops
      else case parse_ip hop of
        Some ip \<Rightarrow>
          if trusted_by proxies ip then walk_hops proxies peer_ip hops else Some (show_ip ip)
      | None \<Rightarrow> Some (show_ip peer_ip))"

text \<open>Strategy 1: trusted proxies are configured.\<close>

definition client_ip_trusted :: "cidr_entry list \<Rightarrow> rl_request \<Rightarrow> string" where
  "client_ip_trusted proxies req =
     (case rl_peer req of
        None \<Rightarrow> ''unknown''
      | Some peer_ip \<Rightarrow>
          if \<not> trusted_by proxies peer_ip then show_ip peer_ip
          else (case rl_xff req of
            None \<Rightarrow> show_ip peer_ip
          | Some s \<Rightarrow>
              (let hops = map trim (split_on CHR '','' s)
               in case walk_hops proxies peer_ip (rev hops) of
                    Some r \<Rightarrow> r
                  | None \<Rightarrow>
                      (let candidate = trim (hd hops)
                       in if candidate \<noteq> [] then candidate else show_ip peer_ip))))"

text \<open>Strategies 2 and 3: the legacy flag, and the peer address.\<close>

definition client_ip_legacy :: "bool \<Rightarrow> rl_request \<Rightarrow> string" where
  "client_ip_legacy trust_xff req =
     (let fallback = (case rl_peer req of Some ip \<Rightarrow> show_ip ip | None \<Rightarrow> ''unknown'')
      in if trust_xff
         then (case rl_xff req of
                 None \<Rightarrow> fallback
               | Some s \<Rightarrow>
                   (let candidate = trim (hd (split_on CHR '','' s))
                    in if candidate \<noteq> [] then candidate else fallback))
         else fallback)"

definition client_ip :: "rl_request \<Rightarrow> rate_limiter \<Rightarrow> string" where
  "client_ip req l =
     (if rl_trusted_proxies l \<noteq> [] then client_ip_trusted (rl_trusted_proxies l) req
      else client_ip_legacy (rl_trust_xff l) req)"

section \<open>The middleware\<close>

datatype rl_answer = Pass | TooManyRequests nat

definition rl_hit :: "instant \<Rightarrow> string \<Rightarrow> rate_limiter \<Rightarrow> rate_limiter \<times> rl_answer" where
  "rl_hit now ip l =
     (let max_requests = max (rl_max_requests l) 1;
          window_duration = from_secs (max (rl_window_secs l) 1);
          e0 = dm_or_insert (rl_limits l) ip \<lparr>rl_count = 0, rl_window_start = now\<rparr>;
          e1 = (if window_duration < now - rl_window_start e0
                then \<lparr>rl_count = 0, rl_window_start = now\<rparr> else e0);
          e2 = e1\<lparr>rl_count := wrap_add32 (rl_count e1) 1\<rparr>;
          l' = l\<lparr>rl_limits := dm_insert ip e2 (rl_limits l)\<rparr>
      in if max_requests < rl_count e2
         then (l', TooManyRequests
                 ((window_duration - (now - rl_window_start e2)) div from_secs 1))
         else (l', Pass))"

definition rl_call :: "instant \<Rightarrow> rl_request \<Rightarrow> rate_limiter \<Rightarrow> rate_limiter \<times> rl_answer" where
  "rl_call now req l = rl_hit now (client_ip req l) l"

section \<open>Prefix matching\<close>

lemma mask_bits:
  "bit (push_bit k (NOT 0) :: 'a :: len word) i \<longleftrightarrow> k \<le> i \<and> i < LENGTH('a)"
  by (auto simp: bit_simps)

lemma masked_eq_iff:
  fixes x y :: "'a :: len word"
  shows "x AND push_bit k (NOT 0) = y AND push_bit k (NOT 0) \<longleftrightarrow> drop_bit k x = drop_bit k y"
proof
  assume h: "x AND push_bit k (NOT 0) = y AND push_bit k (NOT 0)"
  show "drop_bit k x = drop_bit k y"
  proof (rule bit_word_eqI)
    fix i assume "i < LENGTH('a)"
    have "bit (x AND push_bit k (NOT 0)) (k + i) = bit (y AND push_bit k (NOT 0)) (k + i)"
      using h by simp
    then show "bit (drop_bit k x) i = bit (drop_bit k y) i"
      by (auto simp: bit_simps dest: bit_imp_le_length)
  qed
next
  assume h: "drop_bit k x = drop_bit k y"
  show "x AND push_bit k (NOT 0) = y AND push_bit k (NOT 0)"
  proof (rule bit_word_eqI)
    fix i assume "i < LENGTH('a)"
    have "bit (drop_bit k x) (i - k) = bit (drop_bit k y) (i - k)" using h by simp
    then show "bit (x AND push_bit k (NOT 0)) i = bit (y AND push_bit k (NOT 0)) i"
      by (auto simp: bit_simps)
  qed
qed

lemma drop_bit_eq_iff_div:
  fixes x y :: "'a :: len word"
  shows "drop_bit k x = drop_bit k y \<longleftrightarrow> unat x div 2 ^ k = unat y div 2 ^ k"
  unfolding word_unat_eq_iff unat_drop_bit_eq
  by (simp only: drop_bit_eq_div [where 'a = nat])

lemma cidr_contains_div:
  assumes "cidr_network c = V4 n1 n2 n3 n4" "cidr_prefix c \<le> 32"
  shows "cidr_contains c (V4 a1 a2 a3 a4) \<longleftrightarrow>
    unat (v4_bits (V4 n1 n2 n3 n4)) div 2 ^ (32 - cidr_prefix c) =
    unat (v4_bits (V4 a1 a2 a3 a4)) div 2 ^ (32 - cidr_prefix c)"
proof (cases "cidr_prefix c = 0")
  case True
  have "unat w < 2 ^ LENGTH(32)" for w :: "32 word" by (rule unsigned_less)
  then have "unat w div 2 ^ 32 = 0" for w :: "32 word" by simp
  with True assms show ?thesis by (simp add: cidr_contains_def del: v4_bits.simps)
next
  case False
  with assms show ?thesis
    by (simp only: cidr_contains_def Let_def prod.case ip_addr.case if_False masked_eq_iff
        drop_bit_eq_iff_div)
qed

text \<open>
  A CIDR entry contains exactly the addresses that share its leading bits. For an IPv4
  network and a prefix of at most 32 (which is what parsing yields), an address matches if
  and only if the two addresses, as numbers, agree after the low \<open>32 - prefix\<close> bits are
  dropped; the prefix 0 matches every IPv4 address.
\<close>

theorem cidr_contains_v4:
  assumes "cidr_network c = V4 n1 n2 n3 n4" "cidr_prefix c \<le> 32"
  shows "cidr_contains c (V4 a1 a2 a3 a4) \<longleftrightarrow>
    unat (v4_bits (V4 n1 n2 n3 n4)) div 2 ^ (32 - cidr_prefix c) =
    unat (v4_bits (V4 a1 a2 a3 a4)) div 2 ^ (32 - cidr_prefix c)"
  using assms by (rule cidr_contains_div)

section \<open>Who is charged\<close>

text \<open>
  A client that does not come through a trusted proxy is charged under its own
  address: with a non-empty proxy list and an untrusted peer, the forwarded header is
  ignored whatever it says.
\<close>

theorem untrusted_peer_not_spoofable:
  assumes "rl_trusted_proxies l \<noteq> []" "rl_peer req = Some peer"
    and "\<not> trusted_by (rl_trusted_proxies l) peer"
  shows "client_ip req l = show_ip peer"
  using assms by (simp add: client_ip_def client_ip_trusted_def Let_def)

lemma walk_hops_skip:
  assumes "\<forall>h \<in> set hs. h = [] \<or> (\<exists>ip. parse_ip h = Some ip \<and> trusted_by proxies ip)"
  shows "walk_hops proxies peer (hs @ rest) = walk_hops proxies peer rest"
  using assms by (induction hs) auto

text \<open>
  C5: Behind trusted proxies the client is the rightmost untrusted hop. What stands to its
  left in the header, which the client itself can choose, has no influence.
\<close>

theorem rightmost_untrusted_hop:
  assumes "rl_trusted_proxies l \<noteq> []" "rl_peer req = Some peer"
    and "trusted_by (rl_trusted_proxies l) peer" "rl_xff req = Some s"
    and "map trim (split_on CHR '','' s) = spoofed @ hop # proxied"
    and "parse_ip hop = Some ip" "\<not> trusted_by (rl_trusted_proxies l) ip" "hop \<noteq> []"
    and "\<forall>h \<in> set proxied. h = [] \<or>
      (\<exists>a. parse_ip h = Some a \<and> trusted_by (rl_trusted_proxies l) a)"
  shows "client_ip req l = show_ip ip"
proof -
  have "walk_hops (rl_trusted_proxies l) peer (rev (spoofed @ hop # proxied)) = Some (show_ip ip)"
    using walk_hops_skip [of "rev proxied" "rl_trusted_proxies l" peer "hop # rev spoofed"] assms
    by simp
  with assms(1-5) show ?thesis by (simp add: client_ip_def client_ip_trusted_def Let_def)
qed

section \<open>How many requests pass\<close>

datatype rl_event = Hit instant string | Evict instant

fun rl_step :: "rl_event \<Rightarrow> rate_limiter \<Rightarrow> rate_limiter" where
  "rl_step (Hit now ip) l = fst (rl_hit now ip l)"
| "rl_step (Evict now) l = rl_evict now l"

fun rl_passed :: "string \<Rightarrow> rl_event list \<Rightarrow> rate_limiter \<Rightarrow> nat" where
  "rl_passed ip [] l = 0"
| "rl_passed ip (e # es) l =
     (case e of Hit now ip' \<Rightarrow> if ip' = ip \<and> snd (rl_hit now ip' l) = Pass then 1 else 0
      | Evict now \<Rightarrow> 0)
     + rl_passed ip es (rl_step e l)"

definition hits_of :: "string \<Rightarrow> rl_event list \<Rightarrow> nat" where
  "hits_of ip es = length (filter (\<lambda>e. \<exists>now. e = Hit now ip) es)"

fun event_time :: "rl_event \<Rightarrow> instant" where
  "event_time (Hit now ip) = now"
| "event_time (Evict now) = now"

definition rl_wf :: "rate_limiter \<Rightarrow> bool" where
  "rl_wf l \<longleftrightarrow> dm_wf (rl_limits l) \<and> 1 \<le> rl_max_requests l \<and> rl_max_requests l < u32_max \<and>
     1 \<le> rl_window_secs l \<and> 2 * rl_window_secs l \<le> u64_max"

abbreviation "window_of l \<equiv> from_secs (rl_window_secs l)"

lemma hits_of_Cons:
  "hits_of ip (e # es) = (if \<exists>now. e = Hit now ip then 1 else 0) + hits_of ip es"
  by (simp add: hits_of_def)

lemma rl_hit_config [simp]:
  "rl_max_requests (fst (rl_hit now ip l)) = rl_max_requests l"
  "rl_window_secs (fst (rl_hit now ip l)) = rl_window_secs l"
  by (simp_all add: rl_hit_def Let_def)

lemma rl_step_config [simp]:
  "rl_max_requests (rl_step e l) = rl_max_requests l"
  "rl_window_secs (rl_step e l) = rl_window_secs l"
  by (cases e; simp add: rl_hit_def rl_evict_def Let_def)+

lemma rl_step_wf: "rl_wf l \<Longrightarrow> rl_wf (rl_step e l)"
  by (cases e) (auto simp: rl_wf_def rl_hit_def rl_evict_def Let_def dashmap_simps)

interpretation rl: invariant_machine rl_step rl_wf
  by unfold_locales (rule rl_step_wf)

lemma evict_keeps:
  assumes "rl_wf l" "dm_get (rl_limits l) ip = Some e" "now - rl_window_start e \<le> window_of l"
  shows "dm_get (rl_limits (rl_evict now l)) ip = Some e"
proof -
  have "window_of l < from_secs ((rl_window_secs l * 2) mod (u64_max + 1))"
    using assms(1) by (auto simp: rl_wf_def from_secs_def u64_max_def)
  then show ?thesis
    using assms by (auto simp: rl_evict_def Let_def dashmap_simps rl_wf_def max_absorb1)
qed

lemma hit_other: "ip' \<noteq> ip \<Longrightarrow>
  dm_get (rl_limits (fst (rl_hit now ip' l))) ip = dm_get (rl_limits l) ip"
  by (simp add: rl_hit_def Let_def dashmap_simps)

lemma hit_in_window:
  assumes "rl_wf l" "dm_get (rl_limits l) ip = Some e" "now - rl_window_start e \<le> window_of l"
    and "rl_count e < u32_max"
  shows "dm_get (rl_limits (fst (rl_hit now ip l))) ip = Some (e\<lparr>rl_count := Suc (rl_count e)\<rparr>)"
    and "snd (rl_hit now ip l) = Pass \<longleftrightarrow> rl_count e < rl_max_requests l"
  using assms
  by (auto simp: rl_hit_def Let_def dashmap_simps dm_or_insert_def rl_wf_def wrap_add32_exact
      max_def)

lemma hit_new_window:
  assumes "rl_wf l"
    and "\<And>e. dm_get (rl_limits l) ip = Some e \<Longrightarrow> rl_window_start e + window_of l < now"
  shows "dm_get (rl_limits (fst (rl_hit now ip l))) ip = Some \<lparr>rl_count = 1, rl_window_start = now\<rparr>"
    and "snd (rl_hit now ip l) = Pass"
proof -
  let ?e0 = "dm_or_insert (rl_limits l) ip \<lparr>rl_count = 0, rl_window_start = now\<rparr>"
  have "(if window_of l < now - rl_window_start ?e0 then \<lparr>rl_count = 0, rl_window_start = now\<rparr>
      else ?e0) = \<lparr>rl_count = 0, rl_window_start = now\<rparr>"
    using assms(2) by (cases "dm_get (rl_limits l) ip") (force simp: dm_or_insert_def)+
  then show "dm_get (rl_limits (fst (rl_hit now ip l))) ip = Some \<lparr>rl_count = 1, rl_window_start = now\<rparr>"
    and "snd (rl_hit now ip l) = Pass"
    using assms(1)
    by (simp_all add: rl_hit_def Let_def max_absorb1 rl_wf_def dashmap_simps wrap_add32_exact
        u32_max_def)
qed

lemma passes_in_window:
  assumes "rl_wf l" "dm_get (rl_limits l) ip = Some e"
    and "\<forall>ev \<in> set es. event_time ev - rl_window_start e \<le> window_of l"
    and "rl_count e + hits_of ip es \<le> u32_max"
  shows "rl_passed ip es l = min (hits_of ip es) (rl_max_requests l - rl_count e)"
  using assms
proof (induction es arbitrary: l e)
  case Nil
  then show ?case by (simp add: hits_of_def)
next
  case (Cons ev es)
  have wf: "rl_wf (rl_step ev l)" using Cons.prems(1) by (rule rl_step_wf)
  show ?case
  proof (cases "\<exists>now. ev = Hit now ip")
    case False
    have "dm_get (rl_limits (rl_step ev l)) ip = Some e"
      using False Cons.prems hit_other [of _ ip] evict_keeps [OF Cons.prems(1,2)]
      by (cases ev) auto
    with Cons.IH [OF wf] Cons.prems False show ?thesis
      by (cases ev) (auto simp: hits_of_Cons simp del: rl_step.simps)
  next
    case True
    then obtain now where ev: "ev = Hit now ip" ..
    let ?e = "e\<lparr>rl_count := Suc (rl_count e)\<rparr>"
    have small: "rl_count e < u32_max" "now - rl_window_start e \<le> window_of l"
      using Cons.prems by (auto simp: ev hits_of_Cons)
    note hit = hit_in_window [OF Cons.prems(1,2) small(2,1)]
    have "rl_passed ip es (rl_step ev l) = min (hits_of ip es) (rl_max_requests l - rl_count ?e)"
      using Cons.IH [OF wf, of ?e] Cons.prems hit by (simp add: ev hits_of_Cons)
    then show ?thesis using hit(2) by (auto simp: ev hits_of_Cons)
  qed
qed

text \<open>
  C4: The limit is exact within a window. If a client has no bucket, or one whose window
  is over, then of its requests in the next \<open>window_secs\<close> seconds exactly the first
  \<open>max_requests\<close> pass (all of them, if they are fewer), whatever other clients send in
  between and however often the evictor runs.
\<close>

theorem rate_limit_exact:
  assumes "rl_wf l"
    and "\<forall>e. dm_get (rl_limits l) ip = Some e \<longrightarrow> rl_window_start e + window_of l < t0"
    and "\<forall>ev \<in> set es. t0 \<le> event_time ev \<and> event_time ev \<le> t0 + window_of l"
    and "hits_of ip es \<le> u32_max"
  shows "rl_passed ip es l = min (hits_of ip es) (rl_max_requests l)"
  using assms
proof (induction es arbitrary: l)
  case Nil
  then show ?case by (simp add: hits_of_def)
next
  case (Cons ev es)
  have wf: "rl_wf (rl_step ev l)" using Cons.prems(1) by (rule rl_step_wf)
  show ?case
  proof (cases "\<exists>now. ev = Hit now ip")
    case False
    have "dm_get (rl_limits (rl_step ev l)) ip = Some e \<Longrightarrow> dm_get (rl_limits l) ip = Some e" for e
      using False Cons.prems(1) hit_other [of _ ip]
      by (cases ev) (auto simp: rl_evict_def Let_def dashmap_simps rl_wf_def
          split: option.splits if_splits)
    with Cons.IH [OF wf] Cons.prems False show ?thesis
      by (cases ev) (auto simp: hits_of_Cons simp del: rl_step.simps)
  next
    case True
    then obtain now where ev: "ev = Hit now ip" ..
    let ?e = "\<lparr>rl_count = 1, rl_window_start = now\<rparr>"
    have now: "t0 \<le> now" using Cons.prems(3) by (simp add: ev)
    have stale: "rl_window_start e + window_of l < now" if "dm_get (rl_limits l) ip = Some e" for e
      using Cons.prems(2) now that by fastforce
    note hit = hit_new_window [OF Cons.prems(1) stale]
    have get: "dm_get (rl_limits (rl_step ev l)) ip = Some ?e" and pass: "snd (rl_hit now ip l) = Pass"
      using hit by (simp_all add: ev)
    have "\<forall>ev \<in> set es. event_time ev - rl_window_start ?e \<le> window_of (rl_step ev l)"
      using Cons.prems(3) now by fastforce
    then have "rl_passed ip es (rl_step ev l) =
        min (hits_of ip es) (rl_max_requests l - rl_count ?e)"
      using passes_in_window [OF wf get] Cons.prems(4) by (simp add: ev hits_of_Cons)
    then show ?thesis
      using pass Cons.prems(1) by (auto simp: ev hits_of_Cons rl_wf_def)
  qed
qed

section \<open>Witnesses\<close>

definition ten_slash_8 :: cidr_entry where
  "ten_slash_8 = \<lparr>cidr_network = V4 10 0 0 0, cidr_prefix = 8\<rparr>"

definition behind_proxy :: rate_limiter where
  "behind_proxy = (rl_new 2 60)\<lparr>rl_trusted_proxies := [ten_slash_8]\<rparr>"

lemma ten_slash_8_contains [simp]: "cidr_contains ten_slash_8 (V4 a b c d) \<longleftrightarrow> unat a = 10"
proof -
  have "unat (v4_bits (V4 a b c d)) div 2 ^ 24 = unat a"
    using unat_u8_less [of b] unat_u8_less [of c] unat_u8_less [of d]
    by (simp only: v4_bits_value) simp
  moreover have "unat (v4_bits (V4 10 0 0 0)) div 2 ^ 24 = 10"
    by (simp only: v4_bits_value) simp
  ultimately show ?thesis
    using cidr_contains_div [of ten_slash_8 10 0 0 0 a b c d]
    by (auto simp: ten_slash_8_def simp del: v4_bits.simps)
qed

theorem cidr_contains_v4_witness: "cidr_contains ten_slash_8 (V4 10 1 2 3)"
  using cidr_contains_v4 [of ten_slash_8 10 0 0 0 10 1 2 3]
  by (simp add: ten_slash_8_def v4_bits_value del: v4_bits.simps)

theorem untrusted_peer_not_spoofable_witness:
  "client_ip \<lparr>rl_peer = Some (V4 4 4 4 4), rl_xff = Some ''8.8.8.8''\<rparr> behind_proxy = ''4.4.4.4''"
  using untrusted_peer_not_spoofable [of behind_proxy
      "\<lparr>rl_peer = Some (V4 4 4 4 4), rl_xff = Some ''8.8.8.8''\<rparr>" "V4 4 4 4 4"]
  by (simp add: behind_proxy_def trusted_by_def show_v4_def show_nat.simps)

lemma parse_examples:
  "parse_ip ''4.4.4.4'' = Some (V4 4 4 4 4)" "parse_ip ''10.0.0.1'' = Some (V4 10 0 0 1)"
  using parse_show_v4 [of 4 4 4 4] parse_show_v4 [of 10 0 0 1]
  by (simp_all add: show_v4_def show_nat.simps)

theorem rightmost_untrusted_hop_witness:
  "client_ip \<lparr>rl_peer = Some (V4 10 0 0 9), rl_xff = Some ''spoof,4.4.4.4,10.0.0.1''\<rparr>
     behind_proxy = ''4.4.4.4''"
proof -
  have "map trim (split_on CHR '','' ''spoof,4.4.4.4,10.0.0.1'') =
      [''spoof''] @ ''4.4.4.4'' # [''10.0.0.1'']"
  proof -
    have "trim ''spoof'' = ''spoof''" "trim ''4.4.4.4'' = ''4.4.4.4''"
      "trim ''10.0.0.1'' = ''10.0.0.1''"
      by (rule trim_noop, code_simp)+
    then show ?thesis by simp
  qed
  then show ?thesis
    using rightmost_untrusted_hop [of behind_proxy
        "\<lparr>rl_peer = Some (V4 10 0 0 9), rl_xff = Some ''spoof,4.4.4.4,10.0.0.1''\<rparr>" "V4 10 0 0 9"
        "''spoof,4.4.4.4,10.0.0.1''" "[''spoof'']" "''4.4.4.4''" "[''10.0.0.1'']" "V4 4 4 4 4"]
    by (simp add: behind_proxy_def trusted_by_def show_v4_def show_nat.simps parse_examples)
qed

theorem rate_limit_exact_witness:
  "rl_passed ''a'' [Hit 5 ''a'', Hit 6 ''b'', Evict 7, Hit 8 ''a'', Hit 9 ''a''] (rl_new 2 60) = 2"
  using rate_limit_exact [of "rl_new 2 60" "''a''" 5
      "[Hit 5 ''a'', Hit 6 ''b'', Evict 7, Hit 8 ''a'', Hit 9 ''a'']"]
  by (simp add: rl_new_def rl_with_options_def rl_with_trusted_proxies_def rl_wf_def hits_of_def
      u32_max_def u64_max_def from_secs_def)

end
