(* ===== verification/Ip_Filter.thy ===== *)
theory Ip_Filter
  imports Rate_Limiter
begin

text \<open>
  The IP allow and block lists of \<open>src/middleware/ip_filter.rs\<close>, which have a CIDR matcher
  of their own. The sets are lists here; only membership is asked. Shifts are those of a
  release build: the shift amount of a 32-bit shift is taken modulo 32.
\<close>

record ip_filter =
  ipf_whitelist :: "string list"
  ipf_blacklist :: "string list"
  ipf_enabled :: bool

definition ip_filter_new :: "string list \<Rightarrow> string list \<Rightarrow> bool \<Rightarrow> ip_filter" where
  "ip_filter_new whitelist blacklist enabled =
     \<lparr>ipf_whitelist = remdups whitelist, ipf_blacklist = remdups blacklist, ipf_enabled = enabled\<rparr>"

definition shl32 :: "32 word \<Rightarrow> nat \<Rightarrow> 32 word" where
  "shl32 x n = push_bit (n mod 32) x"

definition ipf_mask :: "nat \<Rightarrow> 32 word" where
  "ipf_mask prefix_len = (if 32 \<le> prefix_len then NOT 0 else NOT (shl32 1 (32 - prefix_len) - 1))"

definition ip_matches_cidr :: "string \<Rightarrow> string \<Rightarrow> bool" where
  "ip_matches_cidr ip cidr =
     (if CHR ''/'' \<notin> set cidr then ip = cidr
      else case split_on CHR ''/'' cidr of
        [p0, p1] \<Rightarrow>
          (case parse_ip p0 of None \<Rightarrow> False | Some cidr_ip \<Rightarrow>
          (case parse_uint u32_max p1 of None \<Rightarrow> False | Some prefix_len \<Rightarrow>
          (case parse_ip ip of None \<Rightarrow> False | Some target_ip \<Rightarrow>
             (case (cidr_ip, target_ip) of
                (V4 _ _ _ _, V4 _ _ _ _) \<Rightarrow>
                  v4_bits cidr_ip AND ipf_mask prefix_len = v4_bits target_ip AND ipf_mask prefix_len
              | _ \<Rightarrow> False))))
      | _ \<Rightarrow> False)"

definition ipf_is_allowed :: "ip_filter \<Rightarrow> string \<Rightarrow> bool" where
  "ipf_is_allowed f ip =
     (if \<not> ipf_enabled f then True
      else if ip \<in> set (ipf_blacklist f) then False
      else if list_ex (ip_matches_cidr ip) (ipf_blacklist f) then False
      else if ipf_whitelist f = [] then True
      else if ip \<in> set (ipf_whitelist f) then True
      else list_ex (ip_matches_cidr ip) (ipf_whitelist f))"

datatype ipf_answer = Forward | ForbiddenIp

definition ipf_call :: "ip_filter \<Rightarrow> ip_addr option \<Rightarrow> ipf_answer" where
  "ipf_call f peer =
     (let ip = (case peer of Some a \<Rightarrow> show_ip a | None \<Rightarrow> ''unknown'')
      in if ipf_is_allowed f ip then Forward else ForbiddenIp)"

section \<open>The two CIDR matchers\<close>

lemma low_mask: "n < 32 \<Longrightarrow> shl32 1 n - 1 = mask n"
  by (simp add: shl32_def push_bit_eq_mult mask_eq_exp_minus_1)

lemma ipf_mask_high:
  assumes "1 \<le> p" "p \<le> 32"
  shows "ipf_mask p = push_bit (32 - p) (NOT 0)"
proof (cases "p = 32")
  case True
  then show ?thesis by (simp add: ipf_mask_def)
next
  case False
  with assms have "ipf_mask p = NOT (mask (32 - p))"
    by (simp add: ipf_mask_def low_mask)
  then show ?thesis by simp
qed

lemma split_on_two:
  assumes "CHR ''/'' \<notin> set a" "CHR ''/'' \<notin> set b"
  shows "split_on CHR ''/'' (a @ CHR ''/'' # b) = [a, b]"
proof -
  have single: "split_on c s = [s]" if "c \<notin> set s" for c s
    using that by (induction s) auto
  show ?thesis using assms(1) by (induction a) (auto simp: single [OF assms(2)])
qed

lemma no_slash_in_digits: "list_all (is_digit 10) s \<Longrightarrow> CHR ''/'' \<notin> set s"
  by (auto simp: list_all_iff is_digit_def to_digit_def)

lemma no_slash_in_v4: "CHR ''/'' \<notin> set (show_v4 a b c d)"
  using no_slash_in_digits [OF show_nat_digits] by (simp add: show_v4_def)

lemma ip_matches_cidr_v4:
  assumes "p \<le> u32_max"
  shows "ip_matches_cidr (show_v4 a1 a2 a3 a4) (show_v4 n1 n2 n3 n4 @ ''/'' @ show_nat p) \<longleftrightarrow>
    v4_bits (V4 n1 n2 n3 n4) AND ipf_mask p = v4_bits (V4 a1 a2 a3 a4) AND ipf_mask p"
proof -
  have "split_on CHR ''/'' (show_v4 n1 n2 n3 n4 @ ''/'' @ show_nat p)
      = [show_v4 n1 n2 n3 n4, show_nat p]"
    using split_on_two [OF no_slash_in_v4 no_slash_in_digits [OF show_nat_digits]] by simp
  then show ?thesis
    using assms by (simp add: ip_matches_cidr_def parse_show_v4 parse_show_nat del: v4_bits.simps)
qed

text \<open>
  The matcher of the IP filter agrees with the rate limiter's on IPv4 networks with a
  prefix from 1 to 32.
\<close>

theorem cidr_matchers_agree:
  assumes "1 \<le> p" "p \<le> 32"
  shows "ip_matches_cidr (show_v4 a1 a2 a3 a4) (show_v4 n1 n2 n3 n4 @ ''/'' @ show_nat p) \<longleftrightarrow>
    cidr_contains \<lparr>cidr_network = V4 n1 n2 n3 n4, cidr_prefix = p\<rparr> (V4 a1 a2 a3 a4)"
proof -
  have p: "p \<le> u32_max" "p \<noteq> 0" using assms by (simp_all add: u32_max_def)
  show ?thesis
    unfolding ip_matches_cidr_v4 [OF p(1)] ipf_mask_high [OF assms]
    using p(2)
    by (simp only: cidr_contains_def Let_def prod.case ip_addr.case cidr_entry.select_convs
        if_False)
qed

text \<open>
  The prefix 0 is where they part: the filter shifts a 32-bit one by 32, so \<open>a.b.c.d/0\<close>
  matches the address \<open>a.b.c.d\<close> alone instead of every address.
\<close>

theorem ip_filter_slash_zero:
  "ip_matches_cidr (show_v4 a1 a2 a3 a4) (show_v4 n1 n2 n3 n4 @ ''/'' @ show_nat 0) \<longleftrightarrow>
     v4_bits (V4 n1 n2 n3 n4) = v4_bits (V4 a1 a2 a3 a4)"
  using ip_matches_cidr_v4 [of 0 a1 a2 a3 a4 n1 n2 n3 n4]
  by (simp add: ipf_mask_def shl32_def del: v4_bits.simps)

section \<open>The lists\<close>

definition listed :: "string \<Rightarrow> string list \<Rightarrow> bool" where
  "listed ip xs \<longleftrightarrow> ip \<in> set xs \<or> (\<exists>x \<in> set xs. ip_matches_cidr ip x)"

text \<open>
  The decision of the filter. An enabled filter forwards a request if and only if its
  peer is not on the block list and, when there is an allow list, is on it; the block list
  wins over the allow list. A disabled filter forwards everything.
\<close>

theorem ip_filter_decision:
  "ipf_call f peer = Forward \<longleftrightarrow>
     (let ip = (case peer of Some a \<Rightarrow> show_ip a | None \<Rightarrow> ''unknown'') in
      \<not> ipf_enabled f \<or>
      (\<not> listed ip (ipf_blacklist f) \<and> (ipf_whitelist f = [] \<or> listed ip (ipf_whitelist f))))"
  by (auto simp: ipf_call_def ipf_is_allowed_def listed_def Let_def list_ex_iff)

theorem cidr_matchers_agree_witness:
  "ip_matches_cidr (show_v4 10 1 2 3) (show_v4 10 0 0 0 @ ''/'' @ show_nat 8)"
  using cidr_matchers_agree [of 8 10 1 2 3 10 0 0 0] ten_slash_8_contains [of 10 1 2 3]
  by (simp add: ten_slash_8_def)

theorem ip_filter_decision_witness:
  "ipf_call (ip_filter_new [] [''10.0.0.7''] True) (Some (V4 10 0 0 7)) \<noteq> Forward"
  unfolding ip_filter_decision
  by (simp add: ip_filter_new_def listed_def show_v4_def show_nat.simps)

end
