(* ===== verification/Storage.thy ===== *)
theory Storage
  imports Interfaces
begin

text \<open>
  What the components see of the SQLite storage (src/src/registry/storage.rs) and of the
  bus (src/src/bus/mod.rs). The database engine is not modelled: a component with storage
  carries the log of the statements it has issued, and a query is its list of rows. A row
  is what \<open>query_raw\<close> makes of it, one JSON value per column. \<open>db_replay\<close> is the documented
  effect of \<open>INSERT OR REPLACE\<close> and \<open>DELETE\<close> on a table with a primary key; it is used to
  state what a restart recovers.
\<close>

section \<open>Cells, rows and statements\<close>

text \<open>A column is text, an integer (\<open>i64\<close>), or something else (a float or NULL).\<close>

datatype sql_value = SText string | SInt int | SOther

type_synonym row = "(string \<times> sql_value) list"

text \<open>\<open>row.get(col).and_then(|v| v.as_str()).unwrap_or(d)\<close> and its \<open>as_u64\<close> sibling.\<close>

definition row_text_opt :: "string \<Rightarrow> row \<Rightarrow> string option" where
  "row_text_opt col r = (case map_of r col of Some (SText s) \<Rightarrow> Some s | _ \<Rightarrow> None)"

definition row_text :: "string \<Rightarrow> row \<Rightarrow> string" where
  "row_text col r = (case row_text_opt col r of Some s \<Rightarrow> s | None \<Rightarrow> [])"

definition row_u64 :: "string \<Rightarrow> row \<Rightarrow> nat" where
  "row_u64 col r =
     (case map_of r col of Some (SInt i) \<Rightarrow> if 0 \<le> i then nat i else 0 | _ \<Rightarrow> 0)"

text \<open>The cast \<open>x as i64\<close> of a \<open>u64\<close>.\<close>

definition i64_of_u64 :: "nat \<Rightarrow> int" where
  "i64_of_u64 n = (if n < 2 ^ 63 then int n else int n - 2 ^ 64)"

lemma row_u64_cast [simp]:
  "map_of r col = Some (SInt (i64_of_u64 n)) \<Longrightarrow> n < 2 ^ 63 \<Longrightarrow> row_u64 col r = n"
  by (simp add: row_u64_def i64_of_u64_def)

text \<open>A statement: \<open>INSERT OR REPLACE\<close> of a row under its primary key, or \<open>DELETE\<close> by key.\<close>

datatype db_op = Replace string row | Delete string

fun db_apply :: "db_op \<Rightarrow> (string, row) dashmap \<Rightarrow> (string, row) dashmap" where
  "db_apply (Replace k r) t = dm_insert k r t"
| "db_apply (Delete k) t = dm_remove k t"

definition db_replay :: "db_op list \<Rightarrow> (string, row) dashmap" where
  "db_replay ops = fold db_apply ops []"

lemma db_replay_snoc [simp]: "db_replay (ops @ [op]) = db_apply op (db_replay ops)"
  by (simp add: db_replay_def)

lemma db_replay_Nil [simp]: "db_replay [] = []"
  by (simp add: db_replay_def)

lemma db_replay_wf: "dm_wf (db_replay ops)"
proof (induction ops rule: rev_induct)
  case (snoc op ops)
  then show ?case by (cases op) (simp_all add: dashmap_simps)
qed simp

section \<open>Bus events\<close>

datatype bus_event =
    SessionInvalidateUser string
  | SessionInvalidateToken string
  | WafRuleAdded nat string string
  | WafRuleRemoved nat

text \<open>The dispatcher hands an event to every handler in order.\<close>

definition dispatch :: "(bus_event \<Rightarrow> 's \<Rightarrow> 's) list \<Rightarrow> bus_event \<Rightarrow> 's \<Rightarrow> 's" where
  "dispatch handlers e s = fold (\<lambda>h. h e) handlers s"

end
