(* ===== verification/Sessions.thy ===== *)
theory Sessions
  imports Storage
begin

text \<open>
  src/src/identity/sessions.rs: the session manager. \<open>sessions\<close> maps the hash of a token to
  its session, \<open>user_sessions\<close> a user to the hashes in creation order. The hash (HMAC or
  SHA-256, by configuration) is the parameter \<open>hsh\<close>; the clock readings are arguments, in
  seconds since the epoch. \<open>sess_storage\<close> is \<open>None\<close> without a database and otherwise the
  log of the statements issued. Each operation is one step: its lock discipline is not
  modelled, and the metrics are left out.
\<close>

section \<open>State\<close>

record session =
  sess_token :: string
  sess_user :: string
  created_at :: nat
  expires_at :: nat
  last_activity :: nat
  sess_ip :: string
  sess_agent :: string
  device_name :: string
  sess_active :: bool

record session_mgr =
  sessions :: "(string, session) dashmap"
  user_sessions :: "(string, string list) dashmap"
  max_sessions_per_user :: nat
  sess_storage :: "db_op list option"

definition sess_new :: "nat \<Rightarrow> session_mgr" where
  "sess_new max_sessions =
     \<lparr>sessions = [], user_sessions = [], max_sessions_per_user = max max_sessions 1,
      sess_storage = None\<rparr>"

section \<open>Persistence\<close>

definition session_row :: "string \<Rightarrow> session \<Rightarrow> row" where
  "session_row hashed s =
     [(''hashed_token'', SText hashed), (''user_id'', SText (sess_user s)),
      (''created_at'', SInt (i64_of_u64 (created_at s))),
      (''expires_at'', SInt (i64_of_u64 (expires_at s))),
      (''last_activity'', SInt (i64_of_u64 (last_activity s))),
      (''ip'', SText (sess_ip s)), (''user_agent'', SText (sess_agent s)),
      (''device_name'', SText (device_name s)),
      (''active'', SInt (if sess_active s then 1 else 0))]"

definition sess_issue :: "db_op \<Rightarrow> session_mgr \<Rightarrow> session_mgr" where
  "sess_issue op m = m\<lparr>sess_storage := map_option (\<lambda>log. log @ [op]) (sess_storage m)\<rparr>"

definition sess_persist :: "string \<Rightarrow> session \<Rightarrow> session_mgr \<Rightarrow> session_mgr" where
  "sess_persist hashed s = sess_issue (Replace hashed (session_row hashed s))"

definition delete_persisted :: "string \<Rightarrow> session_mgr \<Rightarrow> session_mgr" where
  "delete_persisted hashed = sess_issue (Delete hashed)"

text \<open>One row of the restart loop.\<close>

definition row_session :: "row \<Rightarrow> session" where
  "row_session r =
     \<lparr>sess_token = row_text ''hashed_token'' r, sess_user = row_text ''user_id'' r,
      created_at = row_u64 ''created_at'' r, expires_at = row_u64 ''expires_at'' r,
      last_activity = row_u64 ''last_activity'' r, sess_ip = row_text ''ip'' r,
      sess_agent = row_text ''user_agent'' r, device_name = row_text ''device_name'' r,
      sess_active = (row_u64 ''active'' r = 1)\<rparr>"

definition load_row :: "nat \<Rightarrow> row \<Rightarrow> session_mgr \<Rightarrow> session_mgr" where
  "load_row now r m =
     (let s = row_session r; hashed = sess_token s in
      if \<not> sess_active s \<or> expires_at s \<le> now then m
      else m\<lparr>sessions := dm_insert hashed s (sessions m),
             user_sessions := dm_insert (sess_user s)
               (dm_or_insert (user_sessions m) (sess_user s) [] @ [hashed]) (user_sessions m)\<rparr>)"

definition sess_with_storage :: "nat \<Rightarrow> nat \<Rightarrow> row list \<Rightarrow> session_mgr" where
  "sess_with_storage now max_sessions rows =
     fold (load_row now) rows (sess_new max_sessions)\<lparr>sess_storage := Some []\<rparr>"

section \<open>Creation\<close>

definition detect_device :: "string \<Rightarrow> string" where
  "detect_device ua =
     (let l = to_lowercase ua in
      if str_contains l ''mobile'' \<or> str_contains l ''android'' \<or> str_contains l ''iphone''
      then ''Mobile''
      else if str_contains l ''tablet'' \<or> str_contains l ''ipad'' then ''Tablet''
      else if str_contains l ''curl'' \<or> str_contains l ''httpie'' \<or> str_contains l ''postman''
      then ''CLI/API Client''
      else ''Desktop'')"

definition prune_tokens ::
  "nat \<Rightarrow> string \<Rightarrow> (string, session) dashmap \<Rightarrow> string list \<Rightarrow> string list" where
  "prune_tokens now2 hashed store =
     filter (\<lambda>t. (case dm_get store t of
                     Some s \<Rightarrow> sess_active s \<and> now2 \<le> expires_at s
                   | None \<Rightarrow> False) \<or> t = hashed)"

text \<open>The eviction loop: the tokens that stay, and the evicted ones, oldest first.\<close>

fun evict_oldest :: "nat \<Rightarrow> string list \<Rightarrow> string list \<times> string list" where
  "evict_oldest limit [] = ([], [])"
| "evict_oldest limit (t # ts) =
     (if limit < length (t # ts)
      then (let (kept, evicted) = evict_oldest limit ts in (kept, t # evicted))
      else (t # ts, []))"

definition deactivate :: "string \<Rightarrow> session_mgr \<Rightarrow> session_mgr" where
  "deactivate old m =
     (case dm_get (sessions m) old of
        Some s \<Rightarrow>
          sess_persist old (s\<lparr>sess_active := False\<rparr>)
            (m\<lparr>sessions := dm_update old (\<lambda>s. s\<lparr>sess_active := False\<rparr>) (sessions m)\<rparr>)
      | None \<Rightarrow> m)"

definition sess_create ::
  "(string \<Rightarrow> string) \<Rightarrow> nat \<Rightarrow> nat \<Rightarrow> string \<Rightarrow> string \<Rightarrow> string \<Rightarrow> string \<Rightarrow> nat \<Rightarrow>
     session_mgr \<Rightarrow> session_mgr \<times> session" where
  "sess_create hsh now now2 user_id token ip user_agent ttl_secs m =
     (let hashed = hsh token;
          stored = \<lparr>sess_token = hashed, sess_user = user_id, created_at = now,
                    expires_at = wrap_add64 now ttl_secs, last_activity = now, sess_ip = ip,
                    sess_agent = user_agent, device_name = detect_device user_agent,
                    sess_active = True\<rparr>;
          tokens = dm_or_insert (user_sessions m) user_id [] @ [hashed];
          (kept, evicted) = evict_oldest (max_sessions_per_user m)
                              (prune_tokens now2 hashed (sessions m) tokens);
          m1 = m\<lparr>user_sessions := dm_insert user_id kept (user_sessions m)\<rparr>;
          m2 = fold deactivate evicted m1;
          m3 = sess_persist hashed stored (m2\<lparr>sessions := dm_insert hashed stored (sessions m2)\<rparr>)
      in (m3, stored\<lparr>sess_token := token\<rparr>))"

section \<open>Invalidation\<close>

text \<open>\<open>tokens.retain(|t| t != hashed)\<close> on the list of a user, if there is one.\<close>

definition unindex :: "string \<Rightarrow> string \<Rightarrow> session_mgr \<Rightarrow> session_mgr" where
  "unindex user_id hashed m =
     m\<lparr>user_sessions := dm_update user_id (filter (\<lambda>t. t \<noteq> hashed)) (user_sessions m)\<rparr>"

definition drop_session :: "string \<Rightarrow> session_mgr \<Rightarrow> session_mgr" where
  "drop_session hashed m = m\<lparr>sessions := dm_remove hashed (sessions m)\<rparr>"

definition apply_invalidate_token :: "string \<Rightarrow> session_mgr \<Rightarrow> session_mgr \<times> bool" where
  "apply_invalidate_token hashed m =
     (case dm_get (sessions m) hashed of
        Some s \<Rightarrow> (drop_session hashed (delete_persisted hashed (unindex (sess_user s) hashed m)), True)
      | None \<Rightarrow> (m, False))"

text \<open>\<open>invalidate\<close> also publishes the event for the other nodes.\<close>

definition sess_invalidate ::
  "(string \<Rightarrow> string) \<Rightarrow> string \<Rightarrow> session_mgr \<Rightarrow> session_mgr \<times> bool \<times> bus_event list" where
  "sess_invalidate hsh token m =
     (let hashed = hsh token; (m', removed) = apply_invalidate_token hashed m in
      (m', removed, if removed then [SessionInvalidateToken hashed] else []))"

definition forget_one :: "string \<Rightarrow> session_mgr \<times> nat \<Rightarrow> session_mgr \<times> nat" where
  "forget_one hashed = (\<lambda>(m, n).
     (drop_session hashed (delete_persisted hashed m),
      case dm_get (sessions m) hashed of
        Some s \<Rightarrow> if sess_active s then Suc n else n
      | None \<Rightarrow> n))"

definition apply_invalidate_user :: "string \<Rightarrow> session_mgr \<Rightarrow> session_mgr \<times> nat" where
  "apply_invalidate_user user_id m =
     (let (m', n) = fold forget_one (dm_or_insert (user_sessions m) user_id []) (m, 0) in
      (m'\<lparr>user_sessions := dm_remove user_id (user_sessions m')\<rparr>, n))"

definition sess_invalidate_all :: "string \<Rightarrow> session_mgr \<Rightarrow> session_mgr \<times> nat \<times> bus_event list" where
  "sess_invalidate_all user_id m =
     (let (m', n) = apply_invalidate_user user_id m in
      (m', n, if 0 < n then [SessionInvalidateUser user_id] else []))"

fun sess_handle :: "bus_event \<Rightarrow> session_mgr \<Rightarrow> session_mgr" where
  "sess_handle (SessionInvalidateToken hashed) m = fst (apply_invalidate_token hashed m)"
| "sess_handle (SessionInvalidateUser user_id) m = fst (apply_invalidate_user user_id m)"
| "sess_handle _ m = m"

section \<open>Validation\<close>

text \<open>
  The address binding: a session bound to a known address is refused to another one, and
  dropped. A changed user agent is only logged.
\<close>

definition ip_mismatch :: "session \<Rightarrow> string option \<Rightarrow> bool" where
  "ip_mismatch s expected_ip =
     (case expected_ip of
        Some ip \<Rightarrow> sess_ip s \<noteq> [] \<and> sess_ip s \<noteq> ''unknown'' \<and> ip \<noteq> [] \<and> sess_ip s \<noteq> ip
      | None \<Rightarrow> False)"

definition validate_with_request ::
  "(string \<Rightarrow> string) \<Rightarrow> nat \<Rightarrow> string \<Rightarrow> string option \<Rightarrow> string option \<Rightarrow>
     session_mgr \<Rightarrow> session_mgr \<times> session option" where
  "validate_with_request hsh now token expected_ip expected_ua m =
     (let hashed = hsh token in
      case dm_get (sessions m) hashed of
        None \<Rightarrow> (m, None)
      | Some s \<Rightarrow>
          if \<not> sess_active s \<or> expires_at s < now then (m, None)
          else if ip_mismatch s expected_ip then (fst (apply_invalidate_token hashed m), None)
          else (let snap = s\<lparr>last_activity := now\<rparr>;
                    m1 = m\<lparr>sessions := dm_update hashed (\<lambda>s. s\<lparr>last_activity := now\<rparr>) (sessions m)\<rparr>;
                    m2 = (if 30 \<le> now - last_activity s then sess_persist hashed snap m1 else m1)
                in (m2, Some (snap\<lparr>sess_token := token\<rparr>))))"

definition sess_validate ::
  "(string \<Rightarrow> string) \<Rightarrow> nat \<Rightarrow> string \<Rightarrow> session_mgr \<Rightarrow> session_mgr \<times> session option" where
  "sess_validate hsh now token = validate_with_request hsh now token None None"

section \<open>Listing and cleanup\<close>

definition user_sessions_of :: "string \<Rightarrow> session_mgr \<Rightarrow> session list" where
  "user_sessions_of user_id m =
     (case dm_get (user_sessions m) user_id of
        Some tokens \<Rightarrow>
          filter sess_active (List.map_filter (\<lambda>t. dm_get (sessions m) t) tokens)
      | None \<Rightarrow> [])"

definition cleanup_one :: "string \<times> string \<Rightarrow> session_mgr \<Rightarrow> session_mgr" where
  "cleanup_one = (\<lambda>(hashed, user_id) m.
     unindex user_id hashed (delete_persisted hashed (drop_session hashed m)))"

definition cleanup_expired :: "nat \<Rightarrow> session_mgr \<Rightarrow> session_mgr \<times> nat" where
  "cleanup_expired now m =
     (let to_remove = map (\<lambda>(hashed, s). (hashed, sess_user s))
            (filter (\<lambda>(hashed, s). expires_at s < now \<or> \<not> sess_active s) (sessions m))
      in (fold cleanup_one to_remove m, length to_remove))"

definition active_count :: "session_mgr \<Rightarrow> nat" where
  "active_count m = length (filter (\<lambda>(_, s). sess_active s) (sessions m))"

definition total_count :: "session_mgr \<Rightarrow> nat" where
  "total_count m = length (sessions m)"


section \<open>What the operations do to the maps\<close>

lemma issue_frame [simp]:
  "sessions (sess_issue op m) = sessions m" "user_sessions (sess_issue op m) = user_sessions m"
  "max_sessions_per_user (sess_issue op m) = max_sessions_per_user m"
  by (simp_all add: sess_issue_def)

lemma persist_frame [simp]:
  "sessions (sess_persist k s m) = sessions m" "user_sessions (sess_persist k s m) = user_sessions m"
  "max_sessions_per_user (sess_persist k s m) = max_sessions_per_user m"
  "sessions (delete_persisted k m) = sessions m" "user_sessions (delete_persisted k m) = user_sessions m"
  "max_sessions_per_user (delete_persisted k m) = max_sessions_per_user m"
  by (simp_all add: sess_persist_def delete_persisted_def)

lemma drop_frame [simp]:
  "sessions (drop_session k m) = dm_remove k (sessions m)"
  "user_sessions (drop_session k m) = user_sessions m"
  "max_sessions_per_user (drop_session k m) = max_sessions_per_user m"
  "sess_storage (drop_session k m) = sess_storage m"
  by (simp_all add: drop_session_def)

lemma unindex_frame [simp]:
  "sessions (unindex u k m) = sessions m"
  "user_sessions (unindex u k m) = dm_update u (filter (\<lambda>t. t \<noteq> k)) (user_sessions m)"
  "max_sessions_per_user (unindex u k m) = max_sessions_per_user m"
  "sess_storage (unindex u k m) = sess_storage m"
  by (simp_all add: unindex_def)

lemma deactivate_frame [simp]:
  "user_sessions (deactivate k m) = user_sessions m"
  "max_sessions_per_user (deactivate k m) = max_sessions_per_user m"
  "sessions (deactivate k m) = dm_update k (\<lambda>s. s\<lparr>sess_active := False\<rparr>) (sessions m)"
proof -
  have "dm_update k f m' = m'" if "dm_get m' k = None" for f and m' :: "(string, session) dashmap"
    using that by (induction m') (auto simp: dm_update_def split: if_splits)
  then show "sessions (deactivate k m) = dm_update k (\<lambda>s. s\<lparr>sess_active := False\<rparr>) (sessions m)"
    by (simp add: deactivate_def split: option.split)
qed (simp_all add: deactivate_def split: option.split)

lemma fold_deactivate_frame [simp]:
  "user_sessions (fold deactivate ks m) = user_sessions m"
  "max_sessions_per_user (fold deactivate ks m) = max_sessions_per_user m"
  "sessions (fold deactivate ks m) =
     fold (\<lambda>k. dm_update k (\<lambda>s. s\<lparr>sess_active := False\<rparr>)) ks (sessions m)"
  by (induction ks arbitrary: m) simp_all

lemma evict_oldest_spec:
  "evict_oldest limit ts = (drop (length ts - limit) ts, take (length ts - limit) ts)"
  by (induction ts) (auto simp: Let_def case_prod_unfold Suc_diff_le)

lemma fold_forget_one:
  "sessions (fst (fold forget_one ks p)) = fold dm_remove ks (sessions (fst p)) \<and>
   user_sessions (fst (fold forget_one ks p)) = user_sessions (fst p) \<and>
   max_sessions_per_user (fst (fold forget_one ks p)) = max_sessions_per_user (fst p)"
  by (induction ks arbitrary: p) (simp_all add: forget_one_def case_prod_unfold)

lemma fold_cleanup_sessions: "sessions (fold cleanup_one rs m) = fold dm_remove (map fst rs) (sessions m)"
  by (induction rs arbitrary: m) (simp_all add: cleanup_one_def case_prod_unfold)

lemma fold_cleanup_max [simp]:
  "max_sessions_per_user (fold cleanup_one rs m) = max_sessions_per_user m"
  by (induction rs arbitrary: m) (simp_all add: cleanup_one_def case_prod_unfold)

lemma fold_cleanup_users:
  "dm_wf (user_sessions m) \<Longrightarrow>
   dm_wf (user_sessions (fold cleanup_one rs m)) \<and>
   dm_get (user_sessions (fold cleanup_one rs m)) u =
     map_option (filter (\<lambda>t. (t, u) \<notin> set rs)) (dm_get (user_sessions m) u)"
proof (induction rs arbitrary: m)
  case Nil
  then show ?case by (simp add: option.map_ident)
next
  case (Cons r rs)
  obtain h v where r: "r = (h, v)" by (cases r)
  have "dm_wf (user_sessions (cleanup_one r m))"
    using Cons.prems by (simp add: r cleanup_one_def dashmap_simps)
  from Cons.IH [OF this] show ?case
    by (cases "dm_get (user_sessions m) u")
      (auto simp: r cleanup_one_def dashmap_simps filter_filter intro!: filter_cong)
qed

text \<open>Lookups after each operation.\<close>

lemma apply_invalidate_token_get:
  "dm_get (sessions (fst (apply_invalidate_token k m))) k' =
     (if k = k' then None else dm_get (sessions m) k')"
  by (simp add: apply_invalidate_token_def dashmap_simps split: option.split)

lemma apply_invalidate_user_get:
  "dm_get (sessions (fst (apply_invalidate_user u m))) k =
     (if k \<in> set (dm_or_insert (user_sessions m) u []) then None else dm_get (sessions m) k)"
  "user_sessions (fst (apply_invalidate_user u m)) = dm_remove u (user_sessions m)"
  using fold_forget_one [of "dm_or_insert (user_sessions m) u []" "(m, 0)"]
  by (simp_all add: apply_invalidate_user_def case_prod_unfold Let_def dm.get_fold_rem)

lemma validate_sessions_get:
  "dm_get (sessions (fst (validate_with_request hsh now token ip ua m))) k =
     (case dm_get (sessions m) k of
        None \<Rightarrow> None
      | Some s \<Rightarrow>
          if k = hsh token \<and> sess_active s \<and> now \<le> expires_at s
          then (if ip_mismatch s ip then None else Some (s\<lparr>last_activity := now\<rparr>))
          else Some s)"
  by (auto simp: validate_with_request_def Let_def apply_invalidate_token_get dashmap_simps
      split: option.splits)

lemma validate_result:
  "snd (validate_with_request hsh now token ip ua m) =
     (case dm_get (sessions m) (hsh token) of
        None \<Rightarrow> None
      | Some s \<Rightarrow>
          if sess_active s \<and> now \<le> expires_at s \<and> \<not> ip_mismatch s ip
          then Some (s\<lparr>last_activity := now, sess_token := token\<rparr>) else None)"
  by (auto simp: validate_with_request_def Let_def split: option.splits)


section \<open>Runs\<close>

text \<open>
  The machine: its state is the clock and the manager, an event a delay and an operation.
  \<open>OpCreate\<close> carries the time between its two clock readings.
\<close>

datatype sess_op =
    OpCreate nat string string string string nat
  | OpValidate string "string option" "string option"
  | OpInvalidate string
  | OpInvalidateAll string
  | OpCleanup
  | OpBus bus_event

type_synonym sess_state = "nat \<times> session_mgr"

fun sess_exec :: "(string \<Rightarrow> string) \<Rightarrow> nat \<Rightarrow> sess_op \<Rightarrow> session_mgr \<Rightarrow> session_mgr" where
  "sess_exec hsh now (OpCreate d user token ip ua ttl) m =
     fst (sess_create hsh now (now + d) user token ip ua ttl m)"
| "sess_exec hsh now (OpValidate token ip ua) m = fst (validate_with_request hsh now token ip ua m)"
| "sess_exec hsh now (OpInvalidate token) m = fst (sess_invalidate hsh token m)"
| "sess_exec hsh now (OpInvalidateAll user) m = fst (sess_invalidate_all user m)"
| "sess_exec hsh now OpCleanup m = fst (cleanup_expired now m)"
| "sess_exec hsh now (OpBus e) m = sess_handle e m"

fun op_duration :: "sess_op \<Rightarrow> nat" where
  "op_duration (OpCreate d _ _ _ _ _) = d"
| "op_duration _ = 0"

fun sess_step :: "(string \<Rightarrow> string) \<Rightarrow> nat \<times> sess_op \<Rightarrow> sess_state \<Rightarrow> sess_state" where
  "sess_step hsh (delay, op) (T, m) =
     (T + delay + op_duration op, sess_exec hsh (T + delay) op m)"

definition live :: "nat \<Rightarrow> session \<Rightarrow> bool" where
  "live now s \<longleftrightarrow> sess_active s \<and> now \<le> expires_at s"

definition live_sessions :: "nat \<Rightarrow> string \<Rightarrow> session_mgr \<Rightarrow> (string \<times> session) list" where
  "live_sessions now u m = filter (\<lambda>(h, s). sess_user s = u \<and> live now s) (sessions m)"

definition sess_invar :: "sess_state \<Rightarrow> bool" where
  "sess_invar = (\<lambda>(T, m).
     dm_wf (sessions m) \<and> dm_wf (user_sessions m) \<and> 1 \<le> max_sessions_per_user m \<and>
     (\<forall>h s. dm_get (sessions m) h = Some s \<and> live T s \<longrightarrow>
        h \<in> set (dm_or_insert (user_sessions m) (sess_user s) [])) \<and>
     (\<forall>u. length (dm_or_insert (user_sessions m) u []) \<le> max_sessions_per_user m))"

lemma live_later: "live T' s \<Longrightarrow> T \<le> T' \<Longrightarrow> live T s"
  by (simp add: live_def)

lemma sess_invar_later: "sess_invar (T, m) \<Longrightarrow> T \<le> T' \<Longrightarrow> sess_invar (T', m)"
  by (auto simp: sess_invar_def dest: live_later)

text \<open>
  Every operation but creation only shrinks: the live sessions were there before, for the
  same user, and the lists of tokens lose only tokens that are no longer live.
\<close>

definition shrinks :: "nat \<Rightarrow> session_mgr \<Rightarrow> session_mgr \<Rightarrow> bool" where
  "shrinks T m m' \<longleftrightarrow>
     (dm_wf (sessions m) \<longrightarrow> dm_wf (sessions m')) \<and>
     (dm_wf (user_sessions m) \<longrightarrow> dm_wf (user_sessions m')) \<and>
     max_sessions_per_user m' = max_sessions_per_user m \<and>
     (\<forall>h s'. dm_get (sessions m') h = Some s' \<longrightarrow>
        (\<exists>s. dm_get (sessions m) h = Some s \<and> sess_user s = sess_user s' \<and>
           (live T s' \<longrightarrow> live T s \<and>
              (h \<in> set (dm_or_insert (user_sessions m) (sess_user s) []) \<longrightarrow>
               h \<in> set (dm_or_insert (user_sessions m') (sess_user s) []))))) \<and>
     (\<forall>u. length (dm_or_insert (user_sessions m') u []) \<le> length (dm_or_insert (user_sessions m) u []))"

lemma shrinks_refl: "shrinks T m m"
  by (simp add: shrinks_def)

lemma shrinks_invar:
  assumes "sess_invar (T, m)" "shrinks T m m'"
  shows "sess_invar (T, m')"
proof -
  have len: "length (dm_or_insert (user_sessions m') u []) \<le> max_sessions_per_user m'" for u
    using assms by (auto simp: sess_invar_def shrinks_def intro: order_trans)
  have idx: "h \<in> set (dm_or_insert (user_sessions m') (sess_user s') [])"
    if "dm_get (sessions m') h = Some s'" "live T s'" for h s'
  proof -
    from assms(2) that obtain s where s: "dm_get (sessions m) h = Some s" "sess_user s = sess_user s'"
      "live T s" "h \<in> set (dm_or_insert (user_sessions m) (sess_user s) []) \<longrightarrow>
         h \<in> set (dm_or_insert (user_sessions m') (sess_user s) [])"
      unfolding shrinks_def by blast
    from assms(1) s(1,3) have "h \<in> set (dm_or_insert (user_sessions m) (sess_user s) [])"
      by (simp add: sess_invar_def)
    with s(2,4) show ?thesis by simp
  qed
  from assms len idx show ?thesis by (simp add: sess_invar_def shrinks_def)
qed

lemma shrinks_absent:
  assumes "shrinks T m m'" "dm_get (sessions m) h = None"
  shows "dm_get (sessions m') h = None"
proof (rule ccontr)
  assume "dm_get (sessions m') h \<noteq> None"
  then obtain s' where "dm_get (sessions m') h = Some s'" by auto
  with assms(1) have "\<exists>s. dm_get (sessions m) h = Some s" unfolding shrinks_def by blast
  with assms(2) show False by simp
qed

lemma fold_remove_wf: "dm_wf m \<Longrightarrow> dm_wf (fold dm_remove ks m)"
  by (rule dm.wf_fold_rem)

lemma apply_invalidate_token_shrinks: "shrinks T m (fst (apply_invalidate_token k m))"
proof (cases "dm_get (sessions m) k")
  case None
  then show ?thesis by (simp add: apply_invalidate_token_def shrinks_refl)
next
  case (Some s)
  have upd: "dm_or_insert (dm_update v (filter P) M) u [] =
      (if u = v then filter P (dm_or_insert M u []) else dm_or_insert M u [])"
    for v u P and M :: "(string, string list) dashmap"
    by (rule dm_or_insert_update) simp
  from Some show ?thesis
    by (auto simp: apply_invalidate_token_def shrinks_def dashmap_simps upd)
qed

lemma apply_invalidate_user_shrinks:
  "dm_wf (user_sessions m) \<Longrightarrow> dm_wf (sessions m) \<Longrightarrow>
   \<forall>h s. dm_get (sessions m) h = Some s \<and> live T s \<longrightarrow>
        h \<in> set (dm_or_insert (user_sessions m) (sess_user s) []) \<Longrightarrow>
   shrinks T m (fst (apply_invalidate_user u m))"
  using fold_forget_one [of "dm_or_insert (user_sessions m) u []" "(m, 0)"]
  by (auto simp: shrinks_def apply_invalidate_user_get apply_invalidate_user_def case_prod_unfold
      Let_def dm.get_fold_rem fold_remove_wf dashmap_simps split: if_splits)

lemma validate_shrinks: "shrinks now m (fst (validate_with_request hsh now token ip ua m))"
proof -
  have "shrinks now m (m\<lparr>sessions := dm_update k (\<lambda>s. s\<lparr>last_activity := now\<rparr>) (sessions m)\<rparr>)" for k
    by (auto simp: shrinks_def dashmap_simps live_def)
  moreover have "shrinks now m (sess_persist k s m')" if "shrinks now m m'" for k s m'
    using that by (simp add: shrinks_def)
  ultimately show ?thesis
    by (auto simp: validate_with_request_def Let_def shrinks_refl apply_invalidate_token_shrinks
        split: option.split)
qed

lemma cleanup_shrinks:
  assumes "dm_wf (user_sessions m)" "dm_wf (sessions m)"
  shows "shrinks now m (fst (cleanup_expired now m))"
proof -
  let ?rs = "map (\<lambda>(hashed, s). (hashed, sess_user s))
     (filter (\<lambda>(hashed, s). expires_at s < now \<or> \<not> sess_active s) (sessions m))"
  have m': "fst (cleanup_expired now m) = fold cleanup_one ?rs m"
    by (simp add: cleanup_expired_def)
  have dead: "(h, sess_user s) \<notin> set ?rs" if "dm_get (sessions m) h = Some s" "live now s" for h s
    using that by (auto simp: live_def dest!: iffD2 [OF dm_get_mem [OF assms(2)]])
  have users: "dm_get (user_sessions (fold cleanup_one ?rs m)) u =
      map_option (filter (\<lambda>t. (t, u) \<notin> set ?rs)) (dm_get (user_sessions m) u)" for u
    using fold_cleanup_users [OF assms(1), of ?rs u] by simp
  have "dm_wf (user_sessions (fold cleanup_one ?rs m))"
    using fold_cleanup_users [OF assms(1)] by blast
  moreover have "length (dm_or_insert (user_sessions (fold cleanup_one ?rs m)) u []) \<le>
      length (dm_or_insert (user_sessions m) u [])" for u
    by (simp only: dm_or_insert_def users) (simp split: option.split)
  moreover have "h \<in> set (dm_or_insert (user_sessions (fold cleanup_one ?rs m)) (sess_user s) [])"
    if "dm_get (sessions m) h = Some s" "live now s"
      "h \<in> set (dm_or_insert (user_sessions m) (sess_user s) [])" for h s
    using that dead [OF that(1,2)] by (simp only: dm_or_insert_def users) (auto split: option.splits)
  ultimately show ?thesis
    unfolding m' shrinks_def fold_cleanup_sessions dm.get_fold_rem
    by (auto simp: fold_remove_wf assms)
qed

lemma handle_shrinks:
  assumes "sess_invar (T, m)"
  shows "shrinks T m (sess_handle e m)"
  using assms
  by (cases e) (auto simp: sess_invar_def shrinks_refl apply_invalidate_token_shrinks
      intro!: apply_invalidate_user_shrinks)

fun creates :: "sess_op \<Rightarrow> (string \<times> string) option" where
  "creates (OpCreate d user token ip ua ttl) = Some (user, token)"
| "creates _ = None"

lemma exec_shrinks:
  assumes "sess_invar (now, m)" "creates op = None"
  shows "shrinks now m (sess_exec hsh now op m)"
proof (cases op)
  case (OpInvalidate token)
  then show ?thesis
    using apply_invalidate_token_shrinks by (simp add: sess_invalidate_def Let_def case_prod_unfold)
next
  case (OpInvalidateAll u)
  then show ?thesis
    using handle_shrinks [OF assms(1), of "SessionInvalidateUser u"]
    by (simp add: sess_invalidate_all_def case_prod_unfold Let_def)
next
  case OpCleanup
  then show ?thesis using assms(1) by (simp add: cleanup_shrinks sess_invar_def)
qed (use assms in \<open>auto simp: validate_shrinks handle_shrinks\<close>)


section \<open>Creation\<close>

lemma inactive_idem [simp]: "(s\<lparr>sess_active := False\<rparr>)\<lparr>sess_active := False\<rparr> = s\<lparr>sess_active := False\<rparr>"
  by simp

lemma create_effect:
  fixes hsh :: "string \<Rightarrow> string" and now later ttl :: nat and user token ip ua :: string and m :: session_mgr
  defines "tokens \<equiv> prune_tokens later (hsh token) (sessions m)
             (dm_or_insert (user_sessions m) user [] @ [hsh token])"
  defines "n \<equiv> length tokens - max_sessions_per_user m"
  defines "m' \<equiv> fst (sess_create hsh now later user token ip ua ttl m)"
  shows "dm_get (sessions m') h =
      (if h = hsh token
       then Some ((snd (sess_create hsh now later user token ip ua ttl m))\<lparr>sess_token := hsh token\<rparr>)
       else if h \<in> set (take n tokens)
       then map_option (\<lambda>s. s\<lparr>sess_active := False\<rparr>) (dm_get (sessions m) h)
       else dm_get (sessions m) h)"
    and "user_sessions m' = dm_insert user (drop n tokens) (user_sessions m)"
    and "max_sessions_per_user m' = max_sessions_per_user m"
    and "dm_wf (sessions m) \<Longrightarrow> dm_wf (sessions m')"
  by (auto simp: m'_def n_def tokens_def sess_create_def Let_def evict_oldest_spec dashmap_simps
      dm.get_fold_upd dm.wf_fold_upd)

lemma created_session [simp]:
  "sess_user (snd (sess_create hsh now now2 user token ip ua ttl m)) = user"
  "sess_active (snd (sess_create hsh now now2 user token ip ua ttl m))"
  "sess_ip (snd (sess_create hsh now now2 user token ip ua ttl m)) = ip"
  "sess_token (snd (sess_create hsh now now2 user token ip ua ttl m)) = token"
  "expires_at (snd (sess_create hsh now now2 user token ip ua ttl m)) = wrap_add64 now ttl"
  "created_at (snd (sess_create hsh now now2 user token ip ua ttl m)) = now"
  by (simp_all add: sess_create_def Let_def case_prod_unfold)

lemma prune_last: "prune_tokens now2 h store (ts @ [h]) = prune_tokens now2 h store ts @ [h]"
  by (simp add: prune_tokens_def)

lemma create_invar:
  assumes inv: "sess_invar (now2, m)"
  shows "sess_invar (now2, fst (sess_create hsh now now2 user token ip ua ttl m))"
proof -
  let ?m' = "fst (sess_create hsh now now2 user token ip ua ttl m)"
  let ?old = "dm_or_insert (user_sessions m) user []"
  define pruned where "pruned = prune_tokens now2 (hsh token) (sessions m) ?old @ [hsh token]"
  define n where "n = length pruned - max_sessions_per_user m"
  note eff = create_effect [where hsh = hsh and now = now and later = now2 and user = user
      and token = token and ip = ip and ua = ua and ttl = ttl and m = m,
      unfolded prune_last, folded pruned_def, folded n_def]
  have max: "1 \<le> max_sessions_per_user m" using inv by (simp add: sess_invar_def)
  then have last: "hsh token \<in> set (drop n pruned)"
    by (simp add: pruned_def n_def)
  have stays: "h \<in> set (drop n pruned)"
    if "dm_get (sessions m) h = Some s" "live now2 s" "sess_user s = user" "h \<notin> set (take n pruned)"
    for h s
  proof -
    from inv that have "h \<in> set ?old" by (auto simp: sess_invar_def)
    with that have "h \<in> set pruned" by (auto simp: pruned_def prune_tokens_def live_def)
    with that(4) show ?thesis using set_append [of "take n pruned" "drop n pruned"] by simp
  qed
  have idx: "h \<in> set (dm_or_insert (user_sessions ?m') (sess_user s') [])"
    if "dm_get (sessions ?m') h = Some s'" "live now2 s'" for h s'
  proof (cases "h = hsh token")
    case True
    with that have "sess_user s' = user" by (auto simp: eff(1))
    with True last show ?thesis by (simp add: eff(2) dashmap_simps)
  next
    case False
    with that have s': "dm_get (sessions m) h = Some s'" and t: "h \<notin> set (take n pruned)"
      by (auto simp: eff(1) live_def split: if_splits)
    then show ?thesis
      using stays [OF s' that(2)] inv that(2) by (auto simp: eff(2) dashmap_simps sess_invar_def)
  qed
  have len: "length (dm_or_insert (user_sessions ?m') u []) \<le> max_sessions_per_user m" for u
    using inv by (auto simp: eff(2) dashmap_simps sess_invar_def n_def)
  show ?thesis
    using inv idx len eff(4) by (simp add: sess_invar_def eff(2,3) dashmap_simps)
qed

lemma sess_step_invar:
  assumes "sess_invar s"
  shows "sess_invar (sess_step hsh e s)"
proof -
  obtain delay op T m where e: "e = (delay, op)" and s: "s = (T, m)" by (cases e; cases s) auto
  have now: "sess_invar (T + delay + op_duration op, m)"
    using assms unfolding s by (rule sess_invar_later) simp
  show ?thesis
  proof (cases "creates op")
    case None
    then have "op_duration op = 0" by (cases op) simp_all
    with now None show ?thesis
      using shrinks_invar [OF _ exec_shrinks, of "T + delay" m op hsh] by (simp add: e s)
  next
    case (Some c)
    then obtain d user token ip ua ttl where "op = OpCreate d user token ip ua ttl"
      by (cases op) simp_all
    with now show ?thesis by (simp add: e s create_invar)
  qed
qed

interpretation sess: invariant_machine "sess_step hsh" sess_invar
  by unfold_locales (rule sess_step_invar)

lemma sess_new_invar: "sess_invar (T, sess_new k)"
  by (simp add: sess_invar_def sess_new_def dm_or_insert_def)

lemma sess_step_max:
  assumes "sess_invar s"
  shows "max_sessions_per_user (snd (sess_step hsh e s)) = max_sessions_per_user (snd s)"
proof -
  obtain delay op T m where e: "e = (delay, op)" and s: "s = (T, m)" by (cases e; cases s) auto
  have now: "sess_invar (T + delay, m)"
    using assms unfolding s by (rule sess_invar_later) simp
  show ?thesis
  proof (cases "creates op")
    case None
    then show ?thesis using exec_shrinks [OF now None, of hsh] by (simp add: e s shrinks_def)
  next
    case (Some c)
    then show ?thesis by (cases op) (simp_all add: e s create_effect(3))
  qed
qed

lemma sess_run_max:
  "sess_invar s \<Longrightarrow>
   max_sessions_per_user (snd (fold (sess_step hsh) es s)) = max_sessions_per_user (snd s)"
  by (induction es arbitrary: s) (simp_all add: sess_step_max sess_step_invar)

lemma live_sessions_bound:
  assumes "sess_invar (T, m)"
  shows "length (live_sessions T u m) \<le> max_sessions_per_user m"
proof -
  let ?l = "live_sessions T u m" and ?ts = "dm_or_insert (user_sessions m) u []"
  have wf: "dm_wf (sessions m)" using assms by (simp add: sess_invar_def)
  have "fst ` set ?l \<subseteq> set ?ts"
  proof
    fix h assume "h \<in> fst ` set ?l"
    then obtain s where "(h, s) \<in> set (sessions m)" and s: "sess_user s = u" "live T s"
      by (auto simp: live_sessions_def)
    then have "dm_get (sessions m) h = Some s" using dm_get_mem [OF wf] by simp
    with s assms show "h \<in> set ?ts" by (auto simp: sess_invar_def)
  qed
  moreover have "dm_wf ?l" unfolding live_sessions_def using wf by (rule distinct_filter_fst)
  then have "length ?l = card (fst ` set ?l)"
    unfolding dm_wf_def by (metis distinct_card length_map set_map)
  ultimately have "length ?l \<le> card (set ?ts)" by (simp add: card_mono)
  also have "\<dots> \<le> length ?ts" by (rule card_length)
  also have "\<dots> \<le> max_sessions_per_user m" using assms by (simp add: sess_invar_def)
  finally show ?thesis .
qed

section \<open>Properties\<close>

text \<open>
  C6: The session limit holds at every moment. After any sequence of creations,
  validations, invalidations, cleanups and bus events, no user has more live sessions
  (active and not expired) than the limit, and the limit is at least one.
\<close>

theorem session_cap:
  "case fold (sess_step hsh) es (T0, sess_new k) of
     (T, m) \<Rightarrow> length (live_sessions T u m) \<le> max k 1"
proof -
  obtain T m where run: "fold (sess_step hsh) es (T0, sess_new k) = (T, m)" by fastforce
  have "sess_invar (T, m)"
    using sess.run_invar [OF sess_new_invar, of hsh es T0 k] by (simp add: run)
  then have "length (live_sessions T u m) \<le> max_sessions_per_user m"
    by (rule live_sessions_bound)
  moreover have "max_sessions_per_user m = max k 1"
    using sess_run_max [OF sess_new_invar, of hsh es T0 k] by (simp add: run) (simp add: sess_new_def)
  ultimately show ?thesis by (simp add: run)
qed

text \<open>What is gone stays gone until somebody creates it again.\<close>

definition user_gone :: "string \<Rightarrow> sess_state \<Rightarrow> bool" where
  "user_gone u = (\<lambda>(T, m).
     \<forall>h s. dm_get (sessions m) h = Some s \<and> sess_user s = u \<longrightarrow> \<not> live T s)"

definition token_gone :: "string \<Rightarrow> sess_state \<Rightarrow> bool" where
  "token_gone h = (\<lambda>(T, m). dm_get (sessions m) h = None)"

lemma gone_step:
  assumes inv: "sess_invar (T, m)"
  shows "user_gone u (T, m) \<Longrightarrow> (\<And>tok. creates op \<noteq> Some (u, tok)) \<Longrightarrow>
      user_gone u (sess_step hsh (delay, op) (T, m))"
    and "token_gone h (T, m) \<Longrightarrow> (\<And>v tok. creates op = Some (v, tok) \<Longrightarrow> hsh tok \<noteq> h) \<Longrightarrow>
      token_gone h (sess_step hsh (delay, op) (T, m))"
proof -
  let ?m' = "sess_exec hsh (T + delay) op m"
  have now: "sess_invar (T + delay, m)" using inv by (rule sess_invar_later) simp
  { assume gone: "user_gone u (T, m)" and op: "\<And>tok. creates op \<noteq> Some (u, tok)"
    have gone': "\<not> live (T + delay + x) s"
      if "dm_get (sessions m) h = Some s" "sess_user s = u" for h s x
    proof -
      from gone that have "\<not> live T s" by (simp add: user_gone_def)
      then show ?thesis using live_later [of "T + delay + x" s T] by auto
    qed
    show "user_gone u (sess_step hsh (delay, op) (T, m))"
    proof (cases "creates op")
      case None
      then have "op_duration op = 0" by (cases op) simp_all
      then show ?thesis
        using exec_shrinks [OF now None, of hsh] gone' [where x = 0]
        unfolding shrinks_def user_gone_def by (simp) metis
    next
      case (Some c)
      with op obtain d v tok ip ua ttl where c: "op = OpCreate d v tok ip ua ttl" "v \<noteq> u"
        by (cases op) auto
      then show ?thesis
        using gone' [where x = d] by (auto simp: user_gone_def create_effect(1) live_def split: if_splits)
    qed }
  { assume gone: "token_gone h (T, m)"
      and op: "\<And>v tok. creates op = Some (v, tok) \<Longrightarrow> hsh tok \<noteq> h"
    show "token_gone h (sess_step hsh (delay, op) (T, m))"
    proof (cases "creates op")
      case None
      then have "dm_get (sessions ?m') h = None"
        using shrinks_absent [OF exec_shrinks [OF now None]] gone by (simp add: token_gone_def)
      then show ?thesis by (simp add: token_gone_def)
    next
      case (Some c)
      with op gone show ?thesis
        by (cases op) (auto simp: token_gone_def create_effect(1))
    qed }
qed

lemma gone_run:
  assumes "sess_invar s"
  shows "user_gone u s \<Longrightarrow> (\<forall>(d, op) \<in> set es. \<forall>tok. creates op \<noteq> Some (u, tok)) \<Longrightarrow>
      user_gone u (fold (sess_step hsh) es s)"
    and "token_gone h s \<Longrightarrow> (\<forall>(d, op) \<in> set es. \<forall>v tok. creates op = Some (v, tok) \<longrightarrow> hsh tok \<noteq> h) \<Longrightarrow>
      token_gone h (fold (sess_step hsh) es s)"
proof -
  show "user_gone u s \<Longrightarrow> (\<forall>(d, op) \<in> set es. \<forall>tok. creates op \<noteq> Some (u, tok)) \<Longrightarrow>
      user_gone u (fold (sess_step hsh) es s)"
    using assms
  proof (induction es arbitrary: s)
    case (Cons e es)
    have "user_gone u (sess_step hsh e s)"
      using Cons.prems by (cases e; cases s) (auto intro!: gone_step(1) simp del: sess_step.simps)
    with Cons show ?case by (simp add: sess_step_invar)
  qed simp
  show "token_gone h s \<Longrightarrow> (\<forall>(d, op) \<in> set es. \<forall>v tok. creates op = Some (v, tok) \<longrightarrow> hsh tok \<noteq> h) \<Longrightarrow>
      token_gone h (fold (sess_step hsh) es s)"
    using assms
  proof (induction es arbitrary: s)
    case (Cons e es)
    have "token_gone h (sess_step hsh e s)"
      using Cons.prems by (cases e; cases s) (auto intro!: gone_step(2) simp del: sess_step.simps)
    with Cons show ?case by (simp add: sess_step_invar)
  qed simp
qed

text \<open>After \<open>invalidate_all\<close> no live session of the user is left: the index is complete.\<close>

lemma invalidate_user_gone:
  assumes "sess_invar (T, m)"
  shows "user_gone u (T, fst (apply_invalidate_user u m))"
  using assms
  by (auto simp: user_gone_def sess_invar_def apply_invalidate_user_get split: if_splits)

text \<open>
  C7: Logging a user out everywhere is complete and lasting. After \<open>invalidate_all\<close>, on the
  node itself or received over the bus, no token validates for that user again, whatever
  happens afterwards, unless a new session is created for the user.
\<close>

theorem logout_everywhere:
  assumes "op \<in> {OpInvalidateAll u, OpBus (SessionInvalidateUser u)}"
    and "\<forall>(d, op) \<in> set later. \<forall>tok. creates op \<noteq> Some (u, tok)"
    and "fold (sess_step hsh) (earlier @ (delay, op) # later) (T0, sess_new k) = (T, m)"
  shows "live_sessions T u m = [] \<and>
    (\<forall>token ip ua s. snd (validate_with_request hsh T token ip ua m) = Some s \<longrightarrow> sess_user s \<noteq> u)"
proof -
  let ?s0 = "fold (sess_step hsh) earlier (T0, sess_new k)"
  have s0: "sess_invar ?s0" by (rule sess.run_invar [OF sess_new_invar])
  then have s1: "sess_invar (sess_step hsh (delay, op) ?s0)" by (rule sess_step_invar)
  obtain T1 m1 where eq: "?s0 = (T1, m1)" by fastforce
  have "sess_invar (T1 + delay, m1)" using s0 unfolding eq by (rule sess_invar_later) simp
  then have "user_gone u (T1 + delay, fst (apply_invalidate_user u m1))"
    by (rule invalidate_user_gone)
  then have "user_gone u (sess_step hsh (delay, op) ?s0)"
    using assms(1) by (auto simp: eq sess_invalidate_all_def case_prod_unfold Let_def)
  from gone_run(1) [OF s1 this assms(2), where hsh = hsh] have gone: "user_gone u (T, m)"
    using assms(3) by simp
  have "sess_invar (T, m)"
    using sess.run_invar [OF s1, of hsh later] assms(3) by simp
  then have "dm_wf (sessions m)" by (simp add: sess_invar_def)
  then have "live_sessions T u m = []"
    using gone by (auto simp: live_sessions_def user_gone_def filter_empty_conv dm_get_mem)
  moreover have "sess_user s \<noteq> u"
    if "snd (validate_with_request hsh T token ip ua m) = Some s" for token ip ua s
    using that gone by (auto simp: validate_result user_gone_def live_def split: option.splits if_splits)
  ultimately show ?thesis by blast
qed

text \<open>
  A stolen token dies on first use. When a request presents a live session's token from
  an address other than the one it is bound to, the request is refused, and the token is
  refused to everybody from then on, the rightful owner included, until a session is
  created under the same hash.
\<close>

theorem stolen_token_revoked:
  assumes "fold (sess_step hsh) earlier (T0, sess_new k) = (T, m)"
    and "snd (sess_validate hsh T token m) = Some s" "ip_mismatch s (Some ip)"
    and "\<forall>(d, op) \<in> set later. \<forall>v tok. creates op = Some (v, tok) \<longrightarrow> hsh tok \<noteq> hsh token"
    and "fold (sess_step hsh) ((0, OpValidate token (Some ip) ua) # later) (T, m) = (T', m')"
  shows "snd (validate_with_request hsh T token (Some ip) ua m) = None \<and>
    snd (validate_with_request hsh T' token ip' ua' m') = None"
proof -
  let ?s1 = "sess_step hsh (0, OpValidate token (Some ip) ua) (T, m)"
  obtain s0 where s0: "dm_get (sessions m) (hsh token) = Some s0" "live T s0"
    "s = s0\<lparr>last_activity := T, sess_token := token\<rparr>"
    using assms(2)
    by (auto simp: sess_validate_def validate_result live_def split: option.splits if_splits)
  then have mis: "ip_mismatch s0 (Some ip)" using assms(3) by (simp add: ip_mismatch_def)
  have "sess_invar (T, m)"
    using sess.run_invar [OF sess_new_invar, of hsh earlier T0 k] by (simp add: assms(1))
  then have inv: "sess_invar ?s1" by (rule sess_step_invar)
  have "token_gone (hsh token) ?s1"
    using s0 mis by (simp add: token_gone_def validate_sessions_get live_def)
  from gone_run(2) [OF inv this assms(4)] have "token_gone (hsh token) (T', m')"
    using assms(5) by simp
  moreover have "snd (validate_with_request hsh T token (Some ip) ua m) = None"
    using s0 mis by (simp add: validate_result)
  ultimately show ?thesis by (simp add: token_gone_def validate_result)
qed

section \<open>Restart\<close>

text \<open>
  The table mirrors the map: the rows the issued statements leave are the sessions, under
  the same keys, up to the throttled time of the last activity.
\<close>

definition mirrored :: "session_mgr \<Rightarrow> bool" where
  "mirrored m \<longleftrightarrow>
     (\<exists>log. sess_storage m = Some log \<and>
       (\<forall>h. case dm_get (sessions m) h of
          None \<Rightarrow> dm_get (db_replay log) h = None
        | Some s \<Rightarrow> sess_token s = h \<and>
            (\<exists>la. dm_get (db_replay log) h = Some (session_row h (s\<lparr>last_activity := la\<rparr>)))))"

lemma mirroredE:
  assumes "mirrored m"
  obtains log where "sess_storage m = Some log"
    "\<And>h. dm_get (sessions m) h = None \<Longrightarrow> dm_get (db_replay log) h = None"
    "\<And>h s. dm_get (sessions m) h = Some s \<Longrightarrow> sess_token s = h"
    "\<And>h s. dm_get (sessions m) h = Some s \<Longrightarrow>
       \<exists>la. dm_get (db_replay log) h = Some (session_row h (s\<lparr>last_activity := la\<rparr>))"
proof -
  from assms obtain log where log: "sess_storage m = Some log"
    and all: "\<And>h. case dm_get (sessions m) h of
          None \<Rightarrow> dm_get (db_replay log) h = None
        | Some s \<Rightarrow> sess_token s = h \<and>
            (\<exists>la. dm_get (db_replay log) h = Some (session_row h (s\<lparr>last_activity := la\<rparr>)))"
    unfolding mirrored_def by blast
  show ?thesis
  proof (rule that [OF log])
    fix h s
    show "dm_get (sessions m) h = None \<Longrightarrow> dm_get (db_replay log) h = None"
      using all [of h] by simp
    assume "dm_get (sessions m) h = Some s"
    with all [of h] show "sess_token s = h"
      "\<exists>la. dm_get (db_replay log) h = Some (session_row h (s\<lparr>last_activity := la\<rparr>))"
      by simp_all
  qed
qed

lemma mirrored_token: "mirrored m \<Longrightarrow> dm_get (sessions m) h = Some s \<Longrightarrow> sess_token s = h"
  by (erule mirroredE) blast

lemma mirrored_users: "mirrored (m\<lparr>user_sessions := us\<rparr>) = mirrored m"
  by (simp add: mirrored_def)

lemma mirrored_store:
  assumes "mirrored m" "sess_token s = k" "\<And>h. h \<noteq> k \<Longrightarrow> dm_get ss h = dm_get (sessions m) h"
    "dm_get ss k = Some s"
  shows "mirrored (sess_persist k s (m\<lparr>sessions := ss\<rparr>))"
proof -
  from assms(1) obtain log where log: "sess_storage m = Some log"
    "\<And>h. dm_get (sessions m) h = None \<Longrightarrow> dm_get (db_replay log) h = None"
    "\<And>h s. dm_get (sessions m) h = Some s \<Longrightarrow> sess_token s = h"
    "\<And>h s. dm_get (sessions m) h = Some s \<Longrightarrow>
       \<exists>la. dm_get (db_replay log) h = Some (session_row h (s\<lparr>last_activity := la\<rparr>))"
    by (rule mirroredE) blast
  have "\<exists>la. session_row k s = session_row k (s\<lparr>last_activity := la\<rparr>)"
    by (rule exI [of _ "last_activity s"]) simp
  with log assms show ?thesis
    by (auto simp: mirrored_def sess_persist_def sess_issue_def dashmap_simps split: option.split)
qed

lemma mirrored_touch:
  assumes "mirrored m"
  shows "mirrored (m\<lparr>sessions := dm_update k (\<lambda>s. s\<lparr>last_activity := t\<rparr>) (sessions m)\<rparr>)"
  using assms
  by (rule mirroredE) (auto simp: mirrored_def dashmap_simps split: option.split)

lemma mirrored_drop:
  assumes "mirrored m"
  shows "mirrored (drop_session k (delete_persisted k m))"
  using assms
  by (rule mirroredE)
    (auto simp: mirrored_def delete_persisted_def sess_issue_def dashmap_simps split: option.split)

lemma mirrored_deactivate:
  assumes "mirrored m"
  shows "mirrored (deactivate k m)"
proof (cases "dm_get (sessions m) k")
  case None
  then show ?thesis using assms by (simp add: deactivate_def)
next
  case (Some s)
  moreover have "sess_token s = k" using assms Some by (rule mirrored_token)
  ultimately show ?thesis
    using assms unfolding deactivate_def
    by (auto intro!: mirrored_store simp: dashmap_simps)
qed

lemma mirrored_fold:
  assumes "\<And>x m. mirrored m \<Longrightarrow> mirrored (f x m)"
  shows "mirrored m \<Longrightarrow> mirrored (fold f xs m)"
  by (induction xs arbitrary: m) (simp_all add: assms)

lemma mirrored_forget:
  "mirrored (fst p) \<Longrightarrow> mirrored (fst (fold forget_one ks p))"
  by (induction ks arbitrary: p) (simp_all add: forget_one_def case_prod_unfold mirrored_drop)

lemma mirrored_unindex: "mirrored (unindex u k m) = mirrored m"
  by (simp add: unindex_def mirrored_users)

lemma mirrored_invalidate: "mirrored m \<Longrightarrow> mirrored (fst (apply_invalidate_token k m))"
  by (simp add: apply_invalidate_token_def mirrored_drop mirrored_unindex split: option.split)

lemma mirrored_invalidate_user: "mirrored m \<Longrightarrow> mirrored (fst (apply_invalidate_user u m))"
  by (simp add: apply_invalidate_user_def Let_def case_prod_unfold mirrored_users mirrored_forget)

lemma mirrored_handle: "mirrored m \<Longrightarrow> mirrored (sess_handle e m)"
  by (cases e) (simp_all add: mirrored_invalidate mirrored_invalidate_user)

lemma mirrored_cleanup: "mirrored m \<Longrightarrow> mirrored (cleanup_one r m)"
proof -
  assume "mirrored m"
  have "delete_persisted k (drop_session k m) = drop_session k (delete_persisted k m)" for k
    by (simp add: delete_persisted_def drop_session_def sess_issue_def)
  with mirrored_drop [OF \<open>mirrored m\<close>] show ?thesis
    by (simp add: cleanup_one_def case_prod_unfold mirrored_unindex)
qed

lemma mirrored_create:
  assumes "mirrored m"
  shows "mirrored (fst (sess_create hsh now now2 user token ip ua ttl m))"
  using assms
  by (auto simp: sess_create_def Let_def case_prod_unfold dashmap_simps mirrored_users
      intro!: mirrored_store mirrored_fold mirrored_deactivate)

lemma mirrored_validate:
  assumes "mirrored m"
  shows "mirrored (fst (validate_with_request hsh now token ip ua m))"
proof (cases "dm_get (sessions m) (hsh token)")
  case None
  then show ?thesis using assms by (simp add: validate_with_request_def)
next
  case (Some s)
  have "sess_token s = hsh token" using assms Some by (rule mirrored_token)
  then have "mirrored (sess_persist (hsh token) (s\<lparr>last_activity := now\<rparr>)
      (m\<lparr>sessions := dm_update (hsh token) (\<lambda>s. s\<lparr>last_activity := now\<rparr>) (sessions m)\<rparr>))"
    using assms Some by (auto intro!: mirrored_store simp: dashmap_simps)
  with Some show ?thesis
    using assms by (simp add: validate_with_request_def Let_def mirrored_invalidate mirrored_touch)
qed

lemma mirrored_step: "mirrored (snd s) \<Longrightarrow> mirrored (snd (sess_step hsh e s))"
proof -
  assume m: "mirrored (snd s)"
  have "mirrored (sess_exec hsh now op (snd s))" for now op
    using m by (cases op) (simp_all add: mirrored_create mirrored_validate mirrored_handle
        mirrored_invalidate mirrored_invalidate_user sess_invalidate_def sess_invalidate_all_def
        Let_def case_prod_unfold cleanup_expired_def mirrored_fold mirrored_cleanup)
  then show ?thesis by (cases e; cases s) simp
qed

lemma mirrored_run: "mirrored (snd s) \<Longrightarrow> mirrored (snd (fold (sess_step hsh) es s))"
  by (induction es arbitrary: s) (simp_all add: mirrored_step)

lemma row_session_round:
  assumes "created_at s < 2 ^ 63" "expires_at s < 2 ^ 63" "sess_token s = h"
  shows "(row_session (session_row h s))\<lparr>last_activity := t\<rparr> = s\<lparr>last_activity := t\<rparr>"
    and "row_text ''hashed_token'' (session_row h s) = h"
  using assms
  by (cases s; simp add: row_session_def session_row_def row_text_def row_text_opt_def row_u64_def
      i64_of_u64_def)+

text \<open>What the restart loop loads, whatever the order of the rows.\<close>

lemma fold_load_get:
  assumes "dm_wf t" "\<forall>(k, r) \<in> set t. row_text ''hashed_token'' r = k"
  shows "dm_get (sessions (fold (load_row now) (map snd t) m)) h =
    (case dm_get t h of
       Some r \<Rightarrow> if sess_active (row_session r) \<and> now < expires_at (row_session r)
                then Some (row_session r) else dm_get (sessions m) h
     | None \<Rightarrow> dm_get (sessions m) h)"
  using assms
proof (induction t arbitrary: m)
  case (Cons e t)
  obtain k r where e: "e = (k, r)" by (cases e)
  with Cons.prems have k: "sess_token (row_session r) = k" and t: "dm_get t k = None" "dm_wf t"
    by (auto simp: row_session_def dm_wf_def dm_get_None_iff)
  have "dm_get (sessions (load_row now r m)) h =
      (if h = k \<and> sess_active (row_session r) \<and> now < expires_at (row_session r)
       then Some (row_session r) else dm_get (sessions m) h)"
    by (auto simp: load_row_def Let_def k dashmap_simps)
  with Cons.IH [OF t(2), of "load_row now r m"] Cons.prems(2) t(1) show ?case
    by (auto simp: e split: option.split)
qed simp

lemma load_rows_get:
  assumes "dm_wf t" "\<forall>(k, r) \<in> set t. row_text ''hashed_token'' r = k"
    and "mset rows = mset (map snd t)"
  shows "dm_get (sessions (sess_with_storage now k rows)) h =
    (case dm_get t h of
       Some r \<Rightarrow> if sess_active (row_session r) \<and> now < expires_at (row_session r)
                then Some (row_session r) else None
     | None \<Rightarrow> None)"
proof -
  let ?key = "\<lambda>r. (row_text ''hashed_token'' r, r)"
  let ?t = "map ?key rows"
  have "map ?key (map snd t) = t"
    using assms(2) by (induction t) auto
  moreover have "mset ?t = mset (map ?key (map snd t))"
    by (simp only: mset_map [of ?key] assms(3))
  ultimately have perm: "mset ?t = mset t" by simp
  have "mset (map fst ?t) = mset (map fst t)" by (simp only: mset_map [of fst] perm)
  then have "distinct (map fst ?t) = distinct (map fst t)" by (rule mset_eq_imp_distinct_iff)
  then have "dm_wf ?t" using assms(1) by (simp only: dm_wf_def)
  moreover have "dm_get ?t = dm_get t"
    using dm_get_order [OF assms(1) perm [symmetric]] by (rule sym)
  ultimately have wf: "dm_wf ?t" "dm_get ?t = dm_get t" .
  have "map snd ?t = rows" by (simp add: comp_def)
  then have "sess_with_storage now k rows =
      fold (load_row now) (map snd ?t) (sess_new k)\<lparr>sess_storage := Some []\<rparr>"
    by (simp add: sess_with_storage_def)
  then have "dm_get (sessions (sess_with_storage now k rows)) h =
      dm_get (sessions (fold (load_row now) (map snd ?t) (sess_new k))) h"
    by simp
  also have "\<dots> = (case dm_get t h of
       Some r \<Rightarrow> if sess_active (row_session r) \<and> now < expires_at (row_session r)
                then Some (row_session r) else None
     | None \<Rightarrow> None)"
    using fold_load_get [OF wf(1), of now "sess_new k" h]
    by (simp add: wf(2) sess_new_def split: option.split)
  finally show ?thesis .
qed

section \<open>What requests can see\<close>

text \<open>
  An abstraction of the manager at a moment: the live sessions without the time of their last use,
  and per user the hashes of the live ones in the order of the index, which decides who is evicted.
\<close>

definition index_of :: "session_mgr \<Rightarrow> string \<Rightarrow> string list" where
  "index_of m u = dm_or_insert (user_sessions m) u []"

definition sess_view :: "nat \<Rightarrow> session_mgr \<Rightarrow> string \<Rightarrow> session option" where
  "sess_view T m h =
     (case dm_get (sessions m) h of
        Some s \<Rightarrow> if live T s then Some (s\<lparr>last_activity := 0\<rparr>) else None
      | None \<Rightarrow> None)"

definition login_order :: "nat \<Rightarrow> session_mgr \<Rightarrow> string \<Rightarrow> string list" where
  "login_order T m u = filter (\<lambda>h. sess_view T m h \<noteq> None) (index_of m u)"

text \<open>The index lists the live sessions, each once and under its user, and no hash outside \<open>H\<close>.\<close>

definition sess_tidy :: "string set \<Rightarrow> nat \<Rightarrow> session_mgr \<Rightarrow> bool" where
  "sess_tidy H T m \<longleftrightarrow>
     dm_wf (sessions m) \<and> dm_wf (user_sessions m) \<and> 1 \<le> max_sessions_per_user m \<and>
     (\<forall>u. distinct (index_of m u) \<and> set (index_of m u) \<subseteq> H) \<and>
     (\<forall>h. dm_get (sessions m) h \<noteq> None \<longrightarrow> h \<in> H) \<and>
     (\<forall>h s u. sess_view T m h = Some s \<longrightarrow> (h \<in> set (index_of m u) \<longleftrightarrow> sess_user s = u))"

lemma tidyD:
  assumes "sess_tidy H T m"
  shows "dm_wf (sessions m)" "dm_wf (user_sessions m)" "1 \<le> max_sessions_per_user m"
    "distinct (index_of m u)" "set (index_of m u) \<subseteq> H" "dm_get (sessions m) h \<noteq> None \<Longrightarrow> h \<in> H"
    "sess_view T m h = Some s \<Longrightarrow> h \<in> set (index_of m u) \<longleftrightarrow> sess_user s = u"
  using assms by (auto simp: sess_tidy_def)

lemma live_touch [simp]: "live T (s\<lparr>last_activity := t\<rparr>) = live T s"
  by (simp add: live_def)

lemma sess_view_later:
  "T \<le> T' \<Longrightarrow> sess_view T' m h = (case sess_view T m h of Some s \<Rightarrow> if live T' s then Some s else None | None \<Rightarrow> None)"
  by (auto simp: sess_view_def dest: live_later split: option.split)

lemma sess_view_later_Some: "T \<le> T' \<Longrightarrow> sess_view T' m h = Some s \<Longrightarrow> sess_view T m h = Some s"
  by (auto simp: sess_view_later split: option.splits if_splits)

lemma tidy_later: "sess_tidy H T m \<Longrightarrow> T \<le> T' \<Longrightarrow> sess_tidy H T' m"
  using sess_view_later_Some by (auto simp: sess_tidy_def)

lemma order_later: "T \<le> T' \<Longrightarrow> login_order T' m u = filter (\<lambda>h. sess_view T' m h \<noteq> None) (login_order T m u)"
  using sess_view_later_Some [of T T' m] by (auto simp: login_order_def intro!: filter_cong)

lemma tidy_order: "sess_tidy H T m \<Longrightarrow> set (login_order T m u) = {h. \<exists>s. sess_view T m h = Some s \<and> sess_user s = u}"
  using tidyD(7) by (fastforce simp: login_order_def)

lemma tidy_order_distinct: "sess_tidy H T m \<Longrightarrow> distinct (login_order T m u)"
  by (simp add: login_order_def tidyD(4))

text \<open>What an operation other than a creation takes away.\<close>

fun erases :: "(string \<Rightarrow> string) \<Rightarrow> sess_op \<Rightarrow> string \<Rightarrow> session \<Rightarrow> bool" where
  "erases hsh (OpValidate token ip ua) h s \<longleftrightarrow> h = hsh token \<and> ip_mismatch s ip"
| "erases hsh (OpInvalidate token) h s \<longleftrightarrow> h = hsh token"
| "erases hsh (OpInvalidateAll u) h s \<longleftrightarrow> sess_user s = u"
| "erases hsh (OpBus (SessionInvalidateToken k)) h s \<longleftrightarrow> h = k"
| "erases hsh (OpBus (SessionInvalidateUser u)) h s \<longleftrightarrow> sess_user s = u"
| "erases hsh _ h s \<longleftrightarrow> False"

definition without_erased :: "(string \<Rightarrow> session \<Rightarrow> bool) \<Rightarrow> (string \<Rightarrow> session option) \<Rightarrow> string \<Rightarrow> session option" where
  "without_erased P v h = (case v h of Some s \<Rightarrow> if P h s then None else Some s | None \<Rightarrow> None)"

definition narrows :: "nat \<Rightarrow> (string \<Rightarrow> session \<Rightarrow> bool) \<Rightarrow> session_mgr \<Rightarrow> session_mgr \<Rightarrow> bool" where
  "narrows now P m m' \<longleftrightarrow>
     dm_wf (sessions m') \<and> dm_wf (user_sessions m') \<and> max_sessions_per_user m' = max_sessions_per_user m \<and>
     sess_view now m' = without_erased P (sess_view now m) \<and>
     (\<forall>h. dm_get (sessions m) h = None \<longrightarrow> dm_get (sessions m') h = None) \<and>
     (\<forall>u. \<exists>Q. index_of m' u = filter Q (index_of m u) \<and>
        (\<forall>h \<in> set (index_of m u). sess_view now m' h \<noteq> None \<longrightarrow> Q h))"

lemma without_Some: "without_erased P v h = Some s \<longleftrightarrow> v h = Some s \<and> \<not> P h s"
  by (auto simp: without_erased_def split: option.split)

lemma narrows_tidy:
  assumes "narrows now P m m'" "sess_tidy H now m"
  shows "sess_tidy H now m'" "login_order now m' u = filter (\<lambda>h. sess_view now m' h \<noteq> None) (login_order now m u)"
proof -
  have v: "sess_view now m' = without_erased P (sess_view now m)" using assms(1) by (simp add: narrows_def)
  have "\<forall>u. \<exists>Q. index_of m' u = filter Q (index_of m u) \<and>
      (\<forall>h \<in> set (index_of m u). sess_view now m' h \<noteq> None \<longrightarrow> Q h)" using assms(1) unfolding narrows_def by blast
  then obtain Q where Q: "\<And>u. index_of m' u = filter (Q u) (index_of m u)"
    "\<And>u h. h \<in> set (index_of m u) \<Longrightarrow> sess_view now m' h \<noteq> None \<Longrightarrow> Q u h" by metis
  have key: "h \<in> set (index_of m' w) \<longleftrightarrow> sess_user s = w" if "sess_view now m' h = Some s" for h s w
  proof -
    have "sess_view now m h = Some s" using that by (simp add: v without_Some)
    then have "h \<in> set (index_of m w) \<longleftrightarrow> sess_user s = w" by (rule tidyD(7) [OF assms(2)])
    moreover have "h \<in> set (index_of m' w) \<longleftrightarrow> h \<in> set (index_of m w)" using Q that by auto
    ultimately show ?thesis by simp
  qed
  have sub: "set (index_of m' w) \<subseteq> H" for w using tidyD(5) [OF assms(2)] by (auto simp: Q(1))
  show "sess_tidy H now m'"
    unfolding sess_tidy_def
  proof (intro conjI allI impI)
    fix h assume "dm_get (sessions m') h \<noteq> None"
    then have "dm_get (sessions m) h \<noteq> None" using assms(1) by (auto simp: narrows_def)
    then show "h \<in> H" by (rule tidyD(6) [OF assms(2)])
  qed (use assms key sub tidyD(3,4) [OF assms(2)] Q(1) in \<open>auto simp: narrows_def\<close>)
  show "login_order now m' u = filter (\<lambda>h. sess_view now m' h \<noteq> None) (login_order now m u)"
    using Q(1) [of u] Q(2) [where u = u] by (auto simp: login_order_def v without_erased_def intro!: filter_cong split: option.splits)
qed

lemma index_update:
  "index_of (unindex v k m) u = (if u = v then filter (\<lambda>t. t \<noteq> k) (index_of m u) else index_of m u)"
  by (auto simp: index_of_def dm_or_insert_def dashmap_simps split: option.split)

lemma index_frame [simp]:
  "index_of (drop_session k m) u = index_of m u" "index_of (delete_persisted k m) u = index_of m u"
  "index_of (sess_persist k s m) u = index_of m u" "index_of (m\<lparr>sessions := ss\<rparr>) u = index_of m u"
  by (simp_all add: index_of_def)

lemma narrows_token:
  assumes "sess_tidy H now m"
  shows "narrows now (\<lambda>h s. h = k) m (fst (apply_invalidate_token k m))"
proof -
  let ?m' = "fst (apply_invalidate_token k m)"
  have sess_view: "sess_view now ?m' = without_erased (\<lambda>h s. h = k) (sess_view now m)"
    by (rule ext) (auto simp: sess_view_def without_erased_def apply_invalidate_token_get split: option.split)
  have "\<exists>Q. index_of ?m' u = filter Q (index_of m u) \<and> (\<forall>h \<in> set (index_of m u). sess_view now ?m' h \<noteq> None \<longrightarrow> Q h)" for u
  proof (cases "\<exists>s. dm_get (sessions m) k = Some s \<and> sess_user s = u")
    case True
    then have "index_of ?m' u = filter (\<lambda>t. t \<noteq> k) (index_of m u)"
      by (auto simp: apply_invalidate_token_def index_update)
    then show ?thesis by (intro exI [of _ "\<lambda>t. t \<noteq> k"]) (auto simp: sess_view without_erased_def split: option.splits)
  next
    case False
    then have "index_of ?m' u = index_of m u"
      by (auto simp: apply_invalidate_token_def index_update split: option.split)
    then show ?thesis by (intro exI [of _ "\<lambda>t. True"]) simp
  qed
  moreover have "dm_wf (sessions ?m') \<and> dm_wf (user_sessions ?m') \<and> max_sessions_per_user ?m' = max_sessions_per_user m"
    using tidyD(1,2) [OF assms] by (simp add: apply_invalidate_token_def dashmap_simps split: option.split)
  ultimately show ?thesis by (simp add: narrows_def sess_view apply_invalidate_token_get)
qed

lemma narrows_user:
  assumes "sess_tidy H now m"
  shows "narrows now (\<lambda>h s. sess_user s = u) m (fst (apply_invalidate_user u m))"
proof -
  let ?m' = "fst (apply_invalidate_user u m)"
  have "sess_view now ?m' h = without_erased (\<lambda>h s. sess_user s = u) (sess_view now m) h" for h
  proof (cases "sess_view now m h")
    case None
    then show ?thesis by (auto simp: sess_view_def without_erased_def apply_invalidate_user_get split: option.splits if_splits)
  next
    case (Some s)
    from tidyD(7) [OF assms this, of u] Some show ?thesis
      by (auto simp: sess_view_def without_erased_def apply_invalidate_user_get index_of_def split: option.splits if_splits)
  qed
  then have sess_view: "sess_view now ?m' = without_erased (\<lambda>h s. sess_user s = u) (sess_view now m)" by (rule ext)
  have idx: "index_of ?m' w = (if w = u then [] else index_of m w)" for w
    by (simp add: index_of_def apply_invalidate_user_get(2) dashmap_simps)
  have "\<exists>Q. index_of ?m' w = filter Q (index_of m w) \<and> (\<forall>h \<in> set (index_of m w). sess_view now ?m' h \<noteq> None \<longrightarrow> Q h)" for w
  proof (cases "w = u")
    case True
    then have "sess_view now ?m' h = None" if "h \<in> set (index_of m w)" for h
      using that tidyD(7) [OF assms, of h _ u] by (auto simp: sess_view without_erased_def split: option.split)
    then show ?thesis using True by (intro exI [of _ "\<lambda>t. False"]) (simp add: idx)
  next
    case False
    then show ?thesis by (intro exI [of _ "\<lambda>t. True"]) (simp add: idx)
  qed
  moreover have "dm_wf (sessions ?m') \<and> dm_wf (user_sessions ?m') \<and> max_sessions_per_user ?m' = max_sessions_per_user m"
    using tidyD(1,2) [OF assms] fold_forget_one [of "dm_or_insert (user_sessions m) u []" "(m, 0)"]
    by (simp add: apply_invalidate_user_def case_prod_unfold Let_def fold_remove_wf dashmap_simps)
  ultimately show ?thesis by (simp add: narrows_def sess_view apply_invalidate_user_get)
qed

lemma narrows_touch:
  assumes "sess_tidy H now m"
  shows "narrows now (\<lambda>h s. False) m (m\<lparr>sessions := dm_update k (\<lambda>s. s\<lparr>last_activity := t\<rparr>) (sessions m)\<rparr>)"
proof -
  have "sess_view now (m\<lparr>sessions := dm_update k (\<lambda>s. s\<lparr>last_activity := t\<rparr>) (sessions m)\<rparr>) h = sess_view now m h" for h
    by (auto simp: sess_view_def dashmap_simps split: option.splits)
  then show ?thesis using tidyD(1,2) [OF assms]
    by (auto simp: narrows_def without_erased_def dashmap_simps fun_eq_iff split: option.split intro!: exI [of _ "\<lambda>t. True"])
qed

lemma narrows_refl: "sess_tidy H now m \<Longrightarrow> narrows now (\<lambda>h s. False) m m"
  using tidyD(1,2) [of H now m]
  by (auto simp: narrows_def without_erased_def fun_eq_iff split: option.split intro!: exI [of _ "\<lambda>t. True"])

lemma narrows_persist: "narrows now P m (sess_persist k s m') = narrows now P m m'"
  by (simp add: narrows_def sess_view_def [abs_def])

lemma narrows_cong:
  assumes "narrows now P m m'" "\<And>h s. sess_view now m h = Some s \<Longrightarrow> P h s = P' h s"
  shows "narrows now P' m m'"
proof -
  have "without_erased P (sess_view now m) = without_erased P' (sess_view now m)"
    using assms(2) by (auto simp: without_erased_def fun_eq_iff split: option.split)
  with assms(1) show ?thesis unfolding narrows_def by metis
qed

lemma mismatch_view: "sess_view now m h = Some s \<Longrightarrow> dm_get (sessions m) h = Some s' \<Longrightarrow> ip_mismatch s ip = ip_mismatch s' ip"
  by (cases ip) (auto simp: sess_view_def ip_mismatch_def split: if_splits)

lemma narrows_validate:
  assumes "sess_tidy H now m"
  shows "narrows now (\<lambda>h s. h = hsh token \<and> ip_mismatch s ip) m (fst (validate_with_request hsh now token ip ua m))"
proof (cases "\<exists>s. dm_get (sessions m) (hsh token) = Some s \<and> live now s")
  case False
  then have "fst (validate_with_request hsh now token ip ua m) = m" "sess_view now m (hsh token) = None"
    by (auto simp: validate_with_request_def Let_def sess_view_def live_def not_le split: option.split)
  then show ?thesis by (auto intro!: narrows_cong [OF narrows_refl [OF assms]])
next
  case True
  then obtain s where s: "dm_get (sessions m) (hsh token) = Some s" "live now s" by blast
  show ?thesis
  proof (cases "ip_mismatch s ip")
    case True
    then have "fst (validate_with_request hsh now token ip ua m) = fst (apply_invalidate_token (hsh token) m)"
      using s by (simp add: validate_with_request_def live_def)
    then show ?thesis using True s mismatch_view [of now m "hsh token" _ s ip]
      by (auto intro!: narrows_cong [OF narrows_token [OF assms]])
  next
    case False
    have "narrows now (\<lambda>h s. h = hsh token \<and> ip_mismatch s ip) m
        (m\<lparr>sessions := dm_update (hsh token) (\<lambda>s. s\<lparr>last_activity := now\<rparr>) (sessions m)\<rparr>)"
      using False s mismatch_view [of now m "hsh token" _ s ip]
      by (auto intro!: narrows_cong [OF narrows_touch [OF assms]])
    then show ?thesis using False s by (simp add: validate_with_request_def live_def Let_def narrows_persist)
  qed
qed

lemma narrows_cleanup:
  assumes "sess_tidy H now m"
  shows "narrows now (\<lambda>h s. False) m (fst (cleanup_expired now m))"
proof -
  define rs where "rs = map (\<lambda>(hashed, s). (hashed, sess_user s))
     (filter (\<lambda>(hashed, s). expires_at s < now \<or> \<not> sess_active s) (sessions m))"
  let ?m' = "fold cleanup_one rs m"
  note wf = tidyD(1,2) [OF assms]
  have dead: "sess_view now m h = None" if "(h, u) \<in> set rs" for h u
  proof -
    from that obtain s where "(h, s) \<in> set (sessions m)" "expires_at s < now \<or> \<not> sess_active s"
      by (auto simp: rs_def)
    then show ?thesis using dm_get_mem [OF wf(1), of h s] by (auto simp: sess_view_def live_def)
  qed
  have gone: "dm_get (sessions ?m') h = (if h \<in> fst ` set rs then None else dm_get (sessions m) h)" for h
    by (simp only: fold_cleanup_sessions dm.get_fold_rem set_map)
  have "sess_view now ?m' h = sess_view now m h" for h
    using dead [of h] by (fastforce simp: sess_view_def gone image_iff)
  then have view: "sess_view now ?m' = sess_view now m" by (rule ext)
  note users = fold_cleanup_users [OF wf(2), of rs]
  have idx: "index_of ?m' u = filter (\<lambda>t. (t, u) \<notin> set rs) (index_of m u)" for u
    using conjunct2 [OF users, of u] by (cases "dm_get (user_sessions m) u") (simp_all add: index_of_def dm_or_insert_def)
  have "\<exists>Q. index_of ?m' u = filter Q (index_of m u) \<and> (\<forall>h \<in> set (index_of m u). sess_view now ?m' h \<noteq> None \<longrightarrow> Q h)" for u
    by (intro exI [of _ "\<lambda>t. (t, u) \<notin> set rs"]) (use dead idx view in auto)
  moreover have "dm_wf (sessions ?m')" using wf(1) by (simp only: fold_cleanup_sessions fold_remove_wf)
  moreover have "without_erased (\<lambda>h s. False) (sess_view now m) = sess_view now m"
    by (auto simp: without_erased_def fun_eq_iff split: option.split)
  ultimately have "narrows now (\<lambda>h s. False) m ?m'" using users gone view by (simp add: narrows_def)
  then show ?thesis by (simp add: cleanup_expired_def rs_def)
qed

text \<open>Every operation but a creation takes away exactly the sessions it erases.\<close>

lemma exec_narrows:
  assumes "sess_tidy H now m" "creates op = None"
  shows "narrows now (erases hsh op) m (sess_exec hsh now op m)"
proof (cases op)
  case (OpValidate token ip ua)
  then show ?thesis using narrows_cong [OF narrows_validate [OF assms(1), of hsh token ip ua], of "erases hsh op"] by simp
next
  case (OpInvalidate token)
  then show ?thesis using narrows_cong [OF narrows_token [OF assms(1)], of "hsh token" "erases hsh op"]
    by (simp add: sess_invalidate_def Let_def case_prod_unfold)
next
  case (OpInvalidateAll u)
  then show ?thesis using narrows_cong [OF narrows_user [OF assms(1)], of u "erases hsh op"]
    by (simp add: sess_invalidate_all_def Let_def case_prod_unfold)
next
  case OpCleanup
  then show ?thesis using narrows_cong [OF narrows_cleanup [OF assms(1)], of "erases hsh op"] by simp
next
  case (OpBus e)
  show ?thesis
  proof (cases e)
    case (SessionInvalidateToken k)
    then show ?thesis using OpBus narrows_cong [OF narrows_token [OF assms(1)], of k "erases hsh op"] by simp
  next
    case (SessionInvalidateUser u)
    then show ?thesis using OpBus narrows_cong [OF narrows_user [OF assms(1)], of u "erases hsh op"] by simp
  qed (use OpBus narrows_cong [OF narrows_refl [OF assms(1)], of "erases hsh op"] in simp_all)
qed (use assms(2) in simp)

text \<open>
  A creation under a new hash adds the session, if it is not expired at once, and evicts the
  oldest live ones of the user beyond the limit.
\<close>

definition evicted :: "nat \<Rightarrow> session_mgr \<Rightarrow> string \<Rightarrow> string list" where
  "evicted now2 m u = take (Suc (length (login_order now2 m u)) - max_sessions_per_user m) (login_order now2 m u)"

definition new_view :: "nat \<Rightarrow> session \<Rightarrow> session option" where
  "new_view now2 s = (if live now2 s then Some (s\<lparr>last_activity := 0\<rparr>) else None)"

lemma create_view:
  fixes hsh :: "string \<Rightarrow> string" and now now2 ttl :: nat and user token ip ua :: string and m :: session_mgr
  defines "m' \<equiv> fst (sess_create hsh now now2 user token ip ua ttl m)"
  assumes tidy: "sess_tidy H now2 m" and new: "hsh token \<notin> H"
  shows "sess_view now2 m' h =
      (if h = hsh token then new_view now2 ((snd (sess_create hsh now now2 user token ip ua ttl m))\<lparr>sess_token := h\<rparr>)
       else if h \<in> set (evicted now2 m user) then None else sess_view now2 m h)" (is "?V h")
    and "login_order now2 m' u =
      filter (\<lambda>h. sess_view now2 m' h \<noteq> None)
        (if u = user then login_order now2 m u @ [hsh token] else login_order now2 m u)"
    and "sess_tidy (insert (hsh token) H) now2 m'"
    and "max_sessions_per_user m' = max_sessions_per_user m"
proof -
  let ?s = "(snd (sess_create hsh now now2 user token ip ua ttl m))\<lparr>sess_token := hsh token\<rparr>"
  let ?l = "login_order now2 m user"
  let ?k = "Suc (length ?l) - max_sessions_per_user m"
  have absent: "hsh token \<notin> set (index_of m w)" "dm_get (sessions m) (hsh token) = None" for w
    using tidyD(5) [OF tidy, of w] tidyD(6) [OF tidy, of "hsh token"] new
    by (auto intro: ccontr)
  have "prune_tokens now2 (hsh token) (sessions m) (index_of m user) = ?l"
    using absent(1) by (auto simp: prune_tokens_def login_order_def sess_view_def live_def
        intro!: filter_cong split: option.split)
  then have tokens: "prune_tokens now2 (hsh token) (sessions m) (dm_or_insert (user_sessions m) user [] @ [hsh token]) = ?l @ [hsh token]"
    by (simp add: prune_last index_of_def)
  have small: "?k \<le> length ?l" using tidyD(3) [OF tidy] by simp
  note eff = create_effect [where hsh = hsh and now = now and later = now2 and user = user
      and token = token and ip = ip and ua = ua and ttl = ttl and m = m, folded m'_def, unfolded tokens]
  have ev: "take (length (?l @ [hsh token]) - max_sessions_per_user m) (?l @ [hsh token]) = evicted now2 m user"
    using small by (simp add: evicted_def)
  have get: "dm_get (sessions m') h = (if h = hsh token then Some ?s
      else if h \<in> set (evicted now2 m user) then map_option (\<lambda>s. s\<lparr>sess_active := False\<rparr>) (dm_get (sessions m) h)
      else dm_get (sessions m) h)" for h
    using eff(1) unfolding ev .
  have V: "?V h" for h
    by (auto simp: sess_view_def get new_view_def live_def split: option.split)
  show "?V h" by (rule V)
  have kept: "drop (length (?l @ [hsh token]) - max_sessions_per_user m) (?l @ [hsh token]) = drop ?k ?l @ [hsh token]"
    using small by simp
  have idx: "index_of m' w = (if w = user then drop ?k ?l @ [hsh token] else index_of m w)" for w
    using eff(2) unfolding kept by (simp add: index_of_def dm_or_insert_insert)
  have out: "sess_view now2 m' h = None" if "h \<in> set (take ?k ?l)" for h
    using that absent(1) by (auto simp: V evicted_def login_order_def dest: in_set_takeD)
  have other: "sess_view now2 m' h = sess_view now2 m h" if "h \<in> set (index_of m w)" "w \<noteq> user" for h w
  proof (cases "h \<in> set (evicted now2 m user)")
    case True
    then have "h \<in> set ?l" by (auto simp: evicted_def dest: in_set_takeD)
    then obtain s where s: "sess_view now2 m h = Some s" "sess_user s = user" using tidy_order [OF tidy] by auto
    with tidyD(7) [OF tidy s(1), of w] that show ?thesis by simp
  qed (use absent that in \<open>auto simp: V\<close>)
  have drop: "filter (\<lambda>h. sess_view now2 m' h \<noteq> None) (drop ?k ?l @ [hsh token]) =
      filter (\<lambda>h. sess_view now2 m' h \<noteq> None) (?l @ [hsh token])"
  proof -
    have "filter (\<lambda>h. sess_view now2 m' h \<noteq> None) (take ?k ?l) = []" using out by (auto simp: filter_empty_conv)
    then have "filter (\<lambda>h. sess_view now2 m' h \<noteq> None) (take ?k ?l @ drop ?k ?l) =
        filter (\<lambda>h. sess_view now2 m' h \<noteq> None) (drop ?k ?l)" by (simp only: filter_append append_Nil)
    then show ?thesis by simp
  qed
  show "login_order now2 m' u = filter (\<lambda>h. sess_view now2 m' h \<noteq> None)
        (if u = user then login_order now2 m u @ [hsh token] else login_order now2 m u)"
  proof (cases "u = user")
    case True
    then show ?thesis using drop by (simp only: login_order_def [of _ m'] idx if_True simp_thms)
  next
    case False
    then show ?thesis using other [OF _ False] by (auto simp: login_order_def idx intro!: filter_cong)
  qed
  have dl: "distinct ?l" "set ?l \<subseteq> H" using tidy_order_distinct [OF tidy] tidyD(5) [OF tidy]
    by (auto simp: login_order_def)
  have key: "h \<in> set (index_of m' w) \<longleftrightarrow> sess_user s = w" if "sess_view now2 m' h = Some s" for h s w
  proof (cases "h = hsh token")
    case True
    then have "sess_user s = user" using that by (auto simp: V new_view_def split: if_splits)
    then show ?thesis using True absent(1) by (auto simp: idx)
  next
    case False
    then have s: "sess_view now2 m h = Some s" "h \<notin> set (evicted now2 m user)" using that by (auto simp: V split: if_splits)
    have "h \<in> set (index_of m' user) \<longleftrightarrow> h \<in> set ?l"
    proof -
      have "h \<in> set ?l \<longleftrightarrow> h \<in> set (take ?k ?l) \<or> h \<in> set (drop ?k ?l)"
        by (metis Un_iff append_take_drop_id set_append)
      then show ?thesis using s(2) False by (simp add: idx evicted_def)
    qed
    moreover have "h \<in> set ?l \<longleftrightarrow> h \<in> set (index_of m user)" using s(1) by (simp add: login_order_def)
    ultimately show ?thesis using tidyD(7) [OF tidy s(1), of w] by (cases "w = user") (simp_all add: idx)
  qed
  have di: "distinct (index_of m' w)" "set (index_of m' w) \<subseteq> insert (hsh token) H" for w
    using tidyD(4,5) [OF tidy, of w] dl absent(1) new by (auto simp: idx distinct_drop dest: in_set_dropD)
  show "max_sessions_per_user m' = max_sessions_per_user m" by (rule eff(3))
  show "sess_tidy (insert (hsh token) H) now2 m'"
    unfolding sess_tidy_def
  proof (intro conjI allI impI)
    fix h assume "dm_get (sessions m') h \<noteq> None"
    then show "h \<in> insert (hsh token) H"
      using tidyD(6) [OF tidy, of h] by (auto simp: get split: if_splits)
  qed (use key di eff(4) tidyD(1,2,3) [OF tidy] in \<open>auto simp: eff(2,3) dashmap_simps\<close>)
qed

section \<open>Two managers that answer alike\<close>

text \<open>
  Two managers agree at a moment when requests see the same in them; for the users of \<open>ordered\<close>
  their live sessions are also in the same order.
\<close>

definition agree :: "string set \<Rightarrow> nat \<Rightarrow> session_mgr \<Rightarrow> session_mgr \<Rightarrow> bool" where
  "agree ordered T m m' \<longleftrightarrow>
     sess_view T m = sess_view T m' \<and> max_sessions_per_user m = max_sessions_per_user m' \<and>
     (\<forall>u \<in> ordered. login_order T m u = login_order T m' u)"

lemma agree_later: "agree ordered T m m' \<Longrightarrow> T \<le> T' \<Longrightarrow> agree ordered T' m m'"
  by (auto simp: agree_def order_later sess_view_later fun_eq_iff)

lemma agree_length:
  assumes "agree ordered T m m'" "sess_tidy H T m" "sess_tidy H' T m'"
  shows "length (login_order T m u) = length (login_order T m' u)"
proof -
  have "set (login_order T m u) = set (login_order T m' u)"
    using assms(1) by (simp add: tidy_order [OF assms(2)] tidy_order [OF assms(3)] agree_def)
  then show ?thesis
    using distinct_card [OF tidy_order_distinct [OF assms(2)]] distinct_card [OF tidy_order_distinct [OF assms(3)]] by metis
qed

lemma live_sessions_length:
  assumes "sess_tidy H T m"
  shows "length (live_sessions T u m) = length (login_order T m u)"
proof -
  let ?l = "map fst (live_sessions T u m)"
  note wf = tidyD(1) [OF assms]
  have "distinct ?l"
    using distinct_filter_fst [OF wf, of "\<lambda>(h, s). sess_user s = u \<and> live T s"] by (simp add: live_sessions_def dm_wf_def)
  moreover have "set ?l = set (login_order T m u)"
  proof -
    have "h \<in> set ?l \<longleftrightarrow> (\<exists>s. dm_get (sessions m) h = Some s \<and> sess_user s = u \<and> live T s)" for h
      unfolding dm_get_mem [OF wf] by (force simp: live_sessions_def)
    moreover have "(\<exists>s. dm_get (sessions m) h = Some s \<and> sess_user s = u \<and> live T s) \<longleftrightarrow>
        (\<exists>s. sess_view T m h = Some s \<and> sess_user s = u)" for h
      by (auto simp: sess_view_def split: option.splits)
    ultimately show ?thesis unfolding tidy_order [OF assms] by blast
  qed
  ultimately show ?thesis
    using distinct_card [OF tidy_order_distinct [OF assms]] distinct_card [of ?l] by (metis length_map)
qed

lemma agree_narrows:
  assumes "agree ordered now m m'" "sess_tidy H now m" "sess_tidy H' now m'" "creates op = None"
  shows "agree ordered now (sess_exec hsh now op m) (sess_exec hsh now op m')"
proof -
  note n = exec_narrows [OF assms(2,4), of hsh] and n' = exec_narrows [OF assms(3,4), of hsh]
  show ?thesis
    using assms(1) n n'
    unfolding agree_def narrows_tidy(2) [OF n assms(2)] narrows_tidy(2) [OF n' assms(3)]
    by (auto simp: narrows_def)
qed

lemma agree_create:
  assumes a: "agree ordered now2 m m'" and t: "sess_tidy H now2 m" and t': "sess_tidy H' now2 m'"
    and new: "hsh token \<notin> H" "hsh token \<notin> H'"
    and room: "user \<in> ordered \<or> length (login_order now2 m user) < max_sessions_per_user m"
  shows "agree ordered now2 (fst (sess_create hsh now now2 user token ip ua ttl m))
    (fst (sess_create hsh now now2 user token ip ua ttl m'))"
proof -
  let ?c = "\<lambda>m. sess_create hsh now now2 user token ip ua ttl m"
  have same: "snd (?c m) = snd (?c m')" by (simp add: sess_create_def Let_def case_prod_unfold)
  have "evicted now2 m user = evicted now2 m' user"
  proof (cases "user \<in> ordered")
    case True
    then show ?thesis using a by (simp add: evicted_def agree_def)
  next
    case False
    then show ?thesis using room a agree_length [OF a t t', of user] by (simp add: evicted_def agree_def)
  qed
  then have view: "sess_view now2 (fst (?c m)) = sess_view now2 (fst (?c m'))"
    using a by (auto simp: create_view(1) [where hsh = hsh, OF t new(1)] create_view(1) [where hsh = hsh, OF t' new(2)]
        same agree_def)
  have "login_order now2 (fst (?c m)) u = login_order now2 (fst (?c m')) u" if "u \<in> ordered" for u
  proof -
    have "login_order now2 m u = login_order now2 m' u" using a that by (simp add: agree_def)
    then show ?thesis
      unfolding create_view(2) [where hsh = hsh, OF t new(1)] create_view(2) [where hsh = hsh, OF t' new(2)] view
      by (cases "u = user") simp_all
  qed
  then show ?thesis using a view
    by (simp add: agree_def create_view(4) [where hsh = hsh, OF t new(1)] create_view(4) [where hsh = hsh, OF t' new(2)])
qed

definition created_hashes :: "(string \<Rightarrow> string) \<Rightarrow> (nat \<times> sess_op) list \<Rightarrow> string list" where
  "created_hashes hsh es = concat (map (\<lambda>(d, op). case creates op of Some (u, tok) \<Rightarrow> [hsh tok] | None \<Rightarrow> []) es)"

text \<open>A run in which nobody outside \<open>ordered\<close> has to be evicted.\<close>

fun roomy :: "(string \<Rightarrow> string) \<Rightarrow> string set \<Rightarrow> (nat \<times> sess_op) list \<Rightarrow> sess_state \<Rightarrow> bool" where
  "roomy hsh ordered [] s \<longleftrightarrow> True"
| "roomy hsh ordered ((delay, op) # es) (T, m) \<longleftrightarrow>
     (case creates op of
        Some (u, tok) \<Rightarrow> u \<in> ordered \<or>
          length (live_sessions (T + delay + op_duration op) u m) < max_sessions_per_user m
      | None \<Rightarrow> True) \<and>
     roomy hsh ordered es (sess_step hsh (delay, op) (T, m))"

lemma tidy_step:
  assumes "sess_tidy H T m" "set (created_hashes hsh [(delay, op)]) \<inter> H = {}"
  shows "sess_tidy (H \<union> set (created_hashes hsh [(delay, op)]))
    (fst (sess_step hsh (delay, op) (T, m))) (snd (sess_step hsh (delay, op) (T, m)))"
proof (cases "creates op")
  case None
  then have "op_duration op = 0" by (cases op) simp_all
  moreover have "sess_tidy H (T + delay) m" by (rule tidy_later [OF assms(1)]) simp
  from narrows_tidy(1) [OF exec_narrows [OF this None] this] None show ?thesis
    by (simp add: created_hashes_def \<open>op_duration op = 0\<close>)
next
  case (Some c)
  then obtain d user token ip ua ttl where op: "op = OpCreate d user token ip ua ttl" by (cases op) simp_all
  have "sess_tidy H (T + delay + d) m" by (rule tidy_later [OF assms(1)]) simp
  from create_view(3) [where hsh = hsh, OF this] assms(2) show ?thesis by (simp add: op created_hashes_def)
qed

lemma created_Cons: "created_hashes hsh (e # es) = created_hashes hsh [e] @ created_hashes hsh es"
  by (simp add: created_hashes_def)

lemma tidy_run:
  "sess_tidy H (fst s) (snd s) \<Longrightarrow> distinct (created_hashes hsh es) \<Longrightarrow> set (created_hashes hsh es) \<inter> H = {} \<Longrightarrow>
   sess_tidy (H \<union> set (created_hashes hsh es)) (fst (fold (sess_step hsh) es s)) (snd (fold (sess_step hsh) es s))"
proof (induction es arbitrary: s H)
  case (Cons e es)
  obtain delay op T m where e: "e = (delay, op)" and s: "s = (T, m)" by (cases e; cases s) auto
  let ?H = "H \<union> set (created_hashes hsh [e])"
  have "sess_tidy ?H (fst (sess_step hsh e s)) (snd (sess_step hsh e s))"
    using tidy_step [of H T m hsh delay op] Cons.prems(1,3) unfolding e s created_Cons [of hsh "(delay, op)" es] by auto
  from Cons.IH [OF this] Cons.prems(2,3) show ?case
    by (simp add: created_Cons [of hsh e es] Un_assoc) blast
qed (simp add: created_hashes_def)

lemma agree_step:
  assumes a: "agree ordered T m m'" and t: "sess_tidy H T m" and t': "sess_tidy H T m'"
    and new: "set (created_hashes hsh [(delay, op)]) \<inter> H = {}" and room: "roomy hsh ordered [(delay, op)] (T, m)"
  shows "fst (sess_step hsh (delay, op) (T, m)) = fst (sess_step hsh (delay, op) (T, m'))"
    and "agree ordered (fst (sess_step hsh (delay, op) (T, m)))
      (snd (sess_step hsh (delay, op) (T, m))) (snd (sess_step hsh (delay, op) (T, m')))"
proof -
  have later: "agree ordered (T + x) m m'" "sess_tidy H (T + x) m" "sess_tidy H (T + x) m'" for x
    using agree_later [OF a] tidy_later [OF t] tidy_later [OF t'] by simp_all
  show "agree ordered (fst (sess_step hsh (delay, op) (T, m)))
      (snd (sess_step hsh (delay, op) (T, m))) (snd (sess_step hsh (delay, op) (T, m')))"
  proof (cases "creates op")
    case None
    then have "op_duration op = 0" by (cases op) simp_all
    then show ?thesis using agree_narrows [OF later None] by simp
  next
    case (Some c)
    then obtain d user token ip ua ttl where op: "op = OpCreate d user token ip ua ttl" by (cases op) simp_all
    have "hsh token \<notin> H" using new by (simp add: op created_hashes_def)
    moreover have "user \<in> ordered \<or> length (login_order (T + (delay + d)) m user) < max_sessions_per_user m"
      using room live_sessions_length [OF later(2)] by (simp add: op add.assoc)
    ultimately show ?thesis using agree_create [OF later, of hsh token user] by (simp add: op add.assoc)
  qed
qed simp

lemma agree_run:
  "agree ordered T m m' \<Longrightarrow> sess_tidy H T m \<Longrightarrow> sess_tidy H T m' \<Longrightarrow> distinct (created_hashes hsh es) \<Longrightarrow>
   set (created_hashes hsh es) \<inter> H = {} \<Longrightarrow> roomy hsh ordered es (T, m) \<Longrightarrow>
   fold (sess_step hsh) es (T, m) = (t1, old) \<Longrightarrow> fold (sess_step hsh) es (T, m') = (t2, new) \<Longrightarrow>
   t1 = t2 \<and> agree ordered t1 old new \<and> (\<exists>H. sess_tidy H t1 old \<and> sess_tidy H t1 new)"
proof (induction es arbitrary: T m m' H)
  case (Cons e es)
  obtain delay op where e: "e = (delay, op)" by force
  obtain T1 m1 where 1: "sess_step hsh e (T, m) = (T1, m1)" by force
  obtain T2 m2 where 2: "sess_step hsh e (T, m') = (T2, m2)" by force
  have new: "set (created_hashes hsh [(delay, op)]) \<inter> H = {}"
    using Cons.prems(5) unfolding e created_Cons [of hsh "(delay, op)" es] by auto
  have "roomy hsh ordered [(delay, op)] (T, m)" using Cons.prems(6) by (simp add: e)
  note step = agree_step [OF Cons.prems(1-3) new this, folded e, unfolded 1 2, simplified]
  let ?H = "H \<union> set (created_hashes hsh [e])"
  have "sess_tidy ?H T1 m1" "sess_tidy ?H T2 m2"
    using tidy_step [OF Cons.prems(2) new, folded e] tidy_step [OF Cons.prems(3) new, folded e] 1 2 by simp_all
  then have t: "sess_tidy ?H T1 m1" "sess_tidy ?H T1 m2" using step(1) by simp_all
  have "roomy hsh ordered es (T1, m1)" using Cons.prems(6) 1 by (simp add: e del: sess_step.simps)
  moreover have "set (created_hashes hsh es) \<inter> ?H = {}" "distinct (created_hashes hsh es)"
    using Cons.prems(4,5) unfolding created_Cons [of hsh e es] by auto
  moreover have "fold (sess_step hsh) es (T1, m1) = (t1, old)" "fold (sess_step hsh) es (T1, m2) = (t2, new)"
    using Cons.prems(7,8) 1 2 step(1) by simp_all
  ultimately show ?case using Cons.IH [OF step(2) t] by blast
qed auto

text \<open>A request sees only the view.\<close>

lemma validate_view:
  "snd (validate_with_request hsh t token ip ua m) =
     (case sess_view t m (hsh token) of
        Some s \<Rightarrow> if ip_mismatch s ip then None else Some (s\<lparr>last_activity := t, sess_token := token\<rparr>)
      | None \<Rightarrow> None)"
  by (cases ip) (auto simp: validate_result sess_view_def live_def ip_mismatch_def split: option.split)

section \<open>The reloaded manager\<close>

definition loaded :: "nat \<Rightarrow> row \<Rightarrow> bool" where
  "loaded now r \<longleftrightarrow> sess_active (row_session r) \<and> now < expires_at (row_session r)"

lemma load_row_index:
  "index_of (fold (load_row now) rows m) u = index_of m u @
     map (row_text ''hashed_token'') (filter (\<lambda>r. loaded now r \<and> sess_user (row_session r) = u) rows)"
proof (induction rows arbitrary: m)
  case (Cons r rows)
  have "index_of (load_row now r m) u = index_of m u @
      (if loaded now r \<and> sess_user (row_session r) = u then [row_text ''hashed_token'' r] else [])"
    by (auto simp: load_row_def Let_def loaded_def index_of_def dm_or_insert_insert row_session_def)
  with Cons show ?case by simp
qed simp

lemma load_row_wf:
  "dm_wf (sessions m) \<Longrightarrow> dm_wf (user_sessions m) \<Longrightarrow>
   dm_wf (sessions (fold (load_row now) rows m)) \<and> dm_wf (user_sessions (fold (load_row now) rows m)) \<and>
   max_sessions_per_user (fold (load_row now) rows m) = max_sessions_per_user m"
proof (induction rows arbitrary: m)
  case (Cons r rows)
  have "dm_wf (sessions (load_row now r m)) \<and> dm_wf (user_sessions (load_row now r m)) \<and>
      max_sessions_per_user (load_row now r m) = max_sessions_per_user m"
    using Cons.prems by (simp add: load_row_def Let_def dashmap_simps)
  with Cons.IH [of "load_row now r m"] show ?case by simp
qed simp

lemma reload_max: "max_sessions_per_user (sess_with_storage now k rows) = max k 1"
  using load_row_wf [of "sess_new k" now rows] by (simp add: sess_with_storage_def) (simp add: sess_new_def)

lemma load_rows_tidy:
  assumes t: "dm_wf t" "\<forall>(k, r) \<in> set t. row_text ''hashed_token'' r = k" "mset rows = mset (map snd t)"
    and H: "fst ` set t \<subseteq> H"
  shows "sess_tidy H (Suc now) (sess_with_storage now k rows)"
proof -
  let ?m = "sess_with_storage now k rows" and ?tok = "row_text ''hashed_token''"
  note get = load_rows_get [OF t, of now k]
  have idx: "index_of ?m u = map ?tok (filter (\<lambda>r. loaded now r \<and> sess_user (row_session r) = u) rows)" for u
    using load_row_index [of now rows "sess_new k" u]
    by (simp add: sess_with_storage_def index_of_def sess_new_def dm_or_insert_def)
  have row: "r \<in> set rows \<longleftrightarrow> (?tok r, r) \<in> set t" for r
  proof -
    have "set rows = snd ` set t" using arg_cong [OF t(3), of set_mset] by simp
    then have "r \<in> set rows \<longleftrightarrow> (\<exists>h. (h, r) \<in> set t)" by force
    moreover have "?tok r = h" if "(h, r) \<in> set t" for h using t(2) that by blast
    ultimately show ?thesis by metis
  qed
  have "map ?tok (map snd t) = map fst t" using t(2) by (induction t) auto
  then have "mset (map ?tok rows) = mset (map fst t)" by (metis mset_map t(3))
  then have d: "distinct (map ?tok rows)" using t(1) unfolding dm_wf_def by (metis mset_eq_imp_distinct_iff)
  have key: "h \<in> set (index_of ?m u) \<longleftrightarrow> sess_user s = u" if "sess_view (Suc now) ?m h = Some s" for h s u
  proof -
    from that obtain r where r: "dm_get t h = Some r" "loaded now r" "s = (row_session r)\<lparr>last_activity := 0\<rparr>"
      by (auto simp: sess_view_def get loaded_def split: option.splits if_splits)
    have "r' = r" if "r' \<in> set rows" "?tok r' = h" for r'
    proof -
      have "(h, r') \<in> set t" using that row by auto
      with r(1) dm_get_mem [OF t(1), of h r'] show ?thesis by simp
    qed
    moreover have "r \<in> set rows \<and> ?tok r = h"
    proof -
      have "(h, r) \<in> set t" using r(1) dm_get_mem [OF t(1)] by blast
      moreover from this t(2) have "?tok r = h" by blast
      ultimately show ?thesis using row by simp
    qed
    ultimately have "h \<in> set (index_of ?m u) \<longleftrightarrow> loaded now r \<and> sess_user (row_session r) = u"
      by (auto simp: idx image_iff)
    then show ?thesis using r(2,3) by simp
  qed
  have sub: "set (index_of ?m u) \<subseteq> H" for u using H row by (force simp: idx)
  have di: "distinct (index_of ?m u)" for u using d by (simp add: idx distinct_map_filter)
  have wf: "dm_wf (sessions ?m)" "dm_wf (user_sessions ?m)"
    using load_row_wf [of "sess_new k" now rows] by (simp_all add: sess_with_storage_def) (simp_all add: sess_new_def)
  show ?thesis
    unfolding sess_tidy_def
  proof (intro conjI allI impI)
    fix h assume "dm_get (sessions ?m) h \<noteq> None"
    then obtain r where "dm_get t h = Some r" by (auto simp: get split: option.splits)
    then have "(h, r) \<in> set t" using dm_get_mem [OF t(1)] by blast
    then show "h \<in> H" using H by force
  qed (use key sub di wf in \<open>auto simp: reload_max\<close>)
qed

lemma mirrored_rows:
  assumes "mirrored m" "sess_storage m = Some log"
    and "\<forall>h s. dm_get (sessions m) h = Some s \<longrightarrow> created_at s < 2 ^ 63 \<and> expires_at s < 2 ^ 63"
  shows "\<forall>(k, r) \<in> set (db_replay log). row_text ''hashed_token'' r = k"
    and "case dm_get (db_replay log) h of
        None \<Rightarrow> dm_get (sessions m) h = None
      | Some r \<Rightarrow> map_option (\<lambda>s. s\<lparr>last_activity := 0\<rparr>) (dm_get (sessions m) h) = Some ((row_session r)\<lparr>last_activity := 0\<rparr>)"
proof -
  have tok: "\<And>h s. dm_get (sessions m) h = Some s \<Longrightarrow> sess_token s = h"
    and absent: "\<And>h. dm_get (sessions m) h = None \<Longrightarrow> dm_get (db_replay log) h = None"
    and rows: "\<And>h s. dm_get (sessions m) h = Some s \<Longrightarrow>
       \<exists>la. dm_get (db_replay log) h = Some (session_row h (s\<lparr>last_activity := la\<rparr>))"
    using assms(1,2) by (auto elim!: mirroredE)
  have round: "(row_session (session_row h (s\<lparr>last_activity := la\<rparr>)))\<lparr>last_activity := x\<rparr> =
      s\<lparr>last_activity := x\<rparr> \<and> row_text ''hashed_token'' (session_row h (s\<lparr>last_activity := la\<rparr>)) = h"
    if "dm_get (sessions m) h = Some s" for h s la x
    using row_session_round(1) [of "s\<lparr>last_activity := la\<rparr>" h x]
      row_session_round(2) [of "s\<lparr>last_activity := la\<rparr>" h] assms(3) tok that by auto
  show "\<forall>(k, r) \<in> set (db_replay log). row_text ''hashed_token'' r = k"
  proof clarify
    fix h r assume "(h, r) \<in> set (db_replay log)"
    then have r: "dm_get (db_replay log) h = Some r" using dm_get_mem [OF db_replay_wf] by blast
    then obtain s where s: "dm_get (sessions m) h = Some s" using absent by fastforce
    then show "row_text ''hashed_token'' r = h" using rows [OF s] r round [OF s] by auto
  qed
  show "case dm_get (db_replay log) h of
        None \<Rightarrow> dm_get (sessions m) h = None
      | Some r \<Rightarrow> map_option (\<lambda>s. s\<lparr>last_activity := 0\<rparr>) (dm_get (sessions m) h) = Some ((row_session r)\<lparr>last_activity := 0\<rparr>)"
  proof (cases "dm_get (sessions m) h")
    case None
    then show ?thesis using absent by simp
  next
    case (Some s)
    then show ?thesis using rows [OF Some] round [OF Some] by auto
  qed
qed

lemma reload_view:
  assumes "mirrored m" "sess_storage m = Some log"
    and "\<forall>h s. dm_get (sessions m) h = Some s \<longrightarrow> created_at s < 2 ^ 63 \<and> expires_at s < 2 ^ 63"
    and "mset rows = mset (map snd (db_replay log))"
  shows "sess_view (Suc now) (sess_with_storage now k rows) = sess_view (Suc now) m"
proof
  fix h
  note load = load_rows_get [OF db_replay_wf mirrored_rows(1) [OF assms(1-3)] assms(4), of now k h]
  note row = mirrored_rows(2) [OF assms(1-3), of h]
  show "sess_view (Suc now) (sess_with_storage now k rows) h = sess_view (Suc now) m h"
  proof (cases "dm_get (db_replay log) h")
    case None
    then show ?thesis using row by (simp add: sess_view_def load)
  next
    case (Some r)
    then obtain s where s: "dm_get (sessions m) h = Some s" "s\<lparr>last_activity := 0\<rparr> = (row_session r)\<lparr>last_activity := 0\<rparr>"
      using row by auto
    have "sess_active s = sess_active (row_session r)" "expires_at s = expires_at (row_session r)"
      using arg_cong [OF s(2), of sess_active] arg_cong [OF s(2), of expires_at] by simp_all
    then show ?thesis using s Some by (auto simp: sess_view_def load live_def)
  qed
qed

lemma fresh_tidy: "sess_tidy {} T (sess_with_storage T k [])"
  by (simp add: sess_tidy_def sess_with_storage_def sess_new_def index_of_def dm_or_insert_def sess_view_def)

lemma created_append: "created_hashes hsh (es @ es') = created_hashes hsh es @ created_hashes hsh es'"
  by (simp add: created_hashes_def)

lemma reload_agrees:
  assumes run: "fold (sess_step hsh) es (T0, sess_with_storage T0 k []) = (T, m)" and log: "sess_storage m = Some log"
    and small: "\<forall>h s. dm_get (sessions m) h = Some s \<longrightarrow> created_at s < 2 ^ 63 \<and> expires_at s < 2 ^ 63"
    and rows: "mset rows = mset (map snd (db_replay log))" and "T \<le> now"
    and d: "distinct (created_hashes hsh es)"
    and ord: "\<forall>u \<in> ordered. login_order (Suc now) m u = login_order (Suc now) (sess_with_storage now k rows) u"
  shows "sess_tidy (set (created_hashes hsh es)) (Suc now) m"
    and "sess_tidy (set (created_hashes hsh es)) (Suc now) (sess_with_storage now k rows)"
    and "agree ordered (Suc now) m (sess_with_storage now k rows)"
proof -
  let ?H = "set (created_hashes hsh es)" and ?s0 = "(T0, sess_with_storage T0 k [])"
  have "sess_tidy ?H T m"
    using tidy_run [of "{}" ?s0 hsh es] fresh_tidy d run by simp
  then show tidy: "sess_tidy ?H (Suc now) m" by (rule tidy_later) (use assms(5) in simp)
  have "mirrored (sess_with_storage T0 k [])"
    by (simp add: mirrored_def sess_with_storage_def sess_new_def)
  then have mir: "mirrored m" using mirrored_run [of ?s0 hsh es] run by simp
  have "fst ` set (db_replay log) \<subseteq> ?H"
  proof
    fix h assume "h \<in> fst ` set (db_replay log)"
    then obtain r where "dm_get (db_replay log) h = Some r" using dm_get_mem [OF db_replay_wf] by fastforce
    then have "dm_get (sessions m) h \<noteq> None" using mirrored_rows(2) [OF mir log small, of h] by auto
    then show "h \<in> ?H" by (rule tidyD(6) [OF tidy])
  qed
  then show "sess_tidy ?H (Suc now) (sess_with_storage now k rows)"
    by (rule load_rows_tidy [OF db_replay_wf mirrored_rows(1) [OF mir log small] rows])
  have "sess_invar ?s0"
    by (simp add: sess_invar_def sess_with_storage_def sess_new_def dm_or_insert_def)
  then have "max_sessions_per_user m = max k 1"
    using sess_run_max [of ?s0 hsh es] run by (simp add: reload_max)
  then show "agree ordered (Suc now) m (sess_with_storage now k rows)"
    using ord reload_view [OF mir log small rows] by (simp add: agree_def reload_max)
qed

text \<open>
  C8: A restart loses no session. Load the rows left by the statements a manager issued, in
  whatever order the query returns them, at time \<open>now\<close>, and let the reloaded manager and the old one
  go through the same later operations: creations, validations, invalidations of tokens and users,
  cleanups and events of the bus. Afterwards every request gets the same answer from both, up to and
  including the session returned, and every user has as many live sessions in both. This
  supposes that no two tokens have the same hash, and that a later creation does not have to evict
  a session, except for users of \<open>ordered\<close>, whose rows come in the order of their logins: the
  index is rebuilt in the order of the rows, and it decides who is evicted. (Times from \<open>2 ^ 63\<close>
  seconds on do not fit the columns.)
\<close>

theorem session_restart:
  assumes "fold (sess_step hsh) es (T0, sess_with_storage T0 k []) = (T, m)"
    and "sess_storage m = Some log"
    and "\<forall>h s. dm_get (sessions m) h = Some s \<longrightarrow> created_at s < 2 ^ 63 \<and> expires_at s < 2 ^ 63"
    and "mset rows = mset (map snd (db_replay log))" and "T \<le> now"
    and "reloaded = sess_with_storage now k rows"
    and "distinct (created_hashes hsh (es @ later))"
    and "\<forall>u \<in> ordered. login_order (Suc now) m u = login_order (Suc now) reloaded u"
    and "roomy hsh ordered later (Suc now, m)"
    and "fold (sess_step hsh) later (Suc now, m) = (T1, old)"
    and "fold (sess_step hsh) later (Suc now, reloaded) = (T2, new)"
  shows "T1 = T2 \<and>
    (\<forall>x token ip ua. snd (validate_with_request hsh (T1 + x) token ip ua new) =
       snd (validate_with_request hsh (T1 + x) token ip ua old)) \<and>
    (\<forall>x u. length (live_sessions (T1 + x) u new) = length (live_sessions (T1 + x) u old))"
proof -
  have d: "distinct (created_hashes hsh es)" "distinct (created_hashes hsh later)"
    "set (created_hashes hsh later) \<inter> set (created_hashes hsh es) = {}"
    using assms(7) by (auto simp: created_append)
  note r = reload_agrees [OF assms(1-5) d(1) assms(8) [unfolded assms(6)], folded assms(6)]
  obtain H where T: "T1 = T2" and a: "agree ordered T1 old new" and t: "sess_tidy H T1 old" "sess_tidy H T1 new"
    using agree_run [OF r(3,1,2) d(2,3) assms(9-11)] by blast
  have "sess_view (T1 + x) new = sess_view (T1 + x) old" for x
    using agree_later [OF a, of "T1 + x"] by (simp add: agree_def)
  moreover have "length (live_sessions (T1 + x) u new) = length (live_sessions (T1 + x) u old)" for x u
    using agree_length [OF agree_later [OF a, of "T1 + x"] tidy_later [OF t(1)] tidy_later [OF t(2)]]
    by (simp add: live_sessions_length [OF tidy_later [OF t(1)]] live_sessions_length [OF tidy_later [OF t(2)]])
  ultimately show ?thesis using T by (simp add: validate_view)
qed

section \<open>Witnesses\<close>

definition demo_login :: "nat \<times> sess_op" where
  "demo_login = (5, OpCreate 0 ''alice'' ''t0k'' ''10.0.0.1'' ''curl/8'' 3600)"

lemma demo_login_state:
  "sess_step id demo_login (100, s0) =
     (105, fst (sess_create id 105 105 ''alice'' ''t0k'' ''10.0.0.1'' ''curl/8'' 3600 s0))"
  by (simp add: demo_login_def)

lemma demo_login_get:
  "dm_get (sessions (fst (sess_create id 105 105 ''alice'' ''t0k'' ''10.0.0.1'' ''curl/8'' 3600 s0))) ''t0k''
     = Some ((snd (sess_create id 105 105 ''alice'' ''t0k'' ''10.0.0.1'' ''curl/8'' 3600 s0)))"
proof -
  have "s\<lparr>sess_token := t\<rparr> = s" if "sess_token s = t" for s :: session and t
    using that by (cases s) simp
  then show ?thesis by (simp add: create_effect(1))
qed

theorem logout_everywhere_witness:
  "live_sessions 106 ''alice''
     (snd (fold (sess_step id) [demo_login, (1, OpInvalidateAll ''alice'')] (100, sess_new 5))) = []"
  using logout_everywhere [of "OpInvalidateAll ''alice''" "''alice''" "[]" id "[demo_login]" 1 100 5 106
      "snd (fold (sess_step id) [demo_login, (1, OpInvalidateAll ''alice'')] (100, sess_new 5))"]
  by (simp add: demo_login_def)

theorem stolen_token_revoked_witness:
  "snd (validate_with_request id 105 ''t0k'' (Some ''10.0.0.1'') None
     (snd (fold (sess_step id) [demo_login, (0, OpValidate ''t0k'' (Some ''6.6.6.6'') None)]
        (100, sess_new 5)))) = None"
proof -
  let ?c = "sess_create id 105 105 ''alice'' ''t0k'' ''10.0.0.1'' ''curl/8'' 3600 (sess_new 5)"
  have exp: "wrap_add64 105 3600 = 3705" by (simp add: wrap_add64_def u64_max_def)
  let ?s = "(snd ?c)\<lparr>last_activity := 105, sess_token := ''t0k''\<rparr>"
  have val: "snd (sess_validate id 105 ''t0k'' (fst ?c)) = Some ?s"
    by (simp add: sess_validate_def validate_result demo_login_get ip_mismatch_def exp)
  have mis: "ip_mismatch ?s (Some ''6.6.6.6'')" by (simp add: ip_mismatch_def)
  have run: "fold (sess_step id) [demo_login] (100, sess_new 5) = (105, fst ?c)"
    by (simp add: demo_login_state)
  from stolen_token_revoked [OF run val mis, of "[]" None 105] show ?thesis
    by (simp add: demo_login_state)
qed

definition demo_second :: "nat \<times> sess_op" where
  "demo_second = (10, OpCreate 0 ''bob'' ''b0b'' ''10.0.0.2'' ''curl/8'' 60)"

theorem session_restart_witness:
  "snd (validate_with_request id 200 ''t0k'' None None
     (snd (fold (sess_step id) [demo_second] (151, sess_with_storage 150 5 (map snd (db_replay (the (sess_storage
        (snd (fold (sess_step id) [demo_login] (100, sess_with_storage 100 5 [])))))))))))
   \<noteq> None"
proof -
  let ?s0 = "sess_with_storage 100 5 []"
  let ?c = "sess_create id 105 105 ''alice'' ''t0k'' ''10.0.0.1'' ''curl/8'' 3600 ?s0"
  let ?old = "fst (sess_create id 161 161 ''bob'' ''b0b'' ''10.0.0.2'' ''curl/8'' 60 (fst ?c))"
  have run: "fold (sess_step id) [demo_login] (100, ?s0) = (105, fst ?c)"
    by (simp add: demo_login_state)
  have exp: "wrap_add64 105 3600 = 3705" by (simp add: wrap_add64_def u64_max_def)
  have s0: "sessions ?s0 = []" "user_sessions ?s0 = []" "max_sessions_per_user ?s0 = 5"
    "sess_storage ?s0 = Some []"
    by (simp_all add: sess_with_storage_def sess_new_def)
  obtain log where log: "sess_storage (fst ?c) = Some log"
    using s0 by (simp add: sess_create_def Let_def case_prod_unfold evict_oldest_spec dm_or_insert_def
        prune_tokens_def sess_persist_def sess_issue_def)
  have get: "dm_get (sessions (fst ?c)) h = (if h = ''t0k'' then Some (snd ?c) else None)" for h
    using demo_login_get [of ?s0] by (auto simp: create_effect(1) s0)
  have small: "\<forall>h s. dm_get (sessions (fst ?c)) h = Some s \<longrightarrow> created_at s < 2 ^ 63 \<and> expires_at s < 2 ^ 63"
    by (auto simp: get exp split: if_splits)
  have wf: "dm_wf (sessions (fst ?c))" by (rule create_effect(4)) (simp add: s0)
  have "sess_user s \<noteq> ''bob''" if "(h, s) \<in> set (sessions (fst ?c))" for h s
  proof -
    have "dm_get (sessions (fst ?c)) h = Some s" using that dm_get_mem [OF wf] by blast
    then show ?thesis by (auto simp: get split: if_splits)
  qed
  then have "live_sessions 161 ''bob'' (fst ?c) = []" by (auto simp: live_sessions_def filter_empty_conv)
  then have roomy: "roomy id {} [demo_second] (Suc 150, fst ?c)"
    by (simp add: demo_second_def create_effect(3) s0(3))
  define reloaded where "reloaded = sess_with_storage 150 5 (map snd (db_replay log))"
  obtain T2 new where new: "fold (sess_step id) [demo_second] (Suc 150, reloaded) = (T2, new)" by force
  have old: "fold (sess_step id) [demo_second] (Suc 150, fst ?c) = (161, ?old)" by (simp add: demo_second_def)
  have alike: "snd (validate_with_request id (161 + x) token ip ua new) =
      snd (validate_with_request id (161 + x) token ip ua ?old)" for x token ip ua
    using session_restart [OF run log small refl _ reloaded_def _ _ roomy old new]
    by (simp add: created_hashes_def demo_login_def demo_second_def)
  have "''t0k'' \<notin> set (dm_or_insert (user_sessions (fst ?c)) ''bob'' [])"
    by (simp add: create_effect(2) dm_or_insert_insert s0 dm_or_insert_def)
  then have "dm_get (sessions ?old) ''t0k'' = Some (snd ?c)"
    by (auto simp: create_effect(1) [of id 161] get prune_tokens_def dest!: in_set_takeD)
  then have "snd (validate_with_request id (161 + 39) ''t0k'' None None ?old) \<noteq> None"
    by (simp add: validate_result ip_mismatch_def exp)
  then have "snd (validate_with_request id 200 ''t0k'' None None new) \<noteq> None"
    using alike [of 39 "''t0k''" None None] by simp
  then show ?thesis using new unfolding run by (simp add: log reloaded_def)
qed

end
