(* ===== verification/Session_Auth.thy ===== *)
theory Session_Auth
  imports Sessions Ip_Addr
begin

text \<open>
  src/src/middleware/session.rs: the middleware that turns a session token into a
  \<open>SessionInfo\<close> for the handlers, or answers 401. A request is the headers and the peer
  address the middleware reads; the wrapped service is not modelled, the answer
  \<open>Authenticated\<close> stands for the call with the extension set.
\<close>

record sess_request =
  x_session_token :: "string option"
  authorization :: "string option"
  sess_peer :: "ip_addr option"
  user_agent_header :: "string option"

record session_info =
  info_user_id :: string
  info_token :: string

datatype session_answer = Authenticated session_info | InvalidSession | MissingToken

definition session_token_of :: "sess_request \<Rightarrow> string option" where
  "session_token_of req =
     (case x_session_token req of
        Some t \<Rightarrow> Some t
      | None \<Rightarrow> Option.bind (authorization req) (strip_prefix ''Bearer ''))"

definition session_auth_call ::
  "(string \<Rightarrow> string) \<Rightarrow> nat \<Rightarrow> sess_request \<Rightarrow> session_mgr \<Rightarrow> session_mgr \<times> session_answer" where
  "session_auth_call hsh now req m =
     (let req_ip = (case sess_peer req of Some a \<Rightarrow> show_ip a | None \<Rightarrow> []);
          req_ua = (case user_agent_header req of Some ua \<Rightarrow> ua | None \<Rightarrow> [])
      in case session_token_of req of
           None \<Rightarrow> (m, MissingToken)
         | Some t \<Rightarrow>
             (case validate_with_request hsh now t (Some req_ip) (Some req_ua) m of
                (m', Some session) \<Rightarrow>
                  (m', Authenticated \<lparr>info_user_id = sess_user session, info_token = t\<rparr>)
              | (m', None) \<Rightarrow> (m', InvalidSession)))"

lemma session_auth_iff:
  "snd (session_auth_call hsh now req m) = Authenticated info \<longleftrightarrow>
     (\<exists>t s. session_token_of req = Some t \<and> dm_get (sessions m) (hsh t) = Some s \<and> live now s \<and>
        \<not> ip_mismatch s (Some (case sess_peer req of Some a \<Rightarrow> show_ip a | None \<Rightarrow> [])) \<and>
        info = \<lparr>info_user_id = sess_user s, info_token = t\<rparr>)"
proof (cases "session_token_of req")
  case None
  then show ?thesis by (simp add: session_auth_call_def Let_def)
next
  case (Some t)
  let ?ip = "case sess_peer req of Some a \<Rightarrow> show_ip a | None \<Rightarrow> []"
  let ?ua = "case user_agent_header req of Some ua \<Rightarrow> ua | None \<Rightarrow> []"
  have "snd (session_auth_call hsh now req m) =
      (case snd (validate_with_request hsh now t (Some ?ip) (Some ?ua) m) of
         Some session \<Rightarrow> Authenticated \<lparr>info_user_id = sess_user session, info_token = t\<rparr>
       | None \<Rightarrow> InvalidSession)"
    by (simp add: session_auth_call_def Let_def Some split: prod.split option.split)
  then show ?thesis
    by (auto simp: Some validate_result live_def split: option.splits)
qed

text \<open>
  A request is authenticated as a user exactly when its token (the dedicated header wins
  over the bearer token) names a live session of that user that is not bound to another
  address; the stored secret never reaches the handler, only the token the client sent.
\<close>

theorem session_auth_exact:
  "snd (session_auth_call hsh now req m) = Authenticated info \<longleftrightarrow>
     (\<exists>t s. session_token_of req = Some t \<and> dm_get (sessions m) (hsh t) = Some s \<and> live now s \<and>
        \<not> ip_mismatch s (Some (case sess_peer req of Some a \<Rightarrow> show_ip a | None \<Rightarrow> [])) \<and>
        info = \<lparr>info_user_id = sess_user s, info_token = t\<rparr>)"
  by (rule session_auth_iff)

end
