(* ===== verification/Mfa.thy ===== *)
theory Mfa
  imports Prelude "HOL-Library.Word"
begin

unbundle bit_operations_syntax

text \<open>
  src/src/identity/mfa.rs: time-based one-time passwords. HMAC-SHA1 is the parameter
  \<open>hmac\<close> (key, message, 20 bytes); the base32 codec and the truncation are modelled with
  the machine words of the code. \<open>None\<close> where the code would index out of the digest.
\<close>

type_synonym byte = "8 word"

definition totp_digits :: nat where "totp_digits = 6"
definition totp_period :: nat where "totp_period = 30"

section \<open>Base32\<close>

definition b32_alphabet :: string where
  "b32_alphabet = ''ABCDEFGHIJKLMNOPQRSTUVWXYZ234567''"

text \<open>The inner loop emits while five bits are left; \<open>buffer\<close> is a \<open>u64\<close> that is never cleared.\<close>

fun b32_emit :: "64 word \<Rightarrow> nat \<Rightarrow> string \<Rightarrow> nat \<times> string" where
  "b32_emit buffer bits_left result =
     (if 5 \<le> bits_left
      then b32_emit buffer (bits_left - 5)
             (result @ [b32_alphabet ! unat (drop_bit (bits_left - 5) buffer AND 0x1f)])
      else (bits_left, result))"

declare b32_emit.simps [simp del]

fun b32_encode_loop :: "byte list \<Rightarrow> 64 word \<Rightarrow> nat \<Rightarrow> string \<Rightarrow> string" where
  "b32_encode_loop [] buffer bits_left result =
     (if 0 < bits_left
      then result @ [b32_alphabet ! unat (push_bit (5 - bits_left) buffer AND 0x1f)]
      else result)"
| "b32_encode_loop (b # data) buffer bits_left result =
     (let buffer' = push_bit 8 buffer OR ucast b;
          (bits_left', result') = b32_emit buffer' (bits_left + 8) result
      in b32_encode_loop data buffer' bits_left' result')"

definition base32_encode :: "byte list \<Rightarrow> string" where
  "base32_encode data = b32_encode_loop data 0 0 []"

definition ascii_upper :: "char \<Rightarrow> char" where
  "ascii_upper c = (let n = of_char c :: nat in if 97 \<le> n \<and> n \<le> 122 then char_of (n - 32) else c)"

definition b32_value :: "char \<Rightarrow> nat option" where
  "b32_value c =
     (let n = of_char (ascii_upper c) :: nat in
      if 65 \<le> n \<and> n \<le> 90 then Some (n - 65)
      else if 50 \<le> n \<and> n \<le> 55 then Some (n - 50 + 26)
      else None)"

fun b32_decode_loop :: "string \<Rightarrow> 32 word \<Rightarrow> nat \<Rightarrow> byte list \<Rightarrow> byte list option" where
  "b32_decode_loop [] buffer bits_left result = Some result"
| "b32_decode_loop (c # input) buffer bits_left result =
     (case b32_value c of
        None \<Rightarrow> None
      | Some v \<Rightarrow>
          (let buffer' = push_bit 5 buffer OR of_nat v; bits = bits_left + 5 in
           if 8 \<le> bits
           then b32_decode_loop input buffer' (bits - 8)
                  (result @ [ucast (drop_bit (bits - 8) buffer' AND 0xff)])
           else b32_decode_loop input buffer' bits result))"

text \<open>The characters the filter keeps: no padding and no white space.\<close>

function b32_filter :: "string \<Rightarrow> string" where
  "b32_filter [] = []"
| "b32_filter (c # s) =
     (case leading_ws whitespace (c # s) of
        Some w \<Rightarrow> b32_filter (drop (length w) (c # s))
      | None \<Rightarrow> if c = CHR ''='' then b32_filter s else c # b32_filter s)"
  by pat_completeness auto
termination
  by (relation "measure length") (auto dest: leading_ws_SomeD)

definition base32_decode :: "string \<Rightarrow> byte list option" where
  "base32_decode input = b32_decode_loop (b32_filter input) 0 0 []"

section \<open>Codes\<close>

definition be_bytes64 :: "nat \<Rightarrow> byte list" where
  "be_bytes64 n = map (\<lambda>i. of_nat (n div 256 ^ i)) [7, 6, 5, 4, 3, 2, 1, 0]"

text \<open>\<open>format!("{:0width$}", n)\<close>.\<close>

definition zero_pad :: "nat \<Rightarrow> nat \<Rightarrow> string" where
  "zero_pad width n = replicate (width - length (show_nat n)) CHR ''0'' @ show_nat n"

definition bin_code :: "byte list \<Rightarrow> nat \<Rightarrow> nat" where
  "bin_code hash offset =
     unat ((push_bit 24 (ucast (hash ! offset) AND 0x7f) :: 32 word) OR
           push_bit 16 (ucast (hash ! (offset + 1))) OR
           push_bit 8 (ucast (hash ! (offset + 2))) OR ucast (hash ! (offset + 3)))"

definition generate_totp_code ::
  "(byte list \<Rightarrow> byte list \<Rightarrow> byte list) \<Rightarrow> byte list \<Rightarrow> nat \<Rightarrow> string option" where
  "generate_totp_code hmac key time_step =
     (let hash = hmac key (be_bytes64 time_step) in
      if hash = [] then None
      else (let offset = unat (last hash AND 0x0f) in
            if length hash \<le> offset + 3 then None
            else Some (zero_pad totp_digits (bin_code hash offset mod 10 ^ totp_digits))))"

text \<open>The steps of the window: now, one before (not below zero), one after.\<close>

definition totp_steps :: "nat \<Rightarrow> nat list" where
  "totp_steps now = (let t = now div totp_period in [t, t - 1, t + 1])"

definition verify_totp ::
  "(byte list \<Rightarrow> byte list \<Rightarrow> byte list) \<Rightarrow> nat \<Rightarrow> string \<Rightarrow> string \<Rightarrow> bool" where
  "verify_totp hmac now secret code =
     (case base32_decode secret of
        None \<Rightarrow> False
      | Some key \<Rightarrow>
          list_ex (\<lambda>step. generate_totp_code hmac key step = Some code) (totp_steps now))"

definition generate_secret :: "byte list \<Rightarrow> string" where
  "generate_secret random_bytes = base32_encode random_bytes"

definition generate_qr_url :: "string \<Rightarrow> string \<Rightarrow> string" where
  "generate_qr_url email secret =
     ''otpauth://totp/XIRA:'' @ email @ ''?secret='' @ secret @
     ''&issuer=XIRA&digits='' @ show_nat totp_digits @ ''&period='' @ show_nat totp_period"


section \<open>The base32 round trip\<close>

text \<open>The number a list of digits denotes, most significant digit first.\<close>

fun num :: "nat \<Rightarrow> nat list \<Rightarrow> nat" where
  "num B [] = 0"
| "num B (d # ds) = d * B ^ length ds + num B ds"

lemma num_append: "num B (xs @ ys) = num B xs * B ^ length ys + num B ys"
  by (induction xs) (simp_all add: algebra_simps power_add)

lemma num_less: "\<forall>d \<in> set ds. d < B \<Longrightarrow> num B ds < B ^ length ds"
proof (induction ds)
  case (Cons d ds)
  have "d * B ^ length ds + num B ds < d * B ^ length ds + B ^ length ds"
    using Cons by simp
  also have "\<dots> = (d + 1) * B ^ length ds" by simp
  also have "\<dots> \<le> B * B ^ length ds" using Cons.prems by (intro mult_right_mono) auto
  finally show ?case by simp
qed simp

lemma num_inj:
  assumes "length xs = length ys" "\<forall>d \<in> set xs. d < B" "\<forall>d \<in> set ys. d < B" "num B xs = num B ys"
  shows "xs = ys"
  using assms
proof (induction xs ys rule: list_induct2)
  case (Cons x xs y ys)
  have "x = (x * B ^ length xs + num B xs) div B ^ length xs"
    using num_less [of xs B] Cons.prems(1) by simp
  moreover have "y = (y * B ^ length xs + num B ys) div B ^ length xs"
    using num_less [of ys B] Cons.prems(2) Cons.hyps by simp
  ultimately have "x = y" using Cons.prems(3) Cons.hyps by simp
  with Cons show ?case by simp
qed simp

text \<open>Splitting a number at a bit position.\<close>

lemma split_bits: "(x :: nat) mod 2 ^ (m + n) = (x div 2 ^ m mod 2 ^ n) * 2 ^ m + x mod 2 ^ m"
  by (simp add: power_add mod_mult2_eq)

lemma unat_field:
  fixes w :: "'a :: len word"
  assumes "n \<le> LENGTH('a)"
  shows "unat (drop_bit m w AND mask n) = unat w div 2 ^ m mod 2 ^ n"
  unfolding take_bit_eq_mask [symmetric]
  by (simp only: unsigned_take_bit_eq unat_drop_bit_eq) (simp only: take_bit_eq_mod drop_bit_eq_div)

lemma unat_shift_in:
  fixes w v :: "'a :: len word"
  assumes "unat v < 2 ^ m" "m + n \<le> LENGTH('a)"
  shows "unat (push_bit m w OR v) mod 2 ^ (m + n) = (unat w mod 2 ^ n) * 2 ^ m + unat v"
proof -
  have low: "take_bit m v = v"
    using assms by (simp add: word_unat_eq_iff unsigned_take_bit_eq take_bit_nat_eq_self_iff)
  have "push_bit m w AND v = 0"
  proof (rule bit_word_eqI)
    fix i assume "i < LENGTH('a)"
    have "bit v i \<Longrightarrow> i < m" using low by (metis bit_take_bit_iff)
    then show "bit (push_bit m w AND v) i = bit (0 :: 'a word) i" by (auto simp: bit_simps)
  qed
  then have "push_bit m w OR v = push_bit m w + v"
    using word_plus_and_or [of "push_bit m w" v] by simp
  also have "\<dots> = of_nat (unat w * 2 ^ m + unat v)"
    by (simp add: push_bit_eq_mult)
  finally have "unat (push_bit m w OR v) = (unat w * 2 ^ m + unat v) mod 2 ^ LENGTH('a)"
    by (simp only: unat_of_nat)
  then have "unat (push_bit m w OR v) mod 2 ^ (m + n) = (unat w * 2 ^ m + unat v) mod 2 ^ (m + n)"
    using assms(2) by (simp add: mod_mod_cancel le_imp_power_dvd)
  also have "\<dots> = (unat w mod 2 ^ n) * 2 ^ m + unat v"
    using assms(1) by (simp add: split_bits)
  finally show ?thesis .
qed

abbreviation "alpha d \<equiv> b32_alphabet ! d"

lemma alphabet:
  assumes "d < 32"
  shows "b32_value (alpha d) = Some d" "alpha d \<noteq> CHR ''=''" "leading_ws whitespace (alpha d # s) = None"
proof -
  have len: "length b32_alphabet = 32" by (simp add: b32_alphabet_def)
  have "map b32_value b32_alphabet = map Some [0..<32]"
    by (simp add: b32_alphabet_def b32_value_def ascii_upper_def upt_rec)
  then have "map b32_value b32_alphabet ! d = map Some [0..<32] ! d" by simp
  then have "b32_value (alpha d) = Some d" using assms by (simp add: len)
  moreover have "set b32_alphabet \<inter> insert CHR ''='' (set (map hd whitespace)) = {}"
    by (simp add: b32_alphabet_def whitespace_def)
  then have "alpha d \<noteq> CHR ''='' \<and> alpha d \<notin> set (map hd whitespace)"
  proof -
    have "alpha d \<in> set b32_alphabet" using assms by (simp add: len)
    with \<open>set b32_alphabet \<inter> _ = {}\<close> show ?thesis by blast
  qed
  moreover have "prefix w (c # s) \<Longrightarrow> w \<noteq> [] \<Longrightarrow> hd w = c" for w c
    by (cases w) auto
  ultimately show "b32_value (alpha d) = Some d" "alpha d \<noteq> CHR ''=''"
    "leading_ws whitespace (alpha d # s) = None"
    by (simp, simp, unfold leading_ws_def find_None_iff, force)
qed

lemma b32_filter_alphabet: "\<forall>d \<in> set ds. d < 32 \<Longrightarrow> b32_filter (map alpha ds) = map alpha ds"
  by (induction ds) (simp_all add: alphabet)

lemma b32_emit_digits:
  "\<exists>ds. b32_emit w n result = (n mod 5, result @ map alpha ds) \<and> length ds = n div 5 \<and>
     (\<forall>d \<in> set ds. d < 32) \<and> num 32 ds * 2 ^ (n mod 5) + unat w mod 2 ^ (n mod 5) = unat w mod 2 ^ n"
proof (induction n arbitrary: result rule: less_induct)
  case (less n)
  show ?case
  proof (cases "5 \<le> n")
    case False
    then show ?thesis by (auto simp: b32_emit.simps)
  next
    case True
    let ?d = "unat (drop_bit (n - 5) w AND 0x1f)"
    have d: "?d = unat w div 2 ^ (n - 5) mod 32"
      using unat_field [of 5 "n - 5" w] by (simp add: mask_eq_exp_minus_1)
    obtain ds where ds: "b32_emit w (n - 5) (result @ [alpha ?d]) =
        ((n - 5) mod 5, (result @ [alpha ?d]) @ map alpha ds)" "length ds = (n - 5) div 5"
      "\<forall>d \<in> set ds. d < 32"
      "num 32 ds * 2 ^ ((n - 5) mod 5) + unat w mod 2 ^ ((n - 5) mod 5) = unat w mod 2 ^ (n - 5)"
      using less.IH [of "n - 5" "result @ [alpha ?d]"] True by auto
    have m: "(n - 5) mod 5 = n mod 5" "(n - 5) div 5 = n div 5 - 1"
      using True by (simp_all add: le_mod_geq le_div_geq)
    have len: "length (?d # ds) = n div 5" using ds(2) m(2) True by (simp add: div_greater_zero_iff)
    have "(32 :: nat) ^ length ds * 2 ^ (n mod 5) = 2 ^ (5 * length ds + n mod 5)"
      by (simp add: power_add power_mult)
    also have "5 * length ds + n mod 5 = n - 5"
      using ds(2) m(2) True by (simp add: algebra_simps)
    finally have pow: "(32 :: nat) ^ length ds * 2 ^ (n mod 5) = 2 ^ (n - 5)" .
    have "num 32 (?d # ds) * 2 ^ (n mod 5) + unat w mod 2 ^ (n mod 5) =
        ?d * (32 ^ length ds * 2 ^ (n mod 5)) + (num 32 ds * 2 ^ (n mod 5) + unat w mod 2 ^ (n mod 5))"
      by (simp only: num.simps algebra_simps)
    also have "\<dots> = ?d * 2 ^ (n - 5) + unat w mod 2 ^ (n - 5)"
      using ds(4) m(1) by (simp only: pow)
    also have "\<dots> = unat w mod 2 ^ n"
      using split_bits [of "unat w" "n - 5" 5] True by (simp add: d)
    finally have "num 32 (?d # ds) * 2 ^ (n mod 5) + unat w mod 2 ^ (n mod 5) = unat w mod 2 ^ n" .
    moreover have "b32_emit w n result = (n mod 5, result @ map alpha (?d # ds))"
      using True ds(1) m(1) by (simp add: b32_emit.simps [of w n])
    moreover have "\<forall>d \<in> set (?d # ds). d < 32" using ds(3) d by simp
    ultimately show ?thesis using len by blast
  qed
qed


lemma pow32: "(32 :: nat) ^ n = 2 ^ (5 * n)"
  by (simp add: power_mult)

lemma pow256: "(256 :: nat) ^ n = 2 ^ (8 * n)"
  by (simp add: power_mult)

lemma b32_encode_digits:
  "k < 5 \<Longrightarrow>
   \<exists>ds. b32_encode_loop data w k result = result @ map alpha ds \<and>
     length ds = (8 * length data + k + 4) div 5 \<and> (\<forall>d \<in> set ds. d < 32) \<and>
     num 32 ds = (num 256 (map unat data) + 256 ^ length data * (unat w mod 2 ^ k))
       * 2 ^ (5 * length ds - 8 * length data - k)"
proof (induction data arbitrary: w k result)
  case Nil
  show ?case
  proof (cases "k = 0")
    case True
    then show ?thesis by (intro exI [of _ "[]"]) simp
  next
    case False
    let ?d = "unat (push_bit (5 - k) w AND 0x1f)"
    have "?d = unat (push_bit (5 - k) w) mod 2 ^ 5"
      using unat_field [of 5 0 "push_bit (5 - k) w"] by (simp add: mask_eq_exp_minus_1)
    also have "\<dots> = (unat w mod 2 ^ k) * 2 ^ (5 - k)"
      using unat_shift_in [of "0 :: 64 word" "5 - k" k w] Nil by simp
    finally have d: "?d = (unat w mod 2 ^ k) * 2 ^ (5 - k)" .
    have "?d < 32"
      using unat_field [of 5 0 "push_bit (5 - k) w"] by (simp add: mask_eq_exp_minus_1)
    moreover have "(k + 4) div 5 = 1" using False Nil by (simp add: div_nat_eqI)
    ultimately show ?thesis using False d by (intro exI [of _ "[?d]"]) simp
  qed
next
  case (Cons b data)
  let ?w = "push_bit 8 w OR ucast b :: 64 word"
  obtain ds1 where e: "b32_emit ?w (k + 8) result = ((k + 8) mod 5, result @ map alpha ds1)"
    "length ds1 = (k + 8) div 5" "\<forall>d \<in> set ds1. d < 32"
    "num 32 ds1 * 2 ^ ((k + 8) mod 5) + unat ?w mod 2 ^ ((k + 8) mod 5) = unat ?w mod 2 ^ (k + 8)"
    using b32_emit_digits [of ?w "k + 8" result] by blast
  let ?k = "(k + 8) mod 5"
  obtain ds2 where f: "b32_encode_loop data ?w ?k (result @ map alpha ds1) =
      (result @ map alpha ds1) @ map alpha ds2" "length ds2 = (8 * length data + ?k + 4) div 5"
    "\<forall>d \<in> set ds2. d < 32"
    "num 32 ds2 = (num 256 (map unat data) + 256 ^ length data * (unat ?w mod 2 ^ ?k))
       * 2 ^ (5 * length ds2 - 8 * length data - ?k)"
    using Cons.IH [of ?k ?w "result @ map alpha ds1"] by auto
  have b: "unat (ucast b :: 64 word) = unat b" "unat b < 256"
  proof -
    have "unat b < 2 ^ LENGTH(8)" by (rule unsigned_less)
    then show "unat b < 256" by simp
    then show "unat (ucast b :: 64 word) = unat b"
      by (simp add: unsigned_ucast_eq take_bit_nat_eq_self)
  qed
  have w: "unat ?w mod 2 ^ (k + 8) = (unat w mod 2 ^ k) * 256 + unat b"
    using unat_shift_in [of "ucast b :: 64 word" 8 k w] b Cons.prems by (simp add: add.commute)
  let ?e = "5 * length ds2 - 8 * length data - ?k"
  have split: "k + 8 = 5 * length ds1 + ?k" using e(2) by simp
  have ge: "8 * length data + ?k \<le> 5 * length ds2" using f(2) by presburger
  then have "5 * length ds2 = ?k + 8 * length data + ?e" by simp
  then have pow: "(32 :: nat) ^ length ds2 = 2 ^ ?k * 256 ^ length data * 2 ^ ?e"
    by (simp only: pow32 pow256 power_add [symmetric])
  have "num 32 (ds1 @ ds2) = num 32 ds1 * 2 ^ ?k * 256 ^ length data * 2 ^ ?e + num 32 ds2"
    by (simp add: num_append pow mult.assoc)
  also have "\<dots> = (num 256 (map unat data) + 256 ^ length data *
      (num 32 ds1 * 2 ^ ?k + unat ?w mod 2 ^ ?k)) * 2 ^ ?e"
    by (simp only: f(4)) (simp add: algebra_simps)
  also have "\<dots> = (num 256 (map unat (b # data)) + 256 ^ length (b # data) * (unat w mod 2 ^ k)) * 2 ^ ?e"
    by (simp only: e(4) w) (simp add: algebra_simps)
  also have "?e = 5 * length (ds1 @ ds2) - 8 * length (b # data) - k" using split by simp
  finally have "num 32 (ds1 @ ds2) = (num 256 (map unat (b # data)) +
      256 ^ length (b # data) * (unat w mod 2 ^ k)) * 2 ^ (5 * length (ds1 @ ds2) - 8 * length (b # data) - k)" .
  moreover have "length (ds1 @ ds2) = (8 * length (b # data) + k + 4) div 5"
    using split f(2) by (simp; presburger)
  moreover have "b32_encode_loop (b # data) w k result = result @ map alpha (ds1 @ ds2)"
    by (simp add: e(1) f(1))
  ultimately show ?case using e(3) f(3) by (intro exI [of _ "ds1 @ ds2"]) auto
qed

lemma b32_decode_digits:
  "j < 8 \<Longrightarrow> \<forall>d \<in> set ds. d < 32 \<Longrightarrow>
   \<exists>out. b32_decode_loop (map alpha ds) buf j result = Some (result @ out) \<and>
     length out = (5 * length ds + j) div 8 \<and>
     num 256 (map unat out) =
       (num 32 ds + 32 ^ length ds * (unat buf mod 2 ^ j)) div 2 ^ ((5 * length ds + j) mod 8)"
proof (induction ds arbitrary: buf j result)
  case Nil
  then show ?case by (intro exI [of _ "[]"]) simp
next
  case (Cons d ds)
  let ?b = "push_bit 5 buf OR of_nat d :: 32 word"
  have d: "d < 32" "unat (of_nat d :: 32 word) = d"
    using Cons.prems by (simp_all add: unat_of_nat)
  have b: "unat ?b mod 2 ^ (j + 5) = (unat buf mod 2 ^ j) * 32 + d"
    using unat_shift_in [of "of_nat d :: 32 word" 5 j buf] d Cons.prems(1) by (simp add: add.commute)
  have val: "num 32 (d # ds) + 32 ^ length (d # ds) * (unat buf mod 2 ^ j) =
      num 32 ds + 32 ^ length ds * (unat ?b mod 2 ^ (j + 5))"
    by (simp only: b) (simp add: algebra_simps)
  have bits: "5 * length (d # ds) + j = 5 * length ds + (j + 5)" by simp
  show ?case
  proof (cases "8 \<le> j + 5")
    case False
    then show ?thesis
      using Cons.IH [of "j + 5" ?b result] Cons.prems d alphabet(1) [OF d(1)]
      unfolding val bits by (simp add: Let_def)
  next
    case True
    let ?o = "ucast (drop_bit (j + 5 - 8) ?b AND 0xff) :: byte"
    define t m where "t = (5 * length ds + (j + 5)) mod 8" and "m = (5 * length ds + (j + 5 - 8)) div 8"
    have tm: "(5 * length ds + (j + 5 - 8)) mod 8 = t" "(5 * length ds + (j + 5)) div 8 = Suc m"
    proof -
      have "5 * length ds + (j + 5) = (5 * length ds + (j + 5 - 8)) + 8" using True by simp
      then show "(5 * length ds + (j + 5 - 8)) mod 8 = t" "(5 * length ds + (j + 5)) div 8 = Suc m"
        unfolding t_def m_def by (metis mod_add_self2, simp)
    qed
    have "j + 5 - 8 < 8" "\<forall>d \<in> set ds. d < 32" using Cons.prems by simp_all
    from Cons.IH [OF this, of ?b "result @ [?o]"] obtain out where o:
      "b32_decode_loop (map alpha ds) ?b (j + 5 - 8) (result @ [?o]) = Some ((result @ [?o]) @ out)"
      "length out = (5 * length ds + (j + 5 - 8)) div 8"
      "num 256 (map unat out) = (num 32 ds + 32 ^ length ds * (unat ?b mod 2 ^ (j + 5 - 8)))
         div 2 ^ ((5 * length ds + (j + 5 - 8)) mod 8)"
      by blast
    note out = o(1) o(2) [folded m_def] o(3) [unfolded tm(1)]
    have o: "unat ?o = unat ?b div 2 ^ (j + 5 - 8) mod 2 ^ 8"
    proof -
      have "unat (drop_bit (j + 5 - 8) ?b AND 0xff) = unat ?b div 2 ^ (j + 5 - 8) mod 2 ^ 8"
        using unat_field [of 8 "j + 5 - 8" ?b] by (simp add: mask_eq_exp_minus_1)
      then show ?thesis by (simp add: unsigned_ucast_eq take_bit_eq_mod)
    qed
    have b': "unat ?b mod 2 ^ (j + 5) = unat ?o * 2 ^ (j + 5 - 8) + unat ?b mod 2 ^ (j + 5 - 8)"
      using split_bits [of "unat ?b" "j + 5 - 8" 8] True by (simp only: o) (simp add: add.commute)
    have "5 * length ds + (j + 5 - 8) = 8 * m + t"
      using tm(1) m_def mult_div_mod_eq [of 8 "5 * length ds + (j + 5 - 8)"] by simp
    then have pow: "(32 :: nat) ^ length ds * 2 ^ (j + 5 - 8) = 256 ^ m * 2 ^ t"
      by (simp only: pow32 pow256 power_add [symmetric])
    have "num 32 ds + 32 ^ length ds * (unat ?b mod 2 ^ (j + 5)) =
        unat ?o * (32 ^ length ds * 2 ^ (j + 5 - 8)) +
        (num 32 ds + 32 ^ length ds * (unat ?b mod 2 ^ (j + 5 - 8)))"
      by (simp only: b') (simp add: algebra_simps)
    also have "\<dots> = (unat ?o * 256 ^ m) * 2 ^ t +
        (num 32 ds + 32 ^ length ds * (unat ?b mod 2 ^ (j + 5 - 8)))"
      by (simp only: pow mult.assoc)
    finally have "(num 32 ds + 32 ^ length ds * (unat ?b mod 2 ^ (j + 5))) div 2 ^ t =
        unat ?o * 256 ^ m + num 256 (map unat out)"
      unfolding out(3) by (elim ssubst) (rule div_mult_self3, simp)
    then have "num 256 (map unat (?o # out)) =
        (num 32 ds + 32 ^ length ds * (unat ?b mod 2 ^ (j + 5))) div 2 ^ t"
      by (simp add: out(2))
    moreover have "b32_decode_loop (map alpha (d # ds)) buf j result = Some (result @ ?o # out)"
      using True out(1) alphabet(1) [OF d(1)] by (simp add: Let_def)
    moreover have "length (?o # out) = (5 * length ds + (j + 5)) div 8" using out(2) tm(2) by simp
    ultimately show ?thesis unfolding val bits t_def [symmetric] by blast
  qed
qed

lemma b32_lengths:
  fixes n L :: nat
  assumes "L = (8 * n + 4) div 5"
  shows "5 * L div 8 = n" "5 * L mod 8 = 5 * L - 8 * n"
proof -
  have "8 * n \<le> 5 * L" "5 * L < 8 * n + 8" using assms by presburger+
  then obtain r where "5 * L = 8 * n + r" "r < 8" using le_Suc_ex by fastforce
  then show "5 * L div 8 = n" "5 * L mod 8 = 5 * L - 8 * n" by simp_all
qed

text \<open>
  C11: Decoding undoes encoding. Whatever bytes a secret has, and although encoding leaves
  out the padding, decoding its base32 text gives exactly those bytes back.
\<close>

theorem base32_roundtrip: "base32_decode (base32_encode data) = Some data"
proof -
  obtain ds where ds: "base32_encode data = map alpha ds"
    "length ds = (8 * length data + 4) div 5" "\<forall>d \<in> set ds. d < 32"
    "num 32 ds = num 256 (map unat data) * 2 ^ (5 * length ds - 8 * length data)"
    using b32_encode_digits [of 0 data 0 "[]"] by (auto simp: base32_encode_def)
  have len: "(5 * length ds) div 8 = length data"
    "(5 * length ds) mod 8 = 5 * length ds - 8 * length data"
    by (rule b32_lengths [OF ds(2)])+
  obtain out where out: "b32_decode_loop (map alpha ds) 0 0 [] = Some out"
    "length out = length data" "num 256 (map unat out) = num 256 (map unat data)"
    using b32_decode_digits [of 0 ds 0 "[]"] ds(3,4) len by auto
  have small: "\<forall>x \<in> set (map unat xs). x < 256" for xs :: "byte list"
  proof -
    have "unat b < 2 ^ LENGTH(8)" for b :: byte by (rule unsigned_less)
    then show ?thesis by simp
  qed
  have "map unat out = map unat data"
    by (rule num_inj [OF _ small small]) (simp_all add: out)
  then have "out = data" by (simp add: inj_map_eq_map [OF inj_unsigned])
  with out(1) show ?thesis
    by (simp add: base32_decode_def ds(1) b32_filter_alphabet ds(3))
qed


section \<open>Codes\<close>

lemma bin_code_bound: "bin_code hash offset mod 10 ^ totp_digits < 10 ^ 6"
  by (simp add: totp_digits_def)

lemma length_zero_pad: "n < 10 ^ w \<Longrightarrow> 0 < w \<Longrightarrow> length (zero_pad w n) = w"
  using length_show_nat_le [of n w] by (simp add: zero_pad_def)

lemma zero_pad_digits: "list_all (is_digit 10) (zero_pad w n)"
  using show_nat_digits [of n] by (auto simp: zero_pad_def list_all_iff is_digit_def to_digit_def)

text \<open>Reading a code back gives the number it was made from.\<close>

lemma digits_value_zeros: "digits_value 10 (replicate k CHR ''0'' @ s) = digits_value 10 s"
  by (induction k) (simp_all add: digits_value_def to_digit_def)

lemma zero_pad_value: "digits_value 10 (zero_pad w n) = n"
  by (simp add: zero_pad_def digits_value_zeros show_nat_value)

lemma totp_total:
  assumes "length (hmac key (be_bytes64 step)) = 20"
  shows "\<exists>code. generate_totp_code hmac key step = Some code \<and> length code = 6 \<and>
    list_all (is_digit 10) code"
proof -
  let ?h = "hmac key (be_bytes64 step)"
  have "unat (last ?h AND 0x0f) = unat (last ?h) mod 2 ^ 4"
    using unat_field [of 4 0 "last ?h"] by (simp add: mask_eq_exp_minus_1)
  then have "unat (last ?h AND 0x0f) < 16" by simp
  then have "\<not> length ?h \<le> unat (last ?h AND 0x0f) + 3" "?h \<noteq> []"
    using assms by auto
  then show ?thesis
    using length_zero_pad [OF bin_code_bound [of ?h "unat (last ?h AND 0x0f)"]]
    by (auto simp: generate_totp_code_def Let_def zero_pad_digits totp_digits_def)
qed

end
