(* ===== verification/Users.thy ===== *)
theory Users
  imports Storage Mfa
begin

text \<open>
  src/src/identity/users.rs: accounts, roles, login with its lockout, and the MFA flow.
  Parameters, in \<open>id_env\<close>: Argon2 (the salted hash of a password, and the check of a stored
  one), HMAC-SHA1, and the JSON codec of the permission list. The at-rest encryption of the
  MFA seed is a pair of functions in the state. Clock readings (seconds), fresh identifiers
  and fresh seeds are arguments. The log of statements is kept as in \<open>Sessions\<close>.
\<close>

record id_env =
  argon2_hash :: "string \<Rightarrow> string"
  argon2_verify :: "string \<Rightarrow> string \<Rightarrow> bool"
  hmac_sha1 :: "byte list \<Rightarrow> byte list \<Rightarrow> byte list"
  perms_to_json :: "string list \<Rightarrow> string"
  perms_of_json :: "string \<Rightarrow> string list option"

definition max_failed_attempts :: nat where "max_failed_attempts = 10"
definition lockout_window_secs :: nat where "lockout_window_secs = 900"
definition failed_attempts_max_entries :: nat where "failed_attempts_max_entries = 10000"

definition normalize_email :: "string \<Rightarrow> string" where
  "normalize_email email = to_ascii_lowercase (trim email)"

section \<open>Roles\<close>

datatype user_role = SuperAdmin | Admin | Developer | Viewer | ServiceRole | Custom string

fun role_level :: "user_role \<Rightarrow> nat" where
  "role_level SuperAdmin = 100"
| "role_level Admin = 80"
| "role_level Developer = 60"
| "role_level ServiceRole = 40"
| "role_level Viewer = 20"
| "role_level (Custom _) = 0"

fun is_custom :: "user_role \<Rightarrow> bool" where
  "is_custom (Custom _) = True"
| "is_custom _ = False"

definition role_satisfies :: "user_role \<Rightarrow> user_role \<Rightarrow> bool" where
  "role_satisfies self required =
     (if is_custom required then self = required
      else if is_custom self then False
      else role_level required \<le> role_level self)"

fun role_as_str :: "user_role \<Rightarrow> string" where
  "role_as_str SuperAdmin = ''SuperAdmin''"
| "role_as_str Admin = ''Admin''"
| "role_as_str Developer = ''Developer''"
| "role_as_str Viewer = ''Viewer''"
| "role_as_str ServiceRole = ''Service''"
| "role_as_str (Custom s) = s"

text \<open>
  The derived \<open>Debug\<close> text, which is what the table stores: the name of a custom role is
  printed as a string literal, with quotes and escapes.
\<close>

definition debug_char :: "char \<Rightarrow> string" where
  "debug_char c =
     (if c = CHR 0x22 then [CHR 0x5C, CHR 0x22]
      else if c = CHR 0x5C then [CHR 0x5C, CHR 0x5C]
      else if c = CHR 0x0A then [CHR 0x5C, CHR ''n'']
      else if c = CHR 0x0D then [CHR 0x5C, CHR ''r'']
      else if c = CHR 0x09 then [CHR 0x5C, CHR ''t'']
      else if c = CHR 0x00 then [CHR 0x5C, CHR ''0'']
      else if (of_char c :: nat) < 32 \<or> (of_char c :: nat) = 127
      then [CHR 0x5C] @ ''u{'' @ show_hex (of_char c) @ ''}''
      else [c])"

definition debug_string :: "string \<Rightarrow> string" where
  "debug_string s = [CHR 0x22] @ concat (map debug_char s) @ [CHR 0x22]"

fun role_debug :: "user_role \<Rightarrow> string" where
  "role_debug (Custom s) = ''Custom('' @ debug_string s @ '')''"
| "role_debug r = role_as_str r"

text \<open>
  Reading the column back. The slice \<open>s[7..s.len()-1]\<close> panics on the bare text \<open>Custom(\<close> and when
  the last character has several bytes, which is the branch \<open>None\<close>.
\<close>

definition role_of_column :: "string \<Rightarrow> user_role option" where
  "role_of_column s =
     (if s = ''SuperAdmin'' then Some SuperAdmin
      else if s = ''Admin'' then Some Admin
      else if s = ''Developer'' then Some Developer
      else if s = ''Service'' then Some ServiceRole
      else if prefix ''Custom('' s
      then (if length s - 1 < 7 \<or> \<not> is_char_boundary s (length s - 1) then None
            else Some (Custom (drop 7 (take (length s - 1) s))))
      else Some Viewer)"

section \<open>State\<close>

record user =
  uid :: string
  email :: string
  username :: string
  password_hash :: string
  role :: user_role
  permissions :: "string list"
  u_created_at :: nat
  last_login :: nat
  login_count :: nat
  u_enabled :: bool
  mfa_enabled :: bool
  mfa_secret :: "string option"

record failed_attempt =
  fa_count :: nat
  first_failure_at :: nat

record secret_box =
  sb_seal :: "string \<Rightarrow> string option"
  sb_open :: "string \<Rightarrow> unit + string option"

record user_mgr =
  users :: "(string, user) dashmap"
  email_index :: "(string, string) dashmap"
  user_storage :: "db_op list option"
  failed_attempts :: "(string, failed_attempt) dashmap"
  secrets :: "secret_box option"

datatype auth_result =
    AuthSuccess user string
  | InvalidCredentials
  | AccountDisabled
  | MfaRequired string
  | LockedOut nat

definition user_new :: user_mgr where
  "user_new = \<lparr>users = [], email_index = [], user_storage = None, failed_attempts = [],
               secrets = None\<rparr>"

definition with_secrets :: "secret_box \<Rightarrow> user_mgr \<Rightarrow> user_mgr" where
  "with_secrets sb m = m\<lparr>secrets := Some sb\<rparr>"

section \<open>Persistence\<close>

text \<open>
  Opening a sealed value: bytes that are not UTF-8 give no secret (\<open>Inr None\<close>), a failure
  falls back to the stored text (\<open>Inl\<close>); sealing falls back to the plain text.
\<close>

definition decrypt_mfa_secret :: "secret_box option \<Rightarrow> string option \<Rightarrow> string option" where
  "decrypt_mfa_secret sb stored =
     (case stored of
        None \<Rightarrow> None
      | Some s \<Rightarrow>
          (case sb of
             None \<Rightarrow> Some s
           | Some b \<Rightarrow> (case sb_open b s of Inr plain \<Rightarrow> plain | Inl _ \<Rightarrow> Some s)))"

definition encrypt_mfa_secret :: "secret_box option \<Rightarrow> string option \<Rightarrow> string option" where
  "encrypt_mfa_secret sb plain =
     (case plain of
        None \<Rightarrow> None
      | Some p \<Rightarrow>
          (case sb of
             None \<Rightarrow> Some p
           | Some b \<Rightarrow> (case sb_seal b p of Some s \<Rightarrow> Some s | None \<Rightarrow> Some p)))"

definition user_row :: "id_env \<Rightarrow> secret_box option \<Rightarrow> user \<Rightarrow> row" where
  "user_row env sb u =
     [(''id'', SText (uid u)), (''email'', SText (email u)), (''username'', SText (username u)),
      (''password_hash'', SText (password_hash u)), (''role'', SText (role_debug (role u))),
      (''permissions'', SText (perms_to_json env (permissions u))),
      (''created_at'', SInt (i64_of_u64 (u_created_at u))),
      (''last_login'', SInt (i64_of_u64 (last_login u))),
      (''login_count'', SInt (i64_of_u64 (login_count u))),
      (''enabled'', SInt (if u_enabled u then 1 else 0)),
      (''mfa_enabled'', SInt (if mfa_enabled u then 1 else 0)),
      (''mfa_secret'', case encrypt_mfa_secret sb (mfa_secret u) of
                         Some s \<Rightarrow> SText s | None \<Rightarrow> SOther)]"

definition persist_user :: "id_env \<Rightarrow> user \<Rightarrow> user_mgr \<Rightarrow> user_mgr" where
  "persist_user env u m =
     m\<lparr>user_storage := map_option (\<lambda>log. log @ [Replace (uid u) (user_row env (secrets m) u)])
                        (user_storage m)\<rparr>"

text \<open>One row of the load; \<open>None\<close> where parsing the role panics.\<close>

definition row_user :: "id_env \<Rightarrow> secret_box option \<Rightarrow> row \<Rightarrow> user option" where
  "row_user env sb r =
     (case role_of_column (case row_text_opt ''role'' r of Some s \<Rightarrow> s | None \<Rightarrow> ''Viewer'') of
        None \<Rightarrow> None
      | Some ro \<Rightarrow> Some
          \<lparr>uid = row_text ''id'' r, email = row_text ''email'' r, username = row_text ''username'' r,
           password_hash = row_text ''password_hash'' r, role = ro,
           permissions =
             (case perms_of_json env (case row_text_opt ''permissions'' r of Some s \<Rightarrow> s | None \<Rightarrow> ''[]'') of
                Some ps \<Rightarrow> ps | None \<Rightarrow> []),
           u_created_at = row_u64 ''created_at'' r, last_login = row_u64 ''last_login'' r,
           login_count = row_u64 ''login_count'' r,
           u_enabled = (case map_of r ''enabled'' of
                          Some (SInt i) \<Rightarrow> if 0 \<le> i then i = 1 else True | _ \<Rightarrow> True),
           mfa_enabled = (row_u64 ''mfa_enabled'' r = 1),
           mfa_secret = decrypt_mfa_secret sb (row_text_opt ''mfa_secret'' r)\<rparr>)"

definition load_user :: "id_env \<Rightarrow> row \<Rightarrow> user_mgr option \<Rightarrow> user_mgr option" where
  "load_user env r mo =
     Option.bind mo (\<lambda>m. map_option (\<lambda>u.
       m\<lparr>email_index := dm_insert (email u) (uid u) (email_index m),
         users := dm_insert (uid u) u (users m)\<rparr>) (row_user env (secrets m) r))"

definition with_storage_and_secrets ::
  "id_env \<Rightarrow> row list \<Rightarrow> secret_box option \<Rightarrow> user_mgr option" where
  "with_storage_and_secrets env rows sb =
     fold (load_user env) rows (Some (user_new\<lparr>user_storage := Some [], secrets := sb\<rparr>))"

section \<open>Registration and passwords\<close>

definition hash_password :: "id_env \<Rightarrow> string \<Rightarrow> string" where
  "hash_password env password = argon2_hash env password"

definition verify_password :: "id_env \<Rightarrow> string \<Rightarrow> string \<Rightarrow> bool" where
  "verify_password env password stored =
     (if \<not> prefix ''$argon2'' stored then False else argon2_verify env password stored)"

definition register ::
  "id_env \<Rightarrow> nat \<Rightarrow> string \<Rightarrow> string \<Rightarrow> string \<Rightarrow> string \<Rightarrow> user_role \<Rightarrow> user_mgr \<Rightarrow>
     user_mgr \<times> (string + user)" where
  "register env now fresh_id mail name password ro m =
     (let email_key = normalize_email mail in
      if dm_get (email_index m) email_key \<noteq> None then (m, Inl ''Email already registered'')
      else (let u = \<lparr>uid = fresh_id, email = mail, username = name,
                     password_hash = hash_password env password, role = ro, permissions = [],
                     u_created_at = now, last_login = 0, login_count = 0, u_enabled = True,
                     mfa_enabled = False, mfa_secret = None\<rparr>;
                m1 = persist_user env u m
            in (m1\<lparr>email_index := dm_insert email_key fresh_id (email_index m1),
                   users := dm_insert fresh_id u (users m1)\<rparr>, Inr u)))"

section \<open>Lockout\<close>

definition lockout_check :: "nat \<Rightarrow> string \<Rightarrow> user_mgr \<Rightarrow> user_mgr \<times> nat option" where
  "lockout_check now key m =
     (case dm_get (failed_attempts m) key of
        None \<Rightarrow> (m, None)
      | Some fa \<Rightarrow>
          if fa_count fa < max_failed_attempts then (m, None)
          else if lockout_window_secs \<le> now - first_failure_at fa
          then (m\<lparr>failed_attempts := dm_remove key (failed_attempts m)\<rparr>, None)
          else (m, Some (wrap_sub64 lockout_window_secs (wrap_sub64 now (first_failure_at fa)))))"

text \<open>The scan for the oldest entry: the first one with the smallest time below \<open>u64::MAX\<close>.\<close>

fun oldest_failure :: "(string, failed_attempt) dashmap \<Rightarrow> nat \<Rightarrow> string option \<Rightarrow> string option" where
  "oldest_failure [] oldest_ts oldest_key = oldest_key"
| "oldest_failure ((k, fa) # m) oldest_ts oldest_key =
     (if first_failure_at fa < oldest_ts
      then oldest_failure m (first_failure_at fa) (Some k)
      else oldest_failure m oldest_ts oldest_key)"

definition prune_failures :: "nat \<Rightarrow> (string, failed_attempt) dashmap \<Rightarrow> (string, failed_attempt) dashmap" where
  "prune_failures now fas =
     (if failed_attempts_max_entries \<le> length fas
      then (let kept = dm_retain (\<lambda>_ fa. now - lockout_window_secs \<le> first_failure_at fa) fas in
            if failed_attempts_max_entries \<le> length kept
            then (case oldest_failure kept u64_max None of
                    Some k \<Rightarrow> dm_remove k kept
                  | None \<Rightarrow> kept)
            else kept)
      else fas)"

definition user_record_failure :: "nat \<Rightarrow> string \<Rightarrow> user_mgr \<Rightarrow> user_mgr" where
  "user_record_failure now key m =
     (let fas = prune_failures now (failed_attempts m) in
      m\<lparr>failed_attempts :=
          (case dm_get fas key of
             Some fa \<Rightarrow> dm_update key (\<lambda>fa. fa\<lparr>fa_count := wrap_add32 (fa_count fa) 1\<rparr>) fas
           | None \<Rightarrow> dm_insert key \<lparr>fa_count = 1, first_failure_at = now\<rparr> fas)\<rparr>)"

section \<open>Login\<close>

text \<open>\<open>now\<close> is read once here; the code reads it in the lockout check and again later.\<close>

definition fresh_token :: "string \<Rightarrow> string" where
  "fresh_token uuid_text = ''xira_tok_'' @ filter (\<lambda>c. c \<noteq> CHR ''-'') uuid_text"

definition login_success ::
  "id_env \<Rightarrow> nat \<Rightarrow> string \<Rightarrow> string \<Rightarrow> user \<Rightarrow> user_mgr \<Rightarrow> user_mgr \<times> auth_result" where
  "login_success env now uuid_text user_id u m =
     (let u' = u\<lparr>last_login := now, login_count := wrap_add64 (login_count u) 1\<rparr>;
          m1 = persist_user env u' (m\<lparr>users := dm_insert user_id u' (users m)\<rparr>)
      in (m1, AuthSuccess u' (fresh_token uuid_text)))"

definition authenticate ::
  "id_env \<Rightarrow> nat \<Rightarrow> string \<Rightarrow> string \<Rightarrow> string \<Rightarrow> user_mgr \<Rightarrow> user_mgr \<times> auth_result" where
  "authenticate env now uuid_text mail password m0 =
     (let email_key = normalize_email mail in
      case lockout_check now email_key m0 of
        (m, Some retry) \<Rightarrow> (m, LockedOut retry)
      | (m, None) \<Rightarrow>
          (case Option.bind (dm_get (email_index m) email_key)
                  (\<lambda>user_id. map_option (Pair user_id) (dm_get (users m) user_id)) of
             None \<Rightarrow> (user_record_failure now email_key m, InvalidCredentials)
           | Some (user_id, u) \<Rightarrow>
               if \<not> u_enabled u then (m, AccountDisabled)
               else if \<not> verify_password env password (password_hash u)
               then (user_record_failure now email_key m, InvalidCredentials)
               else (let m1 = m\<lparr>failed_attempts := dm_remove email_key (failed_attempts m)\<rparr> in
                     if mfa_enabled u then (m1, MfaRequired (uid u))
                     else login_success env now uuid_text user_id u m1)))"

section \<open>The second factor\<close>

definition start_mfa_enrollment ::
  "id_env \<Rightarrow> byte list \<Rightarrow> string \<Rightarrow> user_mgr \<Rightarrow> user_mgr \<times> (string + string \<times> string)" where
  "start_mfa_enrollment env random_bytes user_id m =
     (case dm_get (users m) user_id of
        None \<Rightarrow> (m, Inl ''user not found'')
      | Some u \<Rightarrow>
          (let secret = generate_secret random_bytes;
               u' = u\<lparr>mfa_secret := Some secret\<rparr>
           in (persist_user env u' (m\<lparr>users := dm_insert user_id u' (users m)\<rparr>),
               Inr (secret, generate_qr_url (email u) secret))))"

definition verify_mfa_setup ::
  "id_env \<Rightarrow> nat \<Rightarrow> string \<Rightarrow> string \<Rightarrow> user_mgr \<Rightarrow> user_mgr \<times> bool" where
  "verify_mfa_setup env now user_id code m =
     (case dm_get (users m) user_id of
        None \<Rightarrow> (m, False)
      | Some u \<Rightarrow>
          (case mfa_secret u of
             None \<Rightarrow> (m, False)
           | Some secret \<Rightarrow>
               if \<not> verify_totp (hmac_sha1 env) now secret code then (m, False)
               else (let u' = u\<lparr>mfa_enabled := True\<rparr> in
                     (persist_user env u' (m\<lparr>users := dm_insert user_id u' (users m)\<rparr>), True))))"

definition complete_mfa_login ::
  "id_env \<Rightarrow> nat \<Rightarrow> string \<Rightarrow> string \<Rightarrow> string \<Rightarrow> user_mgr \<Rightarrow> user_mgr \<times> auth_result" where
  "complete_mfa_login env now uuid_text user_id code m =
     (case dm_get (users m) user_id of
        None \<Rightarrow> (m, InvalidCredentials)
      | Some u \<Rightarrow>
          if \<not> u_enabled u then (m, AccountDisabled)
          else if \<not> mfa_enabled u then (m, InvalidCredentials)
          else (case mfa_secret u of
                  None \<Rightarrow> (m, InvalidCredentials)
                | Some secret \<Rightarrow>
                    if \<not> verify_totp (hmac_sha1 env) now secret code then (m, InvalidCredentials)
                    else login_success env now uuid_text user_id u m))"

section \<open>Administration\<close>

text \<open>The operations that change one user and persist it; false when there is no such user.\<close>

definition modify_user :: "id_env \<Rightarrow> string \<Rightarrow> (user \<Rightarrow> user) \<Rightarrow> user_mgr \<Rightarrow> user_mgr \<times> bool" where
  "modify_user env user_id f m =
     (case dm_get (users m) user_id of
        None \<Rightarrow> (m, False)
      | Some u \<Rightarrow> (persist_user env (f u) (m\<lparr>users := dm_insert user_id (f u) (users m)\<rparr>), True))"

definition disable_mfa :: "id_env \<Rightarrow> string \<Rightarrow> user_mgr \<Rightarrow> user_mgr \<times> bool" where
  "disable_mfa env user_id = modify_user env user_id (\<lambda>u. u\<lparr>mfa_enabled := False, mfa_secret := None\<rparr>)"

definition disable_user :: "id_env \<Rightarrow> string \<Rightarrow> user_mgr \<Rightarrow> user_mgr \<times> bool" where
  "disable_user env user_id = modify_user env user_id (\<lambda>u. u\<lparr>u_enabled := False\<rparr>)"

definition update_role :: "id_env \<Rightarrow> string \<Rightarrow> user_role \<Rightarrow> user_mgr \<Rightarrow> user_mgr \<times> bool" where
  "update_role env user_id ro = modify_user env user_id (\<lambda>u. u\<lparr>role := ro\<rparr>)"

definition add_permission :: "id_env \<Rightarrow> string \<Rightarrow> string \<Rightarrow> user_mgr \<Rightarrow> user_mgr \<times> bool" where
  "add_permission env user_id perm =
     modify_user env user_id (\<lambda>u. u\<lparr>permissions :=
       (if perm \<in> set (permissions u) then permissions u else permissions u @ [perm])\<rparr>)"

definition has_permission :: "string \<Rightarrow> string \<Rightarrow> user_mgr \<Rightarrow> bool" where
  "has_permission user_id perm m =
     (case dm_get (users m) user_id of
        Some u \<Rightarrow> perm \<in> set (permissions u) \<or> role u = SuperAdmin
      | None \<Rightarrow> False)"

definition get_user :: "string \<Rightarrow> user_mgr \<Rightarrow> user option" where
  "get_user user_id m = dm_get (users m) user_id"

definition user_role_of :: "string \<Rightarrow> user_mgr \<Rightarrow> user_role option" where
  "user_role_of user_id m = map_option role (dm_get (users m) user_id)"

definition user_count :: "user_mgr \<Rightarrow> nat" where
  "user_count m = length (users m)"


section \<open>Roles as an order\<close>

lemma role_satisfies_refl [simp]: "role_satisfies r r"
  by (cases r) (simp_all add: role_satisfies_def)

lemma role_satisfies_trans:
  "role_satisfies a b \<Longrightarrow> role_satisfies b c \<Longrightarrow> role_satisfies a c"
  by (cases b; cases c) (auto simp: role_satisfies_def split: if_splits)

lemma superadmin_satisfies: "role_satisfies SuperAdmin r \<longleftrightarrow> \<not> is_custom r"
  by (cases r) (simp_all add: role_satisfies_def)

lemma only_superadmin_satisfies: "role_satisfies r SuperAdmin \<longleftrightarrow> r = SuperAdmin"
  by (cases r) (simp_all add: role_satisfies_def)

lemma debug_string_longer: "length s < length (debug_string s)"
proof -
  have one: "1 \<le> length (debug_char c)" for c by (simp add: debug_char_def)
  have "length s \<le> length (concat (map debug_char s))"
  proof (induction s)
    case (Cons c s)
    from add_mono [OF one [of c] Cons] show ?case by simp
  qed simp
  then show ?thesis by (simp add: debug_string_def)
qed

text \<open>
  Which roles survive a restart. Reading back the column a role is stored in gives the
  same role exactly for the five built-in roles. A custom role never survives: its name
  comes back wrapped in the quotes of its \<open>Debug\<close> text, so it is another role.
\<close>

theorem role_roundtrip_gap:
  "role_of_column (role_debug r) = Some r \<longleftrightarrow> \<not> is_custom r"
proof (cases r)
  case (Custom s)
  have "take (length (role_debug r) - 1) (role_debug r) = ''Custom('' @ debug_string s"
    by (simp add: Custom)
  then have "drop 7 (take (length (role_debug r) - 1) (role_debug r)) = debug_string s" by simp
  moreover have "debug_string s \<noteq> s" using debug_string_longer [of s] by auto
  moreover have "2 \<le> length (debug_string s)" by (simp add: debug_string_def)
  ultimately show ?thesis using Custom by (auto simp: role_of_column_def split: if_splits)
qed (simp_all add: role_of_column_def)

section \<open>Login\<close>

lemma persist_user_frame [simp]:
  "users (persist_user env u m) = users m" "email_index (persist_user env u m) = email_index m"
  "failed_attempts (persist_user env u m) = failed_attempts m"
  "secrets (persist_user env u m) = secrets m"
  by (simp_all add: persist_user_def)

lemma lockout_check_frame [simp]:
  "users (fst (lockout_check now key m)) = users m"
  "email_index (fst (lockout_check now key m)) = email_index m"
  by (simp_all add: lockout_check_def split: option.split)

lemma record_failure_frame [simp]:
  "users (user_record_failure now key m) = users m"
  "email_index (user_record_failure now key m) = email_index m"
  by (simp_all add: user_record_failure_def Let_def)

lemma login_success_frame:
  "users (fst (login_success env now w i u m)) =
     dm_insert i (u\<lparr>last_login := now, login_count := wrap_add64 (login_count u) 1\<rparr>) (users m)"
  "email_index (fst (login_success env now w i u m)) = email_index m"
  "failed_attempts (fst (login_success env now w i u m)) = failed_attempts m"
  "snd (login_success env now w i u m) =
     AuthSuccess (u\<lparr>last_login := now, login_count := wrap_add64 (login_count u) 1\<rparr>) (fresh_token w)"
  by (simp_all add: login_success_def Let_def)

definition account :: "user_mgr \<Rightarrow> string \<Rightarrow> (string \<times> user) option" where
  "account m key = Option.bind (dm_get (email_index m) key)
     (\<lambda>user_id. map_option (Pair user_id) (dm_get (users m) user_id))"

text \<open>The answer of a login, case by case.\<close>

lemma authenticate_result:
  "snd (authenticate env now w mail password m) =
     (case snd (lockout_check now (normalize_email mail) m) of
        Some retry \<Rightarrow> LockedOut retry
      | None \<Rightarrow>
          (case account m (normalize_email mail) of
             None \<Rightarrow> InvalidCredentials
           | Some (i, u) \<Rightarrow>
               if \<not> u_enabled u then AccountDisabled
               else if \<not> verify_password env password (password_hash u) then InvalidCredentials
               else if mfa_enabled u then MfaRequired (uid u)
               else AuthSuccess (u\<lparr>last_login := now, login_count := wrap_add64 (login_count u) 1\<rparr>)
                      (fresh_token w)))"
proof -
  obtain m1 r where l: "lockout_check now (normalize_email mail) m = (m1, r)" by fastforce
  then have "users m1 = users m" "email_index m1 = email_index m"
    using lockout_check_frame [of now "normalize_email mail" m] by simp_all
  with l show ?thesis
    by (simp add: authenticate_def Let_def account_def login_success_frame
        split: option.split prod.split)
qed

text \<open>
  C10: A login that hands out a token is justified. \<open>authenticate\<close> succeeds only for an account
  that is not locked out, exists under the normalised address, is enabled, has no second
  factor and whose stored Argon2 hash accepts the password; an account with a second factor
  gets no token from its password.
\<close>

theorem authenticate_sound:
  "snd (authenticate env now w mail password m) = AuthSuccess u' token \<longleftrightarrow>
     (\<exists>i u. dm_get (email_index m) (normalize_email mail) = Some i \<and>
        dm_get (users m) i = Some u \<and> snd (lockout_check now (normalize_email mail) m) = None \<and>
        u_enabled u \<and> \<not> mfa_enabled u \<and> prefix ''$argon2'' (password_hash u) \<and>
        argon2_verify env password (password_hash u) \<and>
        u' = u\<lparr>last_login := now, login_count := wrap_add64 (login_count u) 1\<rparr> \<and>
        token = fresh_token w)"
  by (auto simp: authenticate_result account_def verify_password_def
      split: option.splits bind_splits if_splits)

section \<open>Lockout\<close>

definition credentials :: "user_mgr \<Rightarrow> string \<Rightarrow> (string \<times> bool) option" where
  "credentials m i = map_option (\<lambda>u. (password_hash u, u_enabled u)) (dm_get (users m) i)"

lemma prune_failures_small: "length fas < failed_attempts_max_entries \<Longrightarrow> prune_failures now fas = fas"
  by (simp add: prune_failures_def)

lemma record_failure_get:
  assumes "length (failed_attempts m) < failed_attempts_max_entries"
  shows "dm_get (failed_attempts (user_record_failure now key m)) k =
    (if k = key
     then Some (case dm_get (failed_attempts m) key of
                  Some fa \<Rightarrow> fa\<lparr>fa_count := wrap_add32 (fa_count fa) 1\<rparr>
                | None \<Rightarrow> \<lparr>fa_count = 1, first_failure_at = now\<rparr>)
     else dm_get (failed_attempts m) k)"
    and "length (failed_attempts (user_record_failure now key m)) \<le> Suc (length (failed_attempts m))"
  using assms
  by (auto simp: user_record_failure_def Let_def prune_failures_small dashmap_simps length_insert
      split: option.split)

lemma lockout_check_get:
  "k \<noteq> key \<Longrightarrow> dm_get (failed_attempts (fst (lockout_check now key m))) k = dm_get (failed_attempts m) k"
  "length (failed_attempts (fst (lockout_check now key m))) \<le> length (failed_attempts m)"
  by (auto simp: lockout_check_def dashmap_simps length_remove_le split: option.split)

lemma authenticate_frame:
  fixes env :: id_env and now :: nat and w mail password :: string and m :: user_mgr
  assumes "length (failed_attempts m) < failed_attempts_max_entries"
  defines "m' \<equiv> fst (authenticate env now w mail password m)"
  shows "email_index m' = email_index m" "credentials m' i = credentials m i"
    "length (failed_attempts m') \<le> Suc (length (failed_attempts m))"
    "normalize_email mail \<noteq> k \<Longrightarrow> dm_get (failed_attempts m') k = dm_get (failed_attempts m) k"
proof -
  let ?key = "normalize_email mail"
  obtain m1 r where l: "lockout_check now ?key m = (m1, r)" by fastforce
  have m1: "users m1 = users m" "email_index m1 = email_index m"
    "length (failed_attempts m1) \<le> length (failed_attempts m)"
    "?key \<noteq> k \<Longrightarrow> dm_get (failed_attempts m1) k = dm_get (failed_attempts m) k"
    using lockout_check_frame [of now ?key m] lockout_check_get(1) [of k ?key now m]
      lockout_check_get(2) [of now ?key m] l by auto
  have small: "length (failed_attempts m1) < failed_attempts_max_entries" using m1(3) assms(1) by simp
  note defs = m'_def authenticate_def Let_def l m1(1,2)
  show "email_index m' = email_index m"
    by (auto simp: defs login_success_frame split: option.split prod.split)
  show "credentials m' i = credentials m i"
    by (auto simp: defs credentials_def login_success_frame dashmap_simps
        split: option.split prod.split bind_split)
  show "length (failed_attempts m') \<le> Suc (length (failed_attempts m))"
    using m1(3) record_failure_get(2) [where key = ?key and now = now, OF small] length_remove_le [of ?key "failed_attempts m1"]
    by (auto simp: defs login_success_frame split: option.split prod.split)
  show "dm_get (failed_attempts m') k = dm_get (failed_attempts m) k" if "?key \<noteq> k"
    using that m1(4) record_failure_get(1) [where key = ?key and now = now and k = k, OF small]
    by (auto simp: defs login_success_frame dashmap_simps split: option.split prod.split)
qed


text \<open>A run of login attempts: time, fresh identifier, address and password of each.\<close>

type_synonym attempt = "nat \<times> string \<times> string \<times> string"

fun auth_step :: "id_env \<Rightarrow> attempt \<Rightarrow> user_mgr \<Rightarrow> user_mgr" where
  "auth_step env (now, w, mail, password) m = fst (authenticate env now w mail password m)"

definition attempts_on :: "string \<Rightarrow> attempt list \<Rightarrow> nat" where
  "attempts_on key es = length (filter (\<lambda>(now, w, mail, pw). normalize_email mail = key) es)"

text \<open>No attempt of the run holds the right password, and the account is not disabled.\<close>

definition all_wrong :: "id_env \<Rightarrow> string \<Rightarrow> user_mgr \<Rightarrow> attempt list \<Rightarrow> bool" where
  "all_wrong env key m es \<longleftrightarrow>
     (\<forall>i h en. dm_get (email_index m) key = Some i \<and> credentials m i = Some (h, en) \<longrightarrow>
        en \<and> (\<forall>(now, w, mail, pw) \<in> set es. normalize_email mail = key \<longrightarrow> \<not> verify_password env pw h))"

lemma all_wrong_append:
  "all_wrong env key m (xs @ ys) \<longleftrightarrow> all_wrong env key m xs \<and> all_wrong env key m ys"
  unfolding all_wrong_def set_append ball_Un by blast

lemma all_wrong_cong:
  "email_index m' = email_index m \<Longrightarrow> (\<And>i. credentials m' i = credentials m i) \<Longrightarrow>
   all_wrong env key m' es = all_wrong env key m es"
  by (simp add: all_wrong_def)

definition counted :: "string \<Rightarrow> nat \<Rightarrow> nat \<Rightarrow> user_mgr \<Rightarrow> bool" where
  "counted key t0 n m \<longleftrightarrow>
     (case dm_get (failed_attempts m) key of
        None \<Rightarrow> n = 0
      | Some fa \<Rightarrow> 0 < n \<and> fa_count fa = min n max_failed_attempts \<and> t0 \<le> first_failure_at fa)"

text \<open>Inside the window the count alone decides whether an attempt gets to its password.\<close>

lemma attempt_admitted:
  "counted key t0 n m \<Longrightarrow> n < max_failed_attempts \<Longrightarrow> lockout_check now key m = (m, None)"
  by (auto simp: counted_def lockout_check_def split: option.splits)

lemma attempt_locked:
  assumes "counted key t0 n m" "now < t0 + lockout_window_secs" "\<not> n < max_failed_attempts" "normalize_email mail = key"
  shows "\<exists>r. authenticate env now w mail pw m = (m, LockedOut r)"
proof -
  obtain fa where fa: "dm_get (failed_attempts m) key = Some fa"
    "fa_count fa = max_failed_attempts" "t0 \<le> first_failure_at fa"
    using assms(1,3) by (auto simp: counted_def max_failed_attempts_def split: option.splits)
  then have "\<not> lockout_window_secs \<le> now - first_failure_at fa"
    using assms(2) by (simp add: lockout_window_secs_def)
  with fa obtain r where "lockout_check now key m = (m, Some r)"
    by (auto simp: lockout_check_def)
  then show ?thesis by (simp add: authenticate_def assms(4))
qed

text \<open>One attempt with a wrong password inside the window.\<close>

lemma wrong_attempt:
  assumes "counted key t0 n m" "t0 \<le> now" "now < t0 + lockout_window_secs"
    and "all_wrong env key m [(now, w, mail, pw)]" "normalize_email mail = key"
    and "length (failed_attempts m) < failed_attempts_max_entries"
  shows "(n < max_failed_attempts \<longrightarrow> snd (authenticate env now w mail pw m) = InvalidCredentials) \<and>
      counted key t0 (Suc n) (fst (authenticate env now w mail pw m))"
proof -
  have acc: "case account m key of None \<Rightarrow> True | Some (i, u) \<Rightarrow>
      u_enabled u \<and> \<not> verify_password env pw (password_hash u)"
    using assms(4,5) by (auto simp: all_wrong_def credentials_def account_def split: option.split bind_split)
  show ?thesis
  proof (cases "n < max_failed_attempts")
    case True
    note l = attempt_admitted [OF assms(1) True, of now]
    have res: "authenticate env now w mail pw m = (user_record_failure now key m, InvalidCredentials)"
      using acc by (auto simp: authenticate_def Let_def assms(5) l account_def split: option.splits bind_splits)
    have "counted key t0 (Suc n) (user_record_failure now key m)"
      using assms(1,2) True record_failure_get(1) [OF assms(6), of now key key]
      by (auto simp: counted_def max_failed_attempts_def wrap_add32_def u32_max_def split: option.splits)
    with True show ?thesis by (simp add: res)
  next
    case False
    obtain r where "authenticate env now w mail pw m = (m, LockedOut r)"
      using attempt_locked [OF assms(1,3) False assms(5)] by blast
    then show ?thesis using assms(1) False by (auto simp: counted_def max_failed_attempts_def split: option.splits)
  qed
qed

text \<open>The password of the account of an address.\<close>

definition right_password :: "id_env \<Rightarrow> string \<Rightarrow> user_mgr \<Rightarrow> string \<Rightarrow> bool" where
  "right_password env key m pw \<longleftrightarrow>
     (\<exists>i h en. dm_get (email_index m) key = Some i \<and> credentials m i = Some (h, en) \<and> verify_password env pw h)"

lemma right_attempt:
  assumes "counted key t0 n m" "n < max_failed_attempts" "all_wrong env key m []" "right_password env key m pw"
    and "normalize_email mail = key"
  shows "(\<exists>u token. snd (authenticate env now w mail pw m) = AuthSuccess u token) \<or>
    (\<exists>i. snd (authenticate env now w mail pw m) = MfaRequired i)"
proof -
  obtain i u where "dm_get (email_index m) key = Some i" "dm_get (users m) i = Some u" "u_enabled u"
    "verify_password env pw (password_hash u)"
    using assms(3,4) by (auto simp: all_wrong_def right_password_def credentials_def)
  then show ?thesis
    by (simp add: authenticate_def Let_def assms(5) attempt_admitted [OF assms(1,2)] login_success_frame)
qed

lemma attempts_run:
  assumes "dm_get (failed_attempts m) key = None" "all_wrong env key m es"
    and "length (failed_attempts m) + length es \<le> failed_attempts_max_entries"
    and "\<forall>(now, _) \<in> set es. t0 \<le> now \<and> now < t0 + lockout_window_secs"
  shows "counted key t0 (attempts_on key es) (fold (auth_step env) es m) \<and>
    length (failed_attempts (fold (auth_step env) es m)) \<le> length (failed_attempts m) + length es \<and>
    email_index (fold (auth_step env) es m) = email_index m \<and>
    (\<forall>i. credentials (fold (auth_step env) es m) i = credentials m i)"
  using assms(2,3,4)
proof (induction es rule: rev_induct)
  case Nil
  then show ?case using assms(1) by (simp add: counted_def attempts_on_def)
next
  case (snoc e es)
  obtain now w mail pw where e: "e = (now, w, mail, pw)" by (cases e)
  let ?m = "fold (auth_step env) es m"
  have ih: "counted key t0 (attempts_on key es) ?m"
    "length (failed_attempts ?m) \<le> length (failed_attempts m) + length es"
    "email_index ?m = email_index m" "\<And>i. credentials ?m i = credentials m i"
    using snoc.IH snoc.prems by (auto simp: all_wrong_append)
  have small: "length (failed_attempts ?m) < failed_attempts_max_entries"
    using ih(2) snoc.prems(2) by simp
  note frame = authenticate_frame [OF small, where env = env and now = now and w = w and mail = mail
      and password = pw]
  have "counted key t0 (attempts_on key (es @ [e])) (fold (auth_step env) (es @ [e]) m)"
  proof (cases "normalize_email mail = key")
    case True
    have "all_wrong env key ?m [e]"
      using snoc.prems(1) all_wrong_cong [OF ih(3,4)] by (simp add: all_wrong_append)
    then show ?thesis
      using wrong_attempt [OF ih(1) _ _ _ True small, of now env w pw] snoc.prems(3) True
      by (simp add: e attempts_on_def)
  next
    case False
    then show ?thesis using ih(1) frame(4) [OF False] by (simp add: counted_def e attempts_on_def)
  qed
  then show ?case using ih frame by (simp add: e)
qed

text \<open>
  C9: Ten wrong passwords lock an address out, for the right password too. Take any sequence of
  login attempts, for this and other addresses, inside one lockout window and below the size cap
  of the table, none of those for this address with the right password of its account, which is not
  disabled. If ten or more were made, the next attempt is refused as locked out and changes nothing,
  whatever password it has and however the address is spelled (case, surrounding blanks). If
  fewer were made, the next one is refused as wrong when its password is wrong, and when it is
  right it gets a token or is asked for the second factor.
\<close>

theorem lockout_exact:
  assumes "dm_get (failed_attempts m) (normalize_email mail) = None"
    and "all_wrong env (normalize_email mail) m es"
    and "length (failed_attempts m) + length es < failed_attempts_max_entries"
    and "\<forall>(t, _) \<in> set (es @ [(now, w, mail, pw)]). t0 \<le> t \<and> t < t0 + lockout_window_secs"
    and "m' = fold (auth_step env) es m" "answer = snd (authenticate env now w mail pw m')"
  shows "(10 \<le> attempts_on (normalize_email mail) es \<longrightarrow>
       fst (authenticate env now w mail pw m') = m' \<and> (\<exists>r. answer = LockedOut r)) \<and>
    (attempts_on (normalize_email mail) es < 10 \<and> \<not> right_password env (normalize_email mail) m pw \<longrightarrow>
       answer = InvalidCredentials) \<and>
    (attempts_on (normalize_email mail) es < 10 \<and> right_password env (normalize_email mail) m pw \<longrightarrow>
       (\<exists>u token. answer = AuthSuccess u token) \<or> (\<exists>i. answer = MfaRequired i))"
proof -
  let ?key = "normalize_email mail"
  from attempts_run [OF assms(1,2), of t0] assms(3,4,5)
  have run: "counted ?key t0 (attempts_on ?key es) m'"
    "length (failed_attempts m') \<le> length (failed_attempts m) + length es"
    "email_index m' = email_index m" "\<And>i. credentials m' i = credentials m i"
    by auto
  have enabled: "all_wrong env ?key m []" using assms(2) all_wrong_append [of env ?key m "[]" es] by simp
  note same = all_wrong_cong [OF run(3,4)]
  have right: "right_password env ?key m' pw = right_password env ?key m pw"
    by (simp add: right_password_def run(3,4))
  have small: "length (failed_attempts m') < failed_attempts_max_entries"
    using run(2) assms(3) by simp
  have window: "t0 \<le> now" "now < t0 + lockout_window_secs" using assms(4) by simp_all
  show ?thesis
  proof (intro conjI impI)
    assume "10 \<le> attempts_on ?key es"
    then have "\<not> attempts_on ?key es < max_failed_attempts" by (simp add: max_failed_attempts_def)
    from attempt_locked [OF run(1) window(2) this refl, of env w pw]
    show "fst (authenticate env now w mail pw m') = m'" "\<exists>r. answer = LockedOut r"
      by (auto simp: assms(6))
  next
    assume few: "attempts_on ?key es < 10 \<and> \<not> right_password env ?key m pw"
    then have "all_wrong env ?key m [(now, w, mail, pw)]"
      using enabled by (auto simp: all_wrong_def right_password_def)
    with wrong_attempt [OF run(1) window _ refl small, of env w pw] few show "answer = InvalidCredentials"
      by (simp add: same assms(6) max_failed_attempts_def)
  next
    assume few: "attempts_on ?key es < 10 \<and> right_password env ?key m pw"
    then have "attempts_on ?key es < max_failed_attempts" by (simp add: max_failed_attempts_def)
    from right_attempt [OF run(1) this, of env pw mail now w] enabled few right
    show "(\<exists>u token. answer = AuthSuccess u token) \<or> (\<exists>i. answer = MfaRequired i)"
      by (simp add: same assms(6))
  qed
qed

section \<open>Witnesses\<close>

text \<open>An environment for examples: the "hash" is the password behind the Argon2 marker.\<close>

definition demo_id_env :: id_env where
  "demo_id_env = \<lparr>argon2_hash = (\<lambda>p. ''$argon2'' @ p), argon2_verify = (\<lambda>p s. s = ''$argon2'' @ p),
     hmac_sha1 = (\<lambda>k msg. replicate 20 0), perms_to_json = (\<lambda>_. ''[]''),
     perms_of_json = (\<lambda>_. Some [])\<rparr>"

definition demo_users :: user_mgr where
  "demo_users = user_new\<lparr>email_index := [(''a@x'', ''u1'')],
     users := [(''u1'', \<lparr>uid = ''u1'', email = ''a@x'', username = ''a'', password_hash = ''$argon2pw'',
       role = Viewer, permissions = [], u_created_at = 0, last_login = 0, login_count = 0,
       u_enabled = True, mfa_enabled = False, mfa_secret = None\<rparr>)]\<rparr>"

lemma demo_mail: "normalize_email ''a@x'' = ''a@x''"
proof -
  have "trim ''a@x'' = ''a@x''" by (rule trim_noop, code_simp)
  then show ?thesis by (simp add: normalize_email_def to_ascii_lowercase_def ascii_lower_def)
qed

lemma demo_wrong: "all_wrong demo_id_env ''a@x'' demo_users (replicate k (5, w, ''a@x'', ''bad''))"
  by (auto simp: all_wrong_def demo_users_def credentials_def verify_password_def demo_id_env_def)

theorem lockout_exact_witness:
  "\<exists>r. snd (authenticate demo_id_env 5 ''w'' ''a@x'' ''pw''
       (fold (auth_step demo_id_env) (replicate 12 (5, ''w'', ''a@x'', ''bad'')) demo_users)) = LockedOut r"
proof -
  have n: "attempts_on ''a@x'' (replicate 12 (5, ''w'', ''a@x'', ''bad'')) = 12"
    by (simp add: attempts_on_def demo_mail)
  have "failed_attempts demo_users = []" by (simp add: demo_users_def user_new_def)
  then show ?thesis
    using lockout_exact [of demo_users "''a@x''" demo_id_env "replicate 12 (5, ''w'', ''a@x'', ''bad'')"
        5 "''w''" "''pw''" 0, OF _ _ _ _ refl refl]
    unfolding demo_mail n
    by (simp add: demo_wrong failed_attempts_max_entries_def lockout_window_secs_def)
qed

end
