(* ===== verification/Authenticator.thy ===== *)
theory Authenticator
  imports Users Sessions
begin

text \<open>
  src/src/identity/authenticator.rs: login as one step over the user and the session
  manager. What the facade needs of the sessions is the locale \<open>session_backend\<close>; the
  session manager is shown to provide it.
\<close>

record authenticator =
  auth_users :: user_mgr
  auth_sessions :: session_mgr
  session_ttl_secs :: nat

datatype auth_outcome =
    LoginSuccess string string session
  | NeedsMfa string
  | LoginDisabled
  | LoginLocked nat
  | LoginInvalid

definition auth_new :: "user_mgr \<Rightarrow> session_mgr \<Rightarrow> authenticator" where
  "auth_new us ss = \<lparr>auth_users = us, auth_sessions = ss, session_ttl_secs = 86400\<rparr>"

definition with_session_ttl :: "nat \<Rightarrow> authenticator \<Rightarrow> authenticator" where
  "with_session_ttl secs a = a\<lparr>session_ttl_secs := max secs 60\<rparr>"

text \<open>The success branch of both flows.\<close>

definition grant_session ::
  "(string \<Rightarrow> string) \<Rightarrow> nat \<Rightarrow> nat \<Rightarrow> string \<Rightarrow> string \<Rightarrow> user \<Rightarrow> string \<Rightarrow> authenticator \<Rightarrow>
     authenticator \<times> auth_outcome" where
  "grant_session hsh now now2 ip ua u token a =
     (let (ss, session) = sess_create hsh now now2 (uid u) token ip ua (session_ttl_secs a) (auth_sessions a)
      in (a\<lparr>auth_sessions := ss\<rparr>, LoginSuccess (uid u) (email u) session))"

definition auth_login ::
  "id_env \<Rightarrow> (string \<Rightarrow> string) \<Rightarrow> nat \<Rightarrow> nat \<Rightarrow> string \<Rightarrow> string \<Rightarrow> string \<Rightarrow> string \<Rightarrow> string \<Rightarrow>
     authenticator \<Rightarrow> authenticator \<times> auth_outcome" where
  "auth_login env hsh now now2 w mail password ip ua a =
     (let (us, r) = authenticate env now w mail password (auth_users a);
          a1 = a\<lparr>auth_users := us\<rparr>
      in case r of
           AuthSuccess u token \<Rightarrow> grant_session hsh now now2 ip ua u token a1
         | MfaRequired user_id \<Rightarrow> (a1, NeedsMfa user_id)
         | AccountDisabled \<Rightarrow> (a1, LoginDisabled)
         | LockedOut retry \<Rightarrow> (a1, LoginLocked retry)
         | InvalidCredentials \<Rightarrow> (a1, LoginInvalid))"

definition auth_complete_mfa ::
  "id_env \<Rightarrow> (string \<Rightarrow> string) \<Rightarrow> nat \<Rightarrow> nat \<Rightarrow> string \<Rightarrow> string \<Rightarrow> string \<Rightarrow> string \<Rightarrow> string \<Rightarrow>
     authenticator \<Rightarrow> authenticator \<times> auth_outcome" where
  "auth_complete_mfa env hsh now now2 w user_id code ip ua a =
     (let (us, r) = complete_mfa_login env now w user_id code (auth_users a);
          a1 = a\<lparr>auth_users := us\<rparr>
      in case r of
           AuthSuccess u token \<Rightarrow> grant_session hsh now now2 ip ua u token a1
         | AccountDisabled \<Rightarrow> (a1, LoginDisabled)
         | _ \<Rightarrow> (a1, LoginInvalid))"

section \<open>The interface of the sessions\<close>

locale session_backend =
  fixes create :: "nat \<Rightarrow> nat \<Rightarrow> string \<Rightarrow> string \<Rightarrow> string \<Rightarrow> string \<Rightarrow> nat \<Rightarrow> 's \<Rightarrow> 's \<times> session"
    and lookup :: "nat \<Rightarrow> string \<Rightarrow> string \<Rightarrow> 's \<Rightarrow> session option"
  assumes create_session:
      "create now now2 u token ip ua ttl s = (s', se) \<Longrightarrow> sess_token se = token \<and> sess_user se = u"
    and create_lookup:
      "create now now2 u token ip ua ttl s = (s', se) \<Longrightarrow> now + ttl \<le> u64_max \<Longrightarrow> t \<le> now + ttl \<Longrightarrow>
       map_option sess_user (lookup t token ip s') = Some u"
begin

lemma issued_token_works:
  assumes "create now now2 u token ip ua ttl s = (s', se)" "now + ttl \<le> u64_max" "t \<le> now + ttl"
  shows "\<exists>se'. lookup t (sess_token se) ip s' = Some se' \<and> sess_user se' = u"
  using create_session [OF assms(1)] create_lookup [OF assms] by auto

end

lemma created_lookup:
  assumes "sess_create hsh now now2 u token ip ua ttl s = (s', se)" "now + ttl \<le> u64_max" "t \<le> now + ttl"
  shows "map_option sess_user (snd (validate_with_request hsh t token (Some ip) None s')) = Some u"
proof -
  let ?c = "sess_create hsh now now2 u token ip ua ttl s"
  have s': "s' = fst ?c" using assms(1) by simp
  show ?thesis
    using assms(2,3) by (simp add: s' validate_result create_effect(1) ip_mismatch_def wrap_add64_exact)
qed

interpretation sb: session_backend "sess_create hsh"
  "\<lambda>t token ip s. snd (validate_with_request hsh t token (Some ip) None s)"
proof
  fix now now2 u token ip ua ttl s s' se t
  assume c: "sess_create hsh now now2 u token ip ua ttl s = (s', se)"
  then have "se = snd (sess_create hsh now now2 u token ip ua ttl s)" by simp
  then show "sess_token se = token \<and> sess_user se = u" by simp
  assume "now + ttl \<le> u64_max" "t \<le> now + ttl"
  with c show "map_option sess_user (snd (validate_with_request hsh t token (Some ip) None s')) = Some u"
    by (rule created_lookup)
qed

text \<open>Either flow reports success only through \<open>grant_session\<close>.\<close>

lemma login_cases:
  assumes "auth_login env hsh now now2 w mail pw ip ua a = (a', LoginSuccess i m s)"
  obtains us u token where "authenticate env now w mail pw (auth_users a) = (us, AuthSuccess u token)"
    "grant_session hsh now now2 ip ua u token (a\<lparr>auth_users := us\<rparr>) = (a', LoginSuccess i m s)"
  using assms by (auto simp: auth_login_def Let_def split: prod.splits auth_result.splits)

lemma mfa_cases:
  assumes "auth_complete_mfa env hsh now now2 w user_id code ip ua a = (a', LoginSuccess i m s)"
  obtains us u token where
    "complete_mfa_login env now w user_id code (auth_users a) = (us, AuthSuccess u token)"
    "grant_session hsh now now2 ip ua u token (a\<lparr>auth_users := us\<rparr>) = (a', LoginSuccess i m s)"
  using assms by (auto simp: auth_complete_mfa_def Let_def split: prod.splits auth_result.splits)

lemma granted_valid:
  assumes "grant_session hsh now now2 ip ua u token a = (a', LoginSuccess i m s)"
    and "now + session_ttl_secs a \<le> u64_max" "t \<le> now + session_ttl_secs a"
  shows "\<exists>s'. snd (validate_with_request hsh t (sess_token s) (Some ip) None (auth_sessions a')) = Some s' \<and>
    sess_user s' = i"
proof -
  let ?c = "sess_create hsh now now2 (uid u) token ip ua (session_ttl_secs a) (auth_sessions a)"
  have c: "?c = (auth_sessions a', s)" and i: "i = uid u"
    using assms(1) by (auto simp: grant_session_def Let_def case_prod_unfold)
  show ?thesis unfolding i by (rule sb.issued_token_works [OF c assms(2,3)])
qed

text \<open>
  A token the client receives works. When login or the second step of an MFA login
  reports success, the token of the returned session validates, for the user it reports and
  from the address of the login, at every moment until the session's lifetime is over.
\<close>

theorem login_session_valid:
  assumes "auth_login env hsh now now2 w mail pw ip ua a = (a', LoginSuccess i m s) \<or>
      auth_complete_mfa env hsh now now2 w user_id code ip ua a = (a', LoginSuccess i m s)"
    and "now + session_ttl_secs a \<le> u64_max" "t \<le> now + session_ttl_secs a"
  shows "\<exists>s'. snd (validate_with_request hsh t (sess_token s) (Some ip) None (auth_sessions a')) = Some s' \<and>
    sess_user s' = i"
  using assms(1)
proof
  assume "auth_login env hsh now now2 w mail pw ip ua a = (a', LoginSuccess i m s)"
  then show ?thesis
    by (rule login_cases) (rule granted_valid, assumption, use assms(2,3) in simp_all)
next
  assume "auth_complete_mfa env hsh now now2 w user_id code ip ua a = (a', LoginSuccess i m s)"
  then show ?thesis
    by (rule mfa_cases) (rule granted_valid, assumption, use assms(2,3) in simp_all)
qed

definition demo_auth :: authenticator where
  "demo_auth = auth_new demo_users (sess_new 5)"

theorem login_session_valid_witness:
  "\<exists>a' m s s'. auth_login demo_id_env (\<lambda>t. t) 100 100 ''w'' ''a@x'' ''pw'' ''1.2.3.4'' ''curl'' demo_auth =
       (a', LoginSuccess ''u1'' m s) \<and>
     snd (validate_with_request (\<lambda>t. t) 500 (sess_token s) (Some ''1.2.3.4'') None (auth_sessions a')) = Some s'"
proof -
  have ok: "snd (authenticate demo_id_env 100 ''w'' ''a@x'' ''pw'' demo_users) =
      AuthSuccess (the (dm_get (users demo_users) ''u1'')\<lparr>last_login := 100, login_count := 1\<rparr>) (fresh_token ''w'')"
    by (simp add: authenticate_result demo_mail account_def demo_users_def lockout_check_def user_new_def
        verify_password_def demo_id_env_def wrap_add64_def u64_max_def)
  have u: "uid (the (dm_get (users demo_users) ''u1'')) = ''u1''" by (simp add: demo_users_def)
  obtain a' m s where login: "auth_login demo_id_env (\<lambda>t. t) 100 100 ''w'' ''a@x'' ''pw'' ''1.2.3.4'' ''curl''
      demo_auth = (a', LoginSuccess ''u1'' m s)"
    using ok u by (simp add: auth_login_def demo_auth_def auth_new_def case_prod_unfold Let_def grant_session_def)
  have "session_ttl_secs demo_auth = 86400" by (simp add: demo_auth_def auth_new_def)
  with login_session_valid [OF disjI1 [OF login], of 500] login show ?thesis
    by (auto simp: u64_max_def)
qed

end
