(* ===== verification/Registry.thy ===== *)
theory Registry
  imports Interfaces
begin

text \<open>
  src/src/registry/mod.rs and src/src/registry/models.rs: the service registry. The map is a
  \<open>DashMap\<close> by identifier; fresh identifiers and the time of registration are arguments. With
  a database (\<open>reg_storage\<close> is \<open>Some\<close>) the calls to the storage are logged in order.
\<close>

section \<open>Entries\<close>

datatype service_status = Up | Down | Unknown

fun service_status_fmt :: "service_status \<Rightarrow> string" where
  "service_status_fmt Up = ''UP''"
| "service_status_fmt Down = ''DOWN''"
| "service_status_fmt Unknown = ''UNKNOWN''"

record transform_config =
  add_request_headers :: "(string \<times> string) list"
  remove_request_headers :: "string list"
  add_response_headers :: "(string \<times> string) list"
  remove_response_headers :: "string list"

record service_entry =
  svc_id :: uuid
  svc_name :: string
  svc_prefix :: string
  svc_upstream :: string
  health_endpoint :: string
  svc_status :: service_status
  registered_at :: nat
  last_health_check :: "nat option"
  request_count :: nat
  svc_upstreams :: "string list"
  load_balance :: "string option"
  svc_version :: "string option"
  validation_schema :: "string option"
  ip_whitelist :: "string list"
  ip_blacklist :: "string list"
  svc_transform :: "transform_config option"

text \<open>The normal form of a prefix: a leading slash, no trailing ones.\<close>

definition entry_prefix :: "string \<Rightarrow> string" where
  "entry_prefix p = trim_end_matches CHR ''/'' (if prefix ''/'' p then p else CHR ''/'' # p)"

definition service_entry_new ::
  "uuid \<Rightarrow> nat \<Rightarrow> string \<Rightarrow> string \<Rightarrow> string \<Rightarrow> string \<Rightarrow> service_entry" where
  "service_entry_new fresh now name pref upstream health =
     \<lparr>svc_id = fresh, svc_name = name, svc_prefix = entry_prefix pref,
      svc_upstream = trim_end_matches CHR ''/'' upstream, health_endpoint = health,
      svc_status = Unknown, registered_at = now, last_health_check = None, request_count = 0,
      svc_upstreams = [], load_balance = None, svc_version = None, validation_schema = None,
      ip_whitelist = [], ip_blacklist = [], svc_transform = None\<rparr>"

definition all_upstreams :: "service_entry \<Rightarrow> string list" where
  "all_upstreams e =
     foldl (\<lambda>all u. if u \<in> set all then all else all @ [u]) [svc_upstream e] (svc_upstreams e)"

lemma all_upstreams_nonempty [simp]: "all_upstreams e \<noteq> []"
proof -
  have "foldl (\<lambda>all u. if u \<in> set all then all else all @ [u]) acc us \<noteq> []" if "acc \<noteq> []" for acc us :: "string list"
    using that by (induction us arbitrary: acc) auto
  then show ?thesis by (simp add: all_upstreams_def)
qed

text \<open>A registration request; a service of the configuration file has the same fields.\<close>

record register_request =
  req_name :: string
  req_prefix :: string
  req_upstream :: string
  req_health :: string
  req_upstreams :: "string list"
  req_load_balance :: "string option"
  req_version :: "string option"
  req_schema :: "string option"
  req_whitelist :: "string list"
  req_blacklist :: "string list"
  req_transform :: "transform_config option"

section \<open>The registry\<close>

datatype storage_call =
    SaveService service_entry
  | RemoveService uuid
  | LogEvent string uuid string
  | UpdateRequestCount uuid nat

record registry =
  services :: "(uuid, service_entry) dashmap"
  reg_storage :: "storage_call list option"

definition registry_new :: registry where
  "registry_new = \<lparr>services = [], reg_storage = None\<rparr>"

definition reg_call :: "storage_call \<Rightarrow> registry \<Rightarrow> registry" where
  "reg_call c r = r\<lparr>reg_storage := map_option (\<lambda>log. log @ [c]) (reg_storage r)\<rparr>"

text \<open>The rows the storage loads; a failed query loads nothing.\<close>

definition registry_with_storage :: "service_entry list \<Rightarrow> registry" where
  "registry_with_storage rows =
     \<lparr>services = fold (\<lambda>e m. dm_insert (svc_id e) e m) rows [], reg_storage = Some []\<rparr>"

definition find_prefix_key :: "string \<Rightarrow> string" where
  "find_prefix_key p =
     (if prefix ''/'' p then trim_end_matches CHR ''/'' p
      else CHR ''/'' # trim_end_matches CHR ''/'' p)"

definition find_by_prefix :: "string \<Rightarrow> registry \<Rightarrow> service_entry option" where
  "find_by_prefix p r =
     map_option snd (find (\<lambda>(i, e). svc_prefix e = find_prefix_key p) (services r))"

text \<open>The entry of an advanced request or of a configured service.\<close>

definition request_entry :: "uuid \<Rightarrow> nat \<Rightarrow> register_request \<Rightarrow> service_entry" where
  "request_entry fresh now req =
     (service_entry_new fresh now (req_name req) (req_prefix req) (req_upstream req) (req_health req))
       \<lparr>svc_upstreams := req_upstreams req, load_balance := req_load_balance req,
        svc_version := req_version req, validation_schema := req_schema req,
        ip_whitelist := req_whitelist req, ip_blacklist := req_blacklist req,
        svc_transform := req_transform req\<rparr>"

definition load_config_one :: "nat \<Rightarrow> uuid \<times> register_request \<Rightarrow> registry \<Rightarrow> registry" where
  "load_config_one now = (\<lambda>(fresh, svc) r.
     if find_by_prefix (req_prefix svc) r \<noteq> None then r
     else (let e = request_entry fresh now svc; r1 = reg_call (SaveService e) r in
           r1\<lparr>services := dm_insert (svc_id e) e (services r1)\<rparr>))"

definition load_from_config :: "nat \<Rightarrow> (uuid \<times> register_request) list \<Rightarrow> registry \<Rightarrow> registry" where
  "load_from_config now svcs r = fold (load_config_one now) svcs r"

text \<open>Both forms of registration replace an entry of the same prefix.\<close>

definition replace_prefix :: "string \<Rightarrow> registry \<Rightarrow> registry" where
  "replace_prefix p r =
     (case find_by_prefix p r of
        Some existing \<Rightarrow>
          reg_call (RemoveService (svc_id existing))
            (r\<lparr>services := dm_remove (svc_id existing) (services r)\<rparr>)
      | None \<Rightarrow> r)"

definition add_entry :: "service_entry \<Rightarrow> registry \<Rightarrow> registry" where
  "add_entry e r =
     (let r1 = reg_call (LogEvent ''service_registered'' (svc_id e) (svc_name e))
                 (reg_call (SaveService e) r)
      in r1\<lparr>services := dm_insert (svc_id e) e (services r1)\<rparr>)"

definition reg_register ::
  "uuid \<Rightarrow> nat \<Rightarrow> string \<Rightarrow> string \<Rightarrow> string \<Rightarrow> string \<Rightarrow> registry \<Rightarrow> registry \<times> service_entry" where
  "reg_register fresh now name pref upstream health r =
     (let r1 = replace_prefix pref r; e = service_entry_new fresh now name pref upstream health
      in (add_entry e r1, e))"

definition register_advanced ::
  "uuid \<Rightarrow> nat \<Rightarrow> register_request \<Rightarrow> registry \<Rightarrow> registry \<times> service_entry" where
  "register_advanced fresh now req r =
     (let r1 = replace_prefix (req_prefix req) r; e = request_entry fresh now req
      in (add_entry e r1, e))"

definition unregister :: "uuid \<Rightarrow> registry \<Rightarrow> registry \<times> service_entry option" where
  "unregister i r =
     (case dm_get (services r) i of
        None \<Rightarrow> (r, None)
      | Some e \<Rightarrow>
          (reg_call (LogEvent ''service_unregistered'' (svc_id e) (svc_name e))
             (reg_call (RemoveService (svc_id e)) (r\<lparr>services := dm_remove i (services r)\<rparr>)), Some e))"

section \<open>Lookup\<close>

definition path_matches :: "string \<Rightarrow> service_entry \<Rightarrow> bool" where
  "path_matches path e \<longleftrightarrow> path = svc_prefix e \<or> prefix (svc_prefix e @ ''/'') path"

fun lookup_loop :: "string \<Rightarrow> service_entry list \<Rightarrow> nat \<Rightarrow> service_entry option \<Rightarrow> service_entry option" where
  "lookup_loop path [] best_len best_match = best_match"
| "lookup_loop path (e # es) best_len best_match =
     (if path_matches path e \<and> best_len < length (svc_prefix e)
      then lookup_loop path es (length (svc_prefix e)) (Some e)
      else lookup_loop path es best_len best_match)"

definition reg_lookup :: "string \<Rightarrow> registry \<Rightarrow> service_entry option" where
  "reg_lookup path r = lookup_loop path (map snd (services r)) 0 None"

section \<open>Updates and counts\<close>

definition list_all_services :: "registry \<Rightarrow> service_entry list" where
  "list_all_services r = map snd (services r)"

definition update_status :: "nat \<Rightarrow> uuid \<Rightarrow> service_status \<Rightarrow> registry \<Rightarrow> registry" where
  "update_status now i st r =
     r\<lparr>services := dm_update i (\<lambda>e. e\<lparr>svc_status := st, last_health_check := Some now\<rparr>) (services r)\<rparr>"

definition set_upstreams :: "uuid \<Rightarrow> string list \<Rightarrow> registry \<Rightarrow> registry \<times> bool" where
  "set_upstreams i us r =
     (r\<lparr>services := dm_update i (\<lambda>e. e\<lparr>svc_upstreams := us\<rparr>) (services r)\<rparr>,
      dm_get (services r) i \<noteq> None)"

definition increment_request_count :: "uuid \<Rightarrow> registry \<Rightarrow> registry" where
  "increment_request_count i r =
     (case dm_get (services r) i of
        None \<Rightarrow> r
      | Some e \<Rightarrow>
          (let n = wrap_add64 (request_count e) 1;
               r1 = r\<lparr>services := dm_update i (\<lambda>e. e\<lparr>request_count := n\<rparr>) (services r)\<rparr>
           in if n mod 100 = 0 then reg_call (UpdateRequestCount (svc_id e) n) r1 else r1))"

definition total_requests :: "registry \<Rightarrow> nat" where
  "total_requests r = sum_list (map request_count (map snd (services r)))"

definition count_by_status :: "service_status \<Rightarrow> registry \<Rightarrow> nat" where
  "count_by_status st r = length (filter (\<lambda>e. svc_status e = st) (map snd (services r)))"

definition reg_count :: "registry \<Rightarrow> nat" where
  "reg_count r = length (services r)"

section \<open>The prefix a lookup returns\<close>

lemma lookup_loop_spec:
  "lookup_loop path es n b = Some e \<Longrightarrow>
     (b = Some e \<and> (\<forall>x \<in> set es. path_matches path x \<longrightarrow> length (svc_prefix x) \<le> n)) \<or>
     (e \<in> set es \<and> path_matches path e \<and> n < length (svc_prefix e) \<and>
      (\<forall>x \<in> set es. path_matches path x \<longrightarrow> length (svc_prefix x) \<le> length (svc_prefix e)))"
  by (induction path es n b rule: lookup_loop.induct) (fastforce split: if_splits)+

lemma lookup_loop_None:
  "lookup_loop path es n b = None \<longleftrightarrow>
     b = None \<and> (\<forall>x \<in> set es. path_matches path x \<longrightarrow> length (svc_prefix x) \<le> n)"
  by (induction path es n b rule: lookup_loop.induct) (auto split: if_splits)

text \<open>Two matching prefixes of the same length are the same.\<close>

lemma path_matches_prefix: "path_matches path e \<Longrightarrow> prefix (svc_prefix e) path"
  by (auto simp: path_matches_def prefix_def)

lemma same_length_same_prefix:
  assumes "path_matches path e" "path_matches path x" "length (svc_prefix e) = length (svc_prefix x)"
  shows "svc_prefix e = svc_prefix x"
proof -
  obtain u where "path = svc_prefix e @ u" using path_matches_prefix [OF assms(1)] by (auto simp: prefix_def)
  moreover obtain v where "path = svc_prefix x @ v"
    using path_matches_prefix [OF assms(2)] by (auto simp: prefix_def)
  ultimately show ?thesis using assms(3) by (metis append_eq_append_conv)
qed


text \<open>
  C12: Routing is longest-prefix matching on path segments. A lookup returns an entry exactly
  when some registered entry with a non-empty prefix matches the path (the prefix is the
  path, or the path continues with a slash), and then one that matches with the longest
  prefix of all. An entry registered under the root prefix is never returned.
\<close>

theorem lookup_longest_prefix:
  "(case reg_lookup path r of
      Some e \<Rightarrow> e \<in> set (list_all_services r) \<and> path_matches path e \<and> svc_prefix e \<noteq> [] \<and>
        (\<forall>x \<in> set (list_all_services r). path_matches path x \<longrightarrow> length (svc_prefix x) \<le> length (svc_prefix e))
    | None \<Rightarrow> \<forall>x \<in> set (list_all_services r). path_matches path x \<longrightarrow> svc_prefix x = [])"
proof (cases "reg_lookup path r")
  case None
  then have "\<forall>x \<in> set (list_all_services r). path_matches path x \<longrightarrow> svc_prefix x = []"
    by (simp add: reg_lookup_def lookup_loop_None list_all_services_def)
  with None show ?thesis by simp
next
  case (Some e)
  then show ?thesis
    using lookup_loop_spec [of path "map snd (services r)" 0 None e]
    by (auto simp: reg_lookup_def list_all_services_def)
qed

section \<open>One entry per prefix\<close>

definition reg_wf :: "registry \<Rightarrow> bool" where
  "reg_wf r \<longleftrightarrow> dm_wf (services r) \<and> (\<forall>(i, e) \<in> set (services r). svc_id e = i) \<and>
     distinct (map (svc_prefix \<circ> snd) (services r))"

lemma find_prefix_key_eq:
  assumes "p \<noteq> []"
  shows "find_prefix_key p = entry_prefix p"
proof (cases "prefix ''/'' p")
  case False
  then obtain c q where p: "p = c # q" "c \<noteq> CHR ''/''" using assms by (cases p) auto
  then show ?thesis
    using False by (simp add: find_prefix_key_def entry_prefix_def trim_end_matches_def
        dropWhile_append1 dropWhile_append3)
qed (simp add: find_prefix_key_def entry_prefix_def)

lemma find_by_prefix_None:
  "find_by_prefix p r = None \<longleftrightarrow> find_prefix_key p \<notin> svc_prefix ` set (list_all_services r)"
  by (simp add: find_by_prefix_def find_None_iff list_all_services_def) force

lemma find_by_prefix_Some:
  assumes "find_by_prefix p r = Some e"
  shows "\<exists>i. (i, e) \<in> set (services r) \<and> svc_prefix e = find_prefix_key p"
  using assms by (auto simp: find_by_prefix_def find_Some_iff in_set_conv_nth) metis

lemma distinct_filter_prefixes:
  "distinct (map (f \<circ> snd) s) \<Longrightarrow> distinct (map (f \<circ> snd) (filter P s))"
  by (induction s) auto

lemma reg_call_frame [simp]: "services (reg_call c r) = services r"
  by (simp add: reg_call_def)

lemma replace_prefix_wf:
  assumes "reg_wf r"
  shows "reg_wf (replace_prefix p r)"
    and "find_prefix_key p \<notin> svc_prefix ` set (list_all_services (replace_prefix p r))"
proof -
  have "reg_wf (replace_prefix p r) \<and>
      find_prefix_key p \<notin> svc_prefix ` set (list_all_services (replace_prefix p r))"
  proof (cases "find_by_prefix p r")
    case None
    then show ?thesis using assms find_by_prefix_None [of p r] by (simp add: replace_prefix_def)
  next
    case (Some e)
    then obtain i where i: "(i, e) \<in> set (services r)" "svc_prefix e = find_prefix_key p"
      using find_by_prefix_Some by blast
    have d: "distinct (map (\<lambda>(i, e). svc_prefix e) (services r))"
      using assms by (simp add: reg_wf_def comp_def case_prod_unfold)
    have id: "svc_id e = i" using assms i(1) by (auto simp: reg_wf_def)
    have "\<forall>(j, x) \<in> set (services r). j \<noteq> i \<longrightarrow> svc_prefix x \<noteq> find_prefix_key p"
      using d i unfolding distinct_map inj_on_def by fastforce
    moreover have "reg_wf (replace_prefix p r)"
      using assms Some
      by (auto simp: reg_wf_def replace_prefix_def dashmap_simps list_all_services_def dm_remove_def
          distinct_filter_prefixes distinct_filter_fst)
    ultimately show ?thesis
      using Some id by (auto simp: replace_prefix_def list_all_services_def dm_remove_def)
  qed
  then show "reg_wf (replace_prefix p r)"
    "find_prefix_key p \<notin> svc_prefix ` set (list_all_services (replace_prefix p r))" by auto
qed

lemma prefixes_insert:
  assumes "distinct (map (f \<circ> snd) s)" "f e \<notin> f ` snd ` set s"
  shows "distinct (map (f \<circ> snd) (dm_insert i e s))"
proof -
  have sub: "f ` snd ` set (dm_insert i e s) \<subseteq> insert (f e) (f ` snd ` set s)" for s
    by (induction i e s rule: dm_insert.induct) auto
  from assms show ?thesis
  proof (induction s)
    case (Cons x s)
    then show ?case using sub [of s] by (cases x) (auto simp: image_comp)
  qed simp
qed

lemma set_insert_subset: "set (dm_insert i e s) \<subseteq> insert (i, e) (set s)"
  by (induction i e s rule: dm_insert.induct) auto

lemma insert_entry_wf:
  assumes "reg_wf r" "svc_prefix e \<notin> svc_prefix ` set (list_all_services r)"
  shows "reg_wf (r\<lparr>services := dm_insert (svc_id e) e (services r)\<rparr>)"
  using assms set_insert_subset [of "svc_id e" e "services r"]
  by (auto simp: reg_wf_def dashmap_simps list_all_services_def intro!: prefixes_insert)

lemma reg_call_wf [simp]: "reg_wf (reg_call c r) = reg_wf r"
  by (simp add: reg_wf_def list_all_services_def)

lemma add_entry_wf:
  "reg_wf r \<Longrightarrow> svc_prefix e \<notin> svc_prefix ` set (list_all_services r) \<Longrightarrow> reg_wf (add_entry e r)"
  using insert_entry_wf [of "reg_call (LogEvent ''service_registered'' (svc_id e) (svc_name e))
      (reg_call (SaveService e) r)" e]
  by (simp add: add_entry_def Let_def list_all_services_def)

text \<open>Updates keep the prefixes and the identifiers.\<close>

lemma update_wf:
  assumes "reg_wf r" "\<And>e. svc_prefix (f e) = svc_prefix e" "\<And>e. svc_id (f e) = svc_id e"
  shows "reg_wf (r\<lparr>services := dm_update i f (services r)\<rparr>)"
proof -
  have "map (svc_prefix \<circ> snd) (dm_update i f s) = map (svc_prefix \<circ> snd) s" for s
    using assms(2) by (simp add: dm_update_def case_prod_unfold)
  moreover have "\<forall>(j, e) \<in> set (dm_update i f (services r)). svc_id e = j"
    using assms(1,3) by (auto simp: dm_update_def reg_wf_def)
  ultimately show ?thesis using assms(1) by (simp add: reg_wf_def dashmap_simps)
qed

datatype reg_event =
    RegRegister uuid nat string string string string
  | RegAdvanced uuid nat register_request
  | RegConfig nat "(uuid \<times> register_request) list"
  | RegUnregister uuid
  | RegStatus nat uuid service_status
  | RegUpstreams uuid "string list"
  | RegCount uuid

fun reg_step :: "reg_event \<Rightarrow> registry \<Rightarrow> registry" where
  "reg_step (RegRegister i now name p up h) r = fst (reg_register i now name p up h r)"
| "reg_step (RegAdvanced i now req) r = fst (register_advanced i now req r)"
| "reg_step (RegConfig now svcs) r = load_from_config now svcs r"
| "reg_step (RegUnregister i) r = fst (unregister i r)"
| "reg_step (RegStatus now i st) r = update_status now i st r"
| "reg_step (RegUpstreams i us) r = fst (set_upstreams i us r)"
| "reg_step (RegCount i) r = increment_request_count i r"

fun reg_prefixes :: "reg_event \<Rightarrow> string list" where
  "reg_prefixes (RegRegister i now name p up h) = [p]"
| "reg_prefixes (RegAdvanced i now req) = [req_prefix req]"
| "reg_prefixes (RegConfig now svcs) = map (\<lambda>(i, svc). req_prefix svc) svcs"
| "reg_prefixes _ = []"

lemma new_entry_prefix [simp]:
  "svc_prefix (service_entry_new i now n p u h) = entry_prefix p"
  "svc_prefix (request_entry i now req) = entry_prefix (req_prefix req)"
  by (simp_all add: service_entry_new_def request_entry_def)

lemma load_config_wf:
  "reg_wf r \<Longrightarrow> \<forall>(i, svc) \<in> set svcs. req_prefix svc \<noteq> [] \<Longrightarrow> reg_wf (load_from_config now svcs r)"
proof (induction svcs arbitrary: r)
  case (Cons c svcs)
  obtain i svc where c: "c = (i, svc)" by (cases c)
  have "reg_wf (load_config_one now c r)"
  proof (cases "find_by_prefix (req_prefix svc) r")
    case None
    let ?e = "request_entry i now svc"
    have "svc_prefix ?e \<notin> svc_prefix ` set (list_all_services r)"
      using None Cons.prems(2) find_prefix_key_eq [of "req_prefix svc"]
      by (auto simp: find_by_prefix_None c)
    then have "reg_wf ((reg_call (SaveService ?e) r)\<lparr>services := dm_insert (svc_id ?e) ?e (services r)\<rparr>)"
      using insert_entry_wf [of "reg_call (SaveService ?e) r" ?e] Cons.prems(1)
      by (simp add: list_all_services_def)
    then show ?thesis using None by (simp add: load_config_one_def c Let_def)
  next
    case (Some e)
    then show ?thesis using Cons.prems(1) by (simp add: load_config_one_def c)
  qed
  then show ?case using Cons by (simp add: load_from_config_def)
qed (simp add: load_from_config_def)

lemma reg_step_wf:
  assumes "reg_wf r" "[] \<notin> set (reg_prefixes e)"
  shows "reg_wf (reg_step e r)"
proof (cases e)
  case (RegRegister i now n p u h)
  then show ?thesis
    using assms replace_prefix_wf [OF assms(1), of p] find_prefix_key_eq [of p]
    by (auto simp: reg_register_def Let_def intro!: add_entry_wf)
next
  case (RegAdvanced i now req)
  then show ?thesis
    using assms replace_prefix_wf [OF assms(1), of "req_prefix req"] find_prefix_key_eq [of "req_prefix req"]
    by (auto simp: register_advanced_def Let_def intro!: add_entry_wf)
next
  case (RegConfig now svcs)
  then show ?thesis using assms load_config_wf [of r svcs now] by force
next
  case (RegUnregister i)
  have "reg_wf (r\<lparr>services := dm_remove i (services r)\<rparr>)"
    using assms(1) by (auto simp: reg_wf_def list_all_services_def dm_remove_def distinct_filter_fst
        distinct_filter_prefixes)
  then show ?thesis using assms(1) RegUnregister by (simp add: unregister_def split: option.split)
next
  case (RegStatus now i st)
  then show ?thesis using update_wf [OF assms(1)] by (simp add: update_status_def)
next
  case (RegUpstreams i us)
  then show ?thesis using update_wf [OF assms(1)] by (simp add: set_upstreams_def)
next
  case (RegCount i)
  then show ?thesis
    using update_wf [OF assms(1)] assms(1)
    by (simp add: increment_request_count_def Let_def split: option.split)
qed

lemma reg_run_wf:
  "reg_wf r \<Longrightarrow> \<forall>e \<in> set es. [] \<notin> set (reg_prefixes e) \<Longrightarrow> reg_wf (fold reg_step es r)"
  by (induction es arbitrary: r) (simp_all add: reg_step_wf)

lemma registry_new_wf: "reg_wf registry_new"
  by (simp add: reg_wf_def registry_new_def list_all_services_def)

text \<open>
  Routing does not depend on the iteration order of the map. After any run of
  registrations (simple, advanced, from the configuration), removals and updates in which
  nobody registers the empty string, no two services have the same prefix, and whatever
  order the concurrent map iterates in, a lookup returns the same entry.
\<close>

theorem lookup_deterministic:
  assumes "\<forall>e \<in> set es. [] \<notin> set (reg_prefixes e)"
    and "mset order = mset (services (fold reg_step es registry_new))"
  shows "distinct (map svc_prefix (list_all_services (fold reg_step es registry_new))) \<and>
    reg_lookup path ((fold reg_step es registry_new)\<lparr>services := order\<rparr>) =
      reg_lookup path (fold reg_step es registry_new)"
proof -
  let ?r = "fold reg_step es registry_new"
  have d: "distinct (map (svc_prefix \<circ> snd) (services ?r))"
    using reg_run_wf [OF registry_new_wf assms(1)] by (simp add: reg_wf_def)
  then have inj: "x = y" if "x \<in> snd ` set (services ?r)" "y \<in> snd ` set (services ?r)"
    "svc_prefix x = svc_prefix y" for x y
    using that by (auto simp: distinct_map inj_on_def)
  have set: "set (map snd order) = set (map snd (services ?r))"
    using assms(2) by (metis mset_eq_setD mset_map)
  have "reg_lookup path (?r\<lparr>services := order\<rparr>) = reg_lookup path ?r"
  proof (cases "reg_lookup path ?r")
    case None
    then have "lookup_loop path (map snd order) 0 None = None"
      using set lookup_loop_None [of path "map snd (services ?r)" 0 None]
      by (auto simp: reg_lookup_def lookup_loop_None simp del: set_map)
    then show ?thesis using None by (simp add: reg_lookup_def)
  next
    case (Some e)
    then have e: "e \<in> set (map snd (services ?r))" "path_matches path e"
      "\<forall>x \<in> set (map snd (services ?r)). path_matches path x \<longrightarrow> length (svc_prefix x) \<le> length (svc_prefix e)"
      "0 < length (svc_prefix e)"
      using lookup_loop_spec [of path "map snd (services ?r)" 0 None e] by (auto simp: reg_lookup_def)
    have "reg_lookup path (?r\<lparr>services := order\<rparr>) \<noteq> None"
      using e set lookup_loop_None [of path "map snd order" 0 None]
      by (auto simp: reg_lookup_def)
    then obtain e' where e': "lookup_loop path (map snd order) 0 None = Some e'"
      by (auto simp: reg_lookup_def)
    then have "e' \<in> set (map snd order)" "path_matches path e'"
      "\<forall>x \<in> set (map snd order). path_matches path x \<longrightarrow> length (svc_prefix x) \<le> length (svc_prefix e')"
      using lookup_loop_spec [OF e'] by auto
    note e'_max = this
    have mem: "e' \<in> set (map snd (services ?r))" "e \<in> set (map snd order)"
      using e'_max(1) e(1) unfolding set by blast+
    have "length (svc_prefix e') \<le> length (svc_prefix e)" using e(3) mem(1) e'_max(2) by blast
    moreover have "length (svc_prefix e) \<le> length (svc_prefix e')"
      using e'_max(3) mem(2) e(2) by blast
    ultimately have "svc_prefix e' = svc_prefix e"
      using same_length_same_prefix [OF e'_max(2) e(2)] by simp
    then have "e' = e" using inj mem(1) e(1) by simp
    then show ?thesis using e' Some by (simp add: reg_lookup_def)
  qed
  with d show ?thesis by (simp add: list_all_services_def)
qed

text \<open>
  The empty string is the exception: the search normalises it to \<open>/\<close>, the entry to the empty
  prefix, so a second registration does not replace the first.
\<close>

lemma empty_prefix_duplicates:
  assumes "i \<noteq> j"
  shows "map svc_prefix (list_all_services (fold reg_step
      [RegRegister i 0 a '''' u h, RegRegister j 0 b '''' u h] registry_new)) = [[], []]"
  using assms
  by (simp add: reg_register_def Let_def replace_prefix_def add_entry_def registry_new_def
      find_by_prefix_def find_prefix_key_def service_entry_new_def entry_prefix_def
      trim_end_matches_def list_all_services_def)

definition demo_registry :: registry where
  "demo_registry = fold reg_step
     [RegRegister 1 0 ''api'' ''/api'' ''http://a'' ''/health'',
      RegRegister 2 0 ''users'' ''api/users/'' ''http://b'' ''/health''] registry_new"

lemma demo_registry_services:
  "map svc_prefix (list_all_services demo_registry) = [''/api'', ''/api/users'']"
  by (simp add: demo_registry_def reg_register_def Let_def replace_prefix_def add_entry_def
      registry_new_def find_by_prefix_def find_prefix_key_def service_entry_new_def
      entry_prefix_def trim_end_matches_def list_all_services_def)

theorem lookup_longest_prefix_witness:
  "map_option svc_prefix (reg_lookup ''/api/users/7'' demo_registry) = Some ''/api/users'' \<and>
   reg_lookup ''/apix'' demo_registry = None"
proof -
  obtain a b where s: "list_all_services demo_registry = [a, b]"
    "svc_prefix a = ''/api''" "svc_prefix b = ''/api/users''"
    using demo_registry_services by (auto simp: map_eq_Cons_conv)
  have m: "path_matches ''/api/users/7'' a" "path_matches ''/api/users/7'' b"
    "\<not> path_matches ''/apix'' a" "\<not> path_matches ''/apix'' b"
    by (simp_all add: path_matches_def s(2,3))
  have "map_option svc_prefix (reg_lookup ''/api/users/7'' demo_registry) = Some ''/api/users''"
    using lookup_longest_prefix [of demo_registry "''/api/users/7''"]
    by (cases "reg_lookup ''/api/users/7'' demo_registry") (auto simp: s m)
  moreover have "reg_lookup ''/apix'' demo_registry = None"
    using lookup_longest_prefix [of demo_registry "''/apix''"]
    by (cases "reg_lookup ''/apix'' demo_registry") (auto simp: s(1) m)
  ultimately show ?thesis by simp
qed

theorem lookup_deterministic_witness:
  "reg_lookup ''/api/users/7'' (demo_registry\<lparr>services := rev (services demo_registry)\<rparr>) =
     reg_lookup ''/api/users/7'' demo_registry"
  using lookup_deterministic [of "[RegRegister 1 0 ''api'' ''/api'' ''http://a'' ''/health'',
      RegRegister 2 0 ''users'' ''api/users/'' ''http://b'' ''/health'']" "rev (services demo_registry)"
      "''/api/users/7''"]
  unfolding demo_registry_def by simp

end
