(* ===== verification/Response_Cache.thy ===== *)
theory Response_Cache
  imports Interfaces
begin

text \<open>
  src/src/gateway/cache.rs: the shared response cache. The LRU map of the \<open>lru\<close> crate is a
  parameter: a record of its operations, with \<open>lru_laws\<close> stating what its documentation
  promises of them. Instants are nanoseconds, bodies and headers byte strings.
\<close>

type_synonym headers = "(string \<times> string) list"

record cached_response =
  cr_status :: nat
  cr_headers :: headers
  cr_body :: string
  cached_at :: instant
  vary_on :: "string list"

record ('c, 'v) lru_ops =
  lru_new :: "nat \<Rightarrow> 'c"
  lru_get :: "string \<Rightarrow> 'c \<Rightarrow> 'c \<times> 'v option"
  lru_put :: "string \<Rightarrow> 'v \<Rightarrow> 'c \<Rightarrow> 'c"
  lru_pop :: "string \<Rightarrow> 'c \<Rightarrow> 'c"
  lru_clear :: "'c \<Rightarrow> 'c"

text \<open>
  \<open>view c k\<close> is what a lookup of \<open>k\<close> would return. Reading changes the recency only; inserting
  sets the key and may evict others; removing and clearing do just that.
\<close>

definition lru_laws :: "('c, 'v) lru_ops \<Rightarrow> ('c \<Rightarrow> string \<Rightarrow> 'v option) \<Rightarrow> bool" where
  "lru_laws L view \<longleftrightarrow>
     (\<forall>n k. view (lru_new L n) k = None) \<and>
     (\<forall>c k. snd (lru_get L k c) = view c k \<and> view (fst (lru_get L k c)) = view c) \<and>
     (\<forall>c k v. view (lru_put L k v c) k = Some v) \<and>
     (\<forall>c k v k'. k' \<noteq> k \<longrightarrow> view (lru_put L k v c) k' \<in> {None, view c k'}) \<and>
     (\<forall>c k k'. view (lru_pop L k c) k' = (if k' = k then None else view c k')) \<and>
     (\<forall>c k. view (lru_clear L c) k = None)"

record 'c response_cache =
  rc_cache :: 'c
  rc_ttl_secs :: nat
  rc_enabled :: bool

definition is_expired :: "instant \<Rightarrow> nat \<Rightarrow> cached_response \<Rightarrow> bool" where
  "is_expired now ttl_secs e \<longleftrightarrow> from_secs ttl_secs \<le> now - cached_at e"

definition rc_new :: "('c, 'v) lru_ops \<Rightarrow> nat \<Rightarrow> nat \<Rightarrow> bool \<Rightarrow> 'c response_cache" where
  "rc_new L max_entries ttl_secs enabled =
     \<lparr>rc_cache = lru_new L (max max_entries 1), rc_ttl_secs = ttl_secs, rc_enabled = enabled\<rparr>"

definition rc_clear :: "('c, 'v) lru_ops \<Rightarrow> 'c response_cache \<Rightarrow> 'c response_cache" where
  "rc_clear L rc = rc\<lparr>rc_cache := lru_clear L (rc_cache rc)\<rparr>"

definition rc_set_enabled :: "('c, 'v) lru_ops \<Rightarrow> bool \<Rightarrow> 'c response_cache \<Rightarrow> 'c response_cache" where
  "rc_set_enabled L enabled rc =
     (let rc1 = rc\<lparr>rc_enabled := enabled\<rparr> in if \<not> enabled then rc_clear L rc1 else rc1)"

definition rc_set_ttl_secs :: "nat \<Rightarrow> 'c response_cache \<Rightarrow> 'c response_cache" where
  "rc_set_ttl_secs ttl_secs rc = rc\<lparr>rc_ttl_secs := ttl_secs\<rparr>"

text \<open>The names listed in \<open>Vary\<close>, in lower case and without repetition.\<close>

definition add_vary :: "string \<Rightarrow> string list \<Rightarrow> string list" where
  "add_vary token out =
     (let t = to_ascii_lowercase (trim token) in if t \<noteq> [] \<and> t \<notin> set out then out @ [t] else out)"

definition extract_vary :: "headers \<Rightarrow> string list" where
  "extract_vary hs =
     fold (\<lambda>(k, v) out. if eq_ignore_ascii_case k ''vary'' then fold add_vary (split_on CHR '','' v) out
                        else out) hs []"

definition header_value :: "string \<Rightarrow> headers \<Rightarrow> string" where
  "header_value name hs =
     (case find (\<lambda>(k, _). eq_ignore_ascii_case k name) hs of Some (_, v) \<Rightarrow> v | None \<Rightarrow> [])"

definition compute_vary_etag :: "string list \<Rightarrow> headers \<Rightarrow> string" where
  "compute_vary_etag names hs = join_with ''|'' (map (\<lambda>name. name @ ''='' @ header_value name hs) names)"

definition rc_get ::
  "('c, cached_response) lru_ops \<Rightarrow> instant \<Rightarrow> string \<Rightarrow> headers \<Rightarrow> 'c response_cache \<Rightarrow>
     'c response_cache \<times> (nat \<times> headers \<times> string) option" where
  "rc_get L now key request_headers rc =
     (if \<not> rc_enabled rc then (rc, None)
      else case lru_get L key (rc_cache rc) of
             (c, None) \<Rightarrow> (rc\<lparr>rc_cache := c\<rparr>, None)
           | (c, Some e) \<Rightarrow>
               if is_expired now (rc_ttl_secs rc) e then (rc\<lparr>rc_cache := lru_pop L key c\<rparr>, None)
               else if vary_on e \<noteq> [] \<and>
                       compute_vary_etag (vary_on e) request_headers \<noteq>
                       compute_vary_etag (vary_on e) (cr_headers e)
               then (rc\<lparr>rc_cache := c\<rparr>, None)
               else (rc\<lparr>rc_cache := c\<rparr>, Some (cr_status e, cr_headers e, cr_body e)))"

text \<open>The header loop of \<open>put\<close>: a header that forbids caching.\<close>

definition forbids_caching :: "string \<times> string \<Rightarrow> bool" where
  "forbids_caching = (\<lambda>(k, v).
     (eq_ignore_ascii_case k ''cache-control'' \<and>
        (let lower = to_ascii_lowercase v in
         str_contains lower ''no-store'' \<or> str_contains lower ''private'')) \<or>
     eq_ignore_ascii_case k ''set-cookie'')"

definition rc_put ::
  "('c, cached_response) lru_ops \<Rightarrow> instant \<Rightarrow> string \<Rightarrow> nat \<Rightarrow> headers \<Rightarrow> string \<Rightarrow>
     'c response_cache \<Rightarrow> 'c response_cache" where
  "rc_put L now key status hs body rc =
     (if \<not> rc_enabled rc then rc
      else if \<not> (200 \<le> status \<and> status < 300) then rc
      else (let vary = extract_vary hs in
            if ''*'' \<in> set vary then rc
            else if ''cookie'' \<in> set vary \<or> ''authorization'' \<in> set vary then rc
            else if list_ex forbids_caching hs then rc
            else rc\<lparr>rc_cache := lru_put L key
                      \<lparr>cr_status = status, cr_headers = hs, cr_body = body, cached_at = now,
                       vary_on = vary\<rparr> (rc_cache rc)\<rparr>))"

definition make_key :: "string \<Rightarrow> string \<Rightarrow> string \<Rightarrow> string" where
  "make_key method path query =
     (if query = [] then method @ '':'' @ path else method @ '':'' @ path @ ''?'' @ query)"

section \<open>Runs\<close>

datatype rc_event =
    RcPut instant string nat headers string
  | RcGet instant string headers
  | RcTtl nat
  | RcEnabled bool
  | RcClear

fun rc_step :: "('c, cached_response) lru_ops \<Rightarrow> rc_event \<Rightarrow> 'c response_cache \<Rightarrow> 'c response_cache" where
  "rc_step L (RcPut now key status hs body) rc = rc_put L now key status hs body rc"
| "rc_step L (RcGet now key hs) rc = fst (rc_get L now key hs rc)"
| "rc_step L (RcTtl ttl) rc = rc_set_ttl_secs ttl rc"
| "rc_step L (RcEnabled b) rc = rc_set_enabled L b rc"
| "rc_step L RcClear rc = rc_clear L rc"

text \<open>What may be in a shared cache: a successful response that is nobody's own.\<close>

definition shareable :: "nat \<Rightarrow> headers \<Rightarrow> bool" where
  "shareable status hs \<longleftrightarrow>
     200 \<le> status \<and> status < 300 \<and> set (extract_vary hs) \<inter> {''*'', ''cookie'', ''authorization''} = {} \<and>
     (\<forall>(k, v) \<in> set hs. \<not> eq_ignore_ascii_case k ''set-cookie'' \<and>
        (eq_ignore_ascii_case k ''cache-control'' \<longrightarrow>
           \<not> str_contains (to_ascii_lowercase v) ''no-store'' \<and>
           \<not> str_contains (to_ascii_lowercase v) ''private''))"

definition rc_invar ::
  "('c \<Rightarrow> string \<Rightarrow> cached_response option) \<Rightarrow> rc_event list \<Rightarrow> 'c response_cache \<Rightarrow> bool" where
  "rc_invar view es rc \<longleftrightarrow>
     (\<forall>key e. view (rc_cache rc) key = Some e \<longrightarrow>
        RcPut (cached_at e) key (cr_status e) (cr_headers e) (cr_body e) \<in> set es \<and>
        shareable (cr_status e) (cr_headers e))"

lemma no_forbidden_header:
  "\<not> list_ex forbids_caching hs \<longleftrightarrow>
     (\<forall>(k, v) \<in> set hs. \<not> eq_ignore_ascii_case k ''set-cookie'' \<and>
        (eq_ignore_ascii_case k ''cache-control'' \<longrightarrow>
           \<not> str_contains (to_ascii_lowercase v) ''no-store'' \<and>
           \<not> str_contains (to_ascii_lowercase v) ''private''))"
  by (auto simp: list_ex_iff forbids_caching_def Let_def)

lemma rc_invar_mono:
  "rc_invar view es rc \<Longrightarrow> (\<And>k. view (rc_cache rc') k \<in> {None, view (rc_cache rc) k}) \<Longrightarrow>
   rc_invar view (es @ [e]) rc'"
  unfolding rc_invar_def by (metis UnI1 empty_iff insert_iff option.distinct(1) set_append)

lemma rc_put_invar:
  assumes "lru_laws L view" "rc_invar view es rc"
  shows "rc_invar view (es @ [RcPut now key status hs body]) (rc_put L now key status hs body rc)"
proof (cases "rc_put L now key status hs body rc = rc")
  case True
  then show ?thesis using assms(2) by (auto simp: rc_invar_def)
next
  case False
  let ?e = "\<lparr>cr_status = status, cr_headers = hs, cr_body = body, cached_at = now,
     vary_on = extract_vary hs\<rparr>"
  have put: "rc_put L now key status hs body rc = rc\<lparr>rc_cache := lru_put L key ?e (rc_cache rc)\<rparr>"
    and ok: "shareable status hs"
    using False no_forbidden_header [of hs]
    by (auto simp: rc_put_def Let_def shareable_def split: if_splits)
  have own: "view (lru_put L key ?e (rc_cache rc)) key = Some ?e"
    using assms(1) by (simp add: lru_laws_def)
  have other: "view (lru_put L key ?e (rc_cache rc)) k \<in> {None, view (rc_cache rc) k}" if "k \<noteq> key" for k
    using assms(1) that unfolding lru_laws_def by blast
  show ?thesis
    unfolding put rc_invar_def
  proof (intro allI impI)
    fix k e
    assume e: "view (rc_cache (rc\<lparr>rc_cache := lru_put L key ?e (rc_cache rc)\<rparr>)) k = Some e"
    show "RcPut (cached_at e) k (cr_status e) (cr_headers e) (cr_body e) \<in>
        set (es @ [RcPut now key status hs body]) \<and> shareable (cr_status e) (cr_headers e)"
    proof (cases "k = key")
      case True
      with e own have "e = ?e" by simp
      then show ?thesis using True ok by simp
    next
      case False
      with e other [OF False] have "view (rc_cache rc) k = Some e" by auto
      then show ?thesis using assms(2) by (simp add: rc_invar_def)
    qed
  qed
qed

lemma rc_step_invar:
  assumes "lru_laws L view" "rc_invar view es rc"
  shows "rc_invar view (es @ [e]) (rc_step L e rc)"
proof (cases e)
  case (RcGet now key hs)
  have "view (rc_cache (fst (rc_get L now key hs rc))) k \<in> {None, view (rc_cache rc) k}" for k
    using assms(1) unfolding lru_laws_def
    by (cases "lru_get L key (rc_cache rc)")
      (auto simp: rc_get_def split: option.splits, (metis snd_conv fst_conv)+)
  with RcGet show ?thesis using rc_invar_mono [OF assms(2)] by simp
next
  case (RcPut now key status hs body)
  then show ?thesis using rc_put_invar [OF assms] by simp
next
  case (RcEnabled b)
  then show ?thesis using rc_invar_mono [OF assms(2)] assms(1)
    by (simp add: rc_set_enabled_def rc_clear_def Let_def lru_laws_def)
qed (use rc_invar_mono [OF assms(2)] assms(1) in \<open>simp_all add: rc_set_ttl_secs_def rc_clear_def lru_laws_def\<close>)

lemma rc_run_invar:
  "lru_laws L view \<Longrightarrow> rc_invar view es (fold (rc_step L) es (rc_new L n ttl en))"
proof (induction es rule: rev_induct)
  case Nil
  then show ?case by (simp add: rc_invar_def rc_new_def lru_laws_def)
next
  case (snoc e es)
  then show ?case using rc_step_invar by simp
qed

text \<open>
  C13: The shared cache never serves private or stale content. After any sequence of stores,
  lookups and reconfigurations, a hit is the response of an earlier store under the same
  key, stored less than the current time to live ago, and that response was a 2xx one
  without \<open>Set-Cookie\<close>, without \<open>no-store\<close> or \<open>private\<close>, and not varying on everything, on
  cookies or on credentials.
\<close>

theorem cache_hit_shareable:
  assumes "lru_laws L view"
    and "snd (rc_get L now key hs (fold (rc_step L) es (rc_new L n ttl en))) = Some (status, rhs, body)"
  shows "\<exists>t. RcPut t key status rhs body \<in> set es \<and>
    now - t < from_secs (rc_ttl_secs (fold (rc_step L) es (rc_new L n ttl en))) \<and> shareable status rhs"
proof -
  let ?rc = "fold (rc_step L) es (rc_new L n ttl en)"
  have inv: "rc_invar view es ?rc" by (rule rc_run_invar [OF assms(1)])
  have "snd (lru_get L key (rc_cache ?rc)) = view (rc_cache ?rc) key"
    using assms(1) by (simp add: lru_laws_def)
  then obtain e where e: "view (rc_cache ?rc) key = Some e" "\<not> is_expired now (rc_ttl_secs ?rc) e"
    "status = cr_status e" "rhs = cr_headers e" "body = cr_body e"
    using assms(2) by (cases "lru_get L key (rc_cache ?rc)") (auto simp: rc_get_def split: if_splits option.splits)
  with inv show ?thesis by (auto simp: rc_invar_def is_expired_def not_le intro!: exI [of _ "cached_at e"])
qed

section \<open>Variants\<close>

text \<open>
  The request that produced an entry leaves no trace in it: the check compares the headers
  of the new request with those of the stored response. A response that varies on a header
  it does not itself carry is served to every request that lacks the header, whatever the
  first request sent, and to no request that has it.
\<close>

lemma vary_compares_response:
  assumes "snd (lru_get L key (rc_cache rc)) = Some e" "rc_enabled rc" "\<not> is_expired now (rc_ttl_secs rc) e"
    and "vary_on e = [name]" "header_value name (cr_headers e) = []"
  shows "snd (rc_get L now key hs rc) \<noteq> None \<longleftrightarrow> header_value name hs = []"
  using assms by (cases "lru_get L key (rc_cache rc)") (simp add: rc_get_def compute_vary_etag_def)

section \<open>A cache that meets the laws\<close>

definition list_lru :: "((string \<times> 'v) list, 'v) lru_ops" where
  "list_lru = \<lparr>lru_new = (\<lambda>_. []), lru_get = (\<lambda>k c. (c, map_of c k)),
     lru_put = (\<lambda>k v c. dm_insert k v c), lru_pop = dm_remove, lru_clear = (\<lambda>_. [])\<rparr>"

lemma list_lru_laws: "lru_laws list_lru map_of"
  by (simp add: lru_laws_def list_lru_def dashmap_simps)

theorem cache_hit_shareable_witness:
  "\<exists>t. RcPut t ''GET:/a'' 200 [] ''ok'' \<in> set [RcPut 5 ''GET:/a'' 200 [] ''ok'']"
proof -
  have "snd (rc_get list_lru 9 ''GET:/a'' [] (fold (rc_step list_lru) [RcPut 5 ''GET:/a'' 200 [] ''ok'']
      (rc_new list_lru 4 60 True))) = Some (200, [], ''ok'')"
    by (simp add: rc_get_def rc_put_def rc_new_def list_lru_def extract_vary_def is_expired_def
        from_secs_def)
  from cache_hit_shareable [OF list_lru_laws this] show ?thesis by blast
qed

end
