(* ===== verification/Edge_Cache.thy ===== *)
theory Edge_Cache
  imports Interfaces
begin

text \<open>
  src/src/gateway/edge_cache.rs: conditional responses by ETag. The digest of a body (the
  first sixteen bytes of SHA-256, in hex) is the parameter \<open>etag_of\<close>; times are seconds.
\<close>

record edge_entry =
  e_etag :: string
  e_body :: string
  e_content_type :: string
  e_status :: nat
  e_headers :: "(string \<times> string) list"
  e_created_at :: nat
  e_ttl_secs :: nat
  e_hits :: nat

record edge_cache =
  ec_entries :: "(string, edge_entry) dashmap"
  ec_max_entries :: nat
  ec_enabled :: bool

datatype cache_decision = Hit edge_entry | NotModified string | Miss

definition ec_new :: "nat \<Rightarrow> bool \<Rightarrow> edge_cache" where
  "ec_new max_entries enabled = \<lparr>ec_entries = [], ec_max_entries = max_entries, ec_enabled = enabled\<rparr>"

definition ec_check ::
  "nat \<Rightarrow> string \<Rightarrow> string option \<Rightarrow> edge_cache \<Rightarrow> edge_cache \<times> cache_decision" where
  "ec_check now key if_none_match c =
     (if \<not> ec_enabled c then (c, Miss)
      else case dm_get (ec_entries c) key of
             None \<Rightarrow> (c, Miss)
           | Some e \<Rightarrow>
               if wrap_add64 (e_created_at e) (e_ttl_secs e) < now
               then (c\<lparr>ec_entries := dm_remove key (ec_entries c)\<rparr>, Miss)
               else (let e' = e\<lparr>e_hits := wrap_add64 (e_hits e) 1\<rparr>;
                         c' = c\<lparr>ec_entries := dm_update key (\<lambda>_. e') (ec_entries c)\<rparr>
                     in case if_none_match of
                          Some tag \<Rightarrow>
                            if tag = e_etag e \<or> tag = [CHR 0x22] @ e_etag e @ [CHR 0x22]
                            then (c', NotModified (e_etag e)) else (c', Hit e')
                        | None \<Rightarrow> (c', Hit e')))"

text \<open>\<open>min_by_key\<close>: the first of the entries with the least time of creation.\<close>

fun oldest_key :: "(string, edge_entry) dashmap \<Rightarrow> string option" where
  "oldest_key [] = None"
| "oldest_key [(k, e)] = Some k"
| "oldest_key ((k, e) # (k', e') # m) =
     (if e_created_at e' < e_created_at e then oldest_key ((k', e') # m) else oldest_key ((k, e) # m))"

definition ec_store ::
  "(string \<Rightarrow> string) \<Rightarrow> nat \<Rightarrow> string \<Rightarrow> string \<Rightarrow> string \<Rightarrow> nat \<Rightarrow> (string \<times> string) list \<Rightarrow> nat \<Rightarrow>
     edge_cache \<Rightarrow> edge_cache \<times> string" where
  "ec_store etag_of now key body content_type status hs ttl_secs c =
     (let entries =
            (if ec_max_entries c \<le> length (ec_entries c)
             then (case oldest_key (ec_entries c) of
                     Some k \<Rightarrow> dm_remove k (ec_entries c) | None \<Rightarrow> ec_entries c)
             else ec_entries c);
          hash = etag_of body;
          entry = \<lparr>e_etag = hash, e_body = body, e_content_type = content_type, e_status = status,
                   e_headers = hs, e_created_at = now, e_ttl_secs = ttl_secs, e_hits = 0\<rparr>
      in (c\<lparr>ec_entries := dm_insert key entry entries\<rparr>, hash))"

definition ec_clear :: "edge_cache \<Rightarrow> edge_cache" where
  "ec_clear c = c\<lparr>ec_entries := []\<rparr>"

definition ec_total_hits :: "edge_cache \<Rightarrow> nat" where
  "ec_total_hits c = sum_list (map (e_hits \<circ> snd) (ec_entries c))"

section \<open>Runs\<close>

datatype ec_event =
    EcStore nat string string string nat "(string \<times> string) list" nat
  | EcCheck nat string "string option"
  | EcClear

fun ec_step :: "(string \<Rightarrow> string) \<Rightarrow> ec_event \<Rightarrow> edge_cache \<Rightarrow> edge_cache" where
  "ec_step etag_of (EcStore now key body ct status hs ttl) c = fst (ec_store etag_of now key body ct status hs ttl c)"
| "ec_step etag_of (EcCheck now key inm) c = fst (ec_check now key inm c)"
| "ec_step etag_of EcClear c = ec_clear c"

definition ec_invar :: "(string \<Rightarrow> string) \<Rightarrow> edge_cache \<Rightarrow> bool" where
  "ec_invar etag_of c \<longleftrightarrow>
     length (ec_entries c) \<le> max (ec_max_entries c) 1 \<and>
     (\<forall>k e. dm_get (ec_entries c) k = Some e \<longrightarrow> e_etag e = etag_of (e_body e))"

lemma oldest_key_mem: "oldest_key m = Some k \<Longrightarrow> \<exists>e. dm_get m k = Some e"
  by (induction m rule: oldest_key.induct) (auto split: if_splits)

lemma oldest_key_None: "oldest_key m = None \<longleftrightarrow> m = []"
  by (induction m rule: oldest_key.induct) auto

lemma ec_store_invar:
  assumes "ec_invar etag_of c"
  shows "ec_invar etag_of (fst (ec_store etag_of now key body ct status hs ttl c))"
proof -
  define es where "es = (if ec_max_entries c \<le> length (ec_entries c)
     then (case oldest_key (ec_entries c) of
             Some k \<Rightarrow> dm_remove k (ec_entries c) | None \<Rightarrow> ec_entries c)
     else ec_entries c)"
  have len: "length es < max (ec_max_entries c) 1"
  proof (cases "oldest_key (ec_entries c)")
    case None
    then show ?thesis using assms by (auto simp: oldest_key_None es_def)
  next
    case (Some k)
    then obtain e where "dm_get (ec_entries c) k = Some e" using oldest_key_mem by blast
    then have "length (dm_remove k (ec_entries c)) < length (ec_entries c)" by (rule length_remove_less)
    then show ?thesis using assms Some by (auto simp: ec_invar_def es_def)
  qed
  have tags: "e_etag e = etag_of (e_body e)" if "dm_get es k = Some e" for k e
    using that assms by (auto simp: ec_invar_def es_def dashmap_simps split: if_splits option.splits)
  have ins: "length (dm_insert key v es) \<le> Suc (length es)" for v by (simp add: length_insert)
  define v where "v = \<lparr>e_etag = etag_of body, e_body = body, e_content_type = ct, e_status = status,
     e_headers = hs, e_created_at = now, e_ttl_secs = ttl, e_hits = 0\<rparr>"
  have v: "e_etag v = etag_of (e_body v)"
    "fst (ec_store etag_of now key body ct status hs ttl c) = c\<lparr>ec_entries := dm_insert key v es\<rparr>"
    by (simp_all add: ec_store_def Let_def es_def [symmetric] v_def)
  have "length (dm_insert key v es) \<le> max (ec_max_entries c) 1" using ins [of v] len by linarith
  with tags v show ?thesis by (auto simp: ec_invar_def dashmap_simps split: if_splits)
qed

lemma ec_check_invar:
  assumes "ec_invar etag_of c"
  shows "ec_invar etag_of (fst (ec_check now key inm c))"
  using assms length_remove_le [of key "ec_entries c"]
  by (auto simp: ec_check_def ec_invar_def Let_def dashmap_simps split: option.split)

lemma ec_step_invar: "ec_invar etag_of c \<Longrightarrow> ec_invar etag_of (ec_step etag_of e c)"
  by (cases e) (simp_all add: ec_store_invar ec_check_invar ec_clear_def, simp add: ec_invar_def)

interpretation ec: invariant_machine "ec_step etag_of" "ec_invar etag_of"
  by unfold_locales (rule ec_step_invar)

lemma ec_step_max: "ec_max_entries (ec_step etag_of e c) = ec_max_entries c"
  by (cases e) (auto simp: ec_store_def ec_check_def ec_clear_def Let_def split: option.split)

lemma ec_run_max: "ec_max_entries (fold (ec_step etag_of) es c) = ec_max_entries c"
  by (induction es arbitrary: c) (simp_all add: ec_step_max)

text \<open>
  The edge cache is bounded and its 304 answers are right. After any run there are at
  most as many entries as configured (one where zero is configured), and a request is
  answered 304 only when the tag it sends, bare or quoted, is the digest of the body stored
  under the key and not yet expired.
\<close>

theorem edge_cache_sound:
  fixes es :: "ec_event list" and etag_of :: "string \<Rightarrow> string" and n :: nat
  defines "c \<equiv> fold (ec_step etag_of) es (ec_new n True)"
  shows "length (ec_entries c) \<le> max n 1 \<and>
    (snd (ec_check now key (Some tag) c) = NotModified t \<longrightarrow>
       (\<exists>e. dm_get (ec_entries c) key = Some e \<and> t = etag_of (e_body e) \<and>
          tag \<in> {t, [CHR 0x22] @ t @ [CHR 0x22]} \<and> now \<le> wrap_add64 (e_created_at e) (e_ttl_secs e)))"
proof -
  have "ec_invar etag_of (ec_new n True)" by (simp add: ec_invar_def ec_new_def)
  then have inv: "ec_invar etag_of c" unfolding c_def by (rule ec.run_invar)
  have "ec_max_entries c = n" unfolding c_def ec_run_max by (simp add: ec_new_def)
  with inv show ?thesis
    by (auto simp: ec_invar_def ec_check_def Let_def not_less split: option.splits if_splits)
qed

theorem edge_cache_sound_witness:
  "\<exists>e. dm_get (ec_entries (fold (ec_step (\<lambda>b. b)) [EcStore 5 ''k'' ''body'' ''t'' 200 [] 60] (ec_new 2 True)))
      ''k'' = Some e \<and> ''body'' = e_body e"
proof -
  let ?c = "fold (ec_step (\<lambda>b. b)) [EcStore 5 ''k'' ''body'' ''t'' 200 [] 60] (ec_new 2 True)"
  have "snd (ec_check 9 ''k'' (Some ''body'') ?c) = NotModified ''body''"
    by (simp add: ec_check_def ec_store_def ec_new_def Let_def wrap_add64_def u64_max_def)
  then show ?thesis
    using edge_cache_sound [of "\<lambda>b. b" "[EcStore 5 ''k'' ''body'' ''t'' 200 [] 60]" 2 9 "''k''" "''body''" "''body''"]
    by blast
qed

end
