(* ===== verification/Retry.thy ===== *)
theory Retry
  imports Prelude
begin

text \<open>
  src/src/gateway/retry.rs: the retry loop of the proxy. The HTTP client is the parameter
  \<open>send\<close>, the outcome of each attempt by its number; the random jitter of an attempt and the
  floating-point back-off (milliseconds to milliseconds) are parameters too. The loop
  returns the outcome and the delays it slept, in milliseconds. Delays are unbounded here.
\<close>

datatype http_method = GET | HEAD | OPTIONS | POST | PUT | PATCH | DELETE | OtherMethod string

record retry_policy =
  max_retries :: nat
  initial_delay :: nat
  backoff :: "nat \<Rightarrow> nat"

definition retry_policy_new :: "nat \<Rightarrow> nat \<Rightarrow> (nat \<Rightarrow> nat) \<Rightarrow> retry_policy" where
  "retry_policy_new n delay_ms scale = \<lparr>max_retries = n, initial_delay = delay_ms, backoff = scale\<rparr>"

definition method_is_retryable :: "http_method \<Rightarrow> bool" where
  "method_is_retryable m \<longleftrightarrow> m \<in> {GET, HEAD, OPTIONS}"

text \<open>Header names are lower case in the header map.\<close>

definition is_request_retryable :: "http_method \<Rightarrow> (string \<times> string) list \<Rightarrow> bool" where
  "is_request_retryable m hs =
     (if method_is_retryable m then True
      else let has_idem_key = list_ex (\<lambda>(k, _). k = ''idempotency-key'' \<or> k = ''x-idempotency-key'') hs
           in m \<in> {PUT, DELETE} \<and> has_idem_key)"

text \<open>
  An attempt ends with a response (its status and the rest of it), with an error of the connection or a
  timeout, or with another error.
\<close>

datatype 'r attempt_outcome = Response nat 'r | Transient string | Fatal string

definition server_error :: "nat \<Rightarrow> bool" where
  "server_error status \<longleftrightarrow> 500 \<le> status \<and> status < 600"

fun outcome_result :: "'r attempt_outcome \<Rightarrow> string + nat \<times> 'r" where
  "outcome_result (Response s r) = Inr (s, r)"
| "outcome_result (Transient e) = Inl e"
| "outcome_result (Fatal e) = Inl e"

fun worth_retrying :: "'r attempt_outcome \<Rightarrow> bool" where
  "worth_retrying (Response s r) = server_error s"
| "worth_retrying (Transient e) = True"
| "worth_retrying (Fatal e) = False"

text \<open>
  The loop over \<open>0..=max_retries\<close>. \<open>None\<close> is the \<open>expect\<close> after the loop, which panics when
  no error is at hand; with one it returns that error. \<open>jitter k d\<close> is the random delay
  drawn before attempt \<open>k\<close> from \<open>0..=d\<close>.
\<close>

function retry_loop ::
  "retry_policy \<Rightarrow> bool \<Rightarrow> (nat \<Rightarrow> 'r attempt_outcome) \<Rightarrow> (nat \<Rightarrow> nat \<Rightarrow> nat) \<Rightarrow> nat \<Rightarrow> nat \<Rightarrow>
     string option \<Rightarrow> nat list \<Rightarrow> (string + nat \<times> 'r) option \<times> nat list" where
  "retry_loop p retryable send jitter k delay last_error slept =
     (if max_retries p < k then (map_option Inl last_error, slept)
      else (let slept' = (if 0 < k then slept @ [if 0 < delay then jitter k delay else 0] else slept);
                delay' = (if 0 < k then backoff p delay else delay)
            in case send k of
                 Response s r \<Rightarrow>
                   if retryable \<and> server_error s \<and> k < max_retries p
                   then retry_loop p retryable send jitter (Suc k) delay' None slept'
                   else (Some (Inr (s, r)), slept')
               | Transient e \<Rightarrow>
                   if retryable \<and> k < max_retries p
                   then retry_loop p retryable send jitter (Suc k) delay' (Some e) slept'
                   else (Some (Inl e), slept')
               | Fatal e \<Rightarrow> (Some (Inl e), slept')))"
  by pat_completeness auto
termination
  by (relation "measure (\<lambda>(p, r, send, j, k, d, l, s). Suc (max_retries p) - k)") auto

declare retry_loop.simps [simp del]

definition retry_execute ::
  "retry_policy \<Rightarrow> http_method \<Rightarrow> (string \<times> string) list \<Rightarrow> (nat \<Rightarrow> 'r attempt_outcome) \<Rightarrow>
     (nat \<Rightarrow> nat \<Rightarrow> nat) \<Rightarrow> (string + nat \<times> 'r) option \<times> nat list" where
  "retry_execute p m hs send jitter =
     retry_loop p (is_request_retryable m hs) send jitter 0 (initial_delay p) None []"

section \<open>The attempt that decides\<close>

text \<open>The specification: the first attempt from \<open>k\<close> on that is not retried.\<close>

fun deciding :: "nat \<Rightarrow> bool \<Rightarrow> (nat \<Rightarrow> 'r attempt_outcome) \<Rightarrow> nat \<Rightarrow> nat" where
  "deciding 0 retryable send k = k"
| "deciding (Suc left) retryable send k =
     (if retryable \<and> worth_retrying (send k) then deciding left retryable send (Suc k) else k)"

lemma deciding_bounds: "k \<le> deciding left retryable send k \<and> deciding left retryable send k \<le> k + left"
  by (induction left retryable send k rule: deciding.induct) auto

lemma deciding_before:
  "k \<le> i \<Longrightarrow> i < deciding left retryable send k \<Longrightarrow> retryable \<and> worth_retrying (send i)"
proof (induction left retryable send k rule: deciding.induct)
  case (2 left retryable send k)
  then show ?case by (cases "i = k") (auto split: if_splits)
qed simp

lemma deciding_stops:
  "deciding left retryable send k < k + left \<Longrightarrow>
   \<not> (retryable \<and> worth_retrying (send (deciding left retryable send k)))"
  by (induction left retryable send k rule: deciding.induct) (auto split: if_splits)

text \<open>
  The delays slept from attempt \<open>k\<close> on, when the deciding attempt is \<open>n\<close>: the one of attempt
  \<open>k + i\<close> is at most \<open>i\<close> back-offs of the current delay.
\<close>

definition delays_ok :: "retry_policy \<Rightarrow> nat \<Rightarrow> nat list \<Rightarrow> bool" where
  "delays_ok p delay ds \<longleftrightarrow> (\<forall>i < length ds. ds ! i \<le> (backoff p ^^ i) delay)"

lemma delays_ok_Nil [simp]: "delays_ok p delay []"
  by (simp add: delays_ok_def)

lemma delays_ok_Cons: "d \<le> delay \<Longrightarrow> delays_ok p (backoff p delay) ds \<Longrightarrow> delays_ok p delay (d # ds)"
  by (auto simp: delays_ok_def nth_Cons funpow_swap1 split: nat.split)

lemma retry_loop_stop:
  assumes "k \<le> max_retries p" "\<not> (retryable \<and> worth_retrying (send k) \<and> k < max_retries p)"
  shows "retry_loop p retryable send jitter k delay last_error slept =
    (Some (outcome_result (send k)),
     if 0 < k then slept @ [if 0 < delay then jitter k delay else 0] else slept)"
proof -
  have "\<not> max_retries p < k" using assms(1) by simp
  then show ?thesis
    using assms(2) by (subst retry_loop.simps, cases "send k") (simp_all only: Let_def if_False
        attempt_outcome.case worth_retrying.simps outcome_result.simps simp_thms)
qed

lemma retry_loop_again:
  assumes "retryable" "worth_retrying (send k)" "k < max_retries p"
  shows "retry_loop p retryable send jitter k delay last_error slept =
    retry_loop p retryable send jitter (Suc k) (if 0 < k then backoff p delay else delay)
      (case send k of Response s r \<Rightarrow> None | Transient e \<Rightarrow> Some e | Fatal e \<Rightarrow> None)
      (if 0 < k then slept @ [if 0 < delay then jitter k delay else 0] else slept)"
  using assms by (subst retry_loop.simps, cases "send k") (simp_all add: Let_def)

lemma retry_loop_spec:
  assumes jitter: "\<And>i d. jitter i d \<le> d" and "k \<le> max_retries p"
  shows "\<exists>ds. retry_loop p retryable send jitter k delay last_error slept =
      (Some (outcome_result (send (deciding (max_retries p - k) retryable send k))), slept @ ds) \<and>
      length ds = deciding (max_retries p - k) retryable send k - k + (if 0 < k then 1 else 0) \<and>
      delays_ok p delay ds"
  using assms(2)
proof (induction "max_retries p - k" arbitrary: k delay last_error slept)
  case 0
  then show ?case
    using jitter by (auto simp: retry_loop_stop intro!: delays_ok_Cons)
next
  case (Suc left)
  have left: "max_retries p - k = Suc left" "max_retries p - Suc k = left" "k < max_retries p"
    using Suc.hyps(2) by auto
  let ?slept = "if 0 < k then slept @ [if 0 < delay then jitter k delay else 0] else slept"
  let ?delay = "if 0 < k then backoff p delay else delay"
  let ?n = "deciding left retryable send (Suc k)"
  show ?case
  proof (cases "retryable \<and> worth_retrying (send k)")
    case False
    then show ?thesis
      using left jitter by (auto simp: retry_loop_stop intro!: delays_ok_Cons)
  next
    case True
    obtain err where again: "retry_loop p retryable send jitter k delay last_error slept =
        retry_loop p retryable send jitter (Suc k) ?delay err ?slept"
      using retry_loop_again True left by metis
    obtain ds where ds: "retry_loop p retryable send jitter (Suc k) ?delay err ?slept =
        (Some (outcome_result (send ?n)), ?slept @ ds)"
      "length ds = ?n - Suc k + 1" "delays_ok p ?delay ds"
      using Suc.hyps(1) [of "Suc k" ?delay err ?slept] left by auto
    have n: "deciding (max_retries p - k) retryable send k = ?n" using True left by simp
    have "Suc k \<le> ?n" using deciding_bounds by blast
    then show ?thesis
      using again ds n jitter by (auto intro!: delays_ok_Cons)
  qed
qed

text \<open>The loop always produces an outcome, whatever the jitter.\<close>

lemma retry_loop_returns:
  "k \<le> max_retries p \<Longrightarrow> fst (retry_loop p retryable send jitter k delay last_error slept) \<noteq> None"
proof (induction "max_retries p - k" arbitrary: k delay last_error slept)
  case 0
  then show ?case by (simp add: retry_loop_stop)
next
  case (Suc left)
  show ?case
  proof (cases "retryable \<and> worth_retrying (send k)")
    case True
    with Suc show ?thesis by (simp add: retry_loop_again)
  next
    case False
    then have "\<not> (retryable \<and> worth_retrying (send k) \<and> k < max_retries p)" by blast
    then show ?thesis
      using Suc.prems retry_loop_stop [of k p retryable send jitter delay last_error slept] by simp
  qed
qed

lemma retry_execute_returns: "fst (retry_execute p m hs send jitter) \<noteq> None"
  unfolding retry_execute_def by (rule retry_loop_returns) simp

text \<open>
  C22: The retry loop ends after a known number of attempts and never panics. It returns the
  outcome of attempt \<open>n\<close>, the first one that is not worth retrying or else the last one
  allowed, after exactly \<open>n\<close> sleeps, the \<open>i\<close>-th at most \<open>i\<close> back-offs of the initial delay;
  every attempt before \<open>n\<close> was a server error or a transient failure of a retryable request.
  A request that is not retryable (POST, PATCH, or PUT and DELETE without an idempotency key)
  is sent exactly once.
\<close>

theorem retry_outcome:
  assumes "\<And>i d. jitter i d \<le> d"
  shows "\<exists>n ds. retry_execute p m hs send jitter = (Some (outcome_result (send n)), ds) \<and>
    length ds = n \<and> n \<le> max_retries p \<and>
    (\<forall>i < n. ds ! i \<le> (backoff p ^^ i) (initial_delay p)) \<and>
    (\<forall>i < n. is_request_retryable m hs \<and> worth_retrying (send i)) \<and>
    (n < max_retries p \<longrightarrow> \<not> (is_request_retryable m hs \<and> worth_retrying (send n))) \<and>
    (\<not> is_request_retryable m hs \<longrightarrow> n = 0)"
proof -
  let ?r = "is_request_retryable m hs"
  let ?n = "deciding (max_retries p) ?r send 0"
  obtain ds where ds: "retry_execute p m hs send jitter = (Some (outcome_result (send ?n)), ds)"
    "length ds = ?n" "delays_ok p (initial_delay p) ds"
    using retry_loop_spec [of jitter 0 p ?r send "initial_delay p" None "[]"] assms
    by (auto simp: retry_execute_def)
  have "?n = 0" if "\<not> ?r" using that by (cases "max_retries p") simp_all
  then show ?thesis
    using ds deciding_bounds [of 0 "max_retries p" ?r send]
      deciding_before [of 0 _ "max_retries p" ?r send] deciding_stops [of "max_retries p" ?r send 0]
    by (intro exI [of _ ?n] exI [of _ ds]) (auto simp: delays_ok_def)
qed

theorem retry_outcome_witness:
  "\<exists>n ds. retry_execute (retry_policy_new 2 100 (\<lambda>d. 2 * d)) POST [] (\<lambda>_. Response 503 ()) (\<lambda>_ _. 0) =
     (Some (outcome_result (Response 503 ())), ds) \<and> n = (0 :: nat) \<and> length ds = n"
  using retry_outcome [of "\<lambda>_ _. 0" "retry_policy_new 2 100 (\<lambda>d. 2 * d)" POST "[]" "\<lambda>_. Response 503 ()"]
  by (auto simp: is_request_retryable_def method_is_retryable_def)

end
