(* ===== verification/Request_Queue.thy ===== *)
theory Request_Queue
  imports Interfaces
begin

text \<open>
  src/src/gateway/request_queue.rs: back-pressure in front of the proxy. The asynchronous
  \<open>acquire\<close> is a protocol of several steps, so the queue is a step relation: an arrival is
  counted or rejected, a waiting request is granted a permit of the semaphore or times out
  after thirty seconds, a permit is dropped. A caller may also abandon the wait (the server
  drops the handler's future when the client disconnects); the code does not see that step.
  Dropping a permit returns it to the semaphore at once, while the statistics are updated by
  a spawned task, a step of its own. The ghost counters \<open>rq_waiting\<close>, \<open>rq_running\<close>,
  \<open>rq_settling\<close> and \<open>rq_abandoned\<close> say where the requests are. The average waiting time is left out.
\<close>

record queue_stats =
  qs_queued :: nat
  qs_processed :: nat
  qs_rejected :: nat
  qs_max_depth :: nat
  qs_depth :: nat

record request_queue =
  rq_permits :: nat
  rq_max_concurrent :: nat
  rq_stats :: queue_stats
  rq_enabled :: bool
  rq_waiting :: nat
  rq_running :: nat
  rq_settling :: nat
  rq_abandoned :: nat

definition rq_new :: "nat \<Rightarrow> bool \<Rightarrow> request_queue" where
  "rq_new max_concurrent enabled =
     \<lparr>rq_permits = max_concurrent, rq_max_concurrent = max_concurrent,
      rq_stats = \<lparr>qs_queued = 0, qs_processed = 0, qs_rejected = 0, qs_max_depth = 0, qs_depth = 0\<rparr>,
      rq_enabled = enabled, rq_waiting = 0, rq_running = 0, rq_settling = 0, rq_abandoned = 0\<rparr>"

text \<open>The first half of \<open>acquire\<close>: count the arrival, or reject it. True when it may wait.\<close>

definition rq_arrive :: "request_queue \<Rightarrow> request_queue \<times> bool" where
  "rq_arrive q =
     (if \<not> rq_enabled q then (q\<lparr>rq_waiting := rq_waiting q + 1\<rparr>, True)
      else (let s = rq_stats q;
                s1 = s\<lparr>qs_queued := qs_queued s + 1, qs_depth := qs_depth s + 1,
                       qs_max_depth := max (qs_max_depth s) (qs_depth s + 1)\<rparr>
            in if rq_max_concurrent q * 2 < qs_depth s1
               then (q\<lparr>rq_stats := s1\<lparr>qs_rejected := qs_rejected s1 + 1, qs_depth := qs_depth s1 - 1\<rparr>\<rparr>, False)
               else (q\<lparr>rq_stats := s1, rq_waiting := rq_waiting q + 1\<rparr>, True)))"

definition rq_timeout :: "request_queue \<Rightarrow> request_queue" where
  "rq_timeout q =
     q\<lparr>rq_waiting := rq_waiting q - 1,
       rq_stats := (rq_stats q)\<lparr>qs_rejected := qs_rejected (rq_stats q) + 1, qs_depth := qs_depth (rq_stats q) - 1\<rparr>\<rparr>"

definition rq_grant :: "request_queue \<Rightarrow> request_queue" where
  "rq_grant q = q\<lparr>rq_waiting := rq_waiting q - 1, rq_permits := rq_permits q - 1, rq_running := rq_running q + 1\<rparr>"

text \<open>The permit is dropped: the semaphore gets it back, and a task is spawned for the rest.\<close>

definition rq_release :: "request_queue \<Rightarrow> request_queue" where
  "rq_release q =
     q\<lparr>rq_running := rq_running q - 1, rq_permits := rq_permits q + 1, rq_settling := rq_settling q + 1\<rparr>"

definition rq_settle :: "request_queue \<Rightarrow> request_queue" where
  "rq_settle q =
     q\<lparr>rq_settling := rq_settling q - 1,
       rq_stats := (rq_stats q)\<lparr>qs_processed := qs_processed (rq_stats q) + 1, qs_depth := qs_depth (rq_stats q) - 1\<rparr>\<rparr>"

definition rq_abandon :: "request_queue \<Rightarrow> request_queue" where
  "rq_abandon q = q\<lparr>rq_waiting := rq_waiting q - 1, rq_abandoned := rq_abandoned q + 1\<rparr>"

inductive rq_step :: "request_queue \<Rightarrow> request_queue \<Rightarrow> bool" where
  arrive: "rq_step q (fst (rq_arrive q))"
| grant: "0 < rq_waiting q \<Longrightarrow> 0 < rq_permits q \<Longrightarrow> rq_step q (rq_grant q)"
| timeout: "rq_enabled q \<Longrightarrow> 0 < rq_waiting q \<Longrightarrow> rq_step q (rq_timeout q)"
| release: "0 < rq_running q \<Longrightarrow> rq_step q (rq_release q)"
| settle: "0 < rq_settling q \<Longrightarrow> rq_step q (rq_settle q)"
| abandon: "0 < rq_waiting q \<Longrightarrow> rq_step q (rq_abandon q)"

inductive_cases rq_stepE: "rq_step q q'"

inductive rq_reachable :: "nat \<Rightarrow> bool \<Rightarrow> request_queue \<Rightarrow> bool" for n en where
  init: "rq_reachable n en (rq_new n en)"
| step: "rq_reachable n en q \<Longrightarrow> rq_step q q' \<Longrightarrow> rq_reachable n en q'"

section \<open>The depth counter\<close>

definition rq_invar :: "request_queue \<Rightarrow> bool" where
  "rq_invar q \<longleftrightarrow>
     rq_permits q + rq_running q = rq_max_concurrent q \<and>
     (rq_enabled q \<longrightarrow>
        qs_depth (rq_stats q) = rq_waiting q + rq_running q + rq_settling q + rq_abandoned q \<and>
        qs_depth (rq_stats q) \<le> rq_max_concurrent q * 2 \<and>
        qs_queued (rq_stats q) =
          qs_processed (rq_stats q) + qs_rejected (rq_stats q) + qs_depth (rq_stats q))"

lemmas rq_step_defs = rq_arrive_def rq_grant_def rq_timeout_def rq_release_def rq_settle_def rq_abandon_def

lemma rq_arrive_frame [simp]:
  "rq_max_concurrent (fst (rq_arrive q)) = rq_max_concurrent q" "rq_enabled (fst (rq_arrive q)) = rq_enabled q"
  by (simp_all add: rq_arrive_def Let_def)

lemma rq_step_frame: "rq_step q q' \<Longrightarrow> rq_max_concurrent q' = rq_max_concurrent q \<and> rq_enabled q' = rq_enabled q"
  by (erule rq_stepE) (simp_all add: rq_grant_def rq_timeout_def rq_release_def rq_settle_def rq_abandon_def)

lemma rq_step_invar: "rq_step q q' \<Longrightarrow> rq_invar q \<Longrightarrow> rq_invar q'"
  by (erule rq_stepE) (auto simp: rq_invar_def rq_step_defs Let_def)

lemma rq_reachable_invar:
  "rq_reachable n en q \<Longrightarrow> rq_invar q \<and> rq_max_concurrent q = n \<and> rq_enabled q = en"
proof (induction rule: rq_reachable.induct)
  case init
  show ?case by (simp add: rq_invar_def rq_new_def)
next
  case (step q q')
  then show ?case using rq_step_invar [of q q'] rq_step_frame [of q q'] by simp
qed

text \<open>
  C23: What the depth counter counts. In every reachable state of an enabled queue the depth
  is the number of requests waiting, running, finished but not yet settled, or abandoned
  while they waited; it never
  exceeds twice the concurrency limit, at most the limit run at once, and every request
  counted in was processed, rejected or is still in the depth. So each abandoned wait costs
  one place for good, and an arrival is rejected exactly when these requests fill the double limit.
\<close>

theorem queue_depth_exact:
  assumes "rq_reachable n True q"
  shows "qs_depth (rq_stats q) = rq_waiting q + rq_running q + rq_settling q + rq_abandoned q \<and>
    rq_running q \<le> n \<and> qs_depth (rq_stats q) \<le> 2 * n \<and>
    qs_queued (rq_stats q) =
      qs_processed (rq_stats q) + qs_rejected (rq_stats q) + qs_depth (rq_stats q) \<and>
    (snd (rq_arrive q) \<longleftrightarrow> rq_waiting q + rq_running q + rq_settling q + rq_abandoned q < 2 * n)"
  using rq_reachable_invar [OF assms] by (auto simp: rq_invar_def rq_arrive_def Let_def)

text \<open>With a limit of one, two abandoned waits close the queue for ever.\<close>

lemma rq_reach_abandoned:
  "rq_reachable 1 True (rq_abandon (fst (rq_arrive (rq_abandon (fst (rq_arrive (rq_new 1 True)))))))"
  by (intro rq_reachable.step [OF _ rq_step.abandon] rq_reachable.step [OF _ rq_step.arrive] rq_reachable.init)
    (simp_all add: rq_arrive_def rq_new_def rq_abandon_def)

theorem queue_depth_exact_witness:
  "\<not> snd (rq_arrive (rq_abandon (fst (rq_arrive (rq_abandon (fst (rq_arrive (rq_new 1 True))))))))"
  using queue_depth_exact [OF rq_reach_abandoned]
  by (simp add: rq_arrive_def rq_new_def rq_abandon_def)

end
