(* ===== verification/Waf.thy ===== *)
theory Waf
  imports Storage
begin

text \<open>
  src/src/middleware/waf.rs: the web application firewall. Percent decoding (the
  percent-encoding crate) and regular expressions (the regex crate) are parameters:
  \<open>pd\<close> decodes one layer, \<open>is_match p s\<close> says that the pattern with source \<open>p\<close> matches in
  \<open>s\<close>, \<open>regex_error p\<close> is the error of compiling \<open>p\<close>, if any. The patterns themselves are
  those of the source. Messages are spelled out, metrics and log lines are left out; the
  events a firewall publishes are collected in \<open>waf_published\<close>.
\<close>

section \<open>Normalisation of inputs\<close>

text \<open>\<open>from_str_radix\<close> of an unsigned type: an optional plus sign, then digits.\<close>

definition from_str_radix :: "nat \<Rightarrow> nat \<Rightarrow> string \<Rightarrow> nat option" where
  "from_str_radix radix maxv s =
     (let body = (if length s > 1 \<and> hd s = CHR ''+'' then tl s else s)
      in if body \<noteq> [] \<and> list_all (is_digit radix) body \<and> digits_value radix body \<le> maxv
         then Some (digits_value radix body) else None)"

text \<open>\<open>char::from_u32\<close>, which rejects surrogates.\<close>

definition char_from_u32 :: "nat \<Rightarrow> nat option" where
  "char_from_u32 n = (if (0xD800 \<le> n \<and> n \<le> 0xDFFF) \<or> 0x10FFFF < n then None else Some n)"

definition hex_u32 :: "string \<Rightarrow> nat option" where
  "hex_u32 h = Option.bind (from_str_radix 16 u32_max h) char_from_u32"

text \<open>
  \<open>unicode_escape_decode\<close> on what is left of the bytes: a JSON escape of four hexadecimal
  digits, a C escape of two, or one character copied.
\<close>

definition json_escape :: "string \<Rightarrow> nat option" where
  "json_escape s =
     (if 5 < length s \<and> s ! 0 = CHR 0x5C \<and> s ! 1 = CHR ''u'' then hex_u32 (take 4 (drop 2 s)) else None)"

definition c_escape :: "string \<Rightarrow> nat option" where
  "c_escape s =
     (if 3 < length s \<and> s ! 0 = CHR 0x5C \<and> s ! 1 = CHR ''x'' then from_str_radix 16 255 (take 2 (drop 2 s)) else None)"

function unicode_escape_decode :: "string \<Rightarrow> string" where
  "unicode_escape_decode [] = []"
| "unicode_escape_decode (b # bs) =
     (case json_escape (b # bs) of
        Some code \<Rightarrow> utf8_encode code @ unicode_escape_decode (drop 5 bs)
      | None \<Rightarrow>
          (case c_escape (b # bs) of
             Some code \<Rightarrow> utf8_encode code @ unicode_escape_decode (drop 3 bs)
           | None \<Rightarrow> b # take (utf8_len b - 1) bs @ unicode_escape_decode (drop (utf8_len b - 1) bs)))"
  by pat_completeness auto
termination
  by (relation "measure length") auto

text \<open>At most four passes of percent decoding, stopping at a fixed point.\<close>

fun decode_passes :: "(string \<Rightarrow> string) \<Rightarrow> nat \<Rightarrow> string \<Rightarrow> string" where
  "decode_passes pd 0 current = current"
| "decode_passes pd (Suc n) current =
     (let nxt = pd current in if nxt = current then current else decode_passes pd n nxt)"

definition normalize_input :: "(string \<Rightarrow> string) \<Rightarrow> string \<Rightarrow> string" where
  "normalize_input pd s = to_ascii_lowercase (unicode_escape_decode (decode_passes pd 4 s))"

definition is_structured_header :: "string \<Rightarrow> bool" where
  "is_structured_header name \<longleftrightarrow> to_ascii_lowercase name \<in>
     {''authorization'', ''cookie'', ''set-cookie'', ''user-agent'', ''x-api-key'',
      ''x-session-token'', ''x-request-id'', ''x-trace-id'', ''x-forwarded-for'', ''x-real-ip'',
      ''etag'', ''if-none-match'', ''if-match'', ''date'', ''expires'', ''last-modified''}"

fun boundary_below :: "string \<Rightarrow> nat \<Rightarrow> nat" where
  "boundary_below s 0 = 0"
| "boundary_below s (Suc e) = (if is_char_boundary s (Suc e) then Suc e else boundary_below s e)"

definition safe_truncate :: "string \<Rightarrow> nat \<Rightarrow> string" where
  "safe_truncate s n = (if length s \<le> n then s else take (boundary_below s n) s)"

section \<open>The firewall\<close>

record custom_rule =
  cr_id :: nat
  cr_pattern_src :: string
  cr_label :: string
  cr_created_at :: nat

datatype waf_mode = WafBlock | DetectOnly

datatype waf_verdict = WafAllow | WafBlocked (waf_reason: string) (waf_rule: string)

definition verdict_rule :: "waf_verdict \<Rightarrow> string" where
  "verdict_rule v = (case v of WafAllow \<Rightarrow> ''ALLOW'' | WafBlocked reason rule \<Rightarrow> rule)"

record waf =
  waf_enabled :: bool
  waf_sql :: "string list"
  waf_xss :: "string list"
  waf_traversal :: "string list"
  waf_custom :: "custom_rule list"
  waf_next_rule_id :: nat
  waf_blocked_ips :: "string list"
  waf_mode :: waf_mode
  waf_published :: "bus_event list"

text \<open>A pattern of the source, with every backslash written as a grave accent.\<close>

definition re :: "string \<Rightarrow> string" where
  "re s = map (\<lambda>c. if c = CHR 0x60 then CHR 0x5C else c) s"

definition sql_patterns :: "string list" where
  "sql_patterns =
     [re ''(?i)`b(union|select|insert|update|delete|drop|alter|create|exec)`b.{0,80}`b(from|into|table|where|set)`b'',
      re ''(?i)(;`s*(drop|delete|update|insert|union|select|truncate|alter)`b|--`s*$|/`*[^*]*`*/|@@`w+|`bxp_cmdshell`b)'',
      re ''(?i)`b(or|and)`b`s+`d+`s*=`s*`d+'',
      re ''(?i)`b(sleep|benchmark|waitfor|pg_sleep)`s*`('',
      CHR 0x27 # re ''`s*(or|and|union)`s+'']"

definition xss_patterns :: "string list" where
  "xss_patterns =
     [re ''(?i)<`s*script[^>]*>'',
      re ''(?i)(javascript|vbscript|expression)`s*:'',
      re ''(?i)on(load|error|click|mouseover|submit|focus|blur)`s*='',
      re ''(?i)<`s*(iframe|object|embed|applet|form|input)'',
      re ''(?i)(document`.(cookie|write|location)|window`.(location|open))'']"

definition traversal_patterns :: "string list" where
  "traversal_patterns =
     [re ''`.`./'',
      re ''`.`.``'',
      re ''(?i)(/etc/passwd|/etc/shadow|/proc/self)'',
      re ''(?i)(cmd`.exe|powershell|/bin/(sh|bash))'',
      re ''%2e%2e[%/``]'']"

definition waf_new :: "bool \<Rightarrow> waf_mode \<Rightarrow> waf" where
  "waf_new enabled mode =
     \<lparr>waf_enabled = enabled, waf_sql = sql_patterns, waf_xss = xss_patterns, waf_traversal = traversal_patterns,
      waf_custom = [], waf_next_rule_id = 1, waf_blocked_ips = [], waf_mode = mode, waf_published = []\<rparr>"

subsection \<open>Custom rules\<close>

text \<open>An atomic \<open>fetch_add\<close> wraps around; so does \<open>id + 1\<close> in a release build.\<close>

definition waf_fresh_id :: "waf \<Rightarrow> waf \<times> nat" where
  "waf_fresh_id w = (w\<lparr>waf_next_rule_id := wrap_add64 (waf_next_rule_id w) 1\<rparr>, waf_next_rule_id w)"

definition apply_add_pattern_with_id ::
  "(string \<Rightarrow> string option) \<Rightarrow> nat \<Rightarrow> nat \<Rightarrow> string \<Rightarrow> string \<Rightarrow> waf \<Rightarrow> waf \<times> (string + unit)" where
  "apply_add_pattern_with_id regex_error now rule_id src label w =
     (case regex_error src of
        Some e \<Rightarrow> (w, Inl (''invalid regex: '' @ e))
      | None \<Rightarrow>
          if list_ex (\<lambda>r. cr_id r = rule_id) (waf_custom w) then (w, Inr ())
          else
            (let rule = \<lparr>cr_id = rule_id, cr_pattern_src = src,
                         cr_label = (if label = [] then ''CUSTOM'' else label), cr_created_at = now\<rparr>;
                 w' = w\<lparr>waf_custom := waf_custom w @ [rule]\<rparr>
             in (if waf_next_rule_id w' \<le> rule_id
                 then w'\<lparr>waf_next_rule_id := wrap_add64 rule_id 1\<rparr> else w', Inr ())))"

definition add_custom_pattern ::
  "(string \<Rightarrow> string option) \<Rightarrow> nat \<Rightarrow> string \<Rightarrow> string \<Rightarrow> waf \<Rightarrow> waf \<times> (string + nat)" where
  "add_custom_pattern regex_error now src label w =
     (let (w1, rule_id) = waf_fresh_id w
      in case apply_add_pattern_with_id regex_error now rule_id src label w1 of
           (w2, Inl e) \<Rightarrow> (w2, Inl e)
         | (w2, Inr _) \<Rightarrow> (w2\<lparr>waf_published := waf_published w2 @ [WafRuleAdded rule_id src label]\<rparr>, Inr rule_id))"

definition apply_add_pattern ::
  "(string \<Rightarrow> string option) \<Rightarrow> nat \<Rightarrow> string \<Rightarrow> string \<Rightarrow> waf \<Rightarrow> waf \<times> (string + nat)" where
  "apply_add_pattern regex_error now src label w =
     (let (w1, rule_id) = waf_fresh_id w
      in case apply_add_pattern_with_id regex_error now rule_id src label w1 of
           (w2, Inl e) \<Rightarrow> (w2, Inl e)
         | (w2, Inr _) \<Rightarrow> (w2, Inr rule_id))"

definition apply_remove_pattern :: "nat \<Rightarrow> waf \<Rightarrow> waf \<times> bool" where
  "apply_remove_pattern rule_id w =
     (let kept = filter (\<lambda>r. cr_id r \<noteq> rule_id) (waf_custom w)
      in (w\<lparr>waf_custom := kept\<rparr>, length kept < length (waf_custom w)))"

definition remove_custom_pattern :: "nat \<Rightarrow> waf \<Rightarrow> waf \<times> bool" where
  "remove_custom_pattern rule_id w =
     (let (w', removed) = apply_remove_pattern rule_id w
      in (if removed then w'\<lparr>waf_published := waf_published w' @ [WafRuleRemoved rule_id]\<rparr> else w', removed))"

text \<open>Loading from the configuration draws an identifier per valid pattern and replaces the list.\<close>

fun compile_patterns ::
  "(string \<Rightarrow> string option) \<Rightarrow> nat \<Rightarrow> string list \<Rightarrow> waf \<Rightarrow> waf \<times> custom_rule list" where
  "compile_patterns regex_error now [] w = (w, [])"
| "compile_patterns regex_error now (src # srcs) w =
     (case regex_error src of
        Some e \<Rightarrow> compile_patterns regex_error now srcs w
      | None \<Rightarrow>
          (let (w1, rule_id) = waf_fresh_id w;
               (w2, rules) = compile_patterns regex_error now srcs w1
           in (w2, \<lparr>cr_id = rule_id, cr_pattern_src = src, cr_label = ''CUSTOM'', cr_created_at = now\<rparr> # rules)))"

definition load_custom_patterns_from_strings ::
  "(string \<Rightarrow> string option) \<Rightarrow> nat \<Rightarrow> string list \<Rightarrow> waf \<Rightarrow> waf" where
  "load_custom_patterns_from_strings regex_error now srcs w =
     (let (w', rules) = compile_patterns regex_error now srcs w in w'\<lparr>waf_custom := rules\<rparr>)"

definition waf_handle :: "(string \<Rightarrow> string option) \<Rightarrow> nat \<Rightarrow> bus_event \<Rightarrow> waf \<Rightarrow> waf" where
  "waf_handle regex_error now e w =
     (case e of
        WafRuleAdded rule_id src label \<Rightarrow> fst (apply_add_pattern_with_id regex_error now rule_id src label w)
      | WafRuleRemoved rule_id \<Rightarrow> fst (apply_remove_pattern rule_id w)
      | _ \<Rightarrow> w)"

definition block_ip :: "string \<Rightarrow> waf \<Rightarrow> waf" where
  "block_ip ip w = w\<lparr>waf_blocked_ips := List.insert ip (waf_blocked_ips w)\<rparr>"

definition unblock_ip :: "string \<Rightarrow> waf \<Rightarrow> waf \<times> bool" where
  "unblock_ip ip w = (w\<lparr>waf_blocked_ips := removeAll ip (waf_blocked_ips w)\<rparr>, ip \<in> set (waf_blocked_ips w))"

subsection \<open>Inspection\<close>

definition all_inputs ::
  "(string \<Rightarrow> string) \<Rightarrow> string \<Rightarrow> string option \<Rightarrow> string \<Rightarrow> (string \<times> string) list \<Rightarrow> string list" where
  "all_inputs pd path query body headers =
     (let q = case_option [] (\<lambda>s. s) query
      in [normalize_input pd path, normalize_input pd q, normalize_input pd body, path, q, body] @
         map (\<lambda>(k, v). normalize_input pd v) (filter (\<lambda>(k, v). \<not> is_structured_header k) headers))"

text \<open>The first input matched by one of the patterns, in the order of the two nested loops.\<close>

definition first_hit :: "(string \<Rightarrow> string \<Rightarrow> bool) \<Rightarrow> string list \<Rightarrow> string list \<Rightarrow> string option" where
  "first_hit is_match inputs patterns = find (\<lambda>input. list_ex (\<lambda>p. is_match p input) patterns) inputs"

fun first_custom ::
  "(string \<Rightarrow> string \<Rightarrow> bool) \<Rightarrow> string list \<Rightarrow> custom_rule list \<Rightarrow> (custom_rule \<times> string) option" where
  "first_custom is_match inputs [] = None"
| "first_custom is_match inputs (r # rs) =
     (case find (is_match (cr_pattern_src r)) inputs of
        Some input \<Rightarrow> Some (r, input)
      | None \<Rightarrow> first_custom is_match inputs rs)"

definition inspect ::
  "(string \<Rightarrow> string) \<Rightarrow> (string \<Rightarrow> string \<Rightarrow> bool) \<Rightarrow> waf \<Rightarrow> string \<Rightarrow> string option \<Rightarrow> string \<Rightarrow>
     (string \<times> string) list \<Rightarrow> string \<Rightarrow> waf_verdict" where
  "inspect pd is_match w path query body headers ip =
     (if \<not> waf_enabled w then WafAllow
      else if ip \<in> set (waf_blocked_ips w) then WafBlocked (''Blocked IP: '' @ ip) ''IP_BLOCK''
      else
        (let inputs = all_inputs pd path query body headers;
             verdict = (\<lambda>reason rule. if waf_mode w = DetectOnly then WafAllow else WafBlocked reason rule)
         in case first_hit is_match inputs (waf_sql w) of
              Some i \<Rightarrow> verdict (''SQL injection detected in: '' @ safe_truncate i 50 @ ''...'') ''SQLI''
            | None \<Rightarrow>
              (case first_hit is_match inputs (waf_xss w) of
                 Some i \<Rightarrow> verdict (''XSS detected in: '' @ safe_truncate i 50 @ ''...'') ''XSS''
               | None \<Rightarrow>
                 (case first_hit is_match inputs (waf_traversal w) of
                    Some i \<Rightarrow> verdict (''Path traversal detected: '' @ safe_truncate i 50 @ ''...'') ''TRAVERSAL''
                  | None \<Rightarrow>
                    (case first_custom is_match inputs (waf_custom w) of
                       Some (r, i) \<Rightarrow> verdict (''Custom rule '' @ [CHR 0x27] @ cr_label r @ [CHR 0x27] @
                                              '' matched: '' @ safe_truncate i 50 @ ''...'') (cr_label r)
                     | None \<Rightarrow> WafAllow)))))"

section \<open>Truncation and normalisation\<close>

lemma boundary_below_le: "boundary_below s e \<le> e"
  by (induction e) auto

lemma boundary_below_boundary: "is_char_boundary s (boundary_below s e)"
  by (induction e) (auto simp: is_char_boundary_def)

text \<open>A truncated message is a prefix of bounded length that never splits a character.\<close>

lemma safe_truncate_boundary:
  "prefix (safe_truncate s n) s \<and> length (safe_truncate s n) \<le> n \<and> is_char_boundary s (length (safe_truncate s n))"
proof (cases "length s \<le> n")
  case False
  have "boundary_below s n \<le> n" by (rule boundary_below_le)
  then show ?thesis using False boundary_below_boundary [of s n]
    by (auto simp: safe_truncate_def take_is_prefix min_def)
qed (simp add: safe_truncate_def is_char_boundary_def)

lemma decode_passes_fixpoint:
  "pd t = t \<Longrightarrow> (pd ^^ k) s = t \<Longrightarrow> k \<le> n \<Longrightarrow> decode_passes pd n s = t"
proof (induction pd n s arbitrary: k rule: decode_passes.induct)
  case (2 pd n current)
  show ?case
  proof (cases "pd current = current")
    case True
    then have "(pd ^^ k) current = current" by (induction k) simp_all
    with 2 True show ?thesis by (simp add: Let_def)
  next
    case False
    with 2 obtain k' where "k = Suc k'" by (cases k) auto
    with 2 False show ?thesis by (simp add: Let_def funpow_swap1)
  qed
qed simp

text \<open>
  Decoding does not only yield printable characters, as the comment in the source says: a
  C escape becomes any character up to U+00FF, and a sign is read as part of the number.
\<close>

lemma unicode_escape_not_only_printable:
  "unicode_escape_decode [CHR 0x5C, CHR ''x'', CHR ''0'', CHR ''0''] = [CHR 0x00]"
  "unicode_escape_decode [CHR 0x5C, CHR ''x'', CHR ''+'', CHR ''9''] = [CHR 0x09]"
  "unicode_escape_decode [CHR 0x5C, CHR ''u'', CHR ''0'', CHR ''4'', CHR ''3'', CHR ''0''] = [CHR 0xD0, CHR 0xB0]"
  by (simp_all add: json_escape_def c_escape_def hex_u32_def from_str_radix_def is_digit_def to_digit_def
      digits_value_def char_from_u32_def u32_max_def utf8_encode_def) code_simp+

section \<open>Verdicts\<close>

definition waf_patterns :: "waf \<Rightarrow> string list" where
  "waf_patterns w = waf_sql w @ waf_xss w @ waf_traversal w @ map cr_pattern_src (waf_custom w)"

lemma first_hit_None: "first_hit is_match inputs patterns = None \<longleftrightarrow>
    (\<forall>i \<in> set inputs. \<forall>p \<in> set patterns. \<not> is_match p i)"
  by (auto simp: first_hit_def find_None_iff list_ex_iff)

lemma first_custom_None: "first_custom is_match inputs rules = None \<longleftrightarrow>
    (\<forall>i \<in> set inputs. \<forall>r \<in> set rules. \<not> is_match (cr_pattern_src r) i)"
  by (induction rules) (auto simp: find_None_iff find_Some_iff split: option.split)

lemma inspect_allow:
  "inspect pd is_match w path query body headers ip = WafAllow \<longleftrightarrow>
     \<not> waf_enabled w \<or>
     (ip \<notin> set (waf_blocked_ips w) \<and>
      (waf_mode w = DetectOnly \<or>
       (\<forall>i \<in> set (all_inputs pd path query body headers). \<forall>p \<in> set (waf_patterns w). \<not> is_match p i)))"
  (is "?l \<longleftrightarrow> _ \<or> (_ \<and> (_ \<or> ?clean))")
proof -
  let ?in = "all_inputs pd path query body headers"
  have clean: "?clean \<longleftrightarrow>
      first_hit is_match ?in (waf_sql w) = None \<and> first_hit is_match ?in (waf_xss w) = None \<and>
      first_hit is_match ?in (waf_traversal w) = None \<and> first_custom is_match ?in (waf_custom w) = None"
    unfolding first_hit_None first_custom_None waf_patterns_def by auto
  show ?thesis unfolding clean inspect_def
    by (auto simp: Let_def split: option.split)
qed

lemma all_inputs_normal:
  assumes "s \<in> {path, q, body} \<or> (\<exists>name. (name, s) \<in> set headers \<and> \<not> is_structured_header name)"
  shows "normalize_input pd s \<in> set (all_inputs pd path (Some q) body headers)"
  using assms by (force simp: all_inputs_def)

text \<open>
  C20: A payload does not pass an enabled blocking firewall by hiding behind percent encoding.
  If up to four decodings of the path, the query, the body or a free-text header value lead
  to a text that decodes no further, and that text, with its escapes decoded and in lower
  case, matches a built-in or custom pattern, then the request is blocked.
\<close>

theorem waf_no_encoding_bypass:
  assumes "waf_enabled w" "waf_mode w = WafBlock"
    and "s \<in> {path, query, body} \<or> (\<exists>name. (name, s) \<in> set headers \<and> \<not> is_structured_header name)"
    and "(pd ^^ k) s = t" "k \<le> 4" "pd t = t"
    and "p \<in> set (waf_patterns w)" "is_match p (to_ascii_lowercase (unicode_escape_decode t))"
  shows "\<exists>reason rule. inspect pd is_match w path (Some query) body headers ip = WafBlocked reason rule"
proof -
  have "normalize_input pd s = to_ascii_lowercase (unicode_escape_decode t)"
    using decode_passes_fixpoint [OF assms(6,4,5)] by (simp add: normalize_input_def)
  with all_inputs_normal [OF assms(3)] assms
  have "inspect pd is_match w path (Some query) body headers ip \<noteq> WafAllow"
    unfolding inspect_allow by (metis waf_mode.distinct(1))
  then show ?thesis by (cases "inspect pd is_match w path (Some query) body headers ip") auto
qed

text \<open>Here one decoding drops a leading per cent sign, and a pattern matches itself.\<close>

theorem waf_no_encoding_bypass_witness:
  "let pd = dropWhile ((=) (CHR ''%'')) in
   \<exists>reason rule. inspect pd (=) (fst (add_custom_pattern (\<lambda>_. None) 0 ''bad'' [] (waf_new True WafBlock)))
     ''/'' (Some ''%Bad'') [] [] ''ip'' = WafBlocked reason rule"
  unfolding Let_def
  by (rule waf_no_encoding_bypass [where s = "''%Bad''" and k = 1 and t = "''Bad''" and p = "''bad''"])
    (simp_all add: waf_new_def add_custom_pattern_def waf_fresh_id_def apply_add_pattern_with_id_def
      waf_patterns_def wrap_add64_def u64_max_def, code_simp)

section \<open>Rule identifiers\<close>

text \<open>Identifiers are distinct and below the counter, as long as the counter does not overflow.\<close>

definition rules_wf :: "waf \<Rightarrow> bool" where
  "rules_wf w \<longleftrightarrow> distinct (map cr_id (waf_custom w)) \<and> (\<forall>r \<in> set (waf_custom w). cr_id r < waf_next_rule_id w)"

lemma rules_wf_new [simp]: "rules_wf (waf_new enabled mode)"
  by (simp add: rules_wf_def waf_new_def)

lemma rules_wf_apply_add:
  "rules_wf w \<Longrightarrow> rule_id < u64_max \<Longrightarrow> rules_wf (fst (apply_add_pattern_with_id regex_error now rule_id src label w))"
  by (fastforce simp: rules_wf_def apply_add_pattern_with_id_def Let_def list_ex_iff wrap_add64_exact
      split: option.split)

lemma rules_wf_fresh:
  "rules_wf w \<Longrightarrow> waf_next_rule_id w < u64_max \<Longrightarrow> rules_wf (fst (waf_fresh_id w))"
  by (auto simp: rules_wf_def waf_fresh_id_def wrap_add64_exact)

lemma rules_wf_remove: "rules_wf w \<Longrightarrow> rules_wf (fst (apply_remove_pattern rule_id w))"
  by (auto simp: rules_wf_def apply_remove_pattern_def Let_def distinct_map inj_on_def)

text \<open>A locally added rule gets an identifier of its own, is in force, and is published.\<close>

lemma add_custom_pattern_adds:
  assumes "rules_wf w" "waf_next_rule_id w < u64_max" "regex_error src = None"
  shows "\<exists>r. waf_custom (fst (add_custom_pattern regex_error now src label w)) = waf_custom w @ [r] \<and>
      cr_id r = waf_next_rule_id w \<and> cr_pattern_src r = src \<and>
      waf_published (fst (add_custom_pattern regex_error now src label w)) =
        waf_published w @ [WafRuleAdded (cr_id r) src label]"
    and "rules_wf (fst (add_custom_pattern regex_error now src label w))"
proof -
  have fresh: "\<not> list_ex (\<lambda>r. cr_id r = waf_next_rule_id w) (waf_custom w)"
    using assms(1) by (auto simp: rules_wf_def list_ex_iff)
  show "\<exists>r. waf_custom (fst (add_custom_pattern regex_error now src label w)) = waf_custom w @ [r] \<and>
      cr_id r = waf_next_rule_id w \<and> cr_pattern_src r = src \<and>
      waf_published (fst (add_custom_pattern regex_error now src label w)) =
        waf_published w @ [WafRuleAdded (cr_id r) src label]"
    using assms fresh
    by (auto simp: add_custom_pattern_def waf_fresh_id_def apply_add_pattern_with_id_def Let_def wrap_add64_exact)
  show "rules_wf (fst (add_custom_pattern regex_error now src label w))"
    using assms fresh
    by (auto simp: add_custom_pattern_def waf_fresh_id_def apply_add_pattern_with_id_def Let_def wrap_add64_exact
        rules_wf_def)
qed

text \<open>When the counter overflows, a local rule is accepted and published but not enforced.\<close>

lemma add_after_overflow:
  "map cr_id (waf_custom (fst (add_custom_pattern (\<lambda>_. None) 0 ''q'' []
     (fst (apply_add_pattern_with_id (\<lambda>_. None) 0 u64_max ''r'' [] (w\<lparr>waf_custom := [\<lparr>cr_id = 0, cr_pattern_src = ''p'',
        cr_label = ''L'', cr_created_at = 0\<rparr>], waf_next_rule_id := 1\<rparr>)))))) = [0, u64_max]"
  by (simp add: add_custom_pattern_def waf_fresh_id_def apply_add_pattern_with_id_def wrap_add64_def u64_max_def)

subsection \<open>Two nodes\<close>

text \<open>
  When every addition reaches the other node before the next one, both nodes hold the same
  rules under the same identifiers.
\<close>

definition same_rules :: "waf \<Rightarrow> waf \<Rightarrow> bool" where
  "same_rules a b \<longleftrightarrow> waf_custom a = waf_custom b \<and> waf_next_rule_id a = waf_next_rule_id b"

lemma serial_add_coherent:
  assumes "same_rules a b" "rules_wf a" "waf_next_rule_id a < u64_max" "regex_error src = None"
  shows "same_rules (fst (add_custom_pattern regex_error now src label a))
    (waf_handle regex_error now (WafRuleAdded (waf_next_rule_id a) src label) b)"
  using assms
  by (auto simp: same_rules_def rules_wf_def waf_handle_def add_custom_pattern_def waf_fresh_id_def
      apply_add_pattern_with_id_def Let_def list_ex_iff wrap_add64_exact)

lemma serial_remove_coherent:
  "same_rules a b \<Longrightarrow>
   same_rules (fst (remove_custom_pattern rule_id a)) (waf_handle regex_error now (WafRuleRemoved rule_id) b)"
  by (simp add: same_rules_def waf_handle_def remove_custom_pattern_def apply_remove_pattern_def Let_def)

text \<open>
  Identifiers are not coherent across nodes, against the comment on them. Two fresh nodes
  that each add a rule before they hear of the other's give both rules the identifier 1;
  each then skips the other's event as a duplicate, so each node enforces only its own rule.
  Removing rule 1 on one node afterwards removes a different rule on the other.
\<close>

theorem waf_concurrent_rules_diverge:
  assumes "regex_error p = None" "regex_error q = None"
    and "a = fst (add_custom_pattern regex_error now p lp (waf_new True mode))"
    and "b = fst (add_custom_pattern regex_error now q lq (waf_new True mode))"
  shows "map cr_pattern_src (waf_custom (fold (waf_handle regex_error later) (waf_published b) a)) = [p] \<and>
    map cr_pattern_src (waf_custom (fold (waf_handle regex_error later) (waf_published a) b)) = [q] \<and>
    waf_custom (fold (waf_handle regex_error later) (waf_published a @ [WafRuleRemoved 1]) b) = []"
  using assms
  by (simp add: add_custom_pattern_def waf_fresh_id_def apply_add_pattern_with_id_def waf_new_def
      waf_handle_def apply_remove_pattern_def wrap_add64_def u64_max_def)

theorem waf_concurrent_rules_diverge_witness:
  "map cr_pattern_src (waf_custom (fold (waf_handle (\<lambda>_. None) 1)
     (waf_published (fst (add_custom_pattern (\<lambda>_. None) 0 ''q'' [] (waf_new True WafBlock))))
     (fst (add_custom_pattern (\<lambda>_. None) 0 ''p'' [] (waf_new True WafBlock))))) = [''p'']"
  by (rule waf_concurrent_rules_diverge [OF _ _ refl refl, THEN conjunct1]) simp_all

end
