(* ===== verification/Jwt.thy ===== *)
theory Jwt
  imports Session_Auth
begin

text \<open>
  src/src/middleware/jwt.rs: the JWT middleware. Token decoding (the jsonwebtoken crate) is a
  parameter \<open>decode key validation token\<close>, so is the parsing of an RSA key; the model fixes
  which validation the code asks for and which requests need a token at all. The wrapped
  service is the answer \<open>JwtPass\<close>.
\<close>

section \<open>Construction\<close>

datatype jwt_algorithm = HS256 | HS384 | HS512 | RS256

datatype jwt_init_error =
    WeakSecret nat
  | DefaultSecret
  | InvalidRsaPem string
  | UnsupportedAlgorithm string

datatype 'k jwt_key = Hmac string | RsaPem 'k

record 'k jwt_auth =
  jwt_key :: "'k jwt_key"
  jwt_algorithm :: jwt_algorithm
  jwt_issuer :: "string option"
  jwt_audience :: "string option"
  jwt_enabled :: bool

definition ascii_upper :: "char \<Rightarrow> char" where
  "ascii_upper c =
     (let n = of_char c :: nat in if 97 \<le> n \<and> n \<le> 122 then char_of (n - 32) else c)"

text \<open>
  \<open>to_uppercase\<close> (Unicode), as far as a comparison with the names below can see: of the
  non-ASCII letters only the long s has an ASCII capital that occurs in them.
\<close>

fun to_uppercase :: "string \<Rightarrow> string" where
  "to_uppercase [] = []"
| "to_uppercase (c # cs) =
     (if map of_char (take 2 (c # cs)) = [0xC5, 0xBF :: nat] then CHR ''S'' # to_uppercase (drop 1 cs)
      else ascii_upper c # to_uppercase cs)"

definition is_default_jwt_secret :: "string \<Rightarrow> bool" where
  "is_default_jwt_secret s \<longleftrightarrow> s \<in>
     {'''', ''your-jwt-secret-key-here'', ''change-me'', ''changeme'', ''secret'', ''jwt-secret'',
      ''xira-secret-key-change-me''}"

definition jwt_new_with_audience ::
  "(string \<Rightarrow> string + 'k) \<Rightarrow> string \<Rightarrow> string \<Rightarrow> string option \<Rightarrow> string option \<Rightarrow> bool \<Rightarrow>
     jwt_init_error + 'k jwt_auth" where
  "jwt_new_with_audience from_rsa_pem secret algorithm_str issuer audience enabled =
     (let upper = to_uppercase algorithm_str;
          make = (\<lambda>key alg. \<lparr>jwt_key = key, jwt_algorithm = alg, jwt_issuer = issuer,
                             jwt_audience = audience, jwt_enabled = enabled\<rparr>);
          algorithm = (if upper = ''HS256'' then Inr HS256 else if upper = ''HS384'' then Inr HS384
                       else if upper = ''HS512'' then Inr HS512 else if upper = ''RS256'' then Inr RS256
                       else Inl (UnsupportedAlgorithm upper))
      in and_then algorithm (\<lambda>alg.
           if \<not> enabled then Inr (make (Hmac secret) alg)
           else if is_default_jwt_secret secret then Inl DefaultSecret
           else if alg = RS256
           then and_then (map_err InvalidRsaPem (from_rsa_pem secret)) (\<lambda>dk. Inr (make (RsaPem dk) alg))
           else if length secret < 32 then Inl (WeakSecret (length secret))
           else Inr (make (Hmac secret) alg)))"

definition jwt_new ::
  "(string \<Rightarrow> string + 'k) \<Rightarrow> string \<Rightarrow> string \<Rightarrow> string option \<Rightarrow> bool \<Rightarrow> jwt_init_error + 'k jwt_auth" where
  "jwt_new from_rsa_pem secret algorithm_str issuer enabled =
     jwt_new_with_audience from_rsa_pem secret algorithm_str issuer None enabled"

section \<open>Paths\<close>

definition push_segment :: "string list \<Rightarrow> string \<Rightarrow> string list" where
  "push_segment stack seg =
     (if seg = '''' \<or> seg = ''.'' then stack
      else if seg = ''..'' then butlast stack
      else stack @ [seg])"

definition normalize_path :: "string \<Rightarrow> string" where
  "normalize_path p =
     (let leading_slash = prefix ''/'' p;
          trailing_slash = 1 < length p \<and> suffix ''/'' p;
          stack = foldl push_segment [] (split_on CHR ''/'' p);
          out = (if leading_slash then ''/'' else []) @ join_with ''/'' stack
      in if trailing_slash \<and> \<not> suffix ''/'' out then out @ ''/'' else out)"

definition is_exempt_path :: "string \<Rightarrow> bool" where
  "is_exempt_path path \<longleftrightarrow>
     path \<in> {''/metrics'', ''/health'', ''/dashboard'', ''/ws/dashboard'', ''/ws/metrics''} \<or>
     prefix ''/xira/'' path \<or> path = ''/xira'' \<or> prefix ''/auth/'' path \<or> path = ''/auth''"

section \<open>A request\<close>

text \<open>The fields of the crate's \<open>Validation\<close> the code sets.\<close>

record jwt_validation =
  val_algorithms :: "jwt_algorithm list"
  val_exp :: bool
  val_leeway :: nat
  val_required :: "string list"
  val_issuer :: "string list option"
  val_audience :: "string list option"
  val_aud :: bool

definition jwt_validation_of :: "'k jwt_auth \<Rightarrow> jwt_validation" where
  "jwt_validation_of j =
     \<lparr>val_algorithms = [jwt_algorithm j], val_exp = True, val_leeway = 0, val_required = [''exp''],
      val_issuer = map_option (\<lambda>iss. [iss]) (jwt_issuer j),
      val_audience = map_option (\<lambda>aud. [aud]) (jwt_audience j),
      val_aud = (jwt_audience j \<noteq> None)\<rparr>"

datatype jwt_answer = JwtPass | JwtMissing | JwtInvalid

definition jwt_call ::
  "('k jwt_key \<Rightarrow> jwt_validation \<Rightarrow> string \<Rightarrow> bool) \<Rightarrow> 'k jwt_auth \<Rightarrow> string \<Rightarrow> string option \<Rightarrow> jwt_answer" where
  "jwt_call decode j raw_path authz =
     (if \<not> jwt_enabled j then JwtPass
      else if is_exempt_path (normalize_path raw_path) then JwtPass
      else case Option.bind authz (strip_prefix ''Bearer '') of
             None \<Rightarrow> JwtMissing
           | Some token \<Rightarrow> if decode (jwt_key j) (jwt_validation_of j) token then JwtPass else JwtInvalid)"

section \<open>Normalised paths\<close>

definition clean_segment :: "string \<Rightarrow> bool" where
  "clean_segment seg \<longleftrightarrow> seg \<notin> {'''', ''.'', ''..''} \<and> CHR ''/'' \<notin> set seg"

lemma push_segment_clean:
  "list_all clean_segment stack \<Longrightarrow> CHR ''/'' \<notin> set seg \<Longrightarrow> list_all clean_segment (push_segment stack seg)"
  by (auto simp: push_segment_def clean_segment_def list_all_iff dest: in_set_butlastD)

lemma push_clean:
  "list_all clean_segment stack \<Longrightarrow> \<forall>seg \<in> set segs. CHR ''/'' \<notin> set seg \<Longrightarrow>
   list_all clean_segment (foldl push_segment stack segs)"
  by (induction segs arbitrary: stack) (simp_all add: push_segment_clean)

lemma path_stack_clean: "list_all clean_segment (foldl push_segment [] (split_on CHR ''/'' p))"
  by (rule push_clean) (use split_on_no_sep in auto)

lemma push_clean_segments:
  "list_all clean_segment segs \<Longrightarrow> foldl push_segment stack segs = stack @ segs"
  by (induction segs arbitrary: stack) (auto simp: push_segment_def clean_segment_def)

lemma split_on_join:
  "segs \<noteq> [] \<Longrightarrow> list_all clean_segment segs \<Longrightarrow> split_on CHR ''/'' (join_with ''/'' segs) = segs"
proof (induction "''/''" segs rule: join_with.induct)
  case (2 x)
  then show ?case by (simp add: clean_segment_def split_on_single)
next
  case (3 x y xs)
  then show ?case by (simp add: clean_segment_def split_on_append split_on_single)
qed simp

lemma foldl_push_slash [simp]:
  "foldl push_segment stack (split_on CHR ''/'' (s @ ''/'')) = foldl push_segment stack (split_on CHR ''/'' s)"
  by (simp add: split_on_append push_segment_def)

text \<open>The result of normalising an absolute path has no empty, dot or dot-dot segments.\<close>

lemma normalize_path_clean:
  assumes "prefix ''/'' p"
  shows "\<exists>segs. list_all clean_segment segs \<and>
    normalize_path p \<in> {''/'' @ join_with ''/'' segs, ''/'' @ join_with ''/'' segs @ ''/''}"
  using path_stack_clean [of p] assms by (auto simp: normalize_path_def Let_def)

lemma join_clean_no_end:
  "segs \<noteq> [] \<Longrightarrow> list_all clean_segment segs \<Longrightarrow>
   join_with ''/'' segs \<noteq> [] \<and> last (join_with ''/'' segs) \<noteq> CHR ''/''"
proof (induction "''/''" segs rule: join_with.induct)
  case (2 x)
  then show ?case using last_in_set [of x] by (auto simp: clean_segment_def simp del: last_in_set)
qed simp_all

lemma normalize_stack:
  assumes "list_all clean_segment segs"
  shows "normalize_path (''/'' @ join_with ''/'' segs) = ''/'' @ join_with ''/'' segs"
    and "segs \<noteq> [] \<Longrightarrow> normalize_path (''/'' @ join_with ''/'' segs @ ''/'') = ''/'' @ join_with ''/'' segs @ ''/''"
proof -
  have stack: "foldl push_segment [] (split_on CHR ''/'' (''/'' @ join_with ''/'' segs)) = segs"
  proof (cases "segs = []")
    case False
    with assms have "split_on CHR ''/'' (''/'' @ join_with ''/'' segs) = [] # segs"
      by (simp add: split_on_join)
    then show ?thesis using push_clean_segments [OF assms, of "[]"] by (simp add: push_segment_def)
  qed (simp add: push_segment_def)
  show "normalize_path (''/'' @ join_with ''/'' segs) = ''/'' @ join_with ''/'' segs"
  proof (cases "segs = []")
    case False
    show ?thesis
      using stack join_clean_no_end [OF False assms] by (simp add: normalize_path_def Let_def suffix_single)
  qed (simp add: normalize_path_def push_segment_def)
  assume ne: "segs \<noteq> []"
  have "foldl push_segment [] (split_on CHR ''/'' ((''/'' @ join_with ''/'' segs) @ ''/'')) = segs"
    unfolding foldl_push_slash by (rule stack)
  then show "normalize_path (''/'' @ join_with ''/'' segs @ ''/'') = ''/'' @ join_with ''/'' segs @ ''/''"
    using join_clean_no_end [OF ne assms] by (simp add: normalize_path_def Let_def suffix_single)
qed

lemma normalize_path_idem:
  assumes "prefix ''/'' p"
  shows "normalize_path (normalize_path p) = normalize_path p"
proof -
  let ?segs = "foldl push_segment [] (split_on CHR ''/'' p)"
  have "normalize_path p = ''/'' @ join_with ''/'' ?segs \<or>
      (?segs \<noteq> [] \<and> normalize_path p = ''/'' @ join_with ''/'' ?segs @ ''/'')"
    using assms by (cases "?segs = []") (simp_all add: normalize_path_def Let_def)
  then show ?thesis using normalize_stack [OF path_stack_clean [of p]] by metis
qed

section \<open>What construction and the middleware guarantee\<close>

text \<open>
  C18: An enabled middleware is never built on a weak key. When construction succeeds the
  secret is none of the known defaults, an HMAC secret has at least 32 bytes, RS256 always
  carries a parsed key, and every token is then checked with exactly the configured
  algorithm, a required expiry without leeway, and the issuer and audience when configured.
\<close>

theorem jwt_construction_safe:
  assumes "jwt_new_with_audience from_rsa_pem secret algorithm_str issuer audience True = Inr j"
  shows "\<not> is_default_jwt_secret secret \<and>
    (if jwt_algorithm j = RS256 then \<exists>dk. from_rsa_pem secret = Inr dk \<and> jwt_key j = RsaPem dk
     else 32 \<le> length secret \<and> jwt_key j = Hmac secret) \<and>
    jwt_enabled j \<and> jwt_issuer j = issuer \<and> jwt_audience j = audience \<and>
    (jwt_call decode j raw_path authz = JwtPass \<longleftrightarrow>
       is_exempt_path (normalize_path raw_path) \<or>
       (\<exists>token. authz = Some (''Bearer '' @ token) \<and>
          decode (jwt_key j) \<lparr>val_algorithms = [jwt_algorithm j], val_exp = True, val_leeway = 0,
            val_required = [''exp''], val_issuer = map_option (\<lambda>i. [i]) issuer,
            val_audience = map_option (\<lambda>a. [a]) audience, val_aud = (audience \<noteq> None)\<rparr> token))"
proof -
  have built: "\<not> is_default_jwt_secret secret \<and>
    (if jwt_algorithm j = RS256 then \<exists>dk. from_rsa_pem secret = Inr dk \<and> jwt_key j = RsaPem dk
     else 32 \<le> length secret \<and> jwt_key j = Hmac secret) \<and>
    jwt_enabled j \<and> jwt_issuer j = issuer \<and> jwt_audience j = audience"
    using assms
    by (auto simp: jwt_new_with_audience_def Let_def result_simps split: if_splits)
  then have "jwt_call decode j raw_path authz = JwtPass \<longleftrightarrow> is_exempt_path (normalize_path raw_path) \<or>
      (\<exists>token. Option.bind authz (strip_prefix ''Bearer '') = Some token \<and>
        decode (jwt_key j) (jwt_validation_of j) token)"
    by (simp add: jwt_call_def split: option.split)
  moreover have "Option.bind authz (strip_prefix ''Bearer '') = Some token \<longleftrightarrow> authz = Some (''Bearer '' @ token)"
    for token by (cases authz) (simp_all only: Option.bind.simps strip_prefix_eq option.inject option.distinct)
  ultimately show ?thesis
    using built by (simp only: jwt_validation_of_def simp_thms if_cancel cong: if_cong)
qed

theorem jwt_construction_safe_witness:
  "\<exists>j :: unit jwt_auth.
     jwt_new_with_audience Inl (replicate 32 CHR ''k'') ''hs256'' None None True = Inr j \<and>
     jwt_call (\<lambda>_ _ _. True) j ''/xira/status'' None = JwtPass"
proof -
  let ?r = "jwt_new_with_audience Inl (replicate 32 CHR ''k'') ''hs256'' None None True :: jwt_init_error + unit jwt_auth"
  have "isl ?r = False" by code_simp
  then have "\<exists>j. ?r = Inr j" by (cases ?r) simp_all
  then obtain j where j: "?r = Inr j" ..
  have "is_exempt_path (normalize_path ''/xira/status'')" by code_simp
  then show ?thesis
    using jwt_construction_safe [OF j, of "\<lambda>_ _ _. True" "''/xira/status''" None] j by blast
qed

end
