(* ===== verification/Gate_Auth.thy ===== *)
theory Gate_Auth
  imports Session_Auth Users
begin

text \<open>
  The two middlewares that guard the administration: src/src/middleware/auth.rs, the shared
  API key in front of \<open>/xira\<close>, and src/src/middleware/require_role.rs, the role check behind
  the session middleware. The wrapped service is the passing answer.
\<close>

section \<open>The API key\<close>

text \<open>Both branches compare in constant time; the comparison of unequal lengths is discarded.\<close>

definition ct_eq_str :: "string \<Rightarrow> string \<Rightarrow> bool" where
  "ct_eq_str a b = (if length a \<noteq> length b then False else list_all2 (=) a b)"

datatype api_answer = ApiPass | WrongKey | MissingKey

definition api_key_call :: "string \<Rightarrow> string \<Rightarrow> string option \<Rightarrow> api_answer" where
  "api_key_call expected path provided =
     (if \<not> prefix ''/xira'' path then ApiPass
      else case provided of
             Some key \<Rightarrow> if ct_eq_str key expected then ApiPass else WrongKey
           | None \<Rightarrow> MissingKey)"

lemma ct_eq_str_eq [simp]: "ct_eq_str a b \<longleftrightarrow> a = b"
  by (auto simp: ct_eq_str_def list.rel_eq)

lemma api_key_exact:
  "api_key_call expected path provided = ApiPass \<longleftrightarrow> \<not> prefix ''/xira'' path \<or> provided = Some expected"
  by (auto simp: api_key_call_def split: option.splits)

section \<open>Roles\<close>

datatype role_answer = RolePass | SessionRequired | UserNotFound | InsufficientRole string string

definition require_role_call :: "user_role \<Rightarrow> user_mgr \<Rightarrow> session_info option \<Rightarrow> role_answer" where
  "require_role_call min_role um info =
     (case info of
        None \<Rightarrow> SessionRequired
      | Some s \<Rightarrow>
          (case user_role_of (info_user_id s) um of
             None \<Rightarrow> UserNotFound
           | Some r \<Rightarrow>
               if \<not> role_satisfies r min_role
               then InsufficientRole (role_as_str min_role) (role_as_str r)
               else RolePass))"

text \<open>
  The scope \<open>/auth/admin\<close> wraps the role check in the session middleware: the session is
  checked first, and the role is that of the user the session names.
\<close>

definition admin_scope ::
  "(string \<Rightarrow> string) \<Rightarrow> nat \<Rightarrow> user_role \<Rightarrow> user_mgr \<Rightarrow> sess_request \<Rightarrow> session_mgr \<Rightarrow>
     session_mgr \<times> (session_answer + role_answer)" where
  "admin_scope hsh now min_role um req sm =
     (case session_auth_call hsh now req sm of
        (sm', Authenticated info) \<Rightarrow> (sm', Inr (require_role_call min_role um (Some info)))
      | (sm', a) \<Rightarrow> (sm', Inl a))"

text \<open>
  C19: Who gets into the administration. A handler of the scope runs exactly when the token of
  the request names a session that is active, not expired and not bound to another address,
  the user of that session still exists, and the role of that user satisfies the required
  one. For the built-in super-administrator role this means that very role.
\<close>

theorem admin_scope_exact:
  "(snd (admin_scope hsh now min_role um req sm) = Inr RolePass \<longleftrightarrow>
     (\<exists>t s u. session_token_of req = Some t \<and> dm_get (sessions sm) (hsh t) = Some s \<and> live now s \<and>
        \<not> ip_mismatch s (Some (case sess_peer req of Some a \<Rightarrow> show_ip a | None \<Rightarrow> [])) \<and>
        dm_get (users um) (sess_user s) = Some u \<and> role_satisfies (role u) min_role)) \<and>
   (role_satisfies r SuperAdmin \<longleftrightarrow> r = SuperAdmin)"
proof
  have role: "require_role_call min_role um (Some info) = RolePass \<longleftrightarrow>
      (\<exists>u. dm_get (users um) (info_user_id info) = Some u \<and> role_satisfies (role u) min_role)" for info
    by (auto simp: require_role_call_def user_role_of_def split: option.splits)
  have "snd (admin_scope hsh now min_role um req sm) = Inr RolePass \<longleftrightarrow>
      (\<exists>info. snd (session_auth_call hsh now req sm) = Authenticated info \<and>
         require_role_call min_role um (Some info) = RolePass)"
    by (auto simp: admin_scope_def split: prod.splits session_answer.splits)
  also have "\<dots> \<longleftrightarrow> (\<exists>t s u. session_token_of req = Some t \<and> dm_get (sessions sm) (hsh t) = Some s \<and> live now s \<and>
        \<not> ip_mismatch s (Some (case sess_peer req of Some a \<Rightarrow> show_ip a | None \<Rightarrow> [])) \<and>
        dm_get (users um) (sess_user s) = Some u \<and> role_satisfies (role u) min_role)"
    unfolding session_auth_iff role by auto
  finally show "snd (admin_scope hsh now min_role um req sm) = Inr RolePass \<longleftrightarrow>
     (\<exists>t s u. session_token_of req = Some t \<and> dm_get (sessions sm) (hsh t) = Some s \<and> live now s \<and>
        \<not> ip_mismatch s (Some (case sess_peer req of Some a \<Rightarrow> show_ip a | None \<Rightarrow> [])) \<and>
        dm_get (users um) (sess_user s) = Some u \<and> role_satisfies (role u) min_role)" .
  show "role_satisfies r SuperAdmin \<longleftrightarrow> r = SuperAdmin"
    by (cases r) (simp_all add: role_satisfies_def)
qed

end
