(* ===== verification/Api_Keys.thy ===== *)
theory Api_Keys
  imports Interfaces
begin

text \<open>
  src/src/middleware/api_keys.rs: the manager of several API keys. The wall clock (seconds)
  and the fresh UUID are arguments. \<open>rotate_key\<close> needs one thing more than a map: the read
  guard of \<open>get\<close> is alive while \<open>disable_key\<close> asks for the write lock of the same shard,
  and the locks of a \<open>DashMap\<close> are not reentrant.
\<close>

datatype api_key_role = AdminKey | ReadOnly | ServiceKey | CustomKey "string list"

record api_key_entry =
  ak_key :: string
  ak_name :: string
  ak_role :: api_key_role
  ak_created_at :: nat
  ak_expires_at :: "nat option"
  ak_rate_limit :: "nat option"
  ak_allowed_prefixes :: "string list"
  ak_enabled :: bool
  ak_request_count :: nat
  ak_last_used :: nat

datatype key_validation =
    ValidKey api_key_entry
  | KeyExpired
  | KeyDisabled
  | KeyNotFound
  | KeyRateLimited
  | PrefixDenied

type_synonym api_keys = "(string, api_key_entry) dashmap"

text \<open>The uuid is printed with dashes, which are then removed.\<close>

definition new_key :: "string \<Rightarrow> string" where
  "new_key uuid_text = ''xira_'' @ filter (\<lambda>c. c \<noteq> CHR ''-'') uuid_text"

definition create_key ::
  "nat \<Rightarrow> string \<Rightarrow> string \<Rightarrow> api_key_role \<Rightarrow> nat option \<Rightarrow> string list \<Rightarrow> nat option \<Rightarrow> api_keys \<Rightarrow> api_keys \<times> string" where
  "create_key now uuid_text name r limit pfs ttl_secs ks =
     (let key = new_key uuid_text
      in (dm_insert key
            \<lparr>ak_key = key, ak_name = name, ak_role = r, ak_created_at = now,
             ak_expires_at = map_option (\<lambda>ttl. wrap_add64 now ttl) ttl_secs, ak_rate_limit = limit,
             ak_allowed_prefixes = pfs, ak_enabled = True, ak_request_count = 0, ak_last_used = 0\<rparr> ks,
          key))"

definition validate_key :: "nat \<Rightarrow> string \<Rightarrow> string \<Rightarrow> api_keys \<Rightarrow> key_validation" where
  "validate_key now key path ks =
     (case dm_get ks key of
        None \<Rightarrow> KeyNotFound
      | Some e \<Rightarrow>
          if \<not> ak_enabled e then KeyDisabled
          else if (case ak_expires_at e of Some expires \<Rightarrow> expires < now | None \<Rightarrow> False) then KeyExpired
          else if ak_allowed_prefixes e \<noteq> [] \<and> \<not> list_ex (\<lambda>p. prefix p path) (ak_allowed_prefixes e)
          then PrefixDenied
          else ValidKey e)"

definition record_usage :: "nat \<Rightarrow> string \<Rightarrow> api_keys \<Rightarrow> api_keys" where
  "record_usage now key ks =
     dm_update key (\<lambda>e. e\<lparr>ak_request_count := wrap_add64 (ak_request_count e) 1, ak_last_used := now\<rparr>) ks"

text \<open>
  A lock request of a thread that holds read guards: asking for the write lock of a shard it
  has read-locked never returns (\<open>None\<close>). \<open>shard\<close> is the shard of a key.
\<close>

definition lock_write :: "(string \<Rightarrow> nat) \<Rightarrow> nat list \<Rightarrow> string \<Rightarrow> 'a \<Rightarrow> 'a option" where
  "lock_write shard held key x = (if shard key \<in> set held then None else Some x)"

definition disable_key_locked ::
  "(string \<Rightarrow> nat) \<Rightarrow> nat list \<Rightarrow> string \<Rightarrow> api_keys \<Rightarrow> (api_keys \<times> bool) option" where
  "disable_key_locked shard held key ks =
     lock_write shard held key
       (case dm_get ks key of
          Some e \<Rightarrow> (dm_insert key (e\<lparr>ak_enabled := False\<rparr>) ks, True)
        | None \<Rightarrow> (ks, False))"

definition disable_key :: "string \<Rightarrow> api_keys \<Rightarrow> api_keys \<times> bool" where
  "disable_key key ks = the (disable_key_locked (\<lambda>_. 0) [] key ks)"

definition create_key_locked ::
  "(string \<Rightarrow> nat) \<Rightarrow> nat list \<Rightarrow> nat \<Rightarrow> string \<Rightarrow> string \<Rightarrow> api_key_role \<Rightarrow> nat option \<Rightarrow> string list \<Rightarrow>
     nat option \<Rightarrow> api_keys \<Rightarrow> (api_keys \<times> string) option" where
  "create_key_locked shard held now uuid_text name r limit pfs ttl_secs ks =
     lock_write shard held (new_key uuid_text) (create_key now uuid_text name r limit pfs ttl_secs ks)"

definition rotate_key ::
  "(string \<Rightarrow> nat) \<Rightarrow> nat \<Rightarrow> string \<Rightarrow> string \<Rightarrow> api_keys \<Rightarrow> (api_keys \<times> string option) option" where
  "rotate_key shard now uuid_text old_key ks =
     (case dm_get ks old_key of
        Some e \<Rightarrow>
          (let held = [shard old_key]
           in Option.bind (disable_key_locked shard held old_key ks) (\<lambda>(ks1, _).
              map_option (\<lambda>(ks2, key). (ks2, Some key))
                (create_key_locked shard held now uuid_text (ak_name e) (ak_role e) (ak_rate_limit e)
                   (ak_allowed_prefixes e) None ks1)))
      | None \<Rightarrow> Some (ks, None))"

definition import_legacy_key :: "nat \<Rightarrow> string \<Rightarrow> api_keys \<Rightarrow> api_keys" where
  "import_legacy_key now key ks =
     dm_insert key
       \<lparr>ak_key = key, ak_name = ''legacy-admin'', ak_role = AdminKey, ak_created_at = now,
        ak_expires_at = None, ak_rate_limit = None, ak_allowed_prefixes = [], ak_enabled = True,
        ak_request_count = 0, ak_last_used = 0\<rparr> ks"

definition key_count :: "api_keys \<Rightarrow> nat" where
  "key_count ks = length ks"

text \<open>The three bytes of the ellipsis.\<close>

definition ellipsis :: string where
  "ellipsis = [CHR 0xE2, CHR 0x80, CHR 0xA6]"

definition preview_key :: "string \<Rightarrow> string" where
  "preview_key key =
     (if length key \<le> 12 then concat (take 2 (utf8_chars key)) @ ellipsis
      else concat (take 8 (utf8_chars key)) @ ellipsis @
           concat (rev (take 4 (rev (utf8_chars key)))))"

section \<open>What a key opens\<close>

lemma validate_key_valid:
  "validate_key now key path ks = ValidKey e \<longleftrightarrow>
     dm_get ks key = Some e \<and> ak_enabled e \<and> (\<forall>t. ak_expires_at e = Some t \<longrightarrow> now \<le> t) \<and>
     (ak_allowed_prefixes e = [] \<or> (\<exists>p \<in> set (ak_allowed_prefixes e). prefix p path))"
  by (auto simp: validate_key_def list_ex_iff split: option.splits)

text \<open>No answer is ever \<open>RateLimited\<close>: the per-key limit of an entry is stored, not enforced.\<close>

lemma rate_limit_never_enforced: "validate_key now key path ks \<noteq> KeyRateLimited"
  by (auto simp: validate_key_def split: option.splits)

lemma created_key_valid:
  assumes "ttl_secs = None \<or> (\<exists>ttl. ttl_secs = Some ttl \<and> now + ttl \<le> u64_max)"
  shows "\<exists>e. validate_key now (new_key u) path
    (fst (create_key now u name r limit [] ttl_secs ks)) = ValidKey e \<and> ak_role e = r"
  using assms by (auto simp: validate_key_def create_key_def Let_def dm_get_insert wrap_add64_exact)

lemma disabled_key_rejected:
  "snd (disable_key key ks) \<Longrightarrow> validate_key now key path (fst (disable_key key ks)) = KeyDisabled"
  by (auto simp: disable_key_def disable_key_locked_def lock_write_def validate_key_def dm_get_insert
      split: option.splits)

lemma record_usage_keeps_validity:
  "validate_key now key path ks = ValidKey e \<Longrightarrow>
   \<exists>e'. validate_key now key path (record_usage t k ks) = ValidKey e' \<and> ak_role e' = ak_role e"
  by (cases "k = key") (auto simp: validate_key_valid record_usage_def dm_get_update)

text \<open>A preview shows at most twelve characters of a key.\<close>

lemma preview_length:
  "12 < length key \<Longrightarrow>
   \<exists>hd tl. preview_key key = concat hd @ ellipsis @ concat tl \<and> length hd \<le> 8 \<and> length tl \<le> 4"
  by (rule exI [of _ "take 8 (utf8_chars key)"], rule exI [of _ "rev (take 4 (rev (utf8_chars key)))"])
    (simp add: preview_key_def)

text \<open>
  Rotating a key never finishes. For every key that exists, whatever the shards,
  \<open>rotate_key\<close> waits for a lock its own read guard holds; it only returns for unknown keys.
\<close>

theorem rotate_key_deadlocks:
  "rotate_key shard now uuid_text old_key ks = None \<longleftrightarrow> old_key \<in> fst ` set ks"
proof (cases "dm_get ks old_key")
  case None
  moreover from None have "old_key \<notin> fst ` set ks" by (metis dm_get_None_iff)
  ultimately show ?thesis by (simp add: rotate_key_def)
next
  case (Some e)
  then have "old_key \<in> fst ` set ks" using dm_get_None_iff [of ks old_key] by auto
  with Some show ?thesis by (simp add: rotate_key_def disable_key_locked_def lock_write_def Let_def)
qed

end
