(* ===== verification/Bot_Detect.thy ===== *)
theory Bot_Detect
  imports Interfaces
begin

text \<open>
  src/src/middleware/bot_detect.rs: the bot detector of the gateway. One tracker per client
  address, updated under the entry of the concurrent map; the wall clock in seconds is an
  argument. The counters of a release build wrap around.
\<close>

record bot_tracker =
  bt_request_count :: nat
  bt_window_start :: nat
  bt_is_bot :: bool

record bot_detector =
  bd_enabled :: bool
  bd_known_bots :: "string list"
  bd_ip_tracker :: "(string, bot_tracker) dashmap"
  bd_block_bots :: bool
  bd_crawl_rate_limit :: nat

datatype bot_verdict = Human | BotSeen string | BotRateLimited | BotBlocked

definition bot_detector_new :: "bool \<Rightarrow> bool \<Rightarrow> nat \<Rightarrow> bot_detector" where
  "bot_detector_new enabled block_bots crawl_rate_limit =
     \<lparr>bd_enabled = enabled,
      bd_known_bots =
        [''Googlebot'', ''Bingbot'', ''Slurp'', ''DuckDuckBot'', ''Baiduspider'', ''YandexBot'', ''Sogou'',
         ''facebookexternalhit'', ''Twitterbot'', ''rogerbot'', ''linkedinbot'', ''embedly'',
         ''quora link preview'', ''showyoubot'', ''outbrain'', ''pinterest'', ''applebot'', ''Scrapy'',
         ''python-requests'', ''curl'', ''wget'', ''httpie'', ''Go-http-client'', ''Java'',
         ''Apache-HttpClient'', ''okhttp''],
      bd_ip_tracker = [], bd_block_bots = block_bots, bd_crawl_rate_limit = crawl_rate_limit\<rparr>"

definition known_bot :: "bot_detector \<Rightarrow> string \<Rightarrow> string option" where
  "known_bot d ua = find (\<lambda>b. str_contains (to_lowercase ua) (to_lowercase b)) (bd_known_bots d)"

definition looks_like_bot :: "bot_detector \<Rightarrow> string \<Rightarrow> bool" where
  "looks_like_bot d ua \<longleftrightarrow> known_bot d ua \<noteq> None \<or> ua = [] \<or> length ua < 10"

text \<open>The tracker of an address after one more request, under the entry lock.\<close>

definition track :: "nat \<Rightarrow> bool \<Rightarrow> bot_tracker option \<Rightarrow> bot_tracker" where
  "track now is_bot t0 =
     (let t = (case t0 of Some t \<Rightarrow> t
               | None \<Rightarrow> \<lparr>bt_request_count = 0, bt_window_start = now, bt_is_bot = is_bot\<rparr>);
          t1 = (if 60 < wrap_sub64 now (bt_window_start t)
                then t\<lparr>bt_request_count := 0, bt_window_start := now\<rparr> else t)
      in t1\<lparr>bt_request_count := wrap_add32 (bt_request_count t1) 1, bt_is_bot := is_bot\<rparr>)"

definition bot_check :: "nat \<Rightarrow> string \<Rightarrow> string \<Rightarrow> bot_detector \<Rightarrow> bot_detector \<times> bot_verdict" where
  "bot_check now ip ua d =
     (if \<not> bd_enabled d then (d, Human)
      else
        (let is_bot = looks_like_bot d ua;
             t = track now is_bot (dm_get (bd_ip_tracker d) ip);
             d' = d\<lparr>bd_ip_tracker := dm_insert ip t (bd_ip_tracker d)\<rparr>
         in if is_bot then
              (if bd_block_bots d then (d', BotBlocked)
               else if bd_crawl_rate_limit d < bt_request_count t then (d', BotRateLimited)
               else (d', BotSeen (case known_bot d ua of Some b \<Rightarrow> b | None \<Rightarrow> ''unknown-bot'')))
            else (d', Human)))"

definition bot_stats :: "bot_detector \<Rightarrow> nat \<times> nat \<times> nat" where
  "bot_stats d =
     (let total = length (bd_ip_tracker d);
          bots = length (filter (\<lambda>(ip, t). bt_is_bot t) (bd_ip_tracker d))
      in (total, bots, total - bots))"

section \<open>Addresses are independent\<close>

type_synonym bot_event = "nat \<times> string \<times> string"

definition bot_step :: "bot_event \<Rightarrow> bot_detector \<Rightarrow> bot_detector" where
  "bot_step = (\<lambda>(now, ip, ua) d. fst (bot_check now ip ua d))"

definition bot_out :: "bot_event \<Rightarrow> bot_detector \<Rightarrow> bot_verdict" where
  "bot_out = (\<lambda>(now, ip, ua) d. snd (bot_check now ip ua d))"

definition bot_config :: "bot_detector \<Rightarrow> bool \<times> string list \<times> bool \<times> nat" where
  "bot_config d = (bd_enabled d, bd_known_bots d, bd_block_bots d, bd_crawl_rate_limit d)"

definition bot_view :: "bot_detector \<Rightarrow> string \<Rightarrow> (bool \<times> string list \<times> bool \<times> nat) \<times> bot_tracker option" where
  "bot_view d ip = (bot_config d, dm_get (bd_ip_tracker d) ip)"

lemma bot_config_check [simp]: "bot_config (fst (bot_check now ip ua d)) = bot_config d"
  by (simp add: bot_check_def bot_config_def Let_def)

lemma bot_tracker_check:
  "dm_get (bd_ip_tracker (fst (bot_check now ip ua d))) k =
     (if bd_enabled d \<and> k = ip then Some (track now (looks_like_bot d ua) (dm_get (bd_ip_tracker d) ip))
      else dm_get (bd_ip_tracker d) k)"
  by (simp add: bot_check_def Let_def dm_get_insert)

lemma looks_like_bot_config: "bot_config d = bot_config d' \<Longrightarrow> looks_like_bot d ua = looks_like_bot d' ua"
  by (simp add: bot_config_def looks_like_bot_def known_bot_def)

lemma bot_verdict_view: "bot_view s ip = bot_view t ip \<Longrightarrow> snd (bot_check now ip ua s) = snd (bot_check now ip ua t)"
  by (auto simp: bot_view_def bot_check_def Let_def bot_config_def looks_like_bot_def known_bot_def)

interpretation bot: keyed_machine bot_step bot_out "\<lambda>(now, ip, ua). ip" bot_view
proof unfold_locales
  fix e :: bot_event and s t :: bot_detector
  obtain now ip ua where e: "e = (now, ip, ua)" by (cases e)
  assume "bot_view s (case e of (now, ip, ua) \<Rightarrow> ip) = bot_view t (case e of (now, ip, ua) \<Rightarrow> ip)"
  then have v: "bot_view s ip = bot_view t ip" by (simp add: e)
  then have "bd_enabled s = bd_enabled t" by (simp add: bot_view_def bot_config_def)
  with v looks_like_bot_config [of s t ua]
  show "bot_view (bot_step e s) (case e of (now, ip, ua) \<Rightarrow> ip) = bot_view (bot_step e t) (case e of (now, ip, ua) \<Rightarrow> ip)"
    by (simp add: e bot_view_def bot_step_def bot_tracker_check)
  show "bot_out e s = bot_out e t"
    using bot_verdict_view [OF v] by (simp add: e bot_out_def)
qed (auto simp: bot_view_def bot_step_def bot_tracker_check)

section \<open>The crawl limit\<close>

text \<open>Within one window, counted from the first request of an address, the count is exact.\<close>

lemma track_in_window:
  assumes "dm_get (bd_ip_tracker d) ip = Some t" "bd_enabled d"
    and "bt_window_start t \<le> now" "now \<le> bt_window_start t + 60" "bt_request_count t < u32_max"
  shows "\<exists>t'. dm_get (bd_ip_tracker (fst (bot_check now ip ua d))) ip = Some t' \<and>
    bt_window_start t' = bt_window_start t \<and> bt_request_count t' = Suc (bt_request_count t)"
proof -
  have "\<not> 60 < now - bt_window_start t" using assms(4) by simp
  with assms show ?thesis by (simp add: bot_tracker_check track_def Let_def wrap_add32_exact)
qed

text \<open>A bot that is not blocked is let through exactly while its count is within the limit.\<close>

lemma bot_verdict_limit:
  assumes "bd_enabled d" "\<not> bd_block_bots d" "looks_like_bot d ua"
  shows "snd (bot_check now ip ua d) = BotRateLimited \<longleftrightarrow>
    bd_crawl_rate_limit d < bt_request_count (track now True (dm_get (bd_ip_tracker d) ip))"
  using assms by (simp add: bot_check_def Let_def)

lemma human_never_limited: "\<not> looks_like_bot d ua \<Longrightarrow> snd (bot_check now ip ua d) = Human"
  by (simp add: bot_check_def Let_def)

end
