(* ===== verification/Plugins.thy ===== *)
theory Plugins
  imports Interfaces
begin

text \<open>
  src/src/plugins/mod.rs: the plugin manager. A plugin is a trait object; the model keeps the
  answers of its hooks as functions, so a native plugin loaded from a shared library is any
  value of the record. The two built-in plugins are those of the source. Loading shared
  libraries is left out.
\<close>

datatype plugin_action = Continue | Block nat string | AddHeader string string

record plugin =
  pl_name :: string
  pl_on_init :: "string + unit"
  pl_on_request :: "string \<Rightarrow> string \<Rightarrow> (string, string) dashmap \<Rightarrow> plugin_action"
  pl_on_response :: "nat \<Rightarrow> string \<Rightarrow> plugin_action"

record plugin_manager =
  pm_plugins :: "(string, plugin) dashmap"
  pm_enabled :: bool

definition plugin_manager_new :: "bool \<Rightarrow> plugin_manager" where
  "plugin_manager_new enabled = \<lparr>pm_plugins = [], pm_enabled = enabled\<rparr>"

definition pm_register :: "plugin \<Rightarrow> plugin_manager \<Rightarrow> plugin_manager" where
  "pm_register p m =
     (if \<not> pm_enabled m then m
      else case pl_on_init p of
             Inr _ \<Rightarrow> m\<lparr>pm_plugins := dm_insert (pl_name p) p (pm_plugins m)\<rparr>
           | Inl e \<Rightarrow> m)"

definition execute_on_request ::
  "plugin_manager \<Rightarrow> string \<Rightarrow> string \<Rightarrow> (string, string) dashmap \<Rightarrow> plugin_action list" where
  "execute_on_request m method path hs =
     (if \<not> pm_enabled m then [Continue]
      else map (\<lambda>(_, p). pl_on_request p method path hs) (pm_plugins m))"

definition execute_on_response :: "plugin_manager \<Rightarrow> nat \<Rightarrow> string \<Rightarrow> plugin_action list" where
  "execute_on_response m status path =
     (if \<not> pm_enabled m then [Continue]
      else map (\<lambda>(_, p). pl_on_response p status path) (pm_plugins m))"

definition list_plugins :: "plugin_manager \<Rightarrow> string list" where
  "list_plugins m = map fst (pm_plugins m)"

definition logging_plugin :: plugin where
  "logging_plugin =
     \<lparr>pl_name = ''builtin:logging'', pl_on_init = Inr (), pl_on_request = (\<lambda>_ _ _. Continue),
      pl_on_response = (\<lambda>_ _. Continue)\<rparr>"

definition security_headers_plugin :: plugin where
  "security_headers_plugin =
     \<lparr>pl_name = ''builtin:security-headers'', pl_on_init = Inr (), pl_on_request = (\<lambda>_ _ _. Continue),
      pl_on_response = (\<lambda>_ _. AddHeader ''X-Content-Type-Options'' ''nosniff'')\<rparr>"

section \<open>What the gateway makes of the actions\<close>

text \<open>The first blocking action of a request stops it; headers are only added to responses.\<close>

fun first_block :: "plugin_action list \<Rightarrow> (nat \<times> string) option" where
  "first_block [] = None"
| "first_block (Block status msg # as) = Some (status, msg)"
| "first_block (_ # as) = first_block as"

fun apply_response_actions ::
  "plugin_action list \<Rightarrow> (string \<times> string) list \<Rightarrow> (nat \<times> string) + (string \<times> string) list" where
  "apply_response_actions [] hs = Inr hs"
| "apply_response_actions (AddHeader k v # as) hs = apply_response_actions as (hs @ [(k, v)])"
| "apply_response_actions (Block status msg # as) hs = Inl (status, msg)"
| "apply_response_actions (Continue # as) hs = apply_response_actions as hs"

lemma first_block_None: "first_block as = None \<longleftrightarrow> (\<forall>s msg. Block s msg \<notin> set as)"
  by (induction as rule: first_block.induct) auto

lemma apply_response_actions_None:
  "(\<exists>hs'. apply_response_actions as hs = Inr hs') \<longleftrightarrow> first_block as = None"
  by (induction as hs rule: apply_response_actions.induct) auto

lemma apply_response_actions_prefix: "apply_response_actions as hs = Inr hs' \<Longrightarrow> prefix hs hs'"
  by (induction as hs rule: apply_response_actions.induct) (auto simp: prefix_def)

lemma disabled_plugins_pass:
  "\<not> pm_enabled m \<Longrightarrow> first_block (execute_on_request m method path hs) = None"
  by (simp add: execute_on_request_def)

text \<open>A registered plugin takes part in every request, and its veto counts.\<close>

lemma registered_plugin_vetoes:
  assumes "pm_enabled m" "pl_on_init p = Inr ()" "pl_on_request p method path hs = Block s msg"
  shows "first_block (execute_on_request (pm_register p m) method path hs) \<noteq> None"
proof -
  have "dm_get (pm_plugins (pm_register p m)) (pl_name p) = Some p"
    using assms by (simp add: pm_register_def dm_get_insert)
  then have "(pl_name p, p) \<in> set (pm_plugins (pm_register p m))" by (rule map_of_SomeD)
  moreover have "pm_enabled (pm_register p m)" using assms by (simp add: pm_register_def)
  ultimately have "Block s msg \<in> set (execute_on_request (pm_register p m) method path hs)"
    using assms(3) by (force simp: execute_on_request_def)
  then show ?thesis using first_block_None by blast
qed

lemma failed_init_not_registered: "pl_on_init p = Inl e \<Longrightarrow> pm_register p m = m"
  by (simp add: pm_register_def)

end
