(* ===== verification/Body_Transform.thy ===== *)
theory Body_Transform
  imports Interfaces
begin

text \<open>
  src/src/gateway/body_transform.rs: rewriting of JSON bodies. Parsing and printing
  (serde_json) are parameters; a JSON object is a map from names to values. The fields to add
  and to rename are the entries of hash maps, in any order.
\<close>

datatype json =
    JNull
  | JBool bool
  | JNum int
  | JStr string
  | JArr "json list"
  | JObj "(string \<times> json) list"

text \<open>The accessors of serde_json: \<open>as_object\<close>, \<open>as_str\<close>, \<open>as_bool\<close>, \<open>as_i64\<close> and \<open>get\<close>.\<close>

fun as_object :: "json \<Rightarrow> (string, json) dashmap option" where
  "as_object (JObj m) = Some m"
| "as_object _ = None"

fun as_text :: "json \<Rightarrow> string option" where
  "as_text (JStr s) = Some s"
| "as_text _ = None"

fun as_bool :: "json \<Rightarrow> bool option" where
  "as_bool (JBool b) = Some b"
| "as_bool _ = None"

fun as_i64 :: "json \<Rightarrow> int option" where
  "as_i64 (JNum i) = (if - (2 ^ 63) \<le> i \<and> i < 2 ^ 63 then Some i else None)"
| "as_i64 _ = None"

definition json_get :: "string \<Rightarrow> json \<Rightarrow> json option" where
  "json_get k v = Option.bind (as_object v) (\<lambda>m. dm_get m k)"

record body_transform =
  bt_remove_fields :: "string list"
  bt_add_fields :: "(string \<times> json) list"
  bt_rename_fields :: "(string \<times> string) list"
  bt_redact_fields :: "string list"
  bt_remove_response_fields :: "string list"
  bt_redact_value :: string

definition default_redact_value :: string where
  "default_redact_value = ''***REDACTED***''"

definition rename_field :: "string \<times> string \<Rightarrow> (string, json) dashmap \<Rightarrow> (string, json) dashmap" where
  "rename_field = (\<lambda>(old_name, new_name) m.
     case dm_get m old_name of Some v \<Rightarrow> dm_insert new_name v (dm_remove old_name m) | None \<Rightarrow> m)"

definition transform_request_body ::
  "(string \<Rightarrow> json option) \<Rightarrow> (json \<Rightarrow> string option) \<Rightarrow> body_transform \<Rightarrow> string \<Rightarrow> string option" where
  "transform_request_body from_slice to_vec c body =
     (if bt_remove_fields c = [] \<and> bt_add_fields c = [] \<and> bt_rename_fields c = [] then None
      else case from_slice body of
             None \<Rightarrow> None
           | Some (JObj m) \<Rightarrow>
               to_vec (JObj (fold rename_field (bt_rename_fields c)
                 (fold (\<lambda>(k, v). dm_insert k v) (bt_add_fields c) (fold dm_remove (bt_remove_fields c) m))))
           | Some v \<Rightarrow> to_vec v)"

text \<open>\<open>transform_value\<close>: remove, then redact, then descend into what is left.\<close>

definition redact_field :: "json \<Rightarrow> string \<Rightarrow> (string, json) dashmap \<Rightarrow> (string, json) dashmap" where
  "redact_field redact_value field m =
     (if dm_get m field \<noteq> None then dm_insert field redact_value m else m)"

definition scrub_fields :: "string list \<Rightarrow> string list \<Rightarrow> string \<Rightarrow> (string, json) dashmap \<Rightarrow> (string, json) dashmap" where
  "scrub_fields redact remove redact_value m =
     fold (redact_field (JStr redact_value)) redact (fold dm_remove remove m)"

fun json_depth :: "json \<Rightarrow> nat" where
  "json_depth (JArr vs) = Suc (Max (insert 0 (json_depth ` set vs)))"
| "json_depth (JObj m) = Suc (Max (insert 0 ((\<lambda>(k, v). json_depth v) ` set m)))"
| "json_depth _ = 0"

lemma dm_remove_mem: "(k, v) \<in> set (fold dm_remove ks m) \<Longrightarrow> (k, v) \<in> set m"
  by (induction ks arbitrary: m) (fastforce simp: dm_remove_def)+

lemma dm_insert_mem: "(k, v) \<in> set (dm_insert k' v' m) \<Longrightarrow> (k, v) = (k', v') \<or> (k, v) \<in> set m"
  by (induction k' v' m rule: dm_insert.induct) (auto split: if_splits)

lemma redact_mem:
  "(k, v) \<in> set (fold (redact_field rv) ks m) \<Longrightarrow> v = rv \<or> (k, v) \<in> set m"
  by (induction ks arbitrary: m) (fastforce simp: redact_field_def dest: dm_insert_mem split: if_splits)+

lemma scrub_mem: "(k, v) \<in> set (scrub_fields redact remove rv m) \<Longrightarrow> v = JStr rv \<or> (k, v) \<in> set m"
  unfolding scrub_fields_def by (blast dest: redact_mem dm_remove_mem)

lemma json_depth_arr: "v \<in> set vs \<Longrightarrow> json_depth v < json_depth (JArr vs)"
  by (simp add: less_Suc_eq_le)

lemma json_depth_obj: "(k, v) \<in> set m \<Longrightarrow> json_depth v < json_depth (JObj m)"
  by (force simp: less_Suc_eq_le intro: Max_ge)

function transform_value :: "string list \<Rightarrow> string list \<Rightarrow> string \<Rightarrow> json \<Rightarrow> json" where
  "transform_value redact remove rv (JObj m) =
     JObj (map (\<lambda>(k, v). (k, transform_value redact remove rv v)) (scrub_fields redact remove rv m))"
| "transform_value redact remove rv (JArr vs) = JArr (map (transform_value redact remove rv) vs)"
| "transform_value redact remove rv JNull = JNull"
| "transform_value redact remove rv (JBool b) = JBool b"
| "transform_value redact remove rv (JNum n) = JNum n"
| "transform_value redact remove rv (JStr s) = JStr s"
  by pat_completeness auto
termination
proof (relation "measure (\<lambda>(redact, remove, rv, v). json_depth v)")
  fix redact remove rv m kv k v
  assume "kv \<in> set (scrub_fields redact remove rv m)" "(k, v) = kv"
  then have "v = JStr rv \<or> (k, v) \<in> set m" using scrub_mem by blast
  then show "((redact, remove, rv, v), redact, remove, rv, JObj m) \<in> measure (\<lambda>(redact, remove, rv, v). json_depth v)"
    using json_depth_obj by auto
qed (auto simp: json_depth_arr simp del: json_depth.simps)

definition transform_response_body ::
  "(string \<Rightarrow> json option) \<Rightarrow> (json \<Rightarrow> string option) \<Rightarrow> body_transform \<Rightarrow> string \<Rightarrow> string option" where
  "transform_response_body from_slice to_vec c body =
     (if bt_redact_fields c = [] \<and> bt_remove_response_fields c = [] then None
      else case from_slice body of
             None \<Rightarrow> None
           | Some v \<Rightarrow> to_vec (transform_value (bt_redact_fields c) (bt_remove_response_fields c) (bt_redact_value c) v))"

section \<open>Nothing is leaked\<close>

text \<open>No removed name occurs at any depth, and a redacted one only with the replacement.\<close>

fun scrubbed :: "string list \<Rightarrow> string list \<Rightarrow> string \<Rightarrow> json \<Rightarrow> bool" where
  "scrubbed redact remove rv (JObj m) =
     (\<forall>(k, v) \<in> set m. k \<notin> set remove \<and> (k \<in> set redact \<longrightarrow> v = JStr rv) \<and> scrubbed redact remove rv v)"
| "scrubbed redact remove rv (JArr vs) = (\<forall>v \<in> set vs. scrubbed redact remove rv v)"
| "scrubbed redact remove rv _ = True"

lemma key_removed: "(k, v) \<in> set (fold dm_remove ks m) \<Longrightarrow> k \<notin> set ks"
proof -
  assume "(k, v) \<in> set (fold dm_remove ks m)"
  then have "dm_get (fold dm_remove ks m) k \<noteq> None" using dm_get_None_iff by fastforce
  then show ?thesis by (auto simp: dm.get_fold_rem split: if_splits)
qed

lemma keys_redacted: "fst ` set (fold (redact_field rv) ks m) = fst ` set m"
proof (induction ks arbitrary: m)
  case (Cons k ks)
  have "fst ` set (redact_field rv k m) = fst ` set m"
    by (cases "dm_get m k") (auto simp: redact_field_def keys_insert dest!: map_of_SomeD intro: rev_image_eqI)
  with Cons show ?case by simp
qed simp

lemma dm_wf_fold_redact: "dm_wf m \<Longrightarrow> dm_wf (fold (redact_field rv) ks m)"
  by (induction ks arbitrary: m) (auto simp: redact_field_def dm_wf_insert)

lemma redact_get:
  "dm_get (fold (redact_field rv) ks m) k =
     (if k \<in> set ks then map_option (\<lambda>_. rv) (dm_get m k) else dm_get m k)"
proof (induction ks arbitrary: m)
  case (Cons f ks)
  have "dm_get (redact_field rv f m) k = (if k = f then map_option (\<lambda>_. rv) (dm_get m k) else dm_get m k)"
    by (auto simp: redact_field_def dm_get_insert)
  moreover have "map_option (\<lambda>_. rv) (map_option (\<lambda>_. rv) x) = map_option (\<lambda>_. rv) x" for x :: "json option"
    by (cases x) simp_all
  ultimately show ?case using Cons by auto
qed simp

text \<open>A well-formed value has no object with two fields of one name.\<close>

fun json_wf :: "json \<Rightarrow> bool" where
  "json_wf (JObj m) = (dm_wf m \<and> (\<forall>(k, v) \<in> set m. json_wf v))"
| "json_wf (JArr vs) = (\<forall>v \<in> set vs. json_wf v)"
| "json_wf _ = True"

lemma scrub_field:
  assumes "dm_wf m" "(k, v) \<in> set (scrub_fields redact remove rv m)"
  shows "k \<notin> set remove \<and> (k \<in> set redact \<longrightarrow> v = JStr rv) \<and> (v = JStr rv \<or> (k, v) \<in> set m)"
proof -
  let ?r = "fold dm_remove remove m"
  have "k \<in> fst ` set ?r"
    using assms(2) keys_redacted [of "JStr rv" redact ?r] by (force simp: scrub_fields_def)
  then have "k \<notin> set remove" using key_removed by fastforce
  moreover have wf: "dm_wf (scrub_fields redact remove rv m)"
    using assms(1) by (simp add: scrub_fields_def dm_wf_fold_redact dm.wf_fold_rem)
  then have "dm_get (scrub_fields redact remove rv m) k = Some v"
    using assms(2) dm_get_mem by metis
  then have "k \<in> set redact \<longrightarrow> v = JStr rv" by (auto simp: scrub_fields_def redact_get)
  ultimately show ?thesis using scrub_mem [OF assms(2)] by blast
qed

lemma transform_value_scrubbed: "json_wf v \<Longrightarrow> scrubbed redact remove rv (transform_value redact remove rv v)"
proof (induction redact remove rv v rule: transform_value.induct)
  case (1 redact remove rv m)
  have wf: "dm_wf m" using "1.prems" by simp
  have "k \<notin> set remove \<and> (k \<in> set redact \<longrightarrow> transform_value redact remove rv v = JStr rv) \<and>
      scrubbed redact remove rv (transform_value redact remove rv v)"
    if kv: "(k, v) \<in> set (scrub_fields redact remove rv m)" for k v
  proof -
    note field = scrub_field [OF wf kv]
    then have "json_wf v" using "1.prems" by auto
    with "1.IH" [OF kv] field show ?thesis by auto
  qed
  then show ?case by auto
qed auto

text \<open>
  C21: Redaction is complete. If a response body parses and the transformation is configured,
  what is sent on is the print of a value in which, at every depth and inside arrays, no
  removed field occurs and every redacted field carries the replacement text.
\<close>

theorem redaction_complete:
  assumes "from_slice body = Some v" "json_wf v"
    and "transform_response_body from_slice to_vec c body = Some out"
  shows "\<exists>w. to_vec w = Some out \<and>
    scrubbed (bt_redact_fields c) (bt_remove_response_fields c) (bt_redact_value c) w"
  using assms transform_value_scrubbed
  by (fastforce simp: transform_response_body_def split: if_splits)

theorem redaction_complete_witness:
  "\<exists>w. Some w = Some (transform_value [''ssn''] [''pw''] ''x''
       (JArr [JObj [(''u'', JObj [(''ssn'', JNum 1), (''pw'', JNull)])]])) \<and> scrubbed [''ssn''] [''pw''] ''x'' w"
proof -
  let ?v = "JArr [JObj [(''u'', JObj [(''ssn'', JNum 1), (''pw'', JNull)])]]"
  let ?c = "\<lparr>bt_remove_fields = [], bt_add_fields = [], bt_rename_fields = [], bt_redact_fields = [''ssn''],
    bt_remove_response_fields = [''pw''], bt_redact_value = ''x''\<rparr>"
  have "\<exists>w. (\<lambda>w. if w = transform_value [''ssn''] [''pw''] ''x'' ?v then Some ''t'' else None) w = Some ''t'' \<and>
      scrubbed (bt_redact_fields ?c) (bt_remove_response_fields ?c) (bt_redact_value ?c) w"
    by (rule redaction_complete [of "\<lambda>_. Some ?v" "''b''" ?v])
      (simp_all add: transform_response_body_def dm_wf_def)
  then show ?thesis by (auto split: if_splits)
qed

text \<open>
  Renaming follows the order in which the hash map happens to iterate: a chain of renamings
  has two outcomes.
\<close>

lemma rename_order_matters:
  "fold rename_field [(''a'', ''b''), (''b'', ''c'')] [(''a'', JNum 1)] = [(''c'', JNum 1)]"
  "fold rename_field [(''b'', ''c''), (''a'', ''b'')] [(''a'', JNum 1)] = [(''b'', JNum 1)]"
  by (simp_all add: rename_field_def dm_remove_def)

end
