(* ===== verification/Metrics_Store.thy ===== *)
theory Metrics_Store
  imports Interfaces
begin

text \<open>
  Two stores the gateway feeds after every request: src/src/metrics/advanced.rs, counters per
  service, and src/src/gateway/health_scoring.rs, sliding windows per upstream. A latency is
  a number of nanoseconds; rates and scores are floating-point results of these numbers and
  are left out, so \<open>best_upstream\<close> takes the score of an entry as an argument.
\<close>

section \<open>Counters per service\<close>

record service_metrics =
  sm_requests :: nat
  sm_errors_4xx :: nat
  sm_errors_5xx :: nat
  sm_success_2xx :: nat
  sm_redirect_3xx :: nat
  sm_bytes_in :: nat
  sm_bytes_out :: nat
  sm_total_latency_ms :: nat

record adv_metrics =
  am_services :: "(string, service_metrics) dashmap"
  am_total_bytes_in :: nat
  am_total_bytes_out :: nat

definition adv_new :: adv_metrics where
  "adv_new = \<lparr>am_services = [], am_total_bytes_in = 0, am_total_bytes_out = 0\<rparr>"

definition sm_default :: service_metrics where
  "sm_default =
     \<lparr>sm_requests = 0, sm_errors_4xx = 0, sm_errors_5xx = 0, sm_success_2xx = 0, sm_redirect_3xx = 0,
      sm_bytes_in = 0, sm_bytes_out = 0, sm_total_latency_ms = 0\<rparr>"

definition sm_count :: "nat \<Rightarrow> nat \<Rightarrow> nat \<Rightarrow> nat \<Rightarrow> service_metrics \<Rightarrow> service_metrics" where
  "sm_count status bytes_in bytes_out latency_ms m =
     (let m1 = m\<lparr>sm_requests := wrap_add64 (sm_requests m) 1,
                 sm_bytes_in := wrap_add64 (sm_bytes_in m) bytes_in,
                 sm_bytes_out := wrap_add64 (sm_bytes_out m) bytes_out,
                 sm_total_latency_ms := wrap_add64 (sm_total_latency_ms m) latency_ms\<rparr>
      in if 200 \<le> status \<and> status \<le> 299 then m1\<lparr>sm_success_2xx := wrap_add64 (sm_success_2xx m) 1\<rparr>
         else if 300 \<le> status \<and> status \<le> 399 then m1\<lparr>sm_redirect_3xx := wrap_add64 (sm_redirect_3xx m) 1\<rparr>
         else if 400 \<le> status \<and> status \<le> 499 then m1\<lparr>sm_errors_4xx := wrap_add64 (sm_errors_4xx m) 1\<rparr>
         else if 500 \<le> status \<and> status \<le> 599 then m1\<lparr>sm_errors_5xx := wrap_add64 (sm_errors_5xx m) 1\<rparr>
         else m1)"

definition adv_record :: "string \<Rightarrow> nat \<Rightarrow> nat \<Rightarrow> nat \<Rightarrow> nat \<Rightarrow> adv_metrics \<Rightarrow> adv_metrics" where
  "adv_record name status bytes_in bytes_out latency_ms a =
     a\<lparr>am_services := dm_insert name
          (sm_count status bytes_in bytes_out latency_ms (dm_or_insert (am_services a) name sm_default))
          (am_services a),
       am_total_bytes_in := wrap_add64 (am_total_bytes_in a) bytes_in,
       am_total_bytes_out := wrap_add64 (am_total_bytes_out a) bytes_out\<rparr>"

text \<open>The classes of statuses account for every request that has a status of 200 to 599.\<close>

definition sm_classified :: "service_metrics \<Rightarrow> nat" where
  "sm_classified m = sm_success_2xx m + sm_redirect_3xx m + sm_errors_4xx m + sm_errors_5xx m"

lemma sm_count_classes:
  assumes "200 \<le> status" "status \<le> 599" "sm_classified m = sm_requests m" "sm_requests m < u64_max"
  shows "sm_classified (sm_count status i out l m) = sm_requests (sm_count status i out l m) \<and>
    sm_requests (sm_count status i out l m) = Suc (sm_requests m)"
  using assms by (auto simp: sm_count_def sm_classified_def Let_def wrap_add64_exact)

lemma adv_record_services:
  "dm_get (am_services (adv_record name status i out l a)) k =
     (if k = name then Some (sm_count status i out l (dm_or_insert (am_services a) name sm_default))
      else dm_get (am_services a) k)"
  by (auto simp: adv_record_def dm_get_insert)

lemma adv_record_wf: "dm_wf (am_services a) \<Longrightarrow> dm_wf (am_services (adv_record name status i out l a))"
  by (simp add: adv_record_def dm_wf_insert)

text \<open>The global counter is the sum over the services, up to the same overflow.\<close>

lemma sum_insert:
  "dm_wf m \<Longrightarrow> (\<Sum>(k, v) \<leftarrow> dm_insert k0 v0 m. f v) + (case dm_get m k0 of Some v \<Rightarrow> f v | None \<Rightarrow> 0) =
     (\<Sum>(k, v) \<leftarrow> m. f v) + (f v0 :: nat)"
proof (induction k0 v0 m rule: dm_insert.induct)
  case (2 k v k' v' m)
  then show ?case by (auto simp: dm_wf_def split: option.splits)
qed simp

lemma adv_bytes_conserved:
  assumes "dm_wf (am_services a)"
    and "am_total_bytes_in a mod (u64_max + 1) = (\<Sum>(k, m) \<leftarrow> am_services a. sm_bytes_in m) mod (u64_max + 1)"
  shows "am_total_bytes_in (adv_record name status i out l a) mod (u64_max + 1) =
    (\<Sum>(k, m) \<leftarrow> am_services (adv_record name status i out l a). sm_bytes_in m) mod (u64_max + 1)"
proof -
  define old where "old = dm_or_insert (am_services a) name sm_default"
  let ?rest = "\<Sum>(k, m) \<leftarrow> am_services (adv_record name status i out l a). sm_bytes_in m"
  let ?sum = "\<Sum>(k, m) \<leftarrow> am_services a. sm_bytes_in m"
  have bytes: "sm_bytes_in (sm_count status i out l old) = wrap_add64 (sm_bytes_in old) i"
    by (simp add: sm_count_def Let_def)
  have old0: "(case dm_get (am_services a) name of Some v \<Rightarrow> sm_bytes_in v | None \<Rightarrow> 0) = sm_bytes_in old"
    by (simp add: old_def dm_or_insert_def sm_default_def split: option.split)
  have "?rest + sm_bytes_in old = ?sum + wrap_add64 (sm_bytes_in old) i"
    using sum_insert [OF assms(1), where ?k0.0 = name and ?v0.0 = "sm_count status i out l old" and f = sm_bytes_in]
    by (simp add: adv_record_def old_def [symmetric] old0 bytes)
  then have "(?rest + sm_bytes_in old) mod (u64_max + 1) = (?sum + (sm_bytes_in old + i)) mod (u64_max + 1)"
    by (simp add: wrap_add64_def mod_add_right_eq)
  then have "?rest mod (u64_max + 1) = (?sum + i) mod (u64_max + 1)"
    by (rule nat_mod_add_cancel [OF trans]) (simp only: add.assoc add.commute [of "sm_bytes_in old" i])
  then show ?thesis
    using assms(2) by (simp add: adv_record_def wrap_add64_def) (metis mod_add_left_eq)
qed

section \<open>Health windows\<close>

record upstream_score =
  us_upstream :: string
  us_total_requests :: nat
  us_total_errors :: nat
  us_latency_window :: "nat list"
  us_error_window :: "bool list"

type_synonym health_scorer = "(string, upstream_score) dashmap"

text \<open>\<open>push_back\<close>, then \<open>pop_front\<close> when the window has more than its 200 places.\<close>

definition push_window :: "'a \<Rightarrow> 'a list \<Rightarrow> 'a list" where
  "push_window x w = (if 200 < length (w @ [x]) then tl (w @ [x]) else w @ [x])"

definition health_record :: "string \<Rightarrow> nat \<Rightarrow> bool \<Rightarrow> health_scorer \<Rightarrow> health_scorer" where
  "health_record upstream latency success hs =
     (let s = dm_or_insert hs upstream
                \<lparr>us_upstream = upstream, us_total_requests = 0, us_total_errors = 0,
                 us_latency_window = [], us_error_window = []\<rparr>
      in dm_insert upstream
           (s\<lparr>us_total_requests := wrap_add64 (us_total_requests s) 1,
              us_total_errors := (if \<not> success then wrap_add64 (us_total_errors s) 1 else us_total_errors s),
              us_latency_window := push_window latency (us_latency_window s),
              us_error_window := push_window (\<not> success) (us_error_window s)\<rparr>) hs)"

text \<open>\<open>max_by\<close> keeps the last of equal maxima.\<close>

fun last_max :: "(string \<times> 'f :: linorder) list \<Rightarrow> (string \<times> 'f) option" where
  "last_max [] = None"
| "last_max (x # xs) =
     (case last_max xs of None \<Rightarrow> Some x | Some y \<Rightarrow> if snd x \<le> snd y then Some y else Some x)"

definition best_upstream ::
  "(upstream_score \<Rightarrow> 'f :: linorder) \<Rightarrow> string list \<Rightarrow> health_scorer \<Rightarrow> string option" where
  "best_upstream score ups hs =
     (case last_max (List.map_filter (\<lambda>u. map_option (\<lambda>s. (u, score s)) (dm_get hs u)) ups) of
        Some (u, _) \<Rightarrow> Some u
      | None \<Rightarrow> (case ups of [] \<Rightarrow> None | u # _ \<Rightarrow> Some u))"

lemma push_window_last:
  "length w \<le> 200 \<Longrightarrow> length (push_window x w) \<le> 200 \<and> push_window x w \<noteq> [] \<and> last (push_window x w) = x"
  by (cases w) (auto simp: push_window_def)

text \<open>The windows of an entry always have the same length, between 1 and 200 places.\<close>

lemma health_windows:
  assumes "\<forall>s. dm_get hs upstream = Some s \<longrightarrow>
    length (us_latency_window s) = length (us_error_window s) \<and> length (us_error_window s) \<le> 200"
  shows "\<exists>s. dm_get (health_record upstream latency success hs) upstream = Some s \<and>
    length (us_latency_window s) = length (us_error_window s) \<and>
    1 \<le> length (us_error_window s) \<and> length (us_error_window s) \<le> 200"
  using assms
  by (cases "dm_get hs upstream")
    (auto simp: health_record_def dm_or_insert_def dm_get_insert push_window_def Let_def)

lemma last_max_max: "last_max xs = Some y \<Longrightarrow> y \<in> set xs \<and> (\<forall>x \<in> set xs. snd x \<le> snd y)"
proof (induction xs arbitrary: y)
  case (Cons x xs)
  show ?case
  proof (cases "last_max xs")
    case None
    then have "xs = []" by (cases xs) (auto split: option.splits if_splits)
    with Cons.prems show ?thesis by simp
  next
    case (Some z)
    with Cons.IH [OF Some] Cons.prems show ?thesis by (auto split: if_splits intro: order.trans)
  qed
qed simp

lemma last_max_None: "last_max xs = None \<longleftrightarrow> xs = []"
  by (cases xs) (auto split: option.splits)

text \<open>The upstream chosen is one of those offered, and none with a score beats it.\<close>

lemma best_upstream_best:
  assumes "best_upstream score ups hs = Some u"
  shows "u \<in> set ups" and
    "\<forall>v \<in> set ups. \<forall>s. dm_get hs v = Some s \<longrightarrow> (\<exists>t. dm_get hs u = Some t \<and> score s \<le> score t)"
proof -
  define xs where "xs = List.map_filter (\<lambda>u. map_option (\<lambda>s. (u, score s)) (dm_get hs u)) ups"
  have mem: "(v, x) \<in> set xs \<longleftrightarrow> v \<in> set ups \<and> (\<exists>s. dm_get hs v = Some s \<and> x = score s)" for v x
    by (auto simp: xs_def List.map_filter_def image_iff)
  have best: "best_upstream score ups hs =
      (case last_max xs of Some (u, _) \<Rightarrow> Some u | None \<Rightarrow> (case ups of [] \<Rightarrow> None | u # _ \<Rightarrow> Some u))"
    by (simp add: best_upstream_def xs_def)
  show "u \<in> set ups"
  proof (cases "last_max xs")
    case None
    then show ?thesis using assms unfolding best by (simp split: list.splits)
  next
    case (Some y)
    then have "fst y = u" using assms by (cases y) (simp add: best)
    with last_max_max [OF Some] mem [of u "snd y"] show ?thesis by (cases y) simp
  qed
  show "\<forall>v \<in> set ups. \<forall>s. dm_get hs v = Some s \<longrightarrow> (\<exists>t. dm_get hs u = Some t \<and> score s \<le> score t)"
  proof (intro ballI allI impI)
    fix v s assume v: "v \<in> set ups" "dm_get hs v = Some s"
    then have vs: "(v, score s) \<in> set xs" using mem by blast
    then have "xs \<noteq> []" by (metis empty_iff list.set(1))
    then obtain y where y: "last_max xs = Some y" using last_max_None [of xs] by (metis option.exhaust)
    then have "fst y = u" using assms by (cases y) (simp add: best)
    moreover have "y \<in> set xs" using last_max_max [OF y] by blast
    moreover have "score s \<le> snd y" using last_max_max [OF y, THEN conjunct2, THEN bspec, OF vs] by simp
    ultimately show "\<exists>t. dm_get hs u = Some t \<and> score s \<le> score t"
      using mem [of u "snd y"] by (cases y) auto
  qed
qed

end
