(* ===== verification/Event_Bus.thy ===== *)
theory Event_Bus
  imports Interfaces
begin

text \<open>
  src/src/automation/event_bus.rs: publication to topics and the bounded event log. A
  broadcast channel (tokio) is the list of the events sent on it; the fresh identifier and the
  wall clock are arguments. The payload is of any type.
\<close>

record 'd bus_entry =
  be_id :: string
  be_topic :: string
  be_source :: string
  be_data :: 'd
  be_timestamp :: nat

record 'd event_bus =
  eb_channels :: "(string, 'd bus_entry list) dashmap"
  eb_subscriptions :: "(string, string list) dashmap"
  eb_log :: "'d bus_entry list"
  eb_max_log_size :: nat

definition event_bus_new :: "nat \<Rightarrow> 'd event_bus" where
  "event_bus_new n = \<lparr>eb_channels = [], eb_subscriptions = [], eb_log = [], eb_max_log_size = n\<rparr>"

text \<open>\<open>drain(..len - max)\<close>: what is left of the log.\<close>

definition trim_log :: "nat \<Rightarrow> 'a list \<Rightarrow> 'a list" where
  "trim_log n log = (if n < length log then drop (length log - n) log else log)"

definition eb_publish ::
  "string \<Rightarrow> nat \<Rightarrow> string \<Rightarrow> string \<Rightarrow> 'd \<Rightarrow> 'd event_bus \<Rightarrow> 'd event_bus \<times> string" where
  "eb_publish fresh now topic source data b =
     (let e = \<lparr>be_id = fresh, be_topic = topic, be_source = source, be_data = data, be_timestamp = now\<rparr>
      in (b\<lparr>eb_channels := dm_update topic (\<lambda>sent. sent @ [e]) (eb_channels b),
            eb_log := trim_log (eb_max_log_size b) (eb_log b @ [e])\<rparr>, fresh))"

definition eb_subscribe :: "string \<Rightarrow> string \<Rightarrow> 'd event_bus \<Rightarrow> 'd event_bus" where
  "eb_subscribe topic subscriber b =
     (let subs = dm_or_insert (eb_subscriptions b) topic []
      in b\<lparr>eb_channels := dm_insert topic (dm_or_insert (eb_channels b) topic []) (eb_channels b),
           eb_subscriptions := dm_insert topic
             (if subscriber \<in> set subs then subs else subs @ [subscriber]) (eb_subscriptions b)\<rparr>)"

definition list_topics :: "'d event_bus \<Rightarrow> string list" where
  "list_topics b = map fst (eb_channels b)"

definition topic_subscribers :: "string \<Rightarrow> 'd event_bus \<Rightarrow> string list" where
  "topic_subscribers topic b = dm_or_insert (eb_subscriptions b) topic []"

definition recent_events :: "nat \<Rightarrow> 'd event_bus \<Rightarrow> 'd bus_entry list" where
  "recent_events limit b = take limit (rev (eb_log b))"

section \<open>The log\<close>

lemma trim_log_suffix: "suffix (trim_log n log) log" "length (trim_log n log) \<le> n"
  by (auto simp: trim_log_def suffix_drop)

lemma trim_log_eq: "trim_log n log = drop (length log - n) log"
  by (simp add: trim_log_def)

lemma trim_log_append: "trim_log n (trim_log n xs @ ys) = trim_log n (xs @ ys)"
  by (cases "length xs \<le> n") (simp_all add: trim_log_eq add.commute)

text \<open>After any publications the log is the end of their sequence, cut to its size.\<close>

type_synonym 'd publication = "string \<times> nat \<times> string \<times> string \<times> 'd"

definition published_entry :: "'d publication \<Rightarrow> 'd bus_entry" where
  "published_entry = (\<lambda>(i, t, topic, src, d).
     \<lparr>be_id = i, be_topic = topic, be_source = src, be_data = d, be_timestamp = t\<rparr>)"

definition publish_one :: "'d publication \<Rightarrow> 'd event_bus \<Rightarrow> 'd event_bus" where
  "publish_one = (\<lambda>(i, t, topic, src, d) b. fst (eb_publish i t topic src d b))"

lemma publish_one_log:
  "eb_log (publish_one p b) = trim_log (eb_max_log_size b) (eb_log b @ [published_entry p])"
  "eb_max_log_size (publish_one p b) = eb_max_log_size b"
  by (simp_all add: publish_one_def published_entry_def eb_publish_def Let_def split: prod.split)

lemma publish_log:
  assumes "length (eb_log b) \<le> eb_max_log_size b"
  shows "eb_log (fold publish_one ps b) = trim_log (eb_max_log_size b) (eb_log b @ map published_entry ps)"
  using assms
proof (induction ps arbitrary: b)
  case Nil
  then show ?case by (simp add: trim_log_def)
next
  case (Cons p ps)
  then show ?case
    by (simp add: publish_one_log trim_log_suffix(2) trim_log_append)
qed

lemma recent_newest_first:
  "0 < eb_max_log_size b \<Longrightarrow> 0 < n \<Longrightarrow>
   \<exists>e. hd (recent_events n (fst (eb_publish i t topic src d b))) = e \<and> be_id e = i \<and> be_topic e = topic"
  by (cases n) (auto simp: recent_events_def eb_publish_def Let_def trim_log_eq hd_rev last_drop)

text \<open>A subscriber of a topic gets every event published on it from then on.\<close>

lemma subscribed_topic_receives:
  assumes "dm_get (eb_channels b) topic = Some sent"
  shows "\<exists>e. dm_get (eb_channels (fst (eb_publish i t topic src d b))) topic = Some (sent @ [e]) \<and> be_data e = d"
  using assms by (simp add: eb_publish_def Let_def dm_get_update)

lemma subscribe_opens: "\<exists>sent. dm_get (eb_channels (eb_subscribe topic s b)) topic = Some sent"
  by (simp add: eb_subscribe_def Let_def dm_get_insert)

lemma subscribe_once:
  "distinct (topic_subscribers topic b) \<Longrightarrow>
   distinct (topic_subscribers topic (eb_subscribe topic s b)) \<and>
   s \<in> set (topic_subscribers topic (eb_subscribe topic s b))"
  by (simp add: topic_subscribers_def eb_subscribe_def Let_def dm_or_insert_insert)

end
