(* ===== verification/Proxy.thy ===== *)
theory Proxy
  imports Retry Ip_Addr Registry
begin

text \<open>
  src/src/gateway/proxy.rs and src/src/gateway/transform.rs: what a request to an upstream
  looks like, what becomes of its answer, and the header rewriting of a service. A header map
  of the reqwest and http crates is an association list from lower-case names; \<open>insert\<close>
  replaces. A value that is not visible ASCII has no \<open>to_str\<close>. Names and values taken over
  from a parsed message are well formed, so the conversions of the source succeed on them.
\<close>

section \<open>Headers\<close>

type_synonym header_map = "(string, string) dashmap"

text \<open>\<open>HeaderValue::to_str\<close>.\<close>

definition header_str :: "string \<Rightarrow> string option" where
  "header_str v =
     (if list_all (\<lambda>c. let n = of_char c :: nat in (32 \<le> n \<and> n < 127) \<or> n = 9) v then Some v else None)"

definition hm_insert :: "string \<Rightarrow> string \<Rightarrow> header_map \<Rightarrow> header_map" where
  "hm_insert k v h = dm_insert (to_ascii_lowercase k) v h"

definition hm_get :: "string \<Rightarrow> header_map \<Rightarrow> string option" where
  "hm_get k h = dm_get h (to_ascii_lowercase k)"

text \<open>The pairs of an iteration whose values are strings.\<close>

definition str_headers :: "(string \<times> string) list \<Rightarrow> (string \<times> string) list" where
  "str_headers hs = List.map_filter (\<lambda>(k, v). map_option (\<lambda>s. (k, s)) (header_str v)) hs"

record gw_request =
  gr_method :: string
  gr_path :: string
  gr_query :: string
  gr_headers :: "(string \<times> string) list"
  gr_body :: string
  gr_peer :: "ip_addr option"
  gr_scheme :: string

text \<open>\<open>req.headers().get(name).and_then(|v| v.to_str().ok())\<close>; several values of a name: the first.\<close>

definition req_header :: "string \<Rightarrow> gw_request \<Rightarrow> string option" where
  "req_header name req = Option.bind (map_of (gr_headers req) name) header_str"

section \<open>Requests to an upstream\<close>

definition skip_headers :: "string list" where
  "skip_headers =
     [''host'', ''connection'', ''transfer-encoding'', ''keep-alive'', ''upgrade'', ''te'',
      ''proxy-authorization'', ''proxy-connection'']"

definition forward_one :: "string \<times> string \<Rightarrow> header_map \<Rightarrow> header_map" where
  "forward_one = (\<lambda>(k, v) h.
     if to_lowercase k \<in> set skip_headers then h
     else case header_str v of Some s \<Rightarrow> hm_insert k s h | None \<Rightarrow> h)"

definition build_forward_headers :: "gw_request \<Rightarrow> header_map" where
  "build_forward_headers req =
     (let h0 = fold forward_one (gr_headers req) [];
          h1 = (case gr_peer req of Some p \<Rightarrow> hm_insert ''x-forwarded-for'' (show_ip p) h0 | None \<Rightarrow> h0);
          h2 = hm_insert ''x-forwarded-proto'' (if gr_scheme req = ''https'' then ''https'' else ''http'') h1
      in case req_header ''host'' req of Some host \<Rightarrow> hm_insert ''x-forwarded-host'' host h2 | None \<Rightarrow> h2)"

record upstream_request =
  ur_method :: http_method
  ur_url :: string
  ur_headers :: header_map
  ur_body :: "string option"

text \<open>What the HTTP client delivers: the headers of a response and its body, when it can be read.\<close>

type_synonym upstream_reply = "((string \<times> string) list \<times> string option) attempt_outcome"

record proxy_result =
  pr_status :: nat
  pr_headers :: "(string \<times> string) list"
  pr_body :: string
  pr_is_error :: bool

definition error_result :: "nat \<Rightarrow> string \<Rightarrow> proxy_result" where
  "error_result status msg =
     \<lparr>pr_status = status, pr_headers = [(''content-type'', ''application/json'')],
      pr_body = ''{'' @ [CHR 0x22] @ ''error'' @ [CHR 0x22] @ '':'' @ [CHR 0x22] @ msg @ [CHR 0x22] @ ''}'',
      pr_is_error = True\<rparr>"

definition parse_method :: "string \<Rightarrow> http_method option" where
  "parse_method m =
     (if m = ''GET'' then Some GET else if m = ''POST'' then Some POST else if m = ''PUT'' then Some PUT
      else if m = ''DELETE'' then Some DELETE else if m = ''PATCH'' then Some PATCH
      else if m = ''HEAD'' then Some HEAD else if m = ''OPTIONS'' then Some OPTIONS else None)"

text \<open>One attempt, with the headers that were prepared; also the request that was sent, if any.\<close>

definition forward_raw ::
  "(upstream_request \<Rightarrow> nat \<Rightarrow> upstream_reply) \<Rightarrow> gw_request \<Rightarrow> string \<Rightarrow> header_map \<Rightarrow>
     proxy_result \<times> upstream_request option" where
  "forward_raw send req url fwd =
     (case parse_method (gr_method req) of
        None \<Rightarrow> (error_result 405 ''Method not supported'', None)
      | Some m \<Rightarrow>
          (let u = \<lparr>ur_method = m, ur_url = url, ur_headers = fwd,
                    ur_body = (if gr_body req = [] then None else Some (gr_body req))\<rparr>
           in (case send u 0 of
                 Response status (hs, body) \<Rightarrow>
                   (case body of
                      Some b \<Rightarrow> \<lparr>pr_status = status,
                                 pr_headers = str_headers (filter (\<lambda>(k, v). k \<notin> set skip_headers) hs),
                                 pr_body = b, pr_is_error = False\<rparr>
                    | None \<Rightarrow> error_result 502 ''Failed to read upstream response'')
               | Transient e \<Rightarrow> error_result 502 ''Service unavailable''
               | Fatal e \<Rightarrow> error_result 502 ''Service unavailable'',
               Some u)))"

section \<open>Responses to the client\<close>

record gw_response =
  rs_status :: nat
  rs_headers :: header_map
  rs_body :: string

definition status_or :: "nat \<Rightarrow> nat \<Rightarrow> nat" where
  "status_or fallback s = (if 100 \<le> s \<and> s < 1000 then s else fallback)"

definition insert_all :: "(string \<times> string) list \<Rightarrow> header_map \<Rightarrow> header_map" where
  "insert_all hs h = fold (\<lambda>(k, v). hm_insert k v) hs h"

definition into_response :: "proxy_result \<Rightarrow> gw_response" where
  "into_response p =
     \<lparr>rs_status = status_or 500 (pr_status p),
      rs_headers = hm_insert ''X-Cache'' ''MISS'' (hm_insert ''X-Proxied-By'' ''XIRA'' (insert_all (pr_headers p) [])),
      rs_body = pr_body p\<rparr>"

text \<open>
  The rules of a service. A name or value of the configuration that is no header name or
  value is skipped: \<open>header_name\<close> is the name check of the http crate. Nothing is removed
  from a response.
\<close>

definition apply_request_headers :: "(string \<Rightarrow> string \<Rightarrow> bool) \<Rightarrow> transform_config \<Rightarrow> header_map \<Rightarrow> header_map" where
  "apply_request_headers well_formed t h =
     fold (\<lambda>(k, v) h. if well_formed k v then hm_insert k v h else h) (add_request_headers t)
       (fold (\<lambda>k. dm_remove (to_ascii_lowercase k)) (remove_request_headers t) h)"

definition apply_response_headers :: "transform_config \<Rightarrow> header_map \<Rightarrow> header_map" where
  "apply_response_headers t h = insert_all (add_response_headers t) h"

section \<open>Header maps\<close>

lemma hm_get_insert: "hm_get k (hm_insert k' v h) =
    (if to_ascii_lowercase k' = to_ascii_lowercase k then Some v else hm_get k h)"
  by (simp add: hm_get_def hm_insert_def dm_get_insert)

lemma insert_all_get:
  "hm_get k (insert_all hs h) =
     (case filter (\<lambda>(k', v). to_ascii_lowercase k' = to_ascii_lowercase k) hs of
        [] \<Rightarrow> hm_get k h | xs \<Rightarrow> Some (snd (last xs)))"
proof (induction hs arbitrary: h)
  case (Cons x hs)
  obtain k' v where "x = (k', v)" by (cases x)
  with Cons [of "hm_insert k' v h"] show ?case
    by (auto simp: insert_all_def hm_get_insert split: list.splits)
qed (simp add: insert_all_def)

text \<open>Of several response headers of one name, such as two cookies, only the last survives.\<close>

lemma set_cookie_collapsed:
  "dm_get (rs_headers (into_response \<lparr>pr_status = 200,
     pr_headers = [(''set-cookie'', a), (''set-cookie'', b)], pr_body = body, pr_is_error = False\<rparr>)) ''set-cookie'' = Some b
   \<and> length (filter (\<lambda>(k, v). k = ''set-cookie'') (rs_headers (into_response \<lparr>pr_status = 200,
     pr_headers = [(''set-cookie'', a), (''set-cookie'', b)], pr_body = body, pr_is_error = False\<rparr>))) = 1"
proof -
  have low: "to_ascii_lowercase ''set-cookie'' = ''set-cookie''" "to_ascii_lowercase ''X-Cache'' = ''x-cache''"
    "to_ascii_lowercase ''X-Proxied-By'' = ''x-proxied-by''" by code_simp+
  show ?thesis by (simp add: into_response_def insert_all_def hm_insert_def low)
qed

lemma key_forward_one:
  "key \<in> fst ` set (forward_one (k, v) h) \<Longrightarrow>
   key \<in> fst ` set h \<or> (key = to_ascii_lowercase k \<and> to_lowercase k \<notin> set skip_headers)"
  by (auto simp: forward_one_def hm_insert_def keys_insert split: option.splits if_splits)

lemma key_forwarded:
  "key \<in> fst ` set (fold forward_one hs h) \<Longrightarrow>
   key \<in> fst ` set h \<or> (\<exists>k v. (k, v) \<in> set hs \<and> key = to_ascii_lowercase k \<and> to_lowercase k \<notin> set skip_headers)"
proof (induction hs arbitrary: h)
  case (Cons x hs)
  obtain k v where x: "x = (k, v)" by (cases x)
  from Cons.IH [of "forward_one x h"] Cons.prems key_forward_one [of key k v h] show ?case
    unfolding x by (metis fold_simps(2) list.set_intros(1) list.set_intros(2))
qed simp

text \<open>
  No hop-by-hop header of the client reaches an upstream, provided the names are lower case,
  as they are in a parsed request; the forwarding headers are the gateway's own.
\<close>

lemma forward_headers_no_hop:
  assumes "\<forall>(k, v) \<in> set (gr_headers req). to_lowercase k = k \<and> to_ascii_lowercase k = k"
    and "h \<in> set skip_headers"
  shows "dm_get (build_forward_headers req) h = None"
proof -
  let ?h0 = "fold forward_one (gr_headers req) []"
  have "h \<notin> fst ` set ?h0"
  proof
    assume "h \<in> fst ` set ?h0"
    then obtain k v where "(k, v) \<in> set (gr_headers req)" "h = to_ascii_lowercase k" "to_lowercase k \<notin> set skip_headers"
      using key_forwarded [of h "gr_headers req" "[]"] by auto
    with assms show False by fastforce
  qed
  then have none: "dm_get ?h0 h = None" by (metis dm_get_None_iff)
  have low: "to_ascii_lowercase ''x-forwarded-for'' = ''x-forwarded-for''"
    "to_ascii_lowercase ''x-forwarded-proto'' = ''x-forwarded-proto''"
    "to_ascii_lowercase ''x-forwarded-host'' = ''x-forwarded-host''" by code_simp+
  have ne: "h \<noteq> ''x-forwarded-for''" "h \<noteq> ''x-forwarded-proto''" "h \<noteq> ''x-forwarded-host''"
    using assms(2) by (auto simp: skip_headers_def)
  show ?thesis
    unfolding build_forward_headers_def Let_def hm_insert_def low
    using none ne by (simp add: dm_get_insert hm_insert_def split: option.split)
qed

lemma forward_for_is_peer:
  assumes "gr_peer req = Some p"
  shows "dm_get (build_forward_headers req) ''x-forwarded-for'' = Some (show_ip p)"
proof -
  have low: "to_ascii_lowercase ''x-forwarded-for'' = ''x-forwarded-for''"
    "to_ascii_lowercase ''x-forwarded-proto'' = ''x-forwarded-proto''"
    "to_ascii_lowercase ''x-forwarded-host'' = ''x-forwarded-host''" by code_simp+
  show ?thesis
    using assms unfolding build_forward_headers_def Let_def hm_insert_def low
    by (simp add: dm_get_insert split: option.split)
qed

text \<open>Header rules to remove response headers have no effect.\<close>

lemma response_removal_ignored:
  "apply_response_headers (t\<lparr>remove_response_headers := ks\<rparr>) h = apply_response_headers t h"
  by (simp add: apply_response_headers_def)

end
