(* ===== verification/Audit_Log.thy ===== *)
theory Audit_Log
  imports Interfaces
begin

text \<open>
  src/src/middleware/audit_log.rs: the access log. The table is the list of its rows in the
  order of their identifiers; the triggers that reject \<open>UPDATE\<close> and \<open>DELETE\<close> make appending
  the only statement. A statement the database refuses is lost and only counted;
  \<open>al_dispatched\<close> is what the optional sinks were handed. Durations are nanoseconds.
\<close>

record audit_entry =
  au_timestamp :: string
  au_ip :: string
  au_method :: string
  au_path :: string
  au_status :: nat
  au_user_agent :: string
  au_api_key_preview :: "string option"
  au_request_id :: string
  au_duration :: nat
  au_body_size :: nat
  au_response_size :: nat

record audit_logger =
  al_enabled :: bool
  al_rows :: "audit_entry list option"
  al_dispatched :: "audit_entry list option"

definition audit_new_with_dispatcher :: "bool \<Rightarrow> bool \<Rightarrow> bool \<Rightarrow> audit_logger" where
  "audit_new_with_dispatcher has_storage enabled has_dispatcher =
     \<lparr>al_enabled = enabled, al_rows = (if has_storage then Some [] else None),
      al_dispatched = (if has_dispatcher then Some [] else None)\<rparr>"

definition audit_log :: "bool \<Rightarrow> audit_entry \<Rightarrow> audit_logger \<Rightarrow> audit_logger" where
  "audit_log db_ok e l =
     (if \<not> al_enabled l then l
      else l\<lparr>al_dispatched := map_option (\<lambda>d. d @ [e]) (al_dispatched l),
             al_rows := (if db_ok then map_option (\<lambda>rows. rows @ [e]) (al_rows l) else al_rows l)\<rparr>)"

text \<open>\<open>(limit as i64).clamp(1, 10000)\<close>: a limit of $2^{63}$ or more is negative as \<open>i64\<close>.\<close>

definition audit_bound :: "nat \<Rightarrow> nat" where
  "audit_bound limit = (if 2 ^ 63 \<le> limit then 1 else min (max limit 1) 10000)"

definition audit_recent :: "nat \<Rightarrow> audit_logger \<Rightarrow> audit_entry list" where
  "audit_recent limit l =
     (case al_rows l of None \<Rightarrow> [] | Some rows \<Rightarrow> take (audit_bound limit) (rev rows))"

definition audit_stats :: "audit_logger \<Rightarrow> nat \<times> nat" where
  "audit_stats l =
     (case al_rows l of None \<Rightarrow> (0, 0) | Some rows \<Rightarrow> (length rows, length (remdups (map au_ip rows))))"

text \<open>Rows are only ever appended, and a page has between 1 and 10000 rows.\<close>

lemma audit_append_only:
  assumes "al_rows l = Some rows"
  shows "\<exists>rows'. al_rows (audit_log db_ok e l) = Some rows' \<and> prefix rows rows'"
  using assms by (simp add: audit_log_def)

lemma audit_recent_bounded: "length (audit_recent limit l) \<le> 10000"
  by (auto simp: audit_recent_def audit_bound_def split: option.split)

lemma audit_recent_newest:
  "al_enabled l \<Longrightarrow> al_rows l = Some rows \<Longrightarrow> hd (audit_recent limit (audit_log True e l)) = e"
  by (cases "audit_bound limit") (auto simp: audit_recent_def audit_log_def audit_bound_def split: if_splits)

lemma audit_unique_ips: "al_rows l = Some rows \<Longrightarrow> snd (audit_stats l) = card (au_ip ` set rows)"
  by (simp add: audit_stats_def length_remdups_card_conv)

end
