(* ===== verification/Gateway.thy ===== *)
theory Gateway
  imports Circuit_Breaker Load_Balancer Response_Cache Waf Bot_Detect Plugins Body_Transform
    Metrics_Store Proxy Audit_Log
begin

text \<open>
  src/src/gateway/mod.rs: the catch-all handler, which composes the other components, and
  src/src/middleware/validation.rs. A request is handled in four stages: the checks before a
  service is called, the circuit breaker and the cache, the proxied call, and the recording
  of its outcome. The stages are the consecutive parts of one function in the source. Besides
  the answer the model returns the request that was sent upstream, if any. Concurrency is not
  modelled inside one request: the handler's steps on the shared state happen without others
  in between. The header with the response time is left out.
\<close>

section \<open>Environment and state\<close>

text \<open>
  What a request reads from outside: the clock at its start and when the upstream has
  answered, randomness, the percent decoder, regular expressions, JSON parsing and schema
  compilation, and the HTTP client.
\<close>

record gw_env =
  ge_now :: instant
  ge_done :: instant
  ge_wall :: nat
  ge_timestamp :: string
  ge_hash :: nat
  ge_fresh :: string
  ge_db_ok :: bool
  ge_pd :: "string \<Rightarrow> string"
  ge_is_match :: "string \<Rightarrow> string \<Rightarrow> bool"
  ge_parse_json :: "string \<Rightarrow> string + json"
  ge_compile_schema :: "string \<Rightarrow> (json \<Rightarrow> string list) option"
  ge_well_formed :: "string \<Rightarrow> string \<Rightarrow> bool"
  ge_send :: "upstream_request \<Rightarrow> nat \<Rightarrow> upstream_reply"
  ge_jitter :: "nat \<Rightarrow> nat \<Rightarrow> nat"

record gw_config =
  gc_max_retries :: nat
  gc_delay_ms :: nat
  gc_backoff :: "nat \<Rightarrow> nat"
  gc_cache_enabled :: bool

record request_event =
  re_service :: string
  re_method :: string
  re_path :: string
  re_status :: nat

record 'c gateway =
  gw_registry :: registry
  gw_cb :: cb_manager
  gw_lb :: load_balancer
  gw_cache :: "'c response_cache"
  gw_plugins :: plugin_manager
  gw_config :: gw_config
  gw_waf :: waf
  gw_bots :: bot_detector
  gw_metrics :: adv_metrics
  gw_health :: health_scorer
  gw_audit :: audit_logger
  gw_events :: "request_event list"

datatype validation_error = InvalidJson string | SchemaErrors "string list"

datatype gw_answer =
    NotViaGateway
  | BlockedByWaf string
  | BotForbidden
  | BotTooMany
  | NoService string
  | IpBlacklisted string
  | IpNotWhitelisted string
  | SchemaRejected validation_error
  | PluginBlocked nat string
  | CircuitOpen string
  | CacheHit gw_response
  | PluginBlockedResponse nat string
  | Answered gw_response
  | HandlerPanic

section \<open>What may be cached\<close>

definition cache_control_disables_storage :: "string \<Rightarrow> bool" where
  "cache_control_disables_storage value =
     (let normalized = to_ascii_lowercase value
      in str_contains normalized ''no-store'' \<or> str_contains normalized ''private'' \<or>
         str_contains normalized ''no-cache'')"

definition request_is_cacheable :: "gw_request \<Rightarrow> bool" where
  "request_is_cacheable req =
     list_all (\<lambda>(name, v).
       let header_name = to_ascii_lowercase name
       in if header_name \<in> {''authorization'', ''cookie'', ''proxy-authorization'', ''x-api-key'', ''upgrade'', ''range''}
          then False
          else if header_name = ''cache-control'' \<and>
                  (case header_str v of Some s \<Rightarrow> cache_control_disables_storage s | None \<Rightarrow> False)
          then False else True) (gr_headers req)"

definition response_is_cacheable :: "(string \<times> string) list \<Rightarrow> bool" where
  "response_is_cacheable hs =
     list_all (\<lambda>(name, v).
       let header_name = to_ascii_lowercase name
       in if header_name = ''set-cookie'' then False
          else if header_name = ''cache-control'' \<and> cache_control_disables_storage v then False
          else if header_name = ''vary'' \<and> trim v = ''*'' then False else True) hs"

section \<open>Checks before a service is called\<close>

definition validate_request_body :: "gw_env \<Rightarrow> gw_request \<Rightarrow> registry \<Rightarrow> validation_error option" where
  "validate_request_body env req reg =
     (case reg_lookup (gr_path req) reg of
        None \<Rightarrow> None
      | Some svc \<Rightarrow>
          (case validation_schema svc of
             None \<Rightarrow> None
           | Some schema \<Rightarrow>
               if schema = [] then None
               else if gr_method req \<notin> {''POST'', ''PUT'', ''PATCH''} then None
               else if gr_body req = [] then None
               else (case ge_parse_json env (gr_body req) of
                      Inl e \<Rightarrow> Some (InvalidJson e)
                    | Inr v \<Rightarrow>
                        (case ge_compile_schema env schema of
                           None \<Rightarrow> None
                         | Some errors \<Rightarrow> if errors v \<noteq> [] then Some (SchemaErrors (errors v)) else None))))"

definition peer_text :: "string \<Rightarrow> gw_request \<Rightarrow> string" where
  "peer_text missing req = (case gr_peer req of Some a \<Rightarrow> show_ip a | None \<Rightarrow> missing)"

definition service_ip_check :: "gw_request \<Rightarrow> service_entry \<Rightarrow> gw_answer option" where
  "service_ip_check req svc =
     (let peer_ip = peer_text [] req
      in if ip_whitelist svc \<noteq> [] \<or> ip_blacklist svc \<noteq> []
         then if peer_ip \<in> set (ip_blacklist svc) then Some (IpBlacklisted (svc_name svc))
              else if ip_whitelist svc \<noteq> [] \<and> peer_ip \<notin> set (ip_whitelist svc)
              then Some (IpNotWhitelisted (svc_name svc)) else None
         else None)"

definition service_checks :: "gw_env \<Rightarrow> gw_request \<Rightarrow> service_entry \<Rightarrow> 'c gateway \<Rightarrow> gw_answer option" where
  "service_checks env req svc g =
     (case service_ip_check req svc of
        Some a \<Rightarrow> Some a
      | None \<Rightarrow>
          (case (if validation_schema svc \<noteq> None then validate_request_body env req (gw_registry g) else None) of
             Some e \<Rightarrow> Some (SchemaRejected e)
           | None \<Rightarrow>
               (case first_block (execute_on_request (gw_plugins g) (gr_method req) (gr_path req)
                       (fold (\<lambda>(k, v). dm_insert k v) (str_headers (gr_headers req)) [])) of
                  Some (status, msg) \<Rightarrow> Some (PluginBlocked (status_or 403 status) msg)
                | None \<Rightarrow> None)))"

definition waf_verdict_of :: "gw_env \<Rightarrow> gw_request \<Rightarrow> 'c gateway \<Rightarrow> waf_verdict" where
  "waf_verdict_of env req g =
     inspect (ge_pd env) (ge_is_match env) (gw_waf g) (gr_path req) (Some (gr_query req))
       (from_utf8_lossy (gr_body req)) (str_headers (gr_headers req)) (peer_text ''-'' req)"

definition gw_admit :: "gw_env \<Rightarrow> gw_request \<Rightarrow> 'c gateway \<Rightarrow> 'c gateway \<times> (gw_answer + service_entry)" where
  "gw_admit env req g =
     (let path = gr_path req
      in if prefix ''/xira'' path \<or> path = ''/metrics'' \<or> path = ''/ws'' \<or> path = ''/dashboard''
         then (g, Inl NotViaGateway)
         else case waf_verdict_of env req g of
                WafBlocked reason rule \<Rightarrow> (g, Inl (BlockedByWaf rule))
              | WafAllow \<Rightarrow>
                  (let ua = (case req_header ''user-agent'' req of Some s \<Rightarrow> s | None \<Rightarrow> []);
                       (bots, verdict) = bot_check (ge_wall env) (peer_text ''-'' req) ua (gw_bots g);
                       g1 = g\<lparr>gw_bots := bots\<rparr>
                   in if verdict = BotBlocked then (g1, Inl BotForbidden)
                      else if verdict = BotRateLimited then (g1, Inl BotTooMany)
                      else case reg_lookup path (gw_registry g1) of
                             None \<Rightarrow> (g1, Inl (NoService path))
                           | Some svc \<Rightarrow>
                               (case service_checks env req svc g1 of
                                  Some a \<Rightarrow> (g1, Inl a)
                                | None \<Rightarrow> (g1, Inr svc))))"

section \<open>The proxied call\<close>

definition downstream_url :: "string \<Rightarrow> gw_request \<Rightarrow> service_entry \<Rightarrow> string" where
  "downstream_url upstream req svc =
     (let path = (case strip_prefix (svc_prefix svc) (gr_path req) of Some p \<Rightarrow> p | None \<Rightarrow> ''/'');
          path' = (if path = [] then ''/'' else path)
      in if gr_query req = [] then upstream @ path' else upstream @ path' @ ''?'' @ gr_query req)"

text \<open>The retrying call keeps fewer hop-by-hop headers away from the client than the plain one.\<close>

definition retry_skip_headers :: "string list" where
  "retry_skip_headers = [''host'', ''connection'', ''transfer-encoding'', ''keep-alive'', ''upgrade'']"

definition proxy_with_retry ::
  "gw_env \<Rightarrow> gw_config \<Rightarrow> gw_request \<Rightarrow> http_method \<Rightarrow> string \<Rightarrow> header_map \<Rightarrow>
     proxy_result option \<times> upstream_request" where
  "proxy_with_retry env cfg req m url fwd =
     (let u = \<lparr>ur_method = m, ur_url = url, ur_headers = fwd,
               ur_body = (if gr_body req = [] then None else Some (gr_body req))\<rparr>
      in (case fst (retry_execute (retry_policy_new (gc_max_retries cfg) (gc_delay_ms cfg) (gc_backoff cfg))
                      m fwd (ge_send env u) (ge_jitter env)) of
            None \<Rightarrow> None
          | Some (Inr (status, hs, body)) \<Rightarrow>
              Some \<lparr>pr_status = status,
                    pr_headers = str_headers (filter (\<lambda>(k, v). k \<notin> set retry_skip_headers) hs),
                    pr_body = (case body of Some b \<Rightarrow> b | None \<Rightarrow> []), pr_is_error = False\<rparr>
          | Some (Inl e) \<Rightarrow> Some (error_result 502 ''Service unavailable after retries''),
          u))"

definition proxy_call ::
  "gw_env \<Rightarrow> gw_config \<Rightarrow> gw_request \<Rightarrow> string \<Rightarrow> header_map \<Rightarrow>
     proxy_result option \<times> upstream_request option" where
  "proxy_call env cfg req url fwd =
     (let m = (case parse_method (gr_method req) of Some m \<Rightarrow> m | None \<Rightarrow> GET)
      in if 0 < gc_max_retries cfg \<and> method_is_retryable m
         then (let (r, u) = proxy_with_retry env cfg req m url fwd in (r, Some u))
         else (let (r, u) = forward_raw (ge_send env) req url fwd in (Some r, u)))"

section \<open>Recording the outcome\<close>

definition audit_entry_of :: "gw_env \<Rightarrow> gw_request \<Rightarrow> string \<Rightarrow> nat \<Rightarrow> nat \<Rightarrow> audit_entry" where
  "audit_entry_of env req request_id status response_size =
     \<lparr>au_timestamp = ge_timestamp env, au_ip = peer_text ''-'' req, au_method = gr_method req,
      au_path = gr_path req, au_status = status,
      au_user_agent = (case req_header ''user-agent'' req of Some s \<Rightarrow> s | None \<Rightarrow> []),
      au_api_key_preview = map_option (\<lambda>k. if 8 < length k then take 8 k @ ''...'' else k)
                             (req_header ''x-api-key'' req),
      au_request_id = request_id, au_duration = ge_done env - ge_now env,
      au_body_size = length (gr_body req), au_response_size = response_size\<rparr>"

definition request_id_of :: "gw_env \<Rightarrow> gw_request \<Rightarrow> string" where
  "request_id_of env req = (case req_header ''x-request-id'' req of Some s \<Rightarrow> s | None \<Rightarrow> ge_fresh env)"

text \<open>What happens to a response that no transformation applies to.\<close>

definition gw_record :: "gw_env \<Rightarrow> gw_request \<Rightarrow> service_entry \<Rightarrow> gw_response \<Rightarrow> 'c gateway \<Rightarrow> 'c gateway" where
  "gw_record env req svc resp g =
     (let status = rs_status resp;
          size = (case Option.bind (hm_get ''content-length'' (rs_headers resp)) (parse_uint u64_max) of
                    Some n \<Rightarrow> n | None \<Rightarrow> 0);
          elapsed = ge_done env - ge_now env
      in g\<lparr>gw_metrics := adv_record (svc_name svc) status (length (gr_body req)) size (elapsed div 1000000) (gw_metrics g),
           gw_health := health_record (svc_name svc) elapsed (status < 500) (gw_health g),
           gw_audit := audit_log (ge_db_ok env) (audit_entry_of env req (request_id_of env req) status size) (gw_audit g),
           gw_events := gw_events g @ [\<lparr>re_service = svc_name svc, re_method = gr_method req,
                                         re_path = gr_path req, re_status = status\<rparr>]\<rparr>)"

definition gw_respond ::
  "gw_env \<Rightarrow> gw_request \<Rightarrow> service_entry \<Rightarrow> proxy_result \<Rightarrow> 'c gateway \<Rightarrow> 'c gateway \<times> gw_answer" where
  "gw_respond env req svc res g =
     (case svc_transform svc of
        Some t \<Rightarrow>
          (g, Answered \<lparr>rs_status = status_or 500 (pr_status res),
                        rs_headers = apply_response_headers t
                          (hm_insert ''X-Cache'' ''MISS'' (hm_insert ''X-Proxied-By'' ''XIRA''
                             (insert_all (pr_headers res) []))),
                        rs_body = pr_body res\<rparr>)
      | None \<Rightarrow>
          (let resp = into_response res;
               resp' = resp\<lparr>rs_headers := hm_insert ''x-request-id'' (request_id_of env req) (rs_headers resp)\<rparr>
           in (gw_record env req svc resp' g, Answered resp')))"

definition gw_finish ::
  "('c, cached_response) lru_ops \<Rightarrow> gw_env \<Rightarrow> gw_request \<Rightarrow> service_entry \<Rightarrow> string option \<Rightarrow>
     proxy_result \<Rightarrow> 'c gateway \<Rightarrow> 'c gateway \<times> gw_answer" where
  "gw_finish L env req svc cache_key res g =
     (let cb = (if 500 \<le> pr_status res then record_failure (ge_done env) (svc_id svc) (gw_cb g)
                else record_success (ge_done env) (svc_id svc) (gw_cb g));
          g1 = g\<lparr>gw_cb := cb\<rparr>
      in case apply_response_actions (execute_on_response (gw_plugins g1) (pr_status res) (gr_path req))
                (pr_headers res) of
           Inl (status, msg) \<Rightarrow> (g1, PluginBlockedResponse (status_or 500 status) msg)
         | Inr hs \<Rightarrow>
             (let res' = res\<lparr>pr_headers := hs\<rparr>;
                  cache = (if gr_method req = ''GET'' \<and> \<not> pr_is_error res' \<and> 200 \<le> pr_status res' \<and>
                              pr_status res' < 300 \<and> response_is_cacheable (pr_headers res')
                           then case cache_key of
                                  Some k \<Rightarrow> rc_put L (ge_done env) k (pr_status res') (pr_headers res')
                                              (pr_body res') (gw_cache g1)
                                | None \<Rightarrow> gw_cache g1
                           else gw_cache g1)
              in gw_respond env req svc res' (g1\<lparr>gw_cache := cache\<rparr>)))"

section \<open>Calling a service\<close>

definition gw_strategy :: "service_entry \<Rightarrow> lb_strategy" where
  "gw_strategy svc = (case load_balance svc of Some s \<Rightarrow> lb_strategy_from_str s | None \<Rightarrow> RoundRobin)"

definition gw_forward ::
  "('c, cached_response) lru_ops \<Rightarrow> gw_env \<Rightarrow> gw_request \<Rightarrow> service_entry \<Rightarrow> string option \<Rightarrow>
     'c gateway \<Rightarrow> 'c gateway \<times> gw_answer \<times> upstream_request option" where
  "gw_forward L env req svc cache_key g =
     (let (lb1, upstream) = select_upstream (ge_hash env) (svc_id svc) (all_upstreams svc) (gw_strategy svc) (gw_lb g);
          lb2 = acquire_connection upstream lb1;
          fwd0 = build_forward_headers req;
          fwd = (case svc_transform svc of
                   Some t \<Rightarrow> apply_request_headers (ge_well_formed env) t fwd0 | None \<Rightarrow> fwd0);
          (result, sent) = proxy_call env (gw_config g) req (downstream_url upstream req svc) fwd
      in case result of
           None \<Rightarrow> (g\<lparr>gw_lb := lb2\<rparr>, HandlerPanic, sent)
         | Some res \<Rightarrow>
             (let (g', a) = gw_finish L env req svc cache_key res (g\<lparr>gw_lb := release_connection upstream lb2\<rparr>)
              in (g', a, sent)))"

definition gw_cache_key :: "gw_request \<Rightarrow> 'c gateway \<Rightarrow> string option" where
  "gw_cache_key req g =
     (if gr_method req = ''GET'' \<and> gc_cache_enabled (gw_config g) \<and> request_is_cacheable req
      then Some (make_key ''GET'' (gr_path req) (gr_query req)) else None)"

definition gw_call ::
  "('c, cached_response) lru_ops \<Rightarrow> gw_env \<Rightarrow> gw_request \<Rightarrow> service_entry \<Rightarrow>
     'c gateway \<Rightarrow> 'c gateway \<times> gw_answer \<times> upstream_request option" where
  "gw_call L env req svc g =
     (case allow_request (ge_now env) (svc_id svc) (gw_cb g) of
        (cb, Inl st) \<Rightarrow> (g\<lparr>gw_cb := cb\<rparr>, CircuitOpen (svc_name svc), None)
      | (cb, Inr _) \<Rightarrow>
          (let g1 = g\<lparr>gw_cb := cb, gw_registry := increment_request_count (svc_id svc) (gw_registry g)\<rparr>
           in case gw_cache_key req g1 of
                None \<Rightarrow> gw_forward L env req svc None g1
              | Some k \<Rightarrow>
                  (case rc_get L (ge_now env) k (str_headers (gr_headers req)) (gw_cache g1) of
                     (c, Some (status, hs, body)) \<Rightarrow>
                       (g1\<lparr>gw_cache := c\<rparr>,
                        CacheHit \<lparr>rs_status = status_or 200 status,
                                  rs_headers = hm_insert ''X-Proxied-By'' ''XIRA''
                                    (hm_insert ''X-Cache'' ''HIT'' (insert_all hs [])),
                                  rs_body = body\<rparr>, None)
                   | (c, None) \<Rightarrow> gw_forward L env req svc (Some k) (g1\<lparr>gw_cache := c\<rparr>))))"

definition gateway_handler ::
  "('c, cached_response) lru_ops \<Rightarrow> gw_env \<Rightarrow> gw_request \<Rightarrow> 'c gateway \<Rightarrow>
     'c gateway \<times> gw_answer \<times> upstream_request option" where
  "gateway_handler L env req g =
     (case gw_admit env req g of
        (g1, Inl a) \<Rightarrow> (g1, a, None)
      | (g1, Inr svc) \<Rightarrow> gw_call L env req svc g1)"

section \<open>The stages\<close>

text \<open>What has been checked when a request is admitted to a service.\<close>

definition admitted :: "gw_env \<Rightarrow> gw_request \<Rightarrow> service_entry \<Rightarrow> 'c gateway \<Rightarrow> bool" where
  "admitted env req svc g \<longleftrightarrow>
     \<not> prefix ''/xira'' (gr_path req) \<and> gr_path req \<notin> {''/metrics'', ''/ws'', ''/dashboard''} \<and>
     waf_verdict_of env req g = WafAllow \<and>
     snd (bot_check (ge_wall env) (peer_text ''-'' req)
       (case req_header ''user-agent'' req of Some s \<Rightarrow> s | None \<Rightarrow> []) (gw_bots g)) \<notin> {BotBlocked, BotRateLimited} \<and>
     reg_lookup (gr_path req) (gw_registry g) = Some svc \<and>
     service_checks env req svc g = None"

lemma service_checks_bots [simp]: "service_checks env req svc (g\<lparr>gw_bots := b\<rparr>) = service_checks env req svc g"
  by (simp add: service_checks_def cong: option.case_cong if_cong)

lemma gw_admit_service:
  "snd (gw_admit env req g) = Inr svc \<longleftrightarrow> admitted env req svc g"
  by (auto simp: gw_admit_def admitted_def Let_def split: waf_verdict.splits prod.splits option.splits)

lemma gw_admit_frame:
  "fst (gw_admit env req g) = g\<lparr>gw_bots := gw_bots (fst (gw_admit env req g))\<rparr>"
  by (simp add: gw_admit_def Let_def split: waf_verdict.split prod.split option.split)

lemma gateway_handler_cases:
  "gateway_handler L env req g =
     (case snd (gw_admit env req g) of
        Inl a \<Rightarrow> (fst (gw_admit env req g), a, None)
      | Inr svc \<Rightarrow> gw_call L env req svc (fst (gw_admit env req g)))"
  by (cases "gw_admit env req g") (simp add: gateway_handler_def split: sum.split)

text \<open>What the proxied call sends.\<close>

lemma proxy_call_sent:
  "snd (proxy_call env cfg req url fwd) = Some u \<Longrightarrow> ur_url u = url \<and> ur_headers u = fwd"
  by (auto simp: proxy_call_def proxy_with_retry_def forward_raw_def Let_def split: if_splits option.splits)

lemma proxy_with_retry_result: "fst (proxy_with_retry env cfg req m url fwd) \<noteq> None"
proof -
  let ?u = "\<lparr>ur_method = m, ur_url = url, ur_headers = fwd,
    ur_body = (if gr_body req = [] then None else Some (gr_body req))\<rparr>"
  let ?r = "fst (retry_execute (retry_policy_new (gc_max_retries cfg) (gc_delay_ms cfg) (gc_backoff cfg))
    m fwd (ge_send env ?u) (ge_jitter env))"
  have "?r \<noteq> None" by (rule retry_execute_returns)
  then obtain y where "?r = Some y" by blast
  then show ?thesis
    unfolding proxy_with_retry_def Let_def by (cases y) (simp_all only: fst_conv option.case sum.case prod.case option.distinct, auto split: prod.split)
qed

lemma proxy_call_result: "fst (proxy_call env cfg req url fwd) \<noteq> None"
  using proxy_with_retry_result [of env cfg req _ url fwd]
  by (simp add: proxy_call_def Let_def split: prod.splits) (metis fst_conv)

text \<open>A method the gateway does not know is refused without retries, and sent as GET with them.\<close>

lemma unknown_method:
  assumes "parse_method (gr_method req) = None"
  shows "gc_max_retries cfg = 0 \<Longrightarrow> proxy_call env cfg req url fwd =
      (Some (error_result 405 ''Method not supported''), None)"
    and "0 < gc_max_retries cfg \<Longrightarrow> \<exists>u. snd (proxy_call env cfg req url fwd) = Some u \<and> ur_method u = GET"
  using assms
  by (simp_all add: proxy_call_def forward_raw_def proxy_with_retry_def method_is_retryable_def Let_def)

lemma gw_forward_sent:
  assumes "snd (snd (gw_forward L env req svc key g)) = Some u"
  shows "\<exists>upstream \<in> set (all_upstreams svc). ur_url u = downstream_url upstream req svc"
proof -
  let ?sel = "select_upstream (ge_hash env) (svc_id svc) (all_upstreams svc) (gw_strategy svc) (gw_lb g)"
  have mem: "snd ?sel \<in> set (all_upstreams svc)" by (rule select_upstream_mem) simp
  have url: "ur_url u = url" if "proxy_call env cfg req url fwd = (r, Some u)" for cfg url fwd r
    using that proxy_call_sent [of env cfg req url fwd u] by simp
  have "ur_url u = downstream_url (snd ?sel) req svc"
    using assms by (auto simp: gw_forward_def Let_def split: prod.splits option.splits dest: url)
  with mem show ?thesis by blast
qed

lemma gw_call_sent:
  assumes "snd (snd (gw_call L env req svc g)) = Some u"
  shows "snd (allow_request (ge_now env) (svc_id svc) (gw_cb g)) = Inr ()"
    and "\<exists>upstream \<in> set (all_upstreams svc). ur_url u = downstream_url upstream req svc"
  using assms gw_forward_sent
  by (auto simp: gw_call_def Let_def split: prod.splits sum.splits option.splits)

text \<open>The checks of a service, spelled out: address lists, body schema, plugins.\<close>

lemma service_ip_check_None:
  "service_ip_check req svc = None \<longleftrightarrow>
     peer_text [] req \<notin> set (ip_blacklist svc) \<and> (ip_whitelist svc \<noteq> [] \<longrightarrow> peer_text [] req \<in> set (ip_whitelist svc))"
  by (auto simp: service_ip_check_def Let_def)

lemma validate_request_body_None:
  assumes "reg_lookup (gr_path req) reg = Some svc" "validation_schema svc = Some schema" "schema \<noteq> []"
    and "gr_method req \<in> {''POST'', ''PUT'', ''PATCH''}" "gr_body req \<noteq> []"
  shows "validate_request_body env req reg = None \<longleftrightarrow>
    (\<exists>v. ge_parse_json env (gr_body req) = Inr v \<and> (\<forall>errors. ge_compile_schema env schema = Some errors \<longrightarrow> errors v = []))"
  using assms by (auto simp: validate_request_body_def split: sum.splits option.splits)

lemma no_block_in_map:
  "(\<forall>st msg. Block st msg \<notin> set (map f ps)) \<longleftrightarrow> (\<forall>p \<in> set ps. \<forall>st msg. f p \<noteq> Block st msg)"
  unfolding set_map image_iff by metis

lemma plugins_pass:
  "first_block (execute_on_request m verb path hs) = None \<longleftrightarrow>
     (pm_enabled m \<longrightarrow> (\<forall>(name, p) \<in> set (pm_plugins m). \<forall>st msg. pl_on_request p verb path hs \<noteq> Block st msg))"
  unfolding first_block_None execute_on_request_def
  by (simp add: no_block_in_map case_prod_unfold del: set_map)

lemma service_checks_None:
  "service_checks env req svc g = None \<longleftrightarrow>
     service_ip_check req svc = None \<and>
     (validation_schema svc \<noteq> None \<longrightarrow> validate_request_body env req (gw_registry g) = None) \<and>
     first_block (execute_on_request (gw_plugins g) (gr_method req) (gr_path req)
       (fold (\<lambda>(k, v). dm_insert k v) (str_headers (gr_headers req)) [])) = None"
  by (auto simp: service_checks_def split: option.splits)

text \<open>
  C14: Nothing reaches an upstream unchecked. If the catch-all handler sends a request
  upstream, then the path is none of the gateway's own; the firewall allowed path, query, body,
  headers and peer; the bot detector neither blocked nor limited the client; the service is the one
  the registry routes the path to; the peer is on no black list of the service and on its white
  list, if there is one; a body that a schema applies to is JSON without errors of that
  schema, when it compiles; no enabled plugin blocked the request; the circuit breaker of the service
  admitted it; and the URL is that of one of its upstreams.
\<close>

theorem gateway_forward_guarded:
  assumes "snd (snd (gateway_handler L env req g)) = Some u"
  shows "\<exists>svc upstream.
    \<not> prefix ''/xira'' (gr_path req) \<and> gr_path req \<notin> {''/metrics'', ''/ws'', ''/dashboard''} \<and>
    inspect (ge_pd env) (ge_is_match env) (gw_waf g) (gr_path req) (Some (gr_query req))
      (from_utf8_lossy (gr_body req)) (str_headers (gr_headers req)) (peer_text ''-'' req) = WafAllow \<and>
    snd (bot_check (ge_wall env) (peer_text ''-'' req)
      (case req_header ''user-agent'' req of Some s \<Rightarrow> s | None \<Rightarrow> []) (gw_bots g)) \<notin> {BotBlocked, BotRateLimited} \<and>
    reg_lookup (gr_path req) (gw_registry g) = Some svc \<and>
    peer_text [] req \<notin> set (ip_blacklist svc) \<and>
    (ip_whitelist svc \<noteq> [] \<longrightarrow> peer_text [] req \<in> set (ip_whitelist svc)) \<and>
    (\<forall>schema. validation_schema svc = Some schema \<and> schema \<noteq> [] \<and> gr_method req \<in> {''POST'', ''PUT'', ''PATCH''} \<and>
       gr_body req \<noteq> [] \<longrightarrow>
       (\<exists>v. ge_parse_json env (gr_body req) = Inr v \<and>
          (\<forall>errors. ge_compile_schema env schema = Some errors \<longrightarrow> errors v = []))) \<and>
    (pm_enabled (gw_plugins g) \<longrightarrow>
       (\<forall>(name, p) \<in> set (pm_plugins (gw_plugins g)). \<forall>st msg.
          pl_on_request p (gr_method req) (gr_path req)
            (fold (\<lambda>(k, v). dm_insert k v) (str_headers (gr_headers req)) []) \<noteq> Block st msg)) \<and>
    snd (allow_request (ge_now env) (svc_id svc) (gw_cb g)) = Inr () \<and>
    upstream \<in> set (all_upstreams svc) \<and> ur_url u = downstream_url upstream req svc"
proof (cases "snd (gw_admit env req g)")
  case (Inl a)
  with assms show ?thesis by (simp add: gateway_handler_cases)
next
  case (Inr svc)
  obtain b where b: "fst (gw_admit env req g) = g\<lparr>gw_bots := b\<rparr>" using gw_admit_frame by metis
  have "snd (snd (gw_call L env req svc (g\<lparr>gw_bots := b\<rparr>))) = Some u"
    using assms Inr b by (simp add: gateway_handler_cases)
  from gw_call_sent [OF this]
  obtain upstream where sent: "snd (allow_request (ge_now env) (svc_id svc) (gw_cb g)) = Inr ()"
    "upstream \<in> set (all_upstreams svc)" "ur_url u = downstream_url upstream req svc" by auto
  have ok: "admitted env req svc g" using gw_admit_service [THEN iffD1, OF Inr] .
  then have checks: "service_ip_check req svc = None"
    "validation_schema svc \<noteq> None \<longrightarrow> validate_request_body env req (gw_registry g) = None"
    "pm_enabled (gw_plugins g) \<longrightarrow>
       (\<forall>(name, p) \<in> set (pm_plugins (gw_plugins g)). \<forall>st msg.
          pl_on_request p (gr_method req) (gr_path req)
            (fold (\<lambda>(k, v). dm_insert k v) (str_headers (gr_headers req)) []) \<noteq> Block st msg)"
    by (simp_all add: admitted_def service_checks_None plugins_pass)
  have lookup: "reg_lookup (gr_path req) (gw_registry g) = Some svc" using ok by (simp add: admitted_def)
  from checks(2) validate_request_body_None [OF lookup]
  have schema: "\<forall>schema. validation_schema svc = Some schema \<and> schema \<noteq> [] \<and> gr_method req \<in> {''POST'', ''PUT'', ''PATCH''} \<and>
       gr_body req \<noteq> [] \<longrightarrow>
       (\<exists>v. ge_parse_json env (gr_body req) = Inr v \<and>
          (\<forall>errors. ge_compile_schema env schema = Some errors \<longrightarrow> errors v = []))"
    by auto
  show ?thesis
    by (rule exI [of _ svc], rule exI [of _ upstream])
      (use ok sent checks(1,3) schema in \<open>simp add: admitted_def waf_verdict_of_def service_ip_check_None\<close>)
qed

section \<open>Connections\<close>

lemma gw_respond_frame [simp]:
  "gw_lb (fst (gw_respond env req svc res g)) = gw_lb g" "gw_cb (fst (gw_respond env req svc res g)) = gw_cb g"
  "gw_registry (fst (gw_respond env req svc res g)) = gw_registry g"
  by (simp_all add: gw_respond_def gw_record_def Let_def split: option.split)

lemma gw_finish_lb [simp]: "gw_lb (fst (gw_finish L env req svc key res g)) = gw_lb g"
  by (simp add: gw_finish_def Let_def split: sum.split prod.split)

text \<open>The call always has a result, so forwarding is finishing with some result.\<close>

definition lb_after :: "gw_env \<Rightarrow> service_entry \<Rightarrow> load_balancer \<Rightarrow> load_balancer" where
  "lb_after env svc lb =
     (let (lb1, u) = select_upstream (ge_hash env) (svc_id svc) (all_upstreams svc) (gw_strategy svc) lb
      in release_connection u (acquire_connection u lb1))"

lemma gw_forward_finish:
  "\<exists>res sent. gw_forward L env req svc key g =
     (fst (gw_finish L env req svc key res (g\<lparr>gw_lb := lb_after env svc (gw_lb g)\<rparr>)),
      snd (gw_finish L env req svc key res (g\<lparr>gw_lb := lb_after env svc (gw_lb g)\<rparr>)), sent)"
proof -
  obtain lb1 u where sel: "select_upstream (ge_hash env) (svc_id svc) (all_upstreams svc) (gw_strategy svc) (gw_lb g) = (lb1, u)"
    by (cases "select_upstream (ge_hash env) (svc_id svc) (all_upstreams svc) (gw_strategy svc) (gw_lb g)")
  let ?fwd = "case svc_transform svc of
      Some t \<Rightarrow> apply_request_headers (ge_well_formed env) t (build_forward_headers req)
    | None \<Rightarrow> build_forward_headers req"
  let ?call = "proxy_call env (gw_config g) req (downstream_url u req svc) ?fwd"
  obtain res where res: "fst ?call = Some res" using proxy_call_result by blast
  have "gw_forward L env req svc key g =
     (fst (gw_finish L env req svc key res (g\<lparr>gw_lb := lb_after env svc (gw_lb g)\<rparr>)),
      snd (gw_finish L env req svc key res (g\<lparr>gw_lb := lb_after env svc (gw_lb g)\<rparr>)), snd ?call)"
    unfolding gw_forward_def lb_after_def sel Let_def prod.case case_prod_unfold fst_conv snd_conv res by simp
  then show ?thesis by blast
qed

lemma lb_after_balanced:
  assumes "\<forall>u. conn_count lb u < u64_max"
  shows "conn_count (lb_after env svc lb) v = conn_count lb v"
proof -
  let ?sel = "select_upstream (ge_hash env) (svc_id svc) (all_upstreams svc) (gw_strategy svc) lb"
  have same: "conn_count (fst ?sel) u = conn_count lb u" for u by (rule conn_count_cong) simp
  then have "conn_count (fst ?sel) (snd ?sel) < u64_max" using assms by simp
  from acquire_release_balanced [OF this] same show ?thesis by (simp add: lb_after_def case_prod_unfold Let_def)
qed

lemma gw_forward_lb: "gw_lb (fst (gw_forward L env req svc key g)) = lb_after env svc (gw_lb g)"
  using gw_forward_finish [of L env req svc key g] by auto

lemma gw_call_lb:
  assumes "\<forall>u. conn_count (gw_lb g) u < u64_max"
  shows "conn_count (gw_lb (fst (gw_call L env req svc g))) v = conn_count (gw_lb g) v"
  using lb_after_balanced [OF assms]
  by (simp add: gw_call_def Let_def gw_forward_lb split: prod.split sum.split option.split)

text \<open>Every connection a request opens is closed by the time it is answered.\<close>

lemma gateway_connections_balanced:
  assumes "\<forall>u. conn_count (gw_lb g) u < u64_max"
  shows "conn_count (gw_lb (fst (gateway_handler L env req g))) v = conn_count (gw_lb g) v"
proof -
  have lb: "gw_lb (fst (gw_admit env req g)) = gw_lb g" by (subst gw_admit_frame) simp
  with assms have "\<forall>u. conn_count (gw_lb (fst (gw_admit env req g))) u < u64_max" by simp
  from gw_call_lb [OF this] lb show ?thesis by (simp add: gateway_handler_cases split: sum.split)
qed

section \<open>Half-open circuits\<close>

text \<open>All probes of a half-open circuit are taken.\<close>

definition probes_taken :: "uuid \<Rightarrow> cb_manager \<Rightarrow> bool" where
  "probes_taken sid m \<longleftrightarrow>
     (\<exists>e. dm_get (breakers m) sid = Some e \<and> cb_state e = HalfOpen \<and>
          max (half_open_max_requests (cb_cfg m)) 1 \<le> in_flight_probes e)"

lemma probes_taken_allow:
  assumes "probes_taken sid m"
  shows "snd (allow_request now sid m) = Inl HalfOpen" and "probes_taken sid (fst (allow_request now sid m))"
  using assms
  by (auto simp: probes_taken_def allow_request_def allow_entry_def dm_or_insert_def dm_get_insert Let_def)

lemma probes_taken_other: "cb_key e \<noteq> sid \<Longrightarrow> probes_taken sid (cb_step e m) = probes_taken sid m"
  by (simp add: probes_taken_def breakers_step)

lemma gw_forward_cb:
  "\<exists>e. cb_key e = svc_id svc \<and> gw_cb (fst (gw_forward L env req svc key g)) = cb_step e (gw_cb g)"
proof -
  have finish: "\<exists>e. cb_key e = svc_id svc \<and> gw_cb (fst (gw_finish L env req svc key res g)) = cb_step e (gw_cb g)"
    for res and g :: "'a gateway"
  proof (cases "500 \<le> pr_status res")
    case True
    then show ?thesis
      by (intro exI [of _ "Failure (ge_done env) (svc_id svc)"])
        (simp add: gw_finish_def Let_def split: sum.split prod.split)
  next
    case False
    then show ?thesis
      by (intro exI [of _ "Success (ge_done env) (svc_id svc)"])
        (simp add: gw_finish_def Let_def split: sum.split prod.split)
  qed
  obtain res where "fst (gw_forward L env req svc key g) =
      fst (gw_finish L env req svc key res (g\<lparr>gw_lb := lb_after env svc (gw_lb g)\<rparr>))"
    using gw_forward_finish [of L env req svc key g] by fastforce
  with finish [where res = res and g = "g\<lparr>gw_lb := lb_after env svc (gw_lb g)\<rparr>"] show ?thesis by simp
qed

lemma gw_call_probes_taken:
  assumes "probes_taken sid (gw_cb g)"
  shows "probes_taken sid (gw_cb (fst (gw_call L env req svc g)))"
    and "svc_id svc = sid \<Longrightarrow> snd (gw_call L env req svc g) = (CircuitOpen (svc_name svc), None)"
proof -
  have refused: "gw_call L env req svc g =
      (g\<lparr>gw_cb := fst (allow_request (ge_now env) (svc_id svc) (gw_cb g))\<rparr>, CircuitOpen (svc_name svc), None)"
    if sid: "svc_id svc = sid"
  proof -
    obtain cb where "allow_request (ge_now env) (svc_id svc) (gw_cb g) = (cb, Inl HalfOpen)"
      using probes_taken_allow(1) [OF assms, of "ge_now env"] unfolding sid [symmetric]
      by (cases "allow_request (ge_now env) (svc_id svc) (gw_cb g)") simp
    then show ?thesis by (simp add: gw_call_def)
  qed
  then show "svc_id svc = sid \<Longrightarrow> snd (gw_call L env req svc g) = (CircuitOpen (svc_name svc), None)"
    by simp
  let ?cb = "fst (allow_request (ge_now env) (svc_id svc) (gw_cb g))"
  have step: "probes_taken sid (gw_cb (fst (gw_forward L env req svc key g')))"
    if "svc_id svc \<noteq> sid" "probes_taken sid (gw_cb g')" for key g'
    using gw_forward_cb [of svc L env req key g'] that probes_taken_other by metis
  show "probes_taken sid (gw_cb (fst (gw_call L env req svc g)))"
  proof (cases "svc_id svc = sid")
    case True
    then show ?thesis using probes_taken_allow(2) [OF assms] refused by simp
  next
    case False
    then have cb: "probes_taken sid ?cb"
      using assms probes_taken_other [of "Allow (ge_now env) (svc_id svc)" sid "gw_cb g"] by simp
    with False step show ?thesis
      by (auto simp: gw_call_def Let_def split: prod.split sum.split option.split)
  qed
qed

lemma gateway_probes_taken:
  assumes "probes_taken sid (gw_cb g)"
  shows "probes_taken sid (gw_cb (fst (gateway_handler L env req g)))"
    and "admitted env req svc g \<Longrightarrow> svc_id svc = sid \<Longrightarrow>
      snd (gateway_handler L env req g) = (CircuitOpen (svc_name svc), None)"
proof -
  have "gw_cb (fst (gw_admit env req g)) = gw_cb g" by (subst gw_admit_frame) simp
  with assms have cb: "probes_taken sid (gw_cb (fst (gw_admit env req g)))" by simp
  then show "probes_taken sid (gw_cb (fst (gateway_handler L env req g)))"
    using gw_call_probes_taken(1) [OF cb] by (simp add: gateway_handler_cases split: sum.split)
  assume "admitted env req svc g" "svc_id svc = sid"
  then show "snd (gateway_handler L env req g) = (CircuitOpen (svc_name svc), None)"
    using gw_call_probes_taken(2) [OF cb] gw_admit_service [of env req g svc]
    by (simp add: gateway_handler_cases)
qed

definition gw_run ::
  "('c, cached_response) lru_ops \<Rightarrow> (gw_env \<times> gw_request) list \<Rightarrow> 'c gateway \<Rightarrow> 'c gateway" where
  "gw_run L reqs g = fold (\<lambda>(env, req) g. fst (gateway_handler L env req g)) reqs g"

lemma gw_run_probes_taken: "probes_taken sid (gw_cb g) \<Longrightarrow> probes_taken sid (gw_cb (gw_run L reqs g))"
  by (induction reqs arbitrary: g) (auto simp: gw_run_def gateway_probes_taken(1))

text \<open>
  The probe that opens the half-open state, answered from the cache, takes the only probe and
  never gives it back.
\<close>

lemma cached_probe_taken:
  assumes "dm_get (breakers (gw_cb g)) (svc_id svc) = Some e" "cb_state e = Open"
    and "last_failure_time e = Some t"
    and "from_secs (reset_timeout_secs (cb_cfg (gw_cb g))) \<le> ge_now env - t"
    and "half_open_max_requests (cb_cfg (gw_cb g)) \<le> 1"
    and "admitted env req svc g" "fst (snd (gateway_handler L env req g)) = CacheHit resp"
  shows "probes_taken (svc_id svc) (gw_cb (fst (gateway_handler L env req g)))"
proof -
  let ?ga = "fst (gw_admit env req g)"
  have cb: "gw_cb ?ga = gw_cb g" by (subst gw_admit_frame) simp
  have handler: "gateway_handler L env req g = gw_call L env req svc ?ga"
    using assms(6) gw_admit_service [of env req g svc] by (simp add: gateway_handler_cases)
  have taken: "probes_taken (svc_id svc) (fst (allow_request (ge_now env) (svc_id svc) (gw_cb g)))"
    using assms(1-5)
    by (simp add: probes_taken_def allow_request_def allow_entry_def dm_or_insert_def dm_get_insert Let_def)
  have no_hit: "fst (snd (gw_forward L env req svc key g')) \<noteq> CacheHit resp" for key g'
    by (simp add: gw_forward_def gw_finish_def gw_respond_def Let_def split: prod.split option.split sum.split)
  have "gw_cb (fst (gw_call L env req svc ?ga)) = fst (allow_request (ge_now env) (svc_id svc) (gw_cb g))"
    using assms(7) no_hit cb unfolding handler
    by (auto simp: gw_call_def Let_def split: prod.splits sum.splits option.splits)
  with taken handler show ?thesis by simp
qed

text \<open>
  C15: A cached answer can lock a service out for ever. Let the circuit of a service be open
  with its timeout over and a single half-open probe allowed, and let the next request for
  the service be answered from the cache. Then, whatever requests follow and however much
  time passes, every later request that gets as far as the service is refused with an open
  circuit.
\<close>

theorem cached_probe_locks_service:
  assumes "dm_get (breakers (gw_cb g)) (svc_id svc) = Some e" "cb_state e = Open"
    and "last_failure_time e = Some t"
    and "from_secs (reset_timeout_secs (cb_cfg (gw_cb g))) \<le> ge_now env - t"
    and "half_open_max_requests (cb_cfg (gw_cb g)) \<le> 1"
    and "admitted env req svc g" "fst (snd (gateway_handler L env req g)) = CacheHit resp"
    and "g' = gw_run L later (fst (gateway_handler L env req g))"
    and "admitted env' req' svc' g'" "svc_id svc' = svc_id svc"
  shows "snd (gateway_handler L env' req' g') = (CircuitOpen (svc_name svc'), None)"
  using cached_probe_taken [OF assms(1-7), THEN gw_run_probes_taken, of L later] assms(8-10)
  by (auto intro: gateway_probes_taken(2))

section \<open>A concrete gateway\<close>

definition demo_service :: service_entry where
  "demo_service = service_entry_new 7 0 ''s'' ''/a'' ''http://u'' ''/h''"

definition demo_env :: gw_env where
  "demo_env =
     \<lparr>ge_now = 0, ge_done = 0, ge_wall = 0, ge_timestamp = [], ge_hash = 0, ge_fresh = ''r'', ge_db_ok = True,
      ge_pd = (\<lambda>s. s), ge_is_match = (\<lambda>_ _. False), ge_parse_json = (\<lambda>_. Inl []),
      ge_compile_schema = (\<lambda>_. None), ge_well_formed = (\<lambda>_ _. True),
      ge_send = (\<lambda>_ _. Response 200 ([], Some ''ok'')), ge_jitter = (\<lambda>_ _. 0)\<rparr>"

definition demo_request :: gw_request where
  "demo_request =
     \<lparr>gr_method = ''GET'', gr_path = ''/a'', gr_query = [], gr_headers = [], gr_body = [], gr_peer = None,
      gr_scheme = ''http''\<rparr>"

definition demo_gateway ::
  "(uuid, cb_entry) dashmap \<Rightarrow> (string \<times> cached_response) list \<Rightarrow> (string \<times> cached_response) list gateway" where
  "demo_gateway entries cached =
     \<lparr>gw_registry = \<lparr>services = [(7, demo_service)], reg_storage = None\<rparr>,
      gw_cb = \<lparr>breakers = entries,
               cb_cfg = \<lparr>failure_threshold = 1, reset_timeout_secs = 0, half_open_max_requests = 1\<rparr>\<rparr>,
      gw_lb = lb_new, gw_cache = \<lparr>rc_cache = cached, rc_ttl_secs = 60, rc_enabled = True\<rparr>,
      gw_plugins = plugin_manager_new False,
      gw_config = \<lparr>gc_max_retries = 0, gc_delay_ms = 0, gc_backoff = (\<lambda>d. d), gc_cache_enabled = True\<rparr>,
      gw_waf = waf_new False WafBlock, gw_bots = bot_detector_new False False 0, gw_metrics = adv_new,
      gw_health = [], gw_audit = audit_new_with_dispatcher False False False, gw_events = []\<rparr>"

lemma demo_service_simps [simp]:
  "svc_id demo_service = 7" "svc_prefix demo_service = ''/a''" "svc_name demo_service = ''s''"
  "validation_schema demo_service = None" "ip_whitelist demo_service = []" "ip_blacklist demo_service = []"
  "svc_transform demo_service = None" "load_balance demo_service = None"
  "all_upstreams demo_service = [''http://u'']"
  by (simp_all add: demo_service_def service_entry_new_def entry_prefix_def all_upstreams_def trim_end_matches_def)

lemma demo_admitted:
  assumes "map snd (services (gw_registry g)) = [s]" "svc_prefix s = ''/a''"
    "ip_whitelist s = []" "ip_blacklist s = []" "validation_schema s = None"
    and "\<not> waf_enabled (gw_waf g)" "\<not> bd_enabled (gw_bots g)" "\<not> pm_enabled (gw_plugins g)"
  shows "admitted demo_env demo_request s g"
  using assms
  by (simp add: admitted_def demo_request_def waf_verdict_of_def inspect_def bot_check_def req_header_def
      reg_lookup_def path_matches_def service_checks_def service_ip_check_def execute_on_request_def
      list_all_services_def)

lemma demo_gateway_admitted [simp]: "admitted demo_env demo_request demo_service (demo_gateway entries cached)"
  by (rule demo_admitted) (simp_all add: demo_gateway_def waf_new_def bot_detector_new_def plugin_manager_new_def)

lemma demo_admit:
  "gw_admit demo_env demo_request (demo_gateway entries cached) = (demo_gateway entries cached, Inr demo_service)"
proof -
  let ?g = "demo_gateway entries cached"
  have "gw_bots (fst (gw_admit demo_env demo_request ?g)) = gw_bots ?g"
    by (simp add: gw_admit_def Let_def bot_check_def bot_detector_new_def demo_gateway_def
        split: waf_verdict.split option.split)
  then have "fst (gw_admit demo_env demo_request ?g) = ?g" by (subst gw_admit_frame) simp
  moreover have "snd (gw_admit demo_env demo_request ?g) = Inr demo_service"
    by (simp add: gw_admit_service)
  ultimately show ?thesis by (metis prod.collapse)
qed

lemma demo_handler:
  "gateway_handler list_lru demo_env demo_request (demo_gateway entries cached) =
     gw_call list_lru demo_env demo_request demo_service (demo_gateway entries cached)"
  by (simp add: gateway_handler_def demo_admit)

lemma list_lru_get [simp]: "lru_get list_lru k c = (c, map_of c k)"
  by (simp add: list_lru_def)

lemma demo_key: "gw_cache_key demo_request g = (if gc_cache_enabled (gw_config g) then Some ''GET:/a'' else None)"
  by (simp add: gw_cache_key_def demo_request_def request_is_cacheable_def make_key_def)

lemma forward_sends:
  assumes "parse_method (gr_method req) = Some m"
  shows "\<exists>u. snd (proxy_call env cfg req url fwd) = Some u"
  using assms
  by (auto simp: proxy_call_def proxy_with_retry_def forward_raw_def Let_def split: prod.splits)

lemma gw_forward_sends:
  assumes "parse_method (gr_method req) = Some m"
  shows "\<exists>u. snd (snd (gw_forward L env req svc key g)) = Some u"
  using forward_sends [OF assms, of env "gw_config g"]
  by (simp add: gw_forward_def case_prod_unfold Let_def split: option.split)

theorem gateway_forward_guarded_witness:
  "\<exists>svc upstream. reg_lookup (gr_path demo_request) (gw_registry (demo_gateway [] [])) = Some svc \<and>
     upstream \<in> set (all_upstreams svc)"
proof -
  have "parse_method (gr_method demo_request) = Some GET"
    by (simp add: demo_request_def parse_method_def)
  note sends = gw_forward_sends [OF this, of list_lru demo_env demo_service]
  have "\<exists>u. snd (snd (gateway_handler list_lru demo_env demo_request (demo_gateway [] []))) = Some u"
    using sends unfolding demo_handler
    by (simp add: gw_call_def demo_gateway_def demo_key allow_request_def
        dm_or_insert_def allow_entry_def cb_entry_init_def rc_get_def Let_def)
  then obtain u where "snd (snd (gateway_handler list_lru demo_env demo_request (demo_gateway [] []))) = Some u" ..
  from gateway_forward_guarded [OF this] show ?thesis by blast
qed

theorem cached_probe_locks_service_witness:
  "snd (gateway_handler list_lru demo_env demo_request
     (gw_run list_lru [] (fst (gateway_handler list_lru demo_env demo_request
       (demo_gateway [(7, \<lparr>cb_state = Open, failure_count = 1, success_count_half_open = 0, in_flight_probes = 0,
          last_failure_time = Some 0, last_state_change = 0\<rparr>)]
        [(''GET:/a'', \<lparr>cr_status = 200, cr_headers = [], cr_body = ''ok'', cached_at = 0, vary_on = []\<rparr>)]))))) =
   (CircuitOpen ''s'', None)"
proof -
  let ?e = "\<lparr>cb_state = Open, failure_count = 1, success_count_half_open = 0, in_flight_probes = 0,
    last_failure_time = Some 0, last_state_change = 0\<rparr>"
  let ?c = "[(''GET:/a'', \<lparr>cr_status = 200, cr_headers = [], cr_body = ''ok'', cached_at = 0, vary_on = []\<rparr>)]"
  let ?g = "demo_gateway [(7, ?e)] ?c"
  have hit: "\<exists>resp cb. gateway_handler list_lru demo_env demo_request ?g =
      (?g\<lparr>gw_cb := cb, gw_registry := increment_request_count 7 (gw_registry ?g)\<rparr>, CacheHit resp, None)"
    unfolding demo_handler
    by (simp add: gw_call_def demo_gateway_def demo_key allow_request_def
        dm_or_insert_def allow_entry_def rc_get_def demo_env_def is_expired_def from_secs_def Let_def)
  then obtain resp cb where h: "gateway_handler list_lru demo_env demo_request ?g =
      (?g\<lparr>gw_cb := cb, gw_registry := increment_request_count 7 (gw_registry ?g)\<rparr>, CacheHit resp, None)" by blast
  have hit': "fst (snd (gateway_handler list_lru demo_env demo_request ?g)) = CacheHit resp"
    unfolding h by simp
  have "\<exists>s. admitted demo_env demo_request s (fst (gateway_handler list_lru demo_env demo_request ?g)) \<and> svc_id s = 7
      \<and> svc_name s = ''s''"
    unfolding h fst_conv
    by (rule exI [of _ "demo_service\<lparr>request_count := wrap_add64 (request_count demo_service) 1\<rparr>"])
      (auto simp: demo_gateway_def waf_new_def bot_detector_new_def plugin_manager_new_def increment_request_count_def
        Let_def dm_update_def intro!: demo_admitted)
  then obtain s where s: "admitted demo_env demo_request s (gw_run list_lru [] (fst (gateway_handler list_lru demo_env demo_request ?g)))"
    "svc_id s = 7" "svc_name s = ''s''" by (auto simp: gw_run_def)
  have "snd (gateway_handler list_lru demo_env demo_request
      (gw_run list_lru [] (fst (gateway_handler list_lru demo_env demo_request ?g)))) = (CircuitOpen (svc_name s), None)"
    by (rule cached_probe_locks_service [where e = ?e and t = 0 and svc = demo_service and resp = resp, OF _ _ _ _ _ demo_gateway_admitted hit' refl s(1)])
      (simp_all add: s(2), simp_all add: demo_gateway_def)
  then show ?thesis by (simp add: s(3))
qed

end
