(* ===== verification/Versioning.thy ===== *)
theory Versioning
  imports Gateway Jwt Gate_Auth
begin

text \<open>
  src/src/versioning/mod.rs: the handler of \<open>/v{n}/...\<close>, a second way to the services of the
  registry, and what the routes of src/src/main.rs make of a path: which handler serves it
  and which of the middlewares around all routes let it through.
\<close>

section \<open>The versioned route\<close>

text \<open>\<open>splitn(3, '/')\<close> gives the text before the first separator, the segment, and the rest.\<close>

definition extract_version :: "string \<Rightarrow> string option \<times> string" where
  "extract_version path =
     (case split_once CHR ''/'' path of
        None \<Rightarrow> (None, path)
      | Some (_, rest) \<Rightarrow>
          (let (segment, tail) = (case split_once CHR ''/'' rest of
                                    None \<Rightarrow> (rest, None) | Some (a, b) \<Rightarrow> (a, Some b))
           in case strip_prefix ''v'' segment of
                None \<Rightarrow> (None, path)
              | Some version_str \<Rightarrow>
                  (case parse_uint u32_max version_str of
                     Some _ \<Rightarrow> (Some version_str, case tail of Some t \<Rightarrow> ''/'' @ t | None \<Rightarrow> ''/'')
                   | None \<Rightarrow> (None, path))))"

definition version_matches :: "string \<Rightarrow> string \<Rightarrow> service_entry \<Rightarrow> bool" where
  "version_matches version_str actual_path svc =
     (case svc_version svc of
        Some v \<Rightarrow> prefix (svc_prefix svc) actual_path \<and> v = version_str
      | None \<Rightarrow> prefix (svc_prefix svc) actual_path)"

datatype versioned_answer =
    NoVersion string
  | VersionNotFound string string
  | VersionedResponse gw_response

definition versioned_url :: "string \<Rightarrow> service_entry \<Rightarrow> string" where
  "versioned_url actual_path svc =
     (let p = (case strip_prefix (svc_prefix svc) actual_path of Some p \<Rightarrow> p | None \<Rightarrow> ''/'')
      in svc_upstream svc @ (if p = [] then ''/'' else p))"

definition versioned_handler ::
  "(upstream_request \<Rightarrow> nat \<Rightarrow> upstream_reply) \<Rightarrow> gw_request \<Rightarrow> registry \<Rightarrow>
     registry \<times> versioned_answer \<times> upstream_request option" where
  "versioned_handler send req reg =
     (case extract_version (gr_path req) of
        (None, _) \<Rightarrow> (reg, NoVersion (gr_path req), None)
      | (Some version_str, actual_path) \<Rightarrow>
          (case find (version_matches version_str actual_path) (list_all_services reg) of
             Some svc \<Rightarrow>
               (let (res, sent) = forward_raw send req (versioned_url actual_path svc) (build_forward_headers req)
                in (increment_request_count (svc_id svc) reg, VersionedResponse (into_response res), sent))
           | None \<Rightarrow> (reg, VersionNotFound version_str actual_path, None)))"

definition list_versions :: "registry \<Rightarrow> (string \<times> string \<times> string option \<times> string) list" where
  "list_versions reg =
     map (\<lambda>s. (svc_name s, svc_prefix s, svc_version s, svc_upstream s))
       (filter (\<lambda>s. svc_version s \<noteq> None) (list_all_services reg))"

section \<open>What the versioned route does not check\<close>

lemma split_once_Some:
  "c \<notin> set a \<Longrightarrow> split_once c (a @ c # b) = Some (a, b)"
  by (induction a) auto

lemma extract_version_number:
  assumes "parse_uint u32_max v = Some n" "CHR ''/'' \<notin> set v"
  shows "extract_version (''/v'' @ v @ ''/'' @ p) = (Some v, ''/'' @ p)"
proof -
  have "split_once CHR ''/'' (''v'' @ v @ ''/'' @ p) = Some (''v'' @ v, p)"
    using split_once_Some [of "CHR ''/''" "''v'' @ v" p] assms(2) by simp
  then show ?thesis using assms(1) by (simp add: extract_version_def strip_prefix_def)
qed

lemma parse_uint_one: "parse_uint u32_max ''1'' = Some 1"
  by (simp add: parse_uint_def is_digit_def to_digit_def digits_value_def u32_max_def)

lemma find_first: "\<forall>x \<in> set xs. \<not> P x \<Longrightarrow> P y \<Longrightarrow> find P (xs @ y # ys) = Some y"
  by (induction xs) auto

lemma forward_raw_sends:
  assumes "parse_method (gr_method req) = Some m"
  shows "snd (forward_raw send req url fwd) = Some \<lparr>ur_method = m, ur_url = url, ur_headers = fwd,
    ur_body = (if gr_body req = [] then None else Some (gr_body req))\<rparr>"
  using assms by (simp add: forward_raw_def Let_def)

text \<open>
  C16: The versioned route is unguarded. A request for \<open>/v1/...\<close> is sent to the first service
  whose prefix the rest of the path starts with (segment boundaries are not respected, and a
  service without a version answers to every version), whatever that service's address
  lists, body schema or circuit breaker and whatever the firewall, the bot detector and the
  plugins would say: none of them is consulted, and the answer is a function of the registry
  alone. The query string of the request is lost.
\<close>

theorem versioned_route_unguarded:
  assumes "gr_path req = ''/v1/'' @ rest" "parse_method (gr_method req) = Some m"
    and "list_all_services reg = before @ svc # after"
    and "\<forall>s \<in> set before. \<not> version_matches ''1'' (''/'' @ rest) s"
    and "prefix (svc_prefix svc) (''/'' @ rest)" "svc_version svc \<in> {None, Some ''1''}"
  shows "snd (snd (versioned_handler send req reg)) =
    Some \<lparr>ur_method = m, ur_url = versioned_url (''/'' @ rest) svc, ur_headers = build_forward_headers req,
      ur_body = (if gr_body req = [] then None else Some (gr_body req))\<rparr>"
proof -
  have path: "extract_version (gr_path req) = (Some ''1'', ''/'' @ rest)"
    using extract_version_number [OF parse_uint_one, of rest] assms(1) by simp
  have "version_matches ''1'' (''/'' @ rest) svc"
    using assms(5,6) by (auto simp: version_matches_def)
  with assms(3,4) have "find (version_matches ''1'' (''/'' @ rest)) (list_all_services reg) = Some svc"
    by (simp add: find_first)
  then show ?thesis
    using forward_raw_sends [OF assms(2), of send] path
    by (simp add: versioned_handler_def case_prod_unfold)
qed

text \<open>Here the firewall refuses the plain path, and the versioned one is forwarded.\<close>

theorem versioned_route_unguarded_witness:
  "snd (snd (versioned_handler (ge_send demo_env) (demo_request\<lparr>gr_path := ''/v1/a'', gr_query := ''q''\<rparr>)
       (gw_registry (demo_gateway [] [])))) =
     Some \<lparr>ur_method = GET, ur_url = ''http://u/'',
       ur_headers = build_forward_headers (demo_request\<lparr>gr_path := ''/v1/a'', gr_query := ''q''\<rparr>), ur_body = None\<rparr>
   \<and> snd (gateway_handler list_lru (demo_env\<lparr>ge_is_match := (\<lambda>_ _. True)\<rparr>) demo_request
       ((demo_gateway [] [])\<lparr>gw_waf := waf_new True WafBlock\<rparr>)) = (BlockedByWaf ''SQLI'', None)"
proof
  have v: "svc_version demo_service = None" by (simp add: demo_service_def service_entry_new_def)
  have u: "svc_upstream demo_service = ''http://u''"
    by (simp add: demo_service_def service_entry_new_def trim_end_matches_def)
  show "snd (snd (versioned_handler (ge_send demo_env) (demo_request\<lparr>gr_path := ''/v1/a'', gr_query := ''q''\<rparr>)
       (gw_registry (demo_gateway [] [])))) =
     Some \<lparr>ur_method = GET, ur_url = ''http://u/'',
       ur_headers = build_forward_headers (demo_request\<lparr>gr_path := ''/v1/a'', gr_query := ''q''\<rparr>), ur_body = None\<rparr>"
    using versioned_route_unguarded [of "demo_request\<lparr>gr_path := ''/v1/a'', gr_query := ''q''\<rparr>" "''a''" GET
        "gw_registry (demo_gateway [] [])" "[]" demo_service "[]" "ge_send demo_env"]
    by (simp add: demo_request_def parse_method_def demo_gateway_def list_all_services_def v
        versioned_url_def strip_prefix_def u)
  show "snd (gateway_handler list_lru (demo_env\<lparr>ge_is_match := (\<lambda>_ _. True)\<rparr>) demo_request
       ((demo_gateway [] [])\<lparr>gw_waf := waf_new True WafBlock\<rparr>)) = (BlockedByWaf ''SQLI'', None)"
    by (simp add: gateway_handler_def gw_admit_def demo_request_def waf_verdict_of_def inspect_def waf_new_def
        first_hit_def sql_patterns_def all_inputs_def)
qed

section \<open>Paths with dot segments\<close>

text \<open>
  The middlewares around the routes, from the outside in: the API key, the address filter,
  the JWT middleware, the rate limiter. The first and the third decide by the path; the
  catch-all handler is reached when no route matches.
\<close>

text \<open>
  C17: The JWT middleware and the router disagree on paths with dot segments. A path
  \<open>p/../auth/x\<close> below the prefix \<open>p\<close> of a service is exempt from the token, because its
  normal form starts with \<open>/auth/\<close>; the API key middleware passes it, because it does not
  start with \<open>/xira\<close>; and the registry, which reads the path as it came, routes it to that
  service. So with the firewall's traversal rule out of the way, a request without any
  credentials reaches the service.
\<close>

theorem jwt_path_confusion:
  assumes "\<forall>c \<in> set name. c \<noteq> CHR ''/''" "name \<notin> {'''', ''.'', ''..'', ''xira''}"
    and "\<not> prefix ''xira'' name"
    and "list_all_services reg = [svc]" "svc_prefix svc = ''/'' @ name"
    and "path = ''/'' @ name @ ''/../auth/'' @ x"
    and "CHR ''/'' \<notin> set x" "x \<notin> {'''', ''.'', ''..''}"
  shows "jwt_call decode j path None = JwtPass \<and> api_key_call key path None = ApiPass \<and>
    reg_lookup path reg = Some svc"
proof (intro conjI)
  have name: "CHR ''/'' \<notin> set name" using assms(1) by blast
  have segs: "split_on CHR ''/'' path = [[], name, ''..'', ''auth'', x]"
    using split_on_single [of "CHR ''/''" name] split_on_single [OF assms(7)] name
    by (simp add: assms(6) split_on_append)
  have stack: "foldl push_segment [] (split_on CHR ''/'' path) = [''auth'', x]"
    unfolding segs using assms(2,8) by (simp add: push_segment_def)
  have lead: "prefix ''/'' path" by (simp add: assms(6))
  have "normalize_path path = ''/auth/'' @ x \<or> normalize_path path = ''/auth/'' @ x @ ''/''"
    unfolding normalize_path_def stack Let_def using lead by simp
  then have "prefix ''/auth/'' (normalize_path path)" by auto
  then show "jwt_call decode j path None = JwtPass" by (simp add: jwt_call_def is_exempt_path_def)
  have "\<not> prefix ''xira'' (name @ ''/../auth/'' @ x)"
  proof
    assume p: "prefix ''xira'' (name @ ''/../auth/'' @ x)"
    with assms(3) have "prefix name ''xira''" using prefix_same_cases [OF p, of name] by auto
    then have "name \<in> {'''', ''x'', ''xi'', ''xir'', ''xira''}"
      by (auto simp: prefix_def Cons_eq_append_conv append_eq_Cons_conv)
    with p assms(2) show False by auto
  qed
  then show "api_key_call key path None = ApiPass" by (simp add: api_key_call_def assms(6))
  have "path_matches path svc" using assms(2,5,6) by (auto simp: path_matches_def nth_append)
  then show "reg_lookup path reg = Some svc"
    using assms(2,4,5) by (auto simp: reg_lookup_def list_all_services_def)
qed

theorem jwt_path_confusion_witness:
  "jwt_call (\<lambda>_ _ _. False)
     (\<lparr>jwt_key = Hmac [], jwt_algorithm = HS256, jwt_issuer = None, jwt_audience = None,
       jwt_enabled = True\<rparr> :: unit jwt_auth) ''/a/../auth/x'' None = JwtPass \<and>
   reg_lookup ''/a/../auth/x'' (gw_registry (demo_gateway [] [])) = Some demo_service"
proof -
  have "list_all_services (gw_registry (demo_gateway [] [])) = [demo_service]"
    by (simp add: demo_gateway_def list_all_services_def)
  from jwt_path_confusion [OF _ _ _ this, of "''a''" "''/a/../auth/x''" "''x''" "\<lambda>_ _ _. False"
      "\<lparr>jwt_key = Hmac [], jwt_algorithm = HS256, jwt_issuer = None, jwt_audience = None, jwt_enabled = True\<rparr> :: unit jwt_auth" "[]"]
  show ?thesis by simp
qed

end
