(* ===== verification/Config.thy ===== *)
theory Config
  imports Registry Jwt "HOL-Library.Monad_Syntax"
begin

text \<open>
  src/src/config/mod.rs: the configuration file. Reading the file and parsing TOML are
  parameters; a document is a table of values. The deserialisers follow the attributes of the
  structs: a key that is absent takes the default of its field, a section that is absent takes
  the \<open>Default\<close> instance of its struct. These are different functions in the source, and the
  sections whose instance is derived do not repeat the defaults of their fields. Unknown keys
  are ignored, a section is a table, and a floating-point value is kept as its literal.
\<close>

section \<open>Values\<close>

datatype toml =
    T_str string
  | T_int int
  | T_float string
  | T_bool bool
  | T_datetime string
  | T_arr "toml list"
  | T_table "(string \<times> toml) list"

type_synonym table = "(string \<times> toml) list"

fun de_str :: "toml \<Rightarrow> string option" where
  "de_str (T_str s) = Some s"
| "de_str _ = None"

fun de_bool :: "toml \<Rightarrow> bool option" where
  "de_bool (T_bool b) = Some b"
| "de_bool _ = None"

text \<open>An integer outside the range of its field is an error.\<close>

fun de_uint :: "nat \<Rightarrow> toml \<Rightarrow> nat option" where
  "de_uint maxv (T_int i) = (if 0 \<le> i \<and> nat i \<le> maxv then Some (nat i) else None)"
| "de_uint maxv _ = None"

fun de_f64 :: "toml \<Rightarrow> string option" where
  "de_f64 (T_float lit) = Some lit"
| "de_f64 (T_int i) = Some (if i < 0 then CHR ''-'' # show_nat (nat (- i)) else show_nat (nat i))"
| "de_f64 _ = None"

definition de_option :: "(toml \<Rightarrow> 'a option) \<Rightarrow> toml \<Rightarrow> 'a option option" where
  "de_option de v = map_option Some (de v)"

fun de_list :: "(toml \<Rightarrow> 'a option) \<Rightarrow> toml \<Rightarrow> 'a list option" where
  "de_list de (T_arr vs) = those (map de vs)"
| "de_list de _ = None"

fun de_map :: "(toml \<Rightarrow> 'a option) \<Rightarrow> toml \<Rightarrow> (string \<times> 'a) list option" where
  "de_map de (T_table t) = those (map (\<lambda>(k, v). map_option (Pair k) (de v)) t)"
| "de_map de _ = None"

fun section_of :: "(table \<Rightarrow> 'a option) \<Rightarrow> toml \<Rightarrow> 'a option" where
  "section_of de (T_table t) = de t"
| "section_of de _ = None"

definition field :: "string \<Rightarrow> (toml \<Rightarrow> 'a option) \<Rightarrow> 'a option \<Rightarrow> table \<Rightarrow> 'a option" where
  "field k de absent t = (case map_of t k of Some v \<Rightarrow> de v | None \<Rightarrow> absent)"

section \<open>Sections\<close>

record bus_cfg =
  c_bus_backend :: string
  c_bus_redis_url :: string

definition bus_cfg_default :: bus_cfg where
  "bus_cfg_default =
     \<lparr>c_bus_backend = ''noop'', c_bus_redis_url = ''''\<rparr>"

definition de_bus_cfg :: "table \<Rightarrow> bus_cfg option" where
  "de_bus_cfg t = do {
     backend \<leftarrow> field ''backend'' de_str (Some ''noop'') t;
     redis_url \<leftarrow> field ''redis_url'' de_str (Some '''') t;
     Some \<lparr>c_bus_backend = backend, c_bus_redis_url = redis_url\<rparr> }"

record audit_cfg =
  c_audit_file_path :: "string option"
  c_audit_webhook_url :: "string option"
  c_audit_webhook_headers :: "(string \<times> string) list"
  c_audit_buffer_size :: nat

definition audit_cfg_default :: audit_cfg where
  "audit_cfg_default =
     \<lparr>c_audit_file_path = None, c_audit_webhook_url = None, c_audit_webhook_headers = [],
      c_audit_buffer_size = 0\<rparr>"

definition de_audit_cfg :: "table \<Rightarrow> audit_cfg option" where
  "de_audit_cfg t = do {
     file_path \<leftarrow> field ''file_path'' (de_option de_str) (Some None) t;
     webhook_url \<leftarrow> field ''webhook_url'' (de_option de_str) (Some None) t;
     webhook_headers \<leftarrow> field ''webhook_headers'' (de_map de_str) (Some []) t;
     buffer_size \<leftarrow> field ''buffer_size'' (de_uint u64_max) (Some 10000) t;
     Some \<lparr>c_audit_file_path = file_path, c_audit_webhook_url = webhook_url,
       c_audit_webhook_headers = webhook_headers, c_audit_buffer_size = buffer_size\<rparr> }"

record cors_cfg =
  c_cors_allowed_origins :: "string list"
  c_cors_allow_credentials :: bool
  c_cors_max_age :: nat

definition cors_cfg_default :: cors_cfg where
  "cors_cfg_default =
     \<lparr>c_cors_allowed_origins = [''http://localhost'', ''http://127.0.0.1''],
      c_cors_allow_credentials = False, c_cors_max_age = 3600\<rparr>"

definition de_cors_cfg :: "table \<Rightarrow> cors_cfg option" where
  "de_cors_cfg t = do {
     allowed_origins \<leftarrow> field ''allowed_origins'' (de_list de_str) (Some [''http://localhost'', ''http://127.0.0.1'']) t;
     allow_credentials \<leftarrow> field ''allow_credentials'' de_bool (Some False) t;
     max_age \<leftarrow> field ''max_age'' (de_uint u64_max) (Some 3600) t;
     Some \<lparr>c_cors_allowed_origins = allowed_origins, c_cors_allow_credentials = allow_credentials,
       c_cors_max_age = max_age\<rparr> }"

record gateway_cfg =
  c_gateway_host :: string
  c_gateway_port :: nat
  c_gateway_workers :: nat

definition de_gateway_cfg :: "table \<Rightarrow> gateway_cfg option" where
  "de_gateway_cfg t = do {
     host \<leftarrow> field ''host'' de_str None t;
     port \<leftarrow> field ''port'' (de_uint 65535) None t;
     workers \<leftarrow> field ''workers'' (de_uint u64_max) (Some 4) t;
     Some \<lparr>c_gateway_host = host, c_gateway_port = port, c_gateway_workers = workers\<rparr> }"

record admin_cfg =
  c_admin_api_key :: string
  c_admin_enabled :: bool

definition de_admin_cfg :: "table \<Rightarrow> admin_cfg option" where
  "de_admin_cfg t = do {
     api_key \<leftarrow> field ''api_key'' de_str None t;
     enabled \<leftarrow> field ''enabled'' de_bool None t;
     Some \<lparr>c_admin_api_key = api_key, c_admin_enabled = enabled\<rparr> }"

record health_cfg =
  c_health_interval_secs :: nat
  c_health_timeout_secs :: nat

definition de_health_cfg :: "table \<Rightarrow> health_cfg option" where
  "de_health_cfg t = do {
     interval_secs \<leftarrow> field ''interval_secs'' (de_uint u64_max) None t;
     timeout_secs \<leftarrow> field ''timeout_secs'' (de_uint u64_max) None t;
     Some \<lparr>c_health_interval_secs = interval_secs, c_health_timeout_secs = timeout_secs\<rparr> }"

record tls_cfg =
  c_tls_enabled :: bool
  c_tls_cert_path :: string
  c_tls_key_path :: string
  c_tls_mtls_enabled :: bool
  c_tls_client_ca_path :: "string option"

definition de_tls_cfg :: "table \<Rightarrow> tls_cfg option" where
  "de_tls_cfg t = do {
     enabled \<leftarrow> field ''enabled'' de_bool None t;
     cert_path \<leftarrow> field ''cert_path'' de_str None t;
     key_path \<leftarrow> field ''key_path'' de_str None t;
     mtls_enabled \<leftarrow> field ''mtls_enabled'' de_bool (Some False) t;
     client_ca_path \<leftarrow> field ''client_ca_path'' (de_option de_str) (Some None) t;
     Some \<lparr>c_tls_enabled = enabled, c_tls_cert_path = cert_path, c_tls_key_path = key_path,
       c_tls_mtls_enabled = mtls_enabled, c_tls_client_ca_path = client_ca_path\<rparr> }"

record metrics_cfg =
  c_metrics_enabled :: bool
  c_metrics_path :: string

definition metrics_cfg_default :: metrics_cfg where
  "metrics_cfg_default =
     \<lparr>c_metrics_enabled = False, c_metrics_path = ''''\<rparr>"

definition de_metrics_cfg :: "table \<Rightarrow> metrics_cfg option" where
  "de_metrics_cfg t = do {
     enabled \<leftarrow> field ''enabled'' de_bool (Some True) t;
     path \<leftarrow> field ''path'' de_str (Some ''/metrics'') t;
     Some \<lparr>c_metrics_enabled = enabled, c_metrics_path = path\<rparr> }"

record logging_cfg =
  c_logging_file_enabled :: bool
  c_logging_file_path :: string
  c_logging_rotation :: string
  c_logging_level :: string

definition logging_cfg_default :: logging_cfg where
  "logging_cfg_default =
     \<lparr>c_logging_file_enabled = False, c_logging_file_path = '''', c_logging_rotation = '''',
      c_logging_level = ''''\<rparr>"

definition de_logging_cfg :: "table \<Rightarrow> logging_cfg option" where
  "de_logging_cfg t = do {
     file_enabled \<leftarrow> field ''file_enabled'' de_bool (Some False) t;
     file_path \<leftarrow> field ''file_path'' de_str (Some ''logs/xiranet.log'') t;
     rotation \<leftarrow> field ''rotation'' de_str (Some ''daily'') t;
     level \<leftarrow> field ''level'' de_str (Some ''info'') t;
     Some \<lparr>c_logging_file_enabled = file_enabled, c_logging_file_path = file_path,
       c_logging_rotation = rotation, c_logging_level = level\<rparr> }"

record alerting_cfg =
  c_alerting_enabled :: bool
  c_alerting_webhook_url :: "string option"
  c_alerting_on_service_down :: bool
  c_alerting_on_service_up :: bool

definition alerting_cfg_default :: alerting_cfg where
  "alerting_cfg_default =
     \<lparr>c_alerting_enabled = False, c_alerting_webhook_url = None, c_alerting_on_service_down = False,
      c_alerting_on_service_up = False\<rparr>"

definition de_alerting_cfg :: "table \<Rightarrow> alerting_cfg option" where
  "de_alerting_cfg t = do {
     enabled \<leftarrow> field ''enabled'' de_bool (Some False) t;
     webhook_url \<leftarrow> field ''webhook_url'' (de_option de_str) (Some None) t;
     on_service_down \<leftarrow> field ''on_service_down'' de_bool (Some False) t;
     on_service_up \<leftarrow> field ''on_service_up'' de_bool (Some False) t;
     Some \<lparr>c_alerting_enabled = enabled, c_alerting_webhook_url = webhook_url,
       c_alerting_on_service_down = on_service_down, c_alerting_on_service_up = on_service_up\<rparr> }"

record rate_limit_cfg =
  c_rate_limit_max_requests :: nat
  c_rate_limit_window_secs :: nat
  c_rate_limit_routes :: "(string \<times> nat) list"
  c_rate_limit_trust_xff :: bool
  c_rate_limit_trusted_proxies :: "string list"

definition rate_limit_cfg_default :: rate_limit_cfg where
  "rate_limit_cfg_default =
     \<lparr>c_rate_limit_max_requests = 100, c_rate_limit_window_secs = 60, c_rate_limit_routes = [],
      c_rate_limit_trust_xff = False, c_rate_limit_trusted_proxies = []\<rparr>"

definition de_rate_limit_cfg :: "table \<Rightarrow> rate_limit_cfg option" where
  "de_rate_limit_cfg t = do {
     max_requests \<leftarrow> field ''max_requests'' (de_uint u32_max) (Some 100) t;
     window_secs \<leftarrow> field ''window_secs'' (de_uint u64_max) (Some 60) t;
     routes \<leftarrow> field ''routes'' (de_map (de_uint u32_max)) (Some []) t;
     trust_xff \<leftarrow> field ''trust_xff'' de_bool (Some False) t;
     trusted_proxies \<leftarrow> field ''trusted_proxies'' (de_list de_str) (Some []) t;
     Some \<lparr>c_rate_limit_max_requests = max_requests, c_rate_limit_window_secs = window_secs,
       c_rate_limit_routes = routes, c_rate_limit_trust_xff = trust_xff,
       c_rate_limit_trusted_proxies = trusted_proxies\<rparr> }"

record cache_cfg =
  c_cache_enabled :: bool
  c_cache_ttl_secs :: nat
  c_cache_max_entries :: nat

definition cache_cfg_default :: cache_cfg where
  "cache_cfg_default =
     \<lparr>c_cache_enabled = False, c_cache_ttl_secs = 0, c_cache_max_entries = 0\<rparr>"

definition de_cache_cfg :: "table \<Rightarrow> cache_cfg option" where
  "de_cache_cfg t = do {
     enabled \<leftarrow> field ''enabled'' de_bool (Some False) t;
     ttl_secs \<leftarrow> field ''ttl_secs'' (de_uint u64_max) (Some 300) t;
     max_entries \<leftarrow> field ''max_entries'' (de_uint u64_max) (Some 1000) t;
     Some \<lparr>c_cache_enabled = enabled, c_cache_ttl_secs = ttl_secs, c_cache_max_entries = max_entries\<rparr> }"

record jwt_cfg =
  c_jwt_enabled :: bool
  c_jwt_secret :: string
  c_jwt_algorithm :: string
  c_jwt_issuer :: "string option"

definition jwt_cfg_default :: jwt_cfg where
  "jwt_cfg_default =
     \<lparr>c_jwt_enabled = False, c_jwt_secret = '''', c_jwt_algorithm = '''', c_jwt_issuer = None\<rparr>"

definition de_jwt_cfg :: "table \<Rightarrow> jwt_cfg option" where
  "de_jwt_cfg t = do {
     enabled \<leftarrow> field ''enabled'' de_bool (Some False) t;
     secret \<leftarrow> field ''secret'' de_str (Some '''') t;
     algorithm \<leftarrow> field ''algorithm'' de_str (Some ''HS256'') t;
     issuer \<leftarrow> field ''issuer'' (de_option de_str) (Some None) t;
     Some \<lparr>c_jwt_enabled = enabled, c_jwt_secret = secret, c_jwt_algorithm = algorithm, c_jwt_issuer = issuer\<rparr> }"

record oauth2_cfg =
  c_oauth2_enabled :: bool
  c_oauth2_issuer_url :: string
  c_oauth2_introspection_url :: "string option"
  c_oauth2_client_id :: "string option"
  c_oauth2_client_secret :: "string option"
  c_oauth2_jwks_url :: "string option"

definition oauth2_cfg_default :: oauth2_cfg where
  "oauth2_cfg_default =
     \<lparr>c_oauth2_enabled = False, c_oauth2_issuer_url = '''', c_oauth2_introspection_url = None,
      c_oauth2_client_id = None, c_oauth2_client_secret = None, c_oauth2_jwks_url = None\<rparr>"

definition de_oauth2_cfg :: "table \<Rightarrow> oauth2_cfg option" where
  "de_oauth2_cfg t = do {
     enabled \<leftarrow> field ''enabled'' de_bool (Some False) t;
     issuer_url \<leftarrow> field ''issuer_url'' de_str (Some '''') t;
     introspection_url \<leftarrow> field ''introspection_url'' (de_option de_str) (Some None) t;
     client_id \<leftarrow> field ''client_id'' (de_option de_str) (Some None) t;
     client_secret \<leftarrow> field ''client_secret'' (de_option de_str) (Some None) t;
     jwks_url \<leftarrow> field ''jwks_url'' (de_option de_str) (Some None) t;
     Some \<lparr>c_oauth2_enabled = enabled, c_oauth2_issuer_url = issuer_url,
       c_oauth2_introspection_url = introspection_url, c_oauth2_client_id = client_id,
       c_oauth2_client_secret = client_secret, c_oauth2_jwks_url = jwks_url\<rparr> }"

record ip_filter_cfg =
  c_ip_filter_enabled :: bool
  c_ip_filter_whitelist :: "string list"
  c_ip_filter_blacklist :: "string list"

definition ip_filter_cfg_default :: ip_filter_cfg where
  "ip_filter_cfg_default =
     \<lparr>c_ip_filter_enabled = False, c_ip_filter_whitelist = [], c_ip_filter_blacklist = []\<rparr>"

definition de_ip_filter_cfg :: "table \<Rightarrow> ip_filter_cfg option" where
  "de_ip_filter_cfg t = do {
     enabled \<leftarrow> field ''enabled'' de_bool (Some False) t;
     whitelist \<leftarrow> field ''whitelist'' (de_list de_str) (Some []) t;
     blacklist \<leftarrow> field ''blacklist'' (de_list de_str) (Some []) t;
     Some \<lparr>c_ip_filter_enabled = enabled, c_ip_filter_whitelist = whitelist, c_ip_filter_blacklist = blacklist\<rparr> }"

record circuit_breaker_cfg =
  c_cb_failure_threshold :: nat
  c_cb_reset_timeout_secs :: nat
  c_cb_half_open_max_requests :: nat

definition circuit_breaker_cfg_default :: circuit_breaker_cfg where
  "circuit_breaker_cfg_default =
     \<lparr>c_cb_failure_threshold = 5, c_cb_reset_timeout_secs = 30, c_cb_half_open_max_requests = 3\<rparr>"

definition de_circuit_breaker_cfg :: "table \<Rightarrow> circuit_breaker_cfg option" where
  "de_circuit_breaker_cfg t = do {
     failure_threshold \<leftarrow> field ''failure_threshold'' (de_uint u32_max) (Some 5) t;
     reset_timeout_secs \<leftarrow> field ''reset_timeout_secs'' (de_uint u64_max) (Some 30) t;
     half_open_max_requests \<leftarrow> field ''half_open_max_requests'' (de_uint u32_max) (Some 3) t;
     Some \<lparr>c_cb_failure_threshold = failure_threshold, c_cb_reset_timeout_secs = reset_timeout_secs,
       c_cb_half_open_max_requests = half_open_max_requests\<rparr> }"

record retry_cfg =
  c_retry_max_retries :: nat
  c_retry_delay_ms :: nat
  c_retry_backoff_multiplier :: string

definition retry_cfg_default :: retry_cfg where
  "retry_cfg_default =
     \<lparr>c_retry_max_retries = 3, c_retry_delay_ms = 100, c_retry_backoff_multiplier = ''2.0''\<rparr>"

definition de_retry_cfg :: "table \<Rightarrow> retry_cfg option" where
  "de_retry_cfg t = do {
     max_retries \<leftarrow> field ''max_retries'' (de_uint u32_max) (Some 3) t;
     delay_ms \<leftarrow> field ''delay_ms'' (de_uint u64_max) (Some 100) t;
     backoff_multiplier \<leftarrow> field ''backoff_multiplier'' de_f64 (Some ''2.0'') t;
     Some \<lparr>c_retry_max_retries = max_retries, c_retry_delay_ms = delay_ms,
       c_retry_backoff_multiplier = backoff_multiplier\<rparr> }"

record plugin_cfg =
  c_plugin_enabled :: bool
  c_plugin_directory :: string

definition plugin_cfg_default :: plugin_cfg where
  "plugin_cfg_default =
     \<lparr>c_plugin_enabled = False, c_plugin_directory = ''''\<rparr>"

definition de_plugin_cfg :: "table \<Rightarrow> plugin_cfg option" where
  "de_plugin_cfg t = do {
     enabled \<leftarrow> field ''enabled'' de_bool (Some False) t;
     directory \<leftarrow> field ''directory'' de_str (Some ''plugins'') t;
     Some \<lparr>c_plugin_enabled = enabled, c_plugin_directory = directory\<rparr> }"

record grpc_cfg =
  c_grpc_enabled :: bool
  c_grpc_port :: nat

definition grpc_cfg_default :: grpc_cfg where
  "grpc_cfg_default =
     \<lparr>c_grpc_enabled = False, c_grpc_port = 0\<rparr>"

definition de_grpc_cfg :: "table \<Rightarrow> grpc_cfg option" where
  "de_grpc_cfg t = do {
     enabled \<leftarrow> field ''enabled'' de_bool (Some False) t;
     port \<leftarrow> field ''port'' (de_uint 65535) (Some 9001) t;
     Some \<lparr>c_grpc_enabled = enabled, c_grpc_port = port\<rparr> }"

record discovery_cfg =
  c_discovery_enabled :: bool
  c_discovery_backend :: string
  c_discovery_consul_url :: "string option"
  c_discovery_consul_datacenter :: "string option"
  c_discovery_dns_domain :: "string option"
  c_discovery_interval_secs :: nat
  c_discovery_mesh_enabled :: bool
  c_discovery_docker_enabled :: bool
  c_discovery_docker_socket :: string

definition discovery_cfg_default :: discovery_cfg where
  "discovery_cfg_default =
     \<lparr>c_discovery_enabled = False, c_discovery_backend = '''', c_discovery_consul_url = None,
      c_discovery_consul_datacenter = None, c_discovery_dns_domain = None, c_discovery_interval_secs = 0,
      c_discovery_mesh_enabled = False, c_discovery_docker_enabled = False,
      c_discovery_docker_socket = ''''\<rparr>"

definition de_discovery_cfg :: "table \<Rightarrow> discovery_cfg option" where
  "de_discovery_cfg t = do {
     enabled \<leftarrow> field ''enabled'' de_bool (Some False) t;
     backend \<leftarrow> field ''backend'' de_str (Some ''static'') t;
     consul_url \<leftarrow> field ''consul_url'' (de_option de_str) (Some None) t;
     consul_datacenter \<leftarrow> field ''consul_datacenter'' (de_option de_str) (Some None) t;
     dns_domain \<leftarrow> field ''dns_domain'' (de_option de_str) (Some None) t;
     interval_secs \<leftarrow> field ''interval_secs'' (de_uint u64_max) (Some 30) t;
     mesh_enabled \<leftarrow> field ''mesh_enabled'' de_bool (Some False) t;
     docker_enabled \<leftarrow> field ''docker_enabled'' de_bool (Some False) t;
     docker_socket \<leftarrow> field ''docker_socket'' de_str (Some ''http://localhost:2375'') t;
     Some \<lparr>c_discovery_enabled = enabled, c_discovery_backend = backend, c_discovery_consul_url = consul_url,
       c_discovery_consul_datacenter = consul_datacenter, c_discovery_dns_domain = dns_domain,
       c_discovery_interval_secs = interval_secs, c_discovery_mesh_enabled = mesh_enabled,
       c_discovery_docker_enabled = docker_enabled, c_discovery_docker_socket = docker_socket\<rparr> }"

record redis_cfg =
  c_redis_enabled :: bool
  c_redis_url :: "string option"

definition redis_cfg_default :: redis_cfg where
  "redis_cfg_default =
     \<lparr>c_redis_enabled = False, c_redis_url = None\<rparr>"

definition de_redis_cfg :: "table \<Rightarrow> redis_cfg option" where
  "de_redis_cfg t = do {
     enabled \<leftarrow> field ''enabled'' de_bool (Some False) t;
     url \<leftarrow> field ''url'' (de_option de_str) (Some None) t;
     Some \<lparr>c_redis_enabled = enabled, c_redis_url = url\<rparr> }"

record telemetry_cfg =
  c_telemetry_enabled :: bool
  c_telemetry_otlp_endpoint :: string
  c_telemetry_service_name :: string

definition telemetry_cfg_default :: telemetry_cfg where
  "telemetry_cfg_default =
     \<lparr>c_telemetry_enabled = False, c_telemetry_otlp_endpoint = '''', c_telemetry_service_name = ''''\<rparr>"

definition de_telemetry_cfg :: "table \<Rightarrow> telemetry_cfg option" where
  "de_telemetry_cfg t = do {
     enabled \<leftarrow> field ''enabled'' de_bool (Some False) t;
     otlp_endpoint \<leftarrow> field ''otlp_endpoint'' de_str (Some ''http://localhost:4317'') t;
     service_name \<leftarrow> field ''service_name'' de_str (Some ''xiranet'') t;
     Some \<lparr>c_telemetry_enabled = enabled, c_telemetry_otlp_endpoint = otlp_endpoint,
       c_telemetry_service_name = service_name\<rparr> }"

record waf_cfg =
  c_waf_enabled :: bool
  c_waf_mode :: string
  c_waf_custom_block_patterns :: "string list"

definition waf_cfg_default :: waf_cfg where
  "waf_cfg_default =
     \<lparr>c_waf_enabled = True, c_waf_mode = ''block'', c_waf_custom_block_patterns = []\<rparr>"

definition de_waf_cfg :: "table \<Rightarrow> waf_cfg option" where
  "de_waf_cfg t = do {
     enabled \<leftarrow> field ''enabled'' de_bool (Some True) t;
     mode \<leftarrow> field ''mode'' de_str (Some ''block'') t;
     custom_block_patterns \<leftarrow> field ''custom_block_patterns'' (de_list de_str) (Some []) t;
     Some \<lparr>c_waf_enabled = enabled, c_waf_mode = mode, c_waf_custom_block_patterns = custom_block_patterns\<rparr> }"

record bot_detection_cfg =
  c_bot_enabled :: bool
  c_bot_block_bots :: bool
  c_bot_crawl_rate_limit :: nat

definition bot_detection_cfg_default :: bot_detection_cfg where
  "bot_detection_cfg_default =
     \<lparr>c_bot_enabled = True, c_bot_block_bots = False, c_bot_crawl_rate_limit = 60\<rparr>"

definition de_bot_detection_cfg :: "table \<Rightarrow> bot_detection_cfg option" where
  "de_bot_detection_cfg t = do {
     enabled \<leftarrow> field ''enabled'' de_bool (Some True) t;
     block_bots \<leftarrow> field ''block_bots'' de_bool (Some False) t;
     crawl_rate_limit \<leftarrow> field ''crawl_rate_limit'' (de_uint u32_max) (Some 60) t;
     Some \<lparr>c_bot_enabled = enabled, c_bot_block_bots = block_bots, c_bot_crawl_rate_limit = crawl_rate_limit\<rparr> }"

record identity_cfg =
  c_identity_max_sessions_per_user :: nat
  c_identity_password_min_length :: nat
  c_identity_registration_enabled :: bool

definition identity_cfg_default :: identity_cfg where
  "identity_cfg_default =
     \<lparr>c_identity_max_sessions_per_user = 5, c_identity_password_min_length = 8,
      c_identity_registration_enabled = True\<rparr>"

definition de_identity_cfg :: "table \<Rightarrow> identity_cfg option" where
  "de_identity_cfg t = do {
     max_sessions_per_user \<leftarrow> field ''max_sessions_per_user'' (de_uint u64_max) (Some 5) t;
     password_min_length \<leftarrow> field ''password_min_length'' (de_uint u64_max) (Some 8) t;
     registration_enabled \<leftarrow> field ''registration_enabled'' de_bool (Some True) t;
     Some \<lparr>c_identity_max_sessions_per_user = max_sessions_per_user,
       c_identity_password_min_length = password_min_length,
       c_identity_registration_enabled = registration_enabled\<rparr> }"

record observability_cfg =
  c_observability_log_max_entries :: nat
  c_observability_uptime_history_days :: nat
  c_observability_sla_target_uptime :: string
  c_observability_sla_target_latency_ms :: string

definition observability_cfg_default :: observability_cfg where
  "observability_cfg_default =
     \<lparr>c_observability_log_max_entries = 50000, c_observability_uptime_history_days = 90,
      c_observability_sla_target_uptime = ''99.9'', c_observability_sla_target_latency_ms = ''500.0''\<rparr>"

definition de_observability_cfg :: "table \<Rightarrow> observability_cfg option" where
  "de_observability_cfg t = do {
     log_max_entries \<leftarrow> field ''log_max_entries'' (de_uint u64_max) (Some 50000) t;
     uptime_history_days \<leftarrow> field ''uptime_history_days'' (de_uint u32_max) (Some 90) t;
     sla_target_uptime \<leftarrow> field ''sla_target_uptime'' de_f64 (Some ''99.9'') t;
     sla_target_latency_ms \<leftarrow> field ''sla_target_latency_ms'' de_f64 (Some ''500.0'') t;
     Some \<lparr>c_observability_log_max_entries = log_max_entries,
       c_observability_uptime_history_days = uptime_history_days,
       c_observability_sla_target_uptime = sla_target_uptime,
       c_observability_sla_target_latency_ms = sla_target_latency_ms\<rparr> }"

text \<open>A configured service has the fields of a registration request.\<close>

definition de_transform :: "table \<Rightarrow> transform_config option" where
  "de_transform t = do {
     add_req \<leftarrow> field ''add_request_headers'' (de_map de_str) (Some []) t;
     rem_req \<leftarrow> field ''remove_request_headers'' (de_list de_str) (Some []) t;
     add_resp \<leftarrow> field ''add_response_headers'' (de_map de_str) (Some []) t;
     rem_resp \<leftarrow> field ''remove_response_headers'' (de_list de_str) (Some []) t;
     Some \<lparr>add_request_headers = add_req, remove_request_headers = rem_req,
       add_response_headers = add_resp, remove_response_headers = rem_resp\<rparr> }"

definition de_service :: "table \<Rightarrow> register_request option" where
  "de_service t = do {
     svc_name \<leftarrow> field ''name'' de_str None t;
     svc_prefix \<leftarrow> field ''prefix'' de_str None t;
     upstream \<leftarrow> field ''upstream'' de_str None t;
     health \<leftarrow> field ''health_endpoint'' de_str (Some ''/health'') t;
     upstreams \<leftarrow> field ''upstreams'' (de_list de_str) (Some []) t;
     lb \<leftarrow> field ''load_balance'' (de_option de_str) (Some None) t;
     version \<leftarrow> field ''version'' (de_option de_str) (Some None) t;
     transform \<leftarrow> field ''transform'' (de_option (section_of de_transform)) (Some None) t;
     schema \<leftarrow> field ''validation_schema'' (de_option de_str) (Some None) t;
     whitelist \<leftarrow> field ''ip_whitelist'' (de_list de_str) (Some []) t;
     blacklist \<leftarrow> field ''ip_blacklist'' (de_list de_str) (Some []) t;
     Some \<lparr>req_name = svc_name, req_prefix = svc_prefix, req_upstream = upstream, req_health = health,
       req_upstreams = upstreams, req_load_balance = lb, req_version = version, req_schema = schema,
       req_whitelist = whitelist, req_blacklist = blacklist, req_transform = transform\<rparr> }"

record xira_config =
  c_gateway :: gateway_cfg
  c_admin :: admin_cfg
  c_health :: health_cfg
  c_tls :: "tls_cfg option"
  c_metrics :: metrics_cfg
  c_logging :: logging_cfg
  c_alerting :: alerting_cfg
  c_rate_limit :: rate_limit_cfg
  c_cache :: cache_cfg
  c_jwt :: jwt_cfg
  c_oauth2 :: oauth2_cfg
  c_ip_filter :: ip_filter_cfg
  c_circuit_breaker :: circuit_breaker_cfg
  c_retry :: retry_cfg
  c_plugins :: plugin_cfg
  c_grpc :: grpc_cfg
  c_services :: "register_request list"
  c_discovery :: discovery_cfg
  c_redis :: redis_cfg
  c_telemetry :: telemetry_cfg
  c_waf :: waf_cfg
  c_bot_detection :: bot_detection_cfg
  c_identity :: identity_cfg
  c_observability :: observability_cfg
  c_cors :: cors_cfg
  c_audit :: audit_cfg
  c_bus :: bus_cfg

definition de_config :: "table \<Rightarrow> xira_config option" where
  "de_config t = do {
     gateway \<leftarrow> field ''gateway'' (section_of de_gateway_cfg) None t;
     admin \<leftarrow> field ''admin'' (section_of de_admin_cfg) None t;
     health \<leftarrow> field ''health'' (section_of de_health_cfg) None t;
     tls \<leftarrow> field ''tls'' (de_option (section_of de_tls_cfg)) (Some None) t;
     metrics \<leftarrow> field ''metrics'' (section_of de_metrics_cfg) (Some metrics_cfg_default) t;
     logging \<leftarrow> field ''logging'' (section_of de_logging_cfg) (Some logging_cfg_default) t;
     alerting \<leftarrow> field ''alerting'' (section_of de_alerting_cfg) (Some alerting_cfg_default) t;
     rate_limit \<leftarrow> field ''rate_limit'' (section_of de_rate_limit_cfg) (Some rate_limit_cfg_default) t;
     cache \<leftarrow> field ''cache'' (section_of de_cache_cfg) (Some cache_cfg_default) t;
     jwt \<leftarrow> field ''jwt'' (section_of de_jwt_cfg) (Some jwt_cfg_default) t;
     oauth2 \<leftarrow> field ''oauth2'' (section_of de_oauth2_cfg) (Some oauth2_cfg_default) t;
     ip_filter \<leftarrow> field ''ip_filter'' (section_of de_ip_filter_cfg) (Some ip_filter_cfg_default) t;
     circuit_breaker \<leftarrow> field ''circuit_breaker'' (section_of de_circuit_breaker_cfg) (Some circuit_breaker_cfg_default) t;
     retry \<leftarrow> field ''retry'' (section_of de_retry_cfg) (Some retry_cfg_default) t;
     plugins \<leftarrow> field ''plugins'' (section_of de_plugin_cfg) (Some plugin_cfg_default) t;
     grpc \<leftarrow> field ''grpc'' (section_of de_grpc_cfg) (Some grpc_cfg_default) t;
     services \<leftarrow> field ''services'' (de_list (section_of de_service)) (Some []) t;
     discovery \<leftarrow> field ''discovery'' (section_of de_discovery_cfg) (Some discovery_cfg_default) t;
     redis \<leftarrow> field ''redis'' (section_of de_redis_cfg) (Some redis_cfg_default) t;
     telemetry \<leftarrow> field ''telemetry'' (section_of de_telemetry_cfg) (Some telemetry_cfg_default) t;
     waf \<leftarrow> field ''waf'' (section_of de_waf_cfg) (Some waf_cfg_default) t;
     bot_detection \<leftarrow> field ''bot_detection'' (section_of de_bot_detection_cfg) (Some bot_detection_cfg_default) t;
     identity \<leftarrow> field ''identity'' (section_of de_identity_cfg) (Some identity_cfg_default) t;
     observability \<leftarrow> field ''observability'' (section_of de_observability_cfg) (Some observability_cfg_default) t;
     cors \<leftarrow> field ''cors'' (section_of de_cors_cfg) (Some cors_cfg_default) t;
     audit \<leftarrow> field ''audit'' (section_of de_audit_cfg) (Some audit_cfg_default) t;
     bus \<leftarrow> field ''bus'' (section_of de_bus_cfg) (Some bus_cfg_default) t;
     Some \<lparr>c_gateway = gateway, c_admin = admin, c_health = health, c_tls = tls, c_metrics = metrics,
       c_logging = logging, c_alerting = alerting, c_rate_limit = rate_limit, c_cache = cache, c_jwt = jwt,
       c_oauth2 = oauth2, c_ip_filter = ip_filter, c_circuit_breaker = circuit_breaker, c_retry = retry,
       c_plugins = plugins, c_grpc = grpc, c_services = services, c_discovery = discovery, c_redis = redis,
       c_telemetry = telemetry, c_waf = waf, c_bot_detection = bot_detection, c_identity = identity,
       c_observability = observability, c_cors = cors, c_audit = audit, c_bus = bus\<rparr> }"

definition xira_config_default :: xira_config where
  "xira_config_default =
     \<lparr>c_gateway = \<lparr>c_gateway_host = ''0.0.0.0'', c_gateway_port = 9000, c_gateway_workers = 4\<rparr>,
      c_admin = \<lparr>c_admin_api_key = ''xira-default-key'', c_admin_enabled = True\<rparr>,
      c_health = \<lparr>c_health_interval_secs = 30, c_health_timeout_secs = 5\<rparr>, c_tls = None,
      c_metrics = metrics_cfg_default, c_logging = logging_cfg_default, c_alerting = alerting_cfg_default,
      c_rate_limit = rate_limit_cfg_default, c_cache = cache_cfg_default, c_jwt = jwt_cfg_default,
      c_oauth2 = oauth2_cfg_default, c_ip_filter = ip_filter_cfg_default,
      c_circuit_breaker = circuit_breaker_cfg_default, c_retry = retry_cfg_default,
      c_plugins = plugin_cfg_default, c_grpc = grpc_cfg_default, c_services = [],
      c_discovery = discovery_cfg_default, c_redis = redis_cfg_default,
      c_telemetry = telemetry_cfg_default, c_waf = waf_cfg_default,
      c_bot_detection = bot_detection_cfg_default, c_identity = identity_cfg_default,
      c_observability = observability_cfg_default, c_cors = cors_cfg_default, c_audit = audit_cfg_default,
      c_bus = bus_cfg_default\<rparr>"

section \<open>Validation\<close>

text \<open>One constructor per message of the source.\<close>

datatype config_error =
    DefaultKeyBindsExternally string
  | DefaultJwtSecret
  | JwtSecretTooShort nat
  | JwtNotAPem
  | JwtUnsupported string
  | DuplicatePrefix string
  | CertNotFound string
  | KeyNotFound string
  | ClientCaNotFound string
  | MtlsWithoutCa
  | RateLimitBlocksAll
  | RedisUrlMissing
  | RedisUrlScheme string
  | BusUnsupported string

datatype config_warning =
    DefaultKeyLoopback
  | NoCorsOrigins
  | ShortPasswords nat
  | PluginDirMissing string
  | CacheEffectivelyOff

record validation_report =
  rep_errors :: "config_error list"
  rep_warnings :: "config_warning list"

definition report_ok :: "validation_report \<Rightarrow> bool" where
  "report_ok r \<longleftrightarrow> rep_errors r = []"

definition is_default_admin_key :: "string \<Rightarrow> bool" where
  "is_default_admin_key key \<longleftrightarrow> key \<in>
     {'''', ''xira-default-key'', ''xira-secret-key-change-me'', ''change-me'', ''changeme'', ''secret''}"

definition is_example_jwt_secret :: "string \<Rightarrow> bool" where
  "is_example_jwt_secret s \<longleftrightarrow> s \<in>
     {'''', ''your-jwt-secret-key-here'', ''change-me'', ''changeme'', ''secret'', ''jwt-secret'',
      ''xira-secret-key-change-me''}"

definition binds_externally :: "string \<Rightarrow> bool" where
  "binds_externally host \<longleftrightarrow> host \<notin> {''127.0.0.1'', ''localhost'', ''::1''}"

definition admin_errors :: "xira_config \<Rightarrow> config_error list" where
  "admin_errors c =
     (if is_default_admin_key (c_admin_api_key (c_admin c)) \<and> binds_externally (c_gateway_host (c_gateway c))
      then [DefaultKeyBindsExternally (c_gateway_host (c_gateway c))] else [])"

definition jwt_errors :: "(string \<Rightarrow> bool) \<Rightarrow> jwt_cfg \<Rightarrow> config_error list" where
  "jwt_errors rsa_pem_ok j =
     (if \<not> c_jwt_enabled j then []
      else
        (let algo_up = to_uppercase (c_jwt_algorithm j); secret = c_jwt_secret j in
         (if is_example_jwt_secret secret then [DefaultJwtSecret] else []) @
         (if algo_up \<in> {''HS256'', ''HS384'', ''HS512''}
          then (if length secret < 32 then [JwtSecretTooShort (length secret)] else [])
          else if algo_up = ''RS256'' then (if rsa_pem_ok secret then [] else [JwtNotAPem])
          else [JwtUnsupported algo_up])))"

fun prefix_errors :: "string list \<Rightarrow> string list \<Rightarrow> config_error list" where
  "prefix_errors seen [] = []"
| "prefix_errors seen (p # ps) =
     (if p \<in> set seen then DuplicatePrefix p # prefix_errors seen ps else prefix_errors (p # seen) ps)"

definition tls_errors :: "(string \<Rightarrow> bool) \<Rightarrow> tls_cfg option \<Rightarrow> config_error list" where
  "tls_errors file_exists tls =
     (case tls of
        None \<Rightarrow> []
      | Some t \<Rightarrow>
          if \<not> c_tls_enabled t then []
          else
            (if file_exists (c_tls_cert_path t) then [] else [CertNotFound (c_tls_cert_path t)]) @
            (if file_exists (c_tls_key_path t) then [] else [KeyNotFound (c_tls_key_path t)]) @
            (if c_tls_mtls_enabled t
             then (case c_tls_client_ca_path t of
                     Some ca \<Rightarrow> if file_exists ca then [] else [ClientCaNotFound ca]
                   | None \<Rightarrow> [MtlsWithoutCa])
             else []))"

definition bus_errors :: "bus_cfg \<Rightarrow> config_error list" where
  "bus_errors b =
     (if c_bus_backend b = ''noop'' then []
      else if c_bus_backend b = ''redis''
      then (if c_bus_redis_url b = [] then [RedisUrlMissing]
            else if \<not> prefix ''redis://'' (c_bus_redis_url b) \<and> \<not> prefix ''rediss://'' (c_bus_redis_url b)
            then [RedisUrlScheme (c_bus_redis_url b)] else [])
      else [BusUnsupported (c_bus_backend b)])"

definition config_warnings :: "(string \<Rightarrow> bool) \<Rightarrow> xira_config \<Rightarrow> config_warning list" where
  "config_warnings file_exists c =
     (if is_default_admin_key (c_admin_api_key (c_admin c)) \<and> \<not> binds_externally (c_gateway_host (c_gateway c))
      then [DefaultKeyLoopback] else []) @
     (if c_cors_allowed_origins (c_cors c) = [] then [NoCorsOrigins] else []) @
     (if c_identity_password_min_length (c_identity c) < 8
      then [ShortPasswords (c_identity_password_min_length (c_identity c))] else []) @
     (if c_plugin_enabled (c_plugins c) \<and> \<not> file_exists (c_plugin_directory (c_plugins c))
      then [PluginDirMissing (c_plugin_directory (c_plugins c))] else []) @
     (if c_cache_enabled (c_cache c) \<and> c_cache_max_entries (c_cache c) = 0 then [CacheEffectivelyOff] else [])"

definition validate :: "(string \<Rightarrow> bool) \<Rightarrow> (string \<Rightarrow> bool) \<Rightarrow> xira_config \<Rightarrow> validation_report" where
  "validate file_exists rsa_pem_ok c =
     \<lparr>rep_errors =
        admin_errors c @ jwt_errors rsa_pem_ok (c_jwt c) @ prefix_errors [] (map req_prefix (c_services c)) @
        tls_errors file_exists (c_tls c) @
        (if c_rate_limit_max_requests (c_rate_limit c) = 0 then [RateLimitBlocksAll] else []) @
        bus_errors (c_bus c),
      rep_warnings = config_warnings file_exists c\<rparr>"

section \<open>Loading\<close>

definition load_config :: "(string \<Rightarrow> string option) \<Rightarrow> (string \<Rightarrow> table option) \<Rightarrow> string \<Rightarrow> xira_config option" where
  "load_config read_file from_str path = do {
     content \<leftarrow> read_file path;
     t \<leftarrow> from_str content;
     de_config t }"

definition config_paths :: "string list" where
  "config_paths = [''xiranet.toml'', ''config/xiranet.toml'', ''/etc/xiranet/xiranet.toml'']"

fun first_loaded :: "(string \<Rightarrow> xira_config option) \<Rightarrow> (string \<Rightarrow> bool) \<Rightarrow> string list \<Rightarrow> xira_config" where
  "first_loaded load file_exists [] = xira_config_default"
| "first_loaded load file_exists (p # ps) =
     (if file_exists p
      then (case load p of Some c \<Rightarrow> c | None \<Rightarrow> first_loaded load file_exists ps)
      else first_loaded load file_exists ps)"

definition load_or_default :: "(string \<Rightarrow> xira_config option) \<Rightarrow> (string \<Rightarrow> bool) \<Rightarrow> xira_config" where
  "load_or_default load file_exists = first_loaded load file_exists config_paths"

text \<open>One round of the watcher: the shared configuration after the file has changed.\<close>

definition watcher_reload :: "(string \<Rightarrow> xira_config option) \<Rightarrow> string \<Rightarrow> xira_config \<Rightarrow> xira_config" where
  "watcher_reload load path shared = (case load path of Some c \<Rightarrow> c | None \<Rightarrow> shared)"

section \<open>Integer fields are read as they are written\<close>

text \<open>
  The integer fields of the configuration: section, key, largest value of the field's type, value when
  the key is absent, value when the section is absent, and where the value is found.
\<close>

definition integer_fields :: "(string \<times> string \<times> nat \<times> nat option \<times> nat option \<times> (xira_config \<Rightarrow> nat)) list" where
  "integer_fields =
     [(''gateway'', ''port'', 65535, None, None, \<lambda>c. c_gateway_port (c_gateway c)),
      (''gateway'', ''workers'', u64_max, Some 4, None, \<lambda>c. c_gateway_workers (c_gateway c)),
      (''health'', ''interval_secs'', u64_max, None, None, \<lambda>c. c_health_interval_secs (c_health c)),
      (''health'', ''timeout_secs'', u64_max, None, None, \<lambda>c. c_health_timeout_secs (c_health c)),
      (''rate_limit'', ''max_requests'', u32_max, Some 100, Some 100, \<lambda>c. c_rate_limit_max_requests (c_rate_limit c)),
      (''rate_limit'', ''window_secs'', u64_max, Some 60, Some 60, \<lambda>c. c_rate_limit_window_secs (c_rate_limit c)),
      (''cache'', ''ttl_secs'', u64_max, Some 300, Some 0, \<lambda>c. c_cache_ttl_secs (c_cache c)),
      (''cache'', ''max_entries'', u64_max, Some 1000, Some 0, \<lambda>c. c_cache_max_entries (c_cache c)),
      (''circuit_breaker'', ''failure_threshold'', u32_max, Some 5, Some 5, \<lambda>c. c_cb_failure_threshold (c_circuit_breaker c)),
      (''circuit_breaker'', ''reset_timeout_secs'', u64_max, Some 30, Some 30, \<lambda>c. c_cb_reset_timeout_secs (c_circuit_breaker c)),
      (''circuit_breaker'', ''half_open_max_requests'', u32_max, Some 3, Some 3, \<lambda>c. c_cb_half_open_max_requests (c_circuit_breaker c)),
      (''retry'', ''max_retries'', u32_max, Some 3, Some 3, \<lambda>c. c_retry_max_retries (c_retry c)),
      (''retry'', ''delay_ms'', u64_max, Some 100, Some 100, \<lambda>c. c_retry_delay_ms (c_retry c)),
      (''grpc'', ''port'', 65535, Some 9001, Some 0, \<lambda>c. c_grpc_port (c_grpc c)),
      (''discovery'', ''interval_secs'', u64_max, Some 30, Some 0, \<lambda>c. c_discovery_interval_secs (c_discovery c)),
      (''bot_detection'', ''crawl_rate_limit'', u32_max, Some 60, Some 60, \<lambda>c. c_bot_crawl_rate_limit (c_bot_detection c)),
      (''identity'', ''max_sessions_per_user'', u64_max, Some 5, Some 5, \<lambda>c. c_identity_max_sessions_per_user (c_identity c)),
      (''identity'', ''password_min_length'', u64_max, Some 8, Some 8, \<lambda>c. c_identity_password_min_length (c_identity c)),
      (''observability'', ''log_max_entries'', u64_max, Some 50000, Some 50000, \<lambda>c. c_observability_log_max_entries (c_observability c)),
      (''observability'', ''uptime_history_days'', u32_max, Some 90, Some 90, \<lambda>c. c_observability_uptime_history_days (c_observability c)),
      (''cors'', ''max_age'', u64_max, Some 3600, Some 3600, \<lambda>c. c_cors_max_age (c_cors c)),
      (''audit'', ''buffer_size'', u64_max, Some 10000, Some 0, \<lambda>c. c_audit_buffer_size (c_audit c))]"

text \<open>What it means that \<open>n\<close> is the value of a field.\<close>

definition reads_integer :: "string \<Rightarrow> string \<Rightarrow> nat \<Rightarrow> nat option \<Rightarrow> nat option \<Rightarrow> nat \<Rightarrow> table \<Rightarrow> bool" where
  "reads_integer sect key maxv dflt absent n t \<longleftrightarrow>
     n \<le> maxv \<and>
     (case map_of t sect of
        None \<Rightarrow> absent = Some n
      | Some v \<Rightarrow> (\<exists>s. v = T_table s \<and>
          (case map_of s key of None \<Rightarrow> dflt = Some n | Some w \<Rightarrow> w = T_int (int n))))"

lemma de_uint_Some: "de_uint m v = Some n \<longleftrightarrow> v = T_int (int n) \<and> n \<le> m"
  by (cases "(m, v)" rule: de_uint.cases) auto

lemma field_integer:
  assumes "field sect (section_of de) absent t = Some x"
    and "\<And>s y. de s = Some y \<Longrightarrow> field key (de_uint m) dflt s = Some (read y)"
    and "list_all (\<lambda>n. n \<le> m) (case dflt of None \<Rightarrow> [] | Some n \<Rightarrow> [n])"
    and "list_all (\<lambda>y. read y \<le> m) (case absent of None \<Rightarrow> [] | Some y \<Rightarrow> [y])"
    and "unset = map_option read absent"
  shows "reads_integer sect key m dflt unset (read x) t"
proof (cases "map_of t sect")
  case None
  then show ?thesis using assms(1,4,5) by (simp add: reads_integer_def field_def)
next
  case (Some v)
  then obtain s where s: "v = T_table s" "de s = Some x"
    using assms(1) by (auto simp: field_def elim!: section_of.elims)
  from assms(2) [OF s(2)] assms(3) show ?thesis
    by (auto simp: reads_integer_def field_def Some s(1) de_uint_Some split: option.splits)
qed

lemma default_widths:
  "n \<le> 50000 \<Longrightarrow> n \<le> u32_max" "n \<le> 50000 \<Longrightarrow> n \<le> u64_max"
  by (simp_all add: u32_max_def u64_max_def)

lemma de_config_fields:
  assumes "de_config t = Some c"
  shows
    "field ''gateway'' (section_of de_gateway_cfg) None t = Some (c_gateway c)"
    "field ''admin'' (section_of de_admin_cfg) None t = Some (c_admin c)"
    "field ''health'' (section_of de_health_cfg) None t = Some (c_health c)"
    "field ''tls'' (de_option (section_of de_tls_cfg)) (Some None) t = Some (c_tls c)"
    "field ''metrics'' (section_of de_metrics_cfg) (Some metrics_cfg_default) t = Some (c_metrics c)"
    "field ''logging'' (section_of de_logging_cfg) (Some logging_cfg_default) t = Some (c_logging c)"
    "field ''alerting'' (section_of de_alerting_cfg) (Some alerting_cfg_default) t = Some (c_alerting c)"
    "field ''rate_limit'' (section_of de_rate_limit_cfg) (Some rate_limit_cfg_default) t = Some (c_rate_limit c)"
    "field ''cache'' (section_of de_cache_cfg) (Some cache_cfg_default) t = Some (c_cache c)"
    "field ''jwt'' (section_of de_jwt_cfg) (Some jwt_cfg_default) t = Some (c_jwt c)"
    "field ''oauth2'' (section_of de_oauth2_cfg) (Some oauth2_cfg_default) t = Some (c_oauth2 c)"
    "field ''ip_filter'' (section_of de_ip_filter_cfg) (Some ip_filter_cfg_default) t = Some (c_ip_filter c)"
    "field ''circuit_breaker'' (section_of de_circuit_breaker_cfg) (Some circuit_breaker_cfg_default) t = Some (c_circuit_breaker c)"
    "field ''retry'' (section_of de_retry_cfg) (Some retry_cfg_default) t = Some (c_retry c)"
    "field ''plugins'' (section_of de_plugin_cfg) (Some plugin_cfg_default) t = Some (c_plugins c)"
    "field ''grpc'' (section_of de_grpc_cfg) (Some grpc_cfg_default) t = Some (c_grpc c)"
    "field ''services'' (de_list (section_of de_service)) (Some []) t = Some (c_services c)"
    "field ''discovery'' (section_of de_discovery_cfg) (Some discovery_cfg_default) t = Some (c_discovery c)"
    "field ''redis'' (section_of de_redis_cfg) (Some redis_cfg_default) t = Some (c_redis c)"
    "field ''telemetry'' (section_of de_telemetry_cfg) (Some telemetry_cfg_default) t = Some (c_telemetry c)"
    "field ''waf'' (section_of de_waf_cfg) (Some waf_cfg_default) t = Some (c_waf c)"
    "field ''bot_detection'' (section_of de_bot_detection_cfg) (Some bot_detection_cfg_default) t = Some (c_bot_detection c)"
    "field ''identity'' (section_of de_identity_cfg) (Some identity_cfg_default) t = Some (c_identity c)"
    "field ''observability'' (section_of de_observability_cfg) (Some observability_cfg_default) t = Some (c_observability c)"
    "field ''cors'' (section_of de_cors_cfg) (Some cors_cfg_default) t = Some (c_cors c)"
    "field ''audit'' (section_of de_audit_cfg) (Some audit_cfg_default) t = Some (c_audit c)"
    "field ''bus'' (section_of de_bus_cfg) (Some bus_cfg_default) t = Some (c_bus c)"
  using assms unfolding de_config_def bind_eq_Some_conv by (elim exE conjE, simp, auto)+

lemmas cfg_readers = de_gateway_cfg_def de_health_cfg_def de_rate_limit_cfg_def de_cache_cfg_def
  de_circuit_breaker_cfg_def de_retry_cfg_def de_grpc_cfg_def de_discovery_cfg_def de_bot_detection_cfg_def
  de_identity_cfg_def de_observability_cfg_def de_cors_cfg_def de_audit_cfg_def

lemmas cfg_defaults = rate_limit_cfg_default_def cache_cfg_default_def circuit_breaker_cfg_default_def
  retry_cfg_default_def grpc_cfg_default_def discovery_cfg_default_def bot_detection_cfg_default_def
  identity_cfg_default_def observability_cfg_default_def cors_cfg_default_def audit_cfg_default_def

lemma integers_read:
  assumes "de_config t = Some c"
  shows "list_all (\<lambda>(sect, key, maxv, dflt, absent, value). reads_integer sect key maxv dflt absent (value c) t) integer_fields"
proof -
  note fields = de_config_fields [OF assms]
  have h0: "reads_integer ''gateway'' ''port'' 65535 None None (c_gateway_port (c_gateway c)) t"
    by (rule field_integer [OF fields(1), where read = c_gateway_port]) (auto simp: cfg_readers cfg_defaults bind_eq_Some_conv default_widths)
  have h1: "reads_integer ''gateway'' ''workers'' u64_max (Some 4) None (c_gateway_workers (c_gateway c)) t"
    by (rule field_integer [OF fields(1), where read = c_gateway_workers]) (auto simp: cfg_readers cfg_defaults bind_eq_Some_conv default_widths)
  have h2: "reads_integer ''health'' ''interval_secs'' u64_max None None (c_health_interval_secs (c_health c)) t"
    by (rule field_integer [OF fields(3), where read = c_health_interval_secs]) (auto simp: cfg_readers cfg_defaults bind_eq_Some_conv default_widths)
  have h3: "reads_integer ''health'' ''timeout_secs'' u64_max None None (c_health_timeout_secs (c_health c)) t"
    by (rule field_integer [OF fields(3), where read = c_health_timeout_secs]) (auto simp: cfg_readers cfg_defaults bind_eq_Some_conv default_widths)
  have h4: "reads_integer ''rate_limit'' ''max_requests'' u32_max (Some 100) (Some 100) (c_rate_limit_max_requests (c_rate_limit c)) t"
    by (rule field_integer [OF fields(8), where read = c_rate_limit_max_requests]) (auto simp: cfg_readers cfg_defaults bind_eq_Some_conv default_widths)
  have h5: "reads_integer ''rate_limit'' ''window_secs'' u64_max (Some 60) (Some 60) (c_rate_limit_window_secs (c_rate_limit c)) t"
    by (rule field_integer [OF fields(8), where read = c_rate_limit_window_secs]) (auto simp: cfg_readers cfg_defaults bind_eq_Some_conv default_widths)
  have h6: "reads_integer ''cache'' ''ttl_secs'' u64_max (Some 300) (Some 0) (c_cache_ttl_secs (c_cache c)) t"
    by (rule field_integer [OF fields(9), where read = c_cache_ttl_secs]) (auto simp: cfg_readers cfg_defaults bind_eq_Some_conv default_widths)
  have h7: "reads_integer ''cache'' ''max_entries'' u64_max (Some 1000) (Some 0) (c_cache_max_entries (c_cache c)) t"
    by (rule field_integer [OF fields(9), where read = c_cache_max_entries]) (auto simp: cfg_readers cfg_defaults bind_eq_Some_conv default_widths)
  have h8: "reads_integer ''circuit_breaker'' ''failure_threshold'' u32_max (Some 5) (Some 5) (c_cb_failure_threshold (c_circuit_breaker c)) t"
    by (rule field_integer [OF fields(13), where read = c_cb_failure_threshold]) (auto simp: cfg_readers cfg_defaults bind_eq_Some_conv default_widths)
  have h9: "reads_integer ''circuit_breaker'' ''reset_timeout_secs'' u64_max (Some 30) (Some 30) (c_cb_reset_timeout_secs (c_circuit_breaker c)) t"
    by (rule field_integer [OF fields(13), where read = c_cb_reset_timeout_secs]) (auto simp: cfg_readers cfg_defaults bind_eq_Some_conv default_widths)
  have h10: "reads_integer ''circuit_breaker'' ''half_open_max_requests'' u32_max (Some 3) (Some 3) (c_cb_half_open_max_requests (c_circuit_breaker c)) t"
    by (rule field_integer [OF fields(13), where read = c_cb_half_open_max_requests]) (auto simp: cfg_readers cfg_defaults bind_eq_Some_conv default_widths)
  have h11: "reads_integer ''retry'' ''max_retries'' u32_max (Some 3) (Some 3) (c_retry_max_retries (c_retry c)) t"
    by (rule field_integer [OF fields(14), where read = c_retry_max_retries]) (auto simp: cfg_readers cfg_defaults bind_eq_Some_conv default_widths)
  have h12: "reads_integer ''retry'' ''delay_ms'' u64_max (Some 100) (Some 100) (c_retry_delay_ms (c_retry c)) t"
    by (rule field_integer [OF fields(14), where read = c_retry_delay_ms]) (auto simp: cfg_readers cfg_defaults bind_eq_Some_conv default_widths)
  have h13: "reads_integer ''grpc'' ''port'' 65535 (Some 9001) (Some 0) (c_grpc_port (c_grpc c)) t"
    by (rule field_integer [OF fields(16), where read = c_grpc_port]) (auto simp: cfg_readers cfg_defaults bind_eq_Some_conv default_widths)
  have h14: "reads_integer ''discovery'' ''interval_secs'' u64_max (Some 30) (Some 0) (c_discovery_interval_secs (c_discovery c)) t"
    by (rule field_integer [OF fields(18), where read = c_discovery_interval_secs]) (auto simp: cfg_readers cfg_defaults bind_eq_Some_conv default_widths)
  have h15: "reads_integer ''bot_detection'' ''crawl_rate_limit'' u32_max (Some 60) (Some 60) (c_bot_crawl_rate_limit (c_bot_detection c)) t"
    by (rule field_integer [OF fields(22), where read = c_bot_crawl_rate_limit]) (auto simp: cfg_readers cfg_defaults bind_eq_Some_conv default_widths)
  have h16: "reads_integer ''identity'' ''max_sessions_per_user'' u64_max (Some 5) (Some 5) (c_identity_max_sessions_per_user (c_identity c)) t"
    by (rule field_integer [OF fields(23), where read = c_identity_max_sessions_per_user]) (auto simp: cfg_readers cfg_defaults bind_eq_Some_conv default_widths)
  have h17: "reads_integer ''identity'' ''password_min_length'' u64_max (Some 8) (Some 8) (c_identity_password_min_length (c_identity c)) t"
    by (rule field_integer [OF fields(23), where read = c_identity_password_min_length]) (auto simp: cfg_readers cfg_defaults bind_eq_Some_conv default_widths)
  have h18: "reads_integer ''observability'' ''log_max_entries'' u64_max (Some 50000) (Some 50000) (c_observability_log_max_entries (c_observability c)) t"
    by (rule field_integer [OF fields(24), where read = c_observability_log_max_entries]) (auto simp: cfg_readers cfg_defaults bind_eq_Some_conv default_widths)
  have h19: "reads_integer ''observability'' ''uptime_history_days'' u32_max (Some 90) (Some 90) (c_observability_uptime_history_days (c_observability c)) t"
    by (rule field_integer [OF fields(24), where read = c_observability_uptime_history_days]) (auto simp: cfg_readers cfg_defaults bind_eq_Some_conv default_widths)
  have h20: "reads_integer ''cors'' ''max_age'' u64_max (Some 3600) (Some 3600) (c_cors_max_age (c_cors c)) t"
    by (rule field_integer [OF fields(25), where read = c_cors_max_age]) (auto simp: cfg_readers cfg_defaults bind_eq_Some_conv default_widths)
  have h21: "reads_integer ''audit'' ''buffer_size'' u64_max (Some 10000) (Some 0) (c_audit_buffer_size (c_audit c)) t"
    by (rule field_integer [OF fields(26), where read = c_audit_buffer_size]) (auto simp: cfg_readers cfg_defaults bind_eq_Some_conv default_widths)
  show ?thesis
    by (simp only: integer_fields_def list.pred_inject prod.case h0 h1 h2 h3 h4 h5 h6 h7 h8 h9 h10 h11 h12 h13 h14 h15 h16 h17 h18
        h19 h20 h21 simp_thms)
qed

lemma those_Some: "those xs = Some ys \<longleftrightarrow> xs = map Some ys"
  by (induction xs arbitrary: ys) (auto split: option.splits simp: Cons_eq_map_conv)

lemma de_map_uint:
  assumes "de_map (de_uint m) v = Some kvs"
  shows "v = T_table (map (\<lambda>(k, n). (k, T_int (int n))) kvs) \<and> list_all (\<lambda>(k, n). n \<le> m) kvs"
proof -
  obtain t where t: "v = T_table t" "map (\<lambda>(k, v). map_option (Pair k) (de_uint m v)) t = map Some kvs"
    using assms by (cases v) (simp_all add: those_Some)
  from t(2) have "t = map (\<lambda>(k, n). (k, T_int (int n))) kvs \<and> list_all (\<lambda>(k, n). n \<le> m) kvs"
    by (induction t arbitrary: kvs) (auto simp: Cons_eq_map_conv map_eq_Cons_conv de_uint_Some)
  with t(1) show ?thesis by simp
qed

lemma rate_limit_routes_field:
  "de_rate_limit_cfg s = Some r \<Longrightarrow>
     field ''routes'' (de_map (de_uint u32_max)) (Some []) s = Some (c_rate_limit_routes r)"
  by (auto simp: de_rate_limit_cfg_def bind_eq_Some_conv)

text \<open>
  C27: Integers are read as they are written. A document deserialises only if every integer field
  that it gives is an integer within the range of the field's type, and the configuration then has
  this very number: nothing is truncated, wrapped or taken from another key. A field that is not
  given has its default, of the key or, without the section, of the section. So do the limits of
  the routes, which are the table of the document, each a 32-bit number.
\<close>

theorem config_typed_sound:
  assumes "de_config t = Some c" "(sect, key, maxv, dflt, absent, value) \<in> set integer_fields"
  shows "value c \<le> maxv \<and>
    (case map_of t sect of
       None \<Rightarrow> absent = Some (value c)
     | Some v \<Rightarrow> (\<exists>s. v = T_table s \<and>
         (case map_of s key of None \<Rightarrow> dflt = Some (value c) | Some w \<Rightarrow> w = T_int (int (value c))))) \<and>
    (let routes = c_rate_limit_routes (c_rate_limit c) in
     (\<forall>(route, n) \<in> set routes. n \<le> u32_max) \<and>
     (case map_of t ''rate_limit'' of
        Some (T_table s) \<Rightarrow> (case map_of s ''routes'' of
            Some w \<Rightarrow> w = T_table (map (\<lambda>(route, n). (route, T_int (int n))) routes) | None \<Rightarrow> routes = [])
      | _ \<Rightarrow> routes = []))"
proof -
  have "reads_integer sect key maxv dflt absent (value c) t"
    using integers_read [OF assms(1)] assms(2) by (auto simp: list_all_iff)
  then have 1: "value c \<le> maxv" "case map_of t sect of
       None \<Rightarrow> absent = Some (value c)
     | Some v \<Rightarrow> (\<exists>s. v = T_table s \<and>
         (case map_of s key of None \<Rightarrow> dflt = Some (value c) | Some w \<Rightarrow> w = T_int (int (value c))))"
    by (simp_all add: reads_integer_def)
  let ?routes = "c_rate_limit_routes (c_rate_limit c)"
  have 2: "(\<forall>(route, n) \<in> set ?routes. n \<le> u32_max) \<and>
     (case map_of t ''rate_limit'' of
        Some (T_table s) \<Rightarrow> (case map_of s ''routes'' of
            Some w \<Rightarrow> w = T_table (map (\<lambda>(route, n). (route, T_int (int n))) ?routes) | None \<Rightarrow> ?routes = [])
      | _ \<Rightarrow> ?routes = [])"
  proof (cases "map_of t ''rate_limit''")
    case None
    then have "c_rate_limit c = rate_limit_cfg_default" using de_config_fields(8) [OF assms(1)] by (simp add: field_def)
    then show ?thesis using None by (simp add: rate_limit_cfg_default_def)
  next
    case (Some v)
    then obtain s where s: "v = T_table s" "de_rate_limit_cfg s = Some (c_rate_limit c)"
      using de_config_fields(8) [OF assms(1)] by (auto simp: field_def elim!: section_of.elims)
    have "field ''routes'' (de_map (de_uint u32_max)) (Some []) s = Some ?routes"
      using s(2) by (rule rate_limit_routes_field)
    then show ?thesis unfolding Some s(1)
      by (auto simp: field_def list_all_iff split: option.splits dest!: de_map_uint)
  qed
  show ?thesis unfolding Let_def using 1 2 by blast
qed

section \<open>What a valid configuration promises\<close>

lemma prefix_errors_empty:
  "prefix_errors seen ps = [] \<longleftrightarrow> distinct ps \<and> set ps \<inter> set seen = {}"
  by (induction ps arbitrary: seen) auto

lemma jwt_errors_empty:
  "jwt_errors rsa_pem_ok j = [] \<longleftrightarrow>
     (c_jwt_enabled j \<longrightarrow>
        \<not> is_example_jwt_secret (c_jwt_secret j) \<and>
        (to_uppercase (c_jwt_algorithm j) \<in> {''HS256'', ''HS384'', ''HS512''} \<and> 32 \<le> length (c_jwt_secret j) \<or>
         to_uppercase (c_jwt_algorithm j) = ''RS256'' \<and> rsa_pem_ok (c_jwt_secret j)))"
  by (auto simp: jwt_errors_def Let_def)

lemma tls_errors_empty:
  "tls_errors file_exists tls = [] \<longleftrightarrow>
     (\<forall>t. tls = Some t \<longrightarrow> c_tls_enabled t \<longrightarrow>
        file_exists (c_tls_cert_path t) \<and> file_exists (c_tls_key_path t) \<and>
        (c_tls_mtls_enabled t \<longrightarrow> (\<exists>ca. c_tls_client_ca_path t = Some ca \<and> file_exists ca)))"
  by (auto simp: tls_errors_def split: option.splits)

lemma bus_errors_empty:
  "bus_errors b = [] \<longleftrightarrow>
     c_bus_backend b = ''noop'' \<or>
     c_bus_backend b = ''redis'' \<and>
       (prefix ''redis://'' (c_bus_redis_url b) \<or> prefix ''rediss://'' (c_bus_redis_url b))"
  by (auto simp: bus_errors_def)

lemma admin_errors_empty:
  "admin_errors c = [] \<longleftrightarrow>
     is_default_admin_key (c_admin_api_key (c_admin c)) \<longrightarrow> \<not> binds_externally (c_gateway_host (c_gateway c))"
  by (auto simp: admin_errors_def)

lemma report_ok_iff:
  "report_ok (validate file_exists rsa_pem_ok c) \<longleftrightarrow>
     admin_errors c = [] \<and> jwt_errors rsa_pem_ok (c_jwt c) = [] \<and>
     distinct (map req_prefix (c_services c)) \<and> tls_errors file_exists (c_tls c) = [] \<and>
     c_rate_limit_max_requests (c_rate_limit c) \<noteq> 0 \<and> bus_errors (c_bus c) = []"
  by (auto simp: report_ok_def validate_def prefix_errors_empty)

text \<open>The built-in configuration is never accepted, so a gateway without any file does not start.\<close>

lemma default_config_rejected: "\<not> report_ok (validate file_exists rsa_pem_ok xira_config_default)"
  by (simp add: report_ok_iff admin_errors_empty xira_config_default_def is_default_admin_key_def
      binds_externally_def)

text \<open>The key of the sample file is an example, and is not recognised as one.\<close>

lemma sample_key_accepted:
  "\<not> is_default_admin_key ''REPLACE-WITH-OPENSSL-RAND-HEX-32-BYTES-FOR-PROD''"
  by (simp add: is_default_admin_key_def)

section \<open>An absent section is not an empty one\<close>

lemma field_absent: "map_of t k = None \<Longrightarrow> field k de d t = d"
  by (simp add: field_def)

lemma field_empty_section: "map_of t k = Some (T_table []) \<Longrightarrow> field k (section_of de) d t = de []"
  by (simp add: field_def)

text \<open>
  Without a section the derived \<open>Default\<close> instance supplies zeros and empty strings: metrics
  off, a JWT algorithm without a name, a cache without room. An empty section supplies the
  documented defaults.
\<close>

lemma absent_section_loses_defaults:
  assumes "de_config t = Some c"
  shows "map_of t ''metrics'' = None \<Longrightarrow> c_metrics c = \<lparr>c_metrics_enabled = False, c_metrics_path = ''''\<rparr>"
    and "map_of t ''metrics'' = Some (T_table []) \<Longrightarrow>
      c_metrics c = \<lparr>c_metrics_enabled = True, c_metrics_path = ''/metrics''\<rparr>"
    and "map_of t ''jwt'' = None \<Longrightarrow> c_jwt c = jwt_cfg_default"
    and "map_of t ''jwt'' = Some (T_table []) \<Longrightarrow> c_jwt c = jwt_cfg_default\<lparr>c_jwt_algorithm := ''HS256''\<rparr>"
    and "map_of t ''cache'' = None \<Longrightarrow> c_cache c = cache_cfg_default"
    and "map_of t ''cache'' = Some (T_table []) \<Longrightarrow>
      c_cache c = \<lparr>c_cache_enabled = False, c_cache_ttl_secs = 300, c_cache_max_entries = 1000\<rparr>"
  using de_config_fields(5,9,10) [OF assms]
  by (auto simp: field_absent field_empty_section metrics_cfg_default_def de_metrics_cfg_def cache_cfg_default_def
      de_cache_cfg_def jwt_cfg_default_def de_jwt_cfg_def)

section \<open>A concrete document\<close>

definition demo_document :: table where
  "demo_document =
     [(''gateway'', T_table [(''host'', T_str ''127.0.0.1''), (''port'', T_int 9000)]),
      (''admin'', T_table [(''api_key'', T_str ''k''), (''enabled'', T_bool True)]),
      (''health'', T_table [(''interval_secs'', T_int 30), (''timeout_secs'', T_int 5)]),
      (''services'', T_arr
         [T_table [(''name'', T_str ''s''), (''prefix'', T_str ''/a''), (''upstream'', T_str ''http://u'')]])]"

definition demo_config :: xira_config where
  "demo_config = xira_config_default
     \<lparr>c_gateway := \<lparr>c_gateway_host = ''127.0.0.1'', c_gateway_port = 9000, c_gateway_workers = 4\<rparr>,
      c_admin := \<lparr>c_admin_api_key = ''k'', c_admin_enabled = True\<rparr>,
      c_health := \<lparr>c_health_interval_secs = 30, c_health_timeout_secs = 5\<rparr>,
      c_services :=
        [\<lparr>req_name = ''s'', req_prefix = ''/a'', req_upstream = ''http://u'', req_health = ''/health'',
          req_upstreams = [], req_load_balance = None, req_version = None, req_schema = None,
          req_whitelist = [], req_blacklist = [], req_transform = None\<rparr>]\<rparr>"

lemma de_demo_document: "de_config demo_document = Some demo_config"
proof -
  have svc: "de_service [(''name'', T_str ''s''), (''prefix'', T_str ''/a''), (''upstream'', T_str ''http://u'')] =
      Some (hd (c_services demo_config))"
    by (simp add: de_service_def field_def demo_config_def)
  show ?thesis
    by (simp add: de_config_def demo_document_def field_def de_gateway_cfg_def de_admin_cfg_def de_health_cfg_def
        u64_max_def svc demo_config_def xira_config_default_def)
qed

theorem config_typed_sound_witness: "c_gateway_port (c_gateway demo_config) = 9000"
proof -
  have "(''gateway'', ''port'', 65535, None, None, \<lambda>c. c_gateway_port (c_gateway c)) \<in> set integer_fields"
    by (simp add: integer_fields_def)
  from config_typed_sound [OF de_demo_document this] show ?thesis by (simp add: demo_document_def)
qed

end
