(* ===== verification/Alerts.thy ===== *)
theory Alerts
  imports Url_Guard Body_Transform
begin

text \<open>
  src/src/alerting: the alert manager (mod.rs), the webhook registry (webhooks.rs) and the
  alert channels (channels.rs). Time stamps, identifiers, the HMAC, the printer of JSON and
  the HTTP client are parameters; the client's answer depends on the network at the time of
  the call, not on the resolution the guard saw. Log output is left out.
\<close>

section \<open>Text put into messages\<close>

text \<open>\<open>char::is_control\<close> on a character given by its UTF-8 bytes.\<close>

definition is_control :: "string \<Rightarrow> bool" where
  "is_control u =
     (case map of_char u :: nat list of
        [b] \<Rightarrow> b < 0x20 \<or> b = 0x7F
      | [b, c] \<Rightarrow> b = 0xC2 \<and> 0x80 \<le> c \<and> c \<le> 0x9F
      | _ \<Rightarrow> False)"

definition sanitize_char :: "string \<Rightarrow> string" where
  "sanitize_char u =
     (if u \<in> {[CHR 0x0D], [CHR 0x0A], [CHR 0x09]} then '' '' else if is_control u then ''?'' else u)"

text \<open>The cut is at \<open>max\<close> characters; the mark depends on the number of bytes.\<close>

definition sanitize_for_log :: "string \<Rightarrow> nat \<Rightarrow> string" where
  "sanitize_for_log input maxc =
     concat (map sanitize_char (take maxc (utf8_chars input))) @
     (if maxc < length input then utf8_encode 0x2026 @ ''[truncated]'' else [])"

fun url_guard_error_fmt :: "url_guard_error \<Rightarrow> string" where
  "url_guard_error_fmt (Invalid s) = ''invalid URL: '' @ s"
| "url_guard_error_fmt (BadScheme s) = ''scheme not allowed: '' @ s @ '' (use http or https)''"
| "url_guard_error_fmt MissingHost = ''missing host''"
| "url_guard_error_fmt (DnsError s) = ''DNS resolution failed: '' @ s"
| "url_guard_error_fmt (Forbidden s) = ''destination address is forbidden (private/loopback/metadata): '' @ s"

text \<open>\<open>str::find\<close> and \<open>str::replace\<close>.\<close>

fun str_find :: "string \<Rightarrow> string \<Rightarrow> nat option" where
  "str_find pat [] = (if pat = [] then Some 0 else None)"
| "str_find pat (c # s) = (if prefix pat (c # s) then Some 0 else map_option Suc (str_find pat s))"

function str_replace_from :: "string \<Rightarrow> string \<Rightarrow> string \<Rightarrow> string" where
  "str_replace_from pat rep s =
     (if s = [] \<or> pat = [] then s
      else if prefix pat s then rep @ str_replace_from pat rep (drop (length pat) s)
      else hd s # str_replace_from pat rep (tl s))"
  by pat_completeness auto
termination
  by (relation "measure (\<lambda>(pat, rep, s). length s)") auto

declare str_replace_from.simps [simp del]

definition str_replace :: "string \<Rightarrow> string \<Rightarrow> string \<Rightarrow> string" where
  "str_replace pat rep s =
     (if pat = [] then rep @ concat (map (\<lambda>u. u @ rep) (utf8_chars s)) else str_replace_from pat rep s)"

section \<open>The alert manager\<close>

record alert_settings =
  as_webhook_url :: "string option"
  as_enabled :: bool
  as_on_down :: bool
  as_on_up :: bool

definition alert_manager_new :: "string option \<Rightarrow> bool \<Rightarrow> bool \<Rightarrow> bool \<Rightarrow> alert_settings" where
  "alert_manager_new webhook_url enabled on_down on_up =
     \<lparr>as_webhook_url = webhook_url, as_enabled = enabled, as_on_down = on_down, as_on_up = on_up\<rparr>"

definition alert_update_config ::
  "string option \<Rightarrow> bool \<Rightarrow> bool \<Rightarrow> bool \<Rightarrow> alert_settings \<Rightarrow> alert_settings" where
  "alert_update_config webhook_url enabled on_down on_up s =
     s\<lparr>as_webhook_url := webhook_url, as_enabled := enabled, as_on_down := on_down, as_on_up := on_up\<rparr>"

definition alert_snapshot :: "alert_settings \<Rightarrow> string option \<times> bool \<times> bool \<times> bool" where
  "alert_snapshot s = (as_webhook_url s, as_enabled s, as_on_down s, as_on_up s)"

text \<open>The request an alert leads to: its URL and payload.\<close>

definition send_alert_webhook :: "net_env \<Rightarrow> string option \<Rightarrow> json \<Rightarrow> (string \<times> json) option" where
  "send_alert_webhook env webhook_url payload =
     (case webhook_url of
        None \<Rightarrow> None
      | Some u \<Rightarrow>
          if u = [] then None
          else case validate_outbound_url env u of Inl e \<Rightarrow> None | Inr _ \<Rightarrow> Some (u, payload))"

definition alert_service_down ::
  "net_env \<Rightarrow> string \<Rightarrow> string \<Rightarrow> string \<Rightarrow> string \<Rightarrow> alert_settings \<Rightarrow> (string \<times> json) option" where
  "alert_service_down env now_text name service_id detail s =
     (if \<not> as_enabled s \<or> \<not> as_on_down s then None
      else send_alert_webhook env (as_webhook_url s)
        (JObj [(''event'', JStr ''service_down''), (''severity'', JStr ''critical''),
               (''service_name'', JStr name), (''service_id'', JStr service_id), (''detail'', JStr detail),
               (''timestamp'', JStr now_text), (''source'', JStr ''XIRA'')]))"

definition alert_service_up ::
  "net_env \<Rightarrow> string \<Rightarrow> string \<Rightarrow> string \<Rightarrow> alert_settings \<Rightarrow> (string \<times> json) option" where
  "alert_service_up env now_text name service_id s =
     (if \<not> as_enabled s \<or> \<not> as_on_up s then None
      else send_alert_webhook env (as_webhook_url s)
        (JObj [(''event'', JStr ''service_up''), (''severity'', JStr ''info''),
               (''service_name'', JStr name), (''service_id'', JStr service_id),
               (''timestamp'', JStr now_text), (''source'', JStr ''XIRA'')]))"

definition send_alert ::
  "net_env \<Rightarrow> string \<Rightarrow> string \<Rightarrow> string \<Rightarrow> string \<Rightarrow> alert_settings \<Rightarrow> (string \<times> json) option" where
  "send_alert env now_text event severity message s =
     (if \<not> as_enabled s then None
      else send_alert_webhook env (as_webhook_url s)
        (JObj [(''event'', JStr event), (''severity'', JStr severity), (''message'', JStr message),
               (''timestamp'', JStr now_text), (''source'', JStr ''XIRA'')]))"

section \<open>The webhook registry\<close>

record webhook_config =
  wh_id :: string
  wh_name :: string
  wh_url :: string
  wh_events :: "string list"
  wh_enabled :: bool
  wh_secret :: "string option"
  wh_delivery_count :: nat
  wh_failure_count :: nat

type_synonym webhook_registry = "(string, webhook_config) dashmap"

definition webhook_register ::
  "net_env \<Rightarrow> string \<Rightarrow> string \<Rightarrow> string \<Rightarrow> string list \<Rightarrow> string option \<Rightarrow> webhook_registry \<Rightarrow>
     webhook_registry \<times> (string + string)" where
  "webhook_register env fresh name u events secret m =
     (case validate_outbound_url env u of
        Inl e \<Rightarrow> (m, Inl (''URL rejected: '' @ url_guard_error_fmt e))
      | Inr _ \<Rightarrow>
          (dm_insert fresh
             \<lparr>wh_id = fresh, wh_name = name, wh_url = u, wh_events = events, wh_enabled = True,
              wh_secret = secret, wh_delivery_count = 0, wh_failure_count = 0\<rparr> m, Inr fresh))"

definition webhook_targets :: "string \<Rightarrow> webhook_registry \<Rightarrow> webhook_config list" where
  "webhook_targets event_type m =
     filter (\<lambda>w. wh_enabled w \<and> list_ex (\<lambda>s. s = event_type \<or> s = ''*'') (wh_events w)) (map snd m)"

definition sat_add64 :: "nat \<Rightarrow> nat" where
  "sat_add64 n = min (n + 1) u64_max"

definition bump_delivery :: "string \<Rightarrow> webhook_registry \<Rightarrow> webhook_registry" where
  "bump_delivery i m = dm_update i (\<lambda>w. w\<lparr>wh_delivery_count := sat_add64 (wh_delivery_count w)\<rparr>) m"

definition bump_failure :: "string \<Rightarrow> webhook_registry \<Rightarrow> webhook_registry" where
  "bump_failure i m = dm_update i (\<lambda>w. w\<lparr>wh_failure_count := sat_add64 (wh_failure_count w)\<rparr>) m"

definition hex_encode :: "nat list \<Rightarrow> string" where
  "hex_encode data = concat (map (\<lambda>b. [hex_char (b div 16), hex_char (b mod 16)]) data)"

record webhook_post =
  wp_url :: string
  wp_body :: string
  wp_headers :: "(string \<times> string) list"

record webhook_env =
  we_net :: net_env
  we_now :: nat
  we_to_vec :: "json \<Rightarrow> string option"
  we_hmac :: "string \<Rightarrow> string \<Rightarrow> nat list option"
  we_post :: "webhook_post \<Rightarrow> nat option"

definition webhook_headers :: "webhook_env \<Rightarrow> webhook_config \<Rightarrow> string \<Rightarrow> (string \<times> string) list" where
  "webhook_headers env w body =
     (''Content-Type'', ''application/json'') #
     (case wh_secret w of
        None \<Rightarrow> []
      | Some secret \<Rightarrow>
          (case we_hmac env secret (show_nat (we_now env) @ ''.'' @ from_utf8_lossy body) of
             None \<Rightarrow> []
           | Some mac \<Rightarrow>
               [(''X-Webhook-Timestamp'', show_nat (we_now env)),
                (''X-Webhook-Signature'', ''sha256='' @ hex_encode mac)]))"

definition deliver_webhook ::
  "webhook_env \<Rightarrow> string \<Rightarrow> json \<Rightarrow> webhook_config \<Rightarrow> webhook_registry \<Rightarrow> webhook_registry \<times> webhook_post list" where
  "deliver_webhook env event_type payload w m =
     (case validate_outbound_url (we_net env) (wh_url w) of
        Inl e \<Rightarrow> (bump_failure (wh_id w) m, [])
      | Inr _ \<Rightarrow>
          (case we_to_vec env (JObj [(''event'', JStr event_type), (''source'', JStr ''xiranet''),
                                     (''timestamp'', JNum (int (we_now env))), (''data'', payload)]) of
             None \<Rightarrow> (m, [])
           | Some body \<Rightarrow>
               (let p = \<lparr>wp_url = wh_url w, wp_body = body, wp_headers = webhook_headers env w body\<rparr>
                in (case we_post env p of
                      Some status \<Rightarrow>
                        if 200 \<le> status \<and> status < 300 then bump_delivery (wh_id w) m else bump_failure (wh_id w) m
                    | None \<Rightarrow> bump_failure (wh_id w) m, [p]))))"

fun deliver_all ::
  "webhook_env \<Rightarrow> string \<Rightarrow> json \<Rightarrow> webhook_config list \<Rightarrow> webhook_registry \<Rightarrow> webhook_registry \<times> webhook_post list" where
  "deliver_all env event_type payload [] m = (m, [])"
| "deliver_all env event_type payload (w # ws) m =
     (let (m1, ps) = deliver_webhook env event_type payload w m;
          (m2, qs) = deliver_all env event_type payload ws m1
      in (m2, ps @ qs))"

definition fire_event ::
  "webhook_env \<Rightarrow> string \<Rightarrow> json \<Rightarrow> webhook_registry \<Rightarrow> webhook_registry \<times> webhook_post list" where
  "fire_event env event_type payload m = deliver_all env event_type payload (webhook_targets event_type m) m"

text \<open>The listing says whether a webhook has a secret, not the secret.\<close>

definition webhook_list :: "webhook_registry \<Rightarrow> json list" where
  "webhook_list m =
     map (\<lambda>(_, w). JObj [(''id'', JStr (wh_id w)), (''name'', JStr (wh_name w)), (''url'', JStr (wh_url w)),
                    (''events'', JArr (map JStr (wh_events w))), (''enabled'', JBool (wh_enabled w)),
                    (''has_secret'', JBool (wh_secret w \<noteq> None)),
                    (''delivery_count'', JNum (int (wh_delivery_count w))),
                    (''failure_count'', JNum (int (wh_failure_count w)))]) m"

definition webhook_remove :: "string \<Rightarrow> webhook_registry \<Rightarrow> webhook_registry \<times> bool" where
  "webhook_remove i m = (dm_remove i m, dm_get m i \<noteq> None)"

definition webhook_count :: "webhook_registry \<Rightarrow> nat" where
  "webhook_count m = length m"

section \<open>Alert channels\<close>

datatype channel_type = Slack | Discord | Telegram string | PagerDuty string | GenericWebhook

record alert_channel =
  ch_name :: string
  ch_type :: channel_type
  ch_url :: string
  ch_enabled :: bool

definition redact_telegram_url :: "string \<Rightarrow> string" where
  "redact_telegram_url u =
     (case str_find ''/bot'' u of
        None \<Rightarrow> ''<REDACTED>''
      | Some idx \<Rightarrow>
          (case str_find ''/'' (drop (idx + 4) u) of
             None \<Rightarrow> ''<REDACTED>''
           | Some fin \<Rightarrow> take (idx + 4) u @ ''<REDACTED>'' @ drop (idx + 4 + fin) u))"

definition add_channel :: "alert_channel \<Rightarrow> alert_channel list \<Rightarrow> alert_channel list" where
  "add_channel c cs = cs @ [c]"

definition channel_count :: "alert_channel list \<Rightarrow> nat" where
  "channel_count cs = length cs"

definition validate_or_warn :: "net_env \<Rightarrow> string \<Rightarrow> string + unit" where
  "validate_or_warn env u = map_err (\<lambda>e. ''URL rejected: '' @ url_guard_error_fmt e) (validate_outbound_url env u)"

text \<open>What the client returns: a status with its text and body, or the text of an error.\<close>

record channel_reply =
  cr_code :: nat
  cr_text :: string
  cr_reply_body :: string

record channel_env =
  ce_net :: net_env
  ce_now :: nat
  ce_now_text :: string
  ce_post :: "string \<Rightarrow> json \<Rightarrow> string + channel_reply"

definition check_response :: "string \<Rightarrow> channel_reply \<Rightarrow> string + unit" where
  "check_response channel_name r =
     (if 200 \<le> cr_code r \<and> cr_code r < 300 then Inr ()
      else Inl (''channel '' @ [CHR 0x27] @ channel_name @ [CHR 0x27] @ '' returned '' @ cr_text r @ '': '' @
                sanitize_for_log (cr_reply_body r) 256))"

definition send_slack :: "channel_env \<Rightarrow> string \<Rightarrow> string \<Rightarrow> string \<Rightarrow> string \<Rightarrow> string + unit" where
  "send_slack env u title msg severity =
     and_then (validate_or_warn (ce_net env) u) (\<lambda>_.
     let color = (if severity = ''critical'' then ''#dc2626'' else if severity = ''warning'' then ''#f59e0b''
                  else ''#10b981'') in
     and_then (ce_post env u
       (JObj [(''attachments'', JArr [JObj [(''color'', JStr color),
          (''title'', JStr (''XIRA '' @ utf8_encode 0x2014 @ '' '' @ title)), (''text'', JStr msg),
          (''footer'', JStr ''XIRA Platform''), (''ts'', JNum (int (ce_now env)))]])]))
       (check_response ''slack''))"

definition send_discord :: "channel_env \<Rightarrow> string \<Rightarrow> string \<Rightarrow> string \<Rightarrow> string \<Rightarrow> string + unit" where
  "send_discord env u title msg severity =
     and_then (validate_or_warn (ce_net env) u) (\<lambda>_.
     let color = (if severity = ''critical'' then 0xdc2626 else if severity = ''warning'' then 0xf59e0b
                  else 0x10b981 :: int) in
     and_then (ce_post env u
       (JObj [(''embeds'', JArr [JObj [
          (''title'', JStr (utf8_encode 0x26A1 @ '' XIRA '' @ utf8_encode 0x2014 @ '' '' @ title)),
          (''description'', JStr msg), (''color'', JNum color),
          (''footer'', JObj [(''text'', JStr ''XIRA Platform'')]), (''timestamp'', JStr (ce_now_text env))]])]))
       (check_response ''discord''))"

definition telegram_url :: "string \<Rightarrow> string" where
  "telegram_url bot_token = ''https://api.telegram.org/bot'' @ bot_token @ ''/sendMessage''"

definition telegram_error :: "string \<Rightarrow> string \<Rightarrow> string" where
  "telegram_error bot_token raw =
     (let u = telegram_url bot_token in
      if str_contains raw u then str_replace u (redact_telegram_url u) raw
      else if str_contains raw bot_token then str_replace bot_token ''<REDACTED>'' raw
      else raw)"

definition send_telegram :: "channel_env \<Rightarrow> string \<Rightarrow> string \<Rightarrow> string \<Rightarrow> string \<Rightarrow> string + unit" where
  "send_telegram env bot_token chat_id title msg =
     (let u = telegram_url bot_token in
     and_then (map_err (\<lambda>e. ''URL rejected: '' @ url_guard_error_fmt e) (validate_outbound_url (ce_net env) u)) (\<lambda>_.
     and_then (map_err (telegram_error bot_token) (ce_post env u
       (JObj [(''chat_id'', JStr chat_id),
              (''text'', JStr (''*'' @ utf8_encode 0x26A1 @ '' XIRA '' @ utf8_encode 0x2014 @ '' '' @ title @ ''*'' @
                         [CHR 0x0A] @ msg)),
              (''parse_mode'', JStr ''Markdown'')])))
       (check_response ''telegram'')))"

definition send_pagerduty ::
  "channel_env \<Rightarrow> string \<Rightarrow> string \<Rightarrow> string \<Rightarrow> string \<Rightarrow> string \<Rightarrow> string + unit" where
  "send_pagerduty env u routing_key title msg severity =
     and_then (validate_or_warn (ce_net env) u) (\<lambda>_.
     and_then (map_err (\<lambda>raw. if str_contains raw routing_key then str_replace routing_key ''<REDACTED>'' raw else raw)
       (ce_post env u
         (JObj [(''routing_key'', JStr routing_key), (''event_action'', JStr ''trigger''),
                (''payload'', JObj [(''summary'', JStr (''XIRA: '' @ title)), (''severity'', JStr severity),
                   (''source'', JStr ''xiranet-gateway''),
                   (''custom_details'', JObj [(''message'', JStr msg)])])])))
       (check_response ''pagerduty''))"

definition send_channel_webhook :: "channel_env \<Rightarrow> string \<Rightarrow> string \<Rightarrow> string \<Rightarrow> string \<Rightarrow> string + unit" where
  "send_channel_webhook env u title msg severity =
     and_then (validate_or_warn (ce_net env) u) (\<lambda>_.
     and_then (ce_post env u
       (JObj [(''source'', JStr ''xiranet''), (''title'', JStr title), (''message'', JStr msg),
              (''severity'', JStr severity), (''timestamp'', JStr (ce_now_text env))]))
       (check_response ''webhook''))"

definition channel_send :: "channel_env \<Rightarrow> string \<Rightarrow> string \<Rightarrow> string \<Rightarrow> alert_channel \<Rightarrow> string + unit" where
  "channel_send env title message severity c =
     (case ch_type c of
        Slack \<Rightarrow> send_slack env (ch_url c) title message severity
      | Discord \<Rightarrow> send_discord env (ch_url c) title message severity
      | Telegram chat_id \<Rightarrow> send_telegram env (ch_url c) chat_id title message
      | PagerDuty routing_key \<Rightarrow> send_pagerduty env (ch_url c) routing_key title message severity
      | GenericWebhook \<Rightarrow> send_channel_webhook env (ch_url c) title message severity)"

text \<open>The errors that are logged, by channel.\<close>

definition alert_dispatch ::
  "channel_env \<Rightarrow> string \<Rightarrow> string \<Rightarrow> string \<Rightarrow> alert_channel list \<Rightarrow> (string \<times> string) list" where
  "alert_dispatch env title message severity cs =
     concat (map (\<lambda>c. if \<not> ch_enabled c then []
                     else case channel_send env title message severity c of
                            Inl e \<Rightarrow> [(ch_name c, e)] | Inr _ \<Rightarrow> []) cs)"

section \<open>What leaves the process\<close>

lemma utf8_chars_nonempty: "u \<in> set (utf8_chars s) \<Longrightarrow> u \<noteq> []"
  by (induction s rule: utf8_chars.induct) (auto split: if_splits simp: utf8_len_def)

text \<open>Every request of the alerting goes to a URL the guard accepted in strict mode.\<close>

lemma alert_guarded:
  assumes "send_alert_webhook env u payload = Some (v, p)"
  shows "u = Some v \<and> p = payload \<and> v \<noteq> [] \<and> validate_outbound_url env v = Inr ()"
  using assms by (auto simp: send_alert_webhook_def split: option.splits if_splits sum.splits)

lemma deliver_all_guarded:
  "p \<in> set (snd (deliver_all env event_type payload ws m)) \<Longrightarrow>
   validate_outbound_url (we_net env) (wp_url p) = Inr () \<and> wp_url p \<in> wh_url ` set ws"
proof (induction ws arbitrary: m)
  case (Cons w ws)
  then show ?case
    by (auto simp: deliver_webhook_def Let_def split: prod.splits sum.splits option.splits) (metis snd_conv)+
qed simp

lemma fire_event_guarded:
  assumes "p \<in> set (snd (fire_event env event_type payload m))"
  shows "validate_outbound_url (we_net env) (wp_url p) = Inr ()"
    and "\<exists>w. w \<in> snd ` set m \<and> wh_enabled w \<and> wh_url w = wp_url p \<and> (event_type \<in> set (wh_events w) \<or> ''*'' \<in> set (wh_events w))"
  using deliver_all_guarded [OF assms [unfolded fire_event_def]]
  by (auto simp: webhook_targets_def list_ex_iff)

text \<open>The counters account for every attempt of a webhook that is still registered.\<close>

lemma deliver_counts:
  assumes "dm_get m (wh_id w) = Some v" "wh_delivery_count v < u64_max" "wh_failure_count v < u64_max"
    and "snd (deliver_webhook env event_type payload w m) \<noteq> []"
  shows "\<exists>v'. dm_get (fst (deliver_webhook env event_type payload w m)) (wh_id w) = Some v' \<and>
    wh_delivery_count v' + wh_failure_count v' = wh_delivery_count v + wh_failure_count v + 1"
  using assms
  by (auto simp: deliver_webhook_def bump_delivery_def bump_failure_def sat_add64_def Let_def dm_get_update
      split: sum.splits option.splits)

text \<open>Redaction hides a token without slashes.\<close>

lemma str_find_char:
  "c \<notin> set s \<Longrightarrow> str_find [c] (s @ c # t) = Some (length s)"
  by (induction s) auto

lemma redact_telegram:
  assumes "CHR ''/'' \<notin> set token"
  shows "redact_telegram_url (telegram_url token) = ''https://api.telegram.org/bot<REDACTED>/sendMessage''"
proof -
  have "str_find ''/bot'' (telegram_url token) = Some 24"
    by (simp add: telegram_url_def)
  moreover have "str_find ''/'' (token @ ''/sendMessage'') = Some (length token)"
    using str_find_char [OF assms] by simp
  moreover have "drop (28 + length token) (telegram_url token) = ''/sendMessage''"
    unfolding telegram_url_def append_assoc [symmetric] by (subst drop_append) simp
  ultimately show ?thesis by (simp add: redact_telegram_url_def telegram_url_def)
qed

text \<open>No line break of an upstream body reaches the log.\<close>

lemma sanitize_char_no_break:
  assumes "length u = 1 \<or> list_all (\<lambda>c. 0x80 \<le> (of_char c :: nat)) u"
  shows "CHR 0x0A \<notin> set (sanitize_char u)"
  using assms by (auto simp: sanitize_char_def list_all_iff length_Suc_conv)

lemma sanitize_no_break:
  assumes "\<forall>u \<in> set (utf8_chars s). length u = 1 \<or> list_all (\<lambda>c. 0x80 \<le> (of_char c :: nat)) u"
  shows "CHR 0x0A \<notin> set (sanitize_for_log s n)"
proof -
  have "CHR 0x0A \<notin> set (utf8_encode 0x2026)"
    by (auto simp: utf8_encode_def dest: arg_cong [of _ _ "of_char :: char \<Rightarrow> nat"])
  then show ?thesis
    using assms sanitize_char_no_break by (auto simp: sanitize_for_log_def dest!: in_set_takeD)
qed

text \<open>The mark counts bytes, the cut counts characters: nothing is cut here, and the mark appears.\<close>

lemma sanitize_marks_whole_text:
  "sanitize_for_log [CHR 0xC3, CHR 0xA9] 1 = [CHR 0xC3, CHR 0xA9] @ utf8_encode 0x2026 @ ''[truncated]''"
  by (simp add: sanitize_for_log_def sanitize_char_def is_control_def utf8_chars.simps utf8_len_def)

end
