(* ===== verification/Observability.thy ===== *)
theory Observability
  imports Interfaces Complex_Main
begin

text \<open>
  src/src/observability/incidents.rs, src/src/observability/uptime.rs and
  src/src/metrics/sla.rs: the incidents, the status page and the service levels. Time is in
  seconds; identifiers are arguments. Floating-point numbers are reals (rounding is not
  modelled); a latency that is not finite is \<open>None\<close>, and the truncated product that indexes a
  percentile is a parameter.
\<close>

section \<open>Incidents\<close>

datatype severity = Critical | Major | Minor | Info

datatype incident_status = Investigating | Identified | Monitoring | Resolved

fun incident_status_debug :: "incident_status \<Rightarrow> string" where
  "incident_status_debug Investigating = ''Investigating''"
| "incident_status_debug Identified = ''Identified''"
| "incident_status_debug Monitoring = ''Monitoring''"
| "incident_status_debug Resolved = ''Resolved''"

record timeline_entry =
  tl_timestamp :: nat
  tl_message :: string
  tl_author :: string

record incident =
  inc_id :: string
  inc_title :: string
  inc_severity :: severity
  inc_status :: incident_status
  inc_services :: "string list"
  inc_timeline :: "timeline_entry list"
  inc_created_at :: nat
  inc_resolved_at :: "nat option"
  inc_postmortem :: "string option"

definition system_entry :: "nat \<Rightarrow> string \<Rightarrow> timeline_entry" where
  "system_entry now msg = \<lparr>tl_timestamp = now, tl_message = msg, tl_author = ''system''\<rparr>"

definition incident_create ::
  "string \<Rightarrow> nat \<Rightarrow> string \<Rightarrow> severity \<Rightarrow> string list \<Rightarrow> incident list \<Rightarrow> incident list \<times> string" where
  "incident_create fresh now title severity services is =
     (is @ [\<lparr>inc_id = fresh, inc_title = title, inc_severity = severity, inc_status = Investigating,
             inc_services = services, inc_timeline = [system_entry now (''Incident created: '' @ title)],
             inc_created_at = now, inc_resolved_at = None, inc_postmortem = None\<rparr>], fresh)"

text \<open>\<open>iter_mut().find(..)\<close>: the first incident with the identifier is changed.\<close>

fun update_first :: "('a \<Rightarrow> bool) \<Rightarrow> ('a \<Rightarrow> 'a) \<Rightarrow> 'a list \<Rightarrow> 'a list \<times> bool" where
  "update_first P f [] = ([], False)"
| "update_first P f (x # xs) =
     (if P x then (f x # xs, True) else (let (ys, b) = update_first P f xs in (x # ys, b)))"

definition incident_add_update ::
  "nat \<Rightarrow> string \<Rightarrow> string \<Rightarrow> string \<Rightarrow> incident list \<Rightarrow> incident list \<times> bool" where
  "incident_add_update now i message author is =
     update_first (\<lambda>x. inc_id x = i)
       (\<lambda>x. x\<lparr>inc_timeline := inc_timeline x @ [\<lparr>tl_timestamp = now, tl_message = message, tl_author = author\<rparr>]\<rparr>) is"

definition incident_update_status ::
  "nat \<Rightarrow> string \<Rightarrow> incident_status \<Rightarrow> incident list \<Rightarrow> incident list \<times> bool" where
  "incident_update_status now i st is =
     update_first (\<lambda>x. inc_id x = i)
       (\<lambda>x. x\<lparr>inc_status := st,
              inc_resolved_at := (if st = Resolved then Some now else inc_resolved_at x),
              inc_timeline := inc_timeline x @ [system_entry now (''Status changed to '' @ incident_status_debug st)]\<rparr>) is"

definition incident_add_postmortem :: "string \<Rightarrow> string \<Rightarrow> incident list \<Rightarrow> incident list \<times> bool" where
  "incident_add_postmortem i text is =
     update_first (\<lambda>x. inc_id x = i) (\<lambda>x. x\<lparr>inc_postmortem := Some text\<rparr>) is"

definition incidents_active :: "incident list \<Rightarrow> incident list" where
  "incidents_active is = filter (\<lambda>i. inc_status i \<noteq> Resolved) is"

definition incidents_list :: "incident list \<Rightarrow> incident list" where
  "incidents_list is = is"

definition active_for :: "string \<Rightarrow> incident \<Rightarrow> bool" where
  "active_for service i \<longleftrightarrow> inc_status i \<noteq> Resolved \<and> list_ex (\<lambda>s. s = service) (inc_services i)"

definition find_active_for_service :: "string \<Rightarrow> incident list \<Rightarrow> string option" where
  "find_active_for_service service is = map_option inc_id (find (active_for service) is)"

definition resolve_for_service :: "nat \<Rightarrow> string \<Rightarrow> incident list \<Rightarrow> incident list \<times> nat" where
  "resolve_for_service now service is =
     (map (\<lambda>i. if active_for service i
               then i\<lparr>inc_status := Resolved, inc_resolved_at := Some now,
                      inc_timeline := inc_timeline i @ [system_entry now (''Auto-resolved: '' @ service @ '' recovered'')]\<rparr>
               else i) is,
      length (filter (active_for service) is))"

text \<open>The number of open incidents of a service.\<close>

definition open_for :: "string \<Rightarrow> incident list \<Rightarrow> nat" where
  "open_for service is = length (filter (active_for service) is)"

lemma find_active_None: "find_active_for_service service is = None \<longleftrightarrow> open_for service is = 0"
  by (auto simp: find_active_for_service_def find_None_iff open_for_def filter_empty_conv)

lemma open_for_create:
  "open_for service (fst (incident_create fresh now title sev services is)) =
     open_for service is + (if service \<in> set services then 1 else 0)"
  by (simp add: open_for_def incident_create_def active_for_def list_ex_iff)

lemma open_for_resolve:
  "open_for service (fst (resolve_for_service now s is)) =
     length (filter (\<lambda>i. active_for service i \<and> \<not> active_for s i) is)"
  by (induction "is") (auto simp: open_for_def resolve_for_service_def active_for_def)

lemma open_for_resolve_same [simp]: "open_for s (fst (resolve_for_service now s is)) = 0"
  by (simp add: open_for_resolve)

lemma resolve_count: "snd (resolve_for_service now s is) = open_for s is"
  by (simp add: resolve_for_service_def open_for_def)

text \<open>
  Reopening an incident keeps the time of its resolution: the fields then disagree.
\<close>

lemma reopened_keeps_resolution:
  assumes "inc_id x = i" "inc_resolved_at x = Some t" "st \<noteq> Resolved"
  shows "\<exists>y. fst (incident_update_status now i st [x]) = [y] \<and> inc_status y \<noteq> Resolved \<and> inc_resolved_at y = Some t"
  using assms by (simp add: incident_update_status_def)

section \<open>The status page\<close>

datatype uptime_status = Operational | Degraded | PartialOutage | MajorOutage | Maintenance

record status_point =
  sp_timestamp :: nat
  sp_status :: uptime_status
  sp_response_ms :: real

record uptime_service =
  up_name :: string
  up_status :: uptime_status
  up_percent :: real
  up_response_ms :: real
  up_last_check :: nat
  up_history :: "status_point list"

record uptime_page =
  up_services :: "(string, uptime_service) dashmap"
  up_message :: string

definition uptime_page_new :: uptime_page where
  "uptime_page_new = \<lparr>up_services = [], up_message = ''''\<rparr>"

definition operational_points :: "status_point list \<Rightarrow> nat" where
  "operational_points h = length (filter (\<lambda>p. sp_status p = Operational) h)"

definition uptime_entry :: "nat \<Rightarrow> uptime_status \<Rightarrow> real \<Rightarrow> uptime_service \<Rightarrow> uptime_service" where
  "uptime_entry now st ms e =
     (let h = up_history e @ [\<lparr>sp_timestamp = now, sp_status = st, sp_response_ms = ms\<rparr>];
          h' = (if 90 < length h then drop (length h - 90) h else h)
      in e\<lparr>up_status := st, up_response_ms := ms, up_last_check := now, up_history := h',
           up_percent := (if 0 < length h' then real (operational_points h') / real (length h') * 100 else 100)\<rparr>)"

definition uptime_update :: "nat \<Rightarrow> string \<Rightarrow> uptime_status \<Rightarrow> real \<Rightarrow> uptime_page \<Rightarrow> uptime_page" where
  "uptime_update now name st ms p =
     p\<lparr>up_services := dm_insert name
        (uptime_entry now st ms
          (dm_or_insert (up_services p) name
             \<lparr>up_name = name, up_status = Operational, up_percent = 100, up_response_ms = 0, up_last_check = 0,
              up_history = []\<rparr>)) (up_services p)\<rparr>"

definition all_operational :: "uptime_page \<Rightarrow> bool" where
  "all_operational p \<longleftrightarrow> list_all (\<lambda>(_, s). up_status s = Operational) (up_services p)"

definition set_message :: "string \<Rightarrow> uptime_page \<Rightarrow> uptime_page" where
  "set_message msg p = p\<lparr>up_message := msg\<rparr>"

definition uptime_ok :: "uptime_service \<Rightarrow> bool" where
  "uptime_ok e \<longleftrightarrow> length (up_history e) \<le> 90 \<and> 0 \<le> up_percent e \<and> up_percent e \<le> 100"

definition uptime_invar :: "uptime_page \<Rightarrow> bool" where
  "uptime_invar p \<longleftrightarrow> list_all (\<lambda>(n, s). uptime_ok s) (up_services p)"

lemma uptime_entry_ok: "uptime_ok (uptime_entry now st ms e)"
proof -
  define h where "h = up_history e @ [\<lparr>sp_timestamp = now, sp_status = st, sp_response_ms = ms\<rparr>]"
  define h' where "h' = (if 90 < length h then drop (length h - 90) h else h)"
  have len: "length h' \<le> 90" "0 < length h'" by (auto simp: h'_def h_def)
  have "operational_points h' \<le> length h'" by (simp add: operational_points_def)
  with len(2) have "real (operational_points h') / real (length h') * 100 \<le> 100"
    by (simp add: divide_le_eq)
  with len show ?thesis
    by (simp add: uptime_entry_def uptime_ok_def Let_def flip: h_def h'_def)
qed

lemma list_all_dm_insert:
  "list_all (\<lambda>(k, v). P v) m \<Longrightarrow> P v \<Longrightarrow> list_all (\<lambda>(k, v). P v) (dm_insert k v m)"
  by (induction k v m rule: dm_insert.induct) auto

lemma uptime_update_invar: "uptime_invar p \<Longrightarrow> uptime_invar (uptime_update now name st ms p)"
  unfolding uptime_invar_def uptime_update_def
  by (auto intro!: list_all_dm_insert uptime_entry_ok)

section \<open>Service levels\<close>

record sla_metrics =
  sla_service :: string
  sla_total :: nat
  sla_successful :: nat
  sla_failed :: nat
  sla_uptime :: real
  sla_samples :: "real list"
  sla_avg :: real
  sla_p50 :: real
  sla_p95 :: real
  sla_p99 :: real
  sla_max :: real
  sla_target_uptime :: real
  sla_target_latency :: real
  sla_violations :: nat
  sla_last_check :: nat

type_synonym sla_monitor = "(string, sla_metrics) dashmap"

definition sla_initial :: "string \<Rightarrow> real \<Rightarrow> real \<Rightarrow> sla_metrics" where
  "sla_initial name uptime latency =
     \<lparr>sla_service = name, sla_total = 0, sla_successful = 0, sla_failed = 0, sla_uptime = 100, sla_samples = [],
      sla_avg = 0, sla_p50 = 0, sla_p95 = 0, sla_p99 = 0, sla_max = 0, sla_target_uptime = uptime,
      sla_target_latency = latency, sla_violations = 0, sla_last_check = 0\<rparr>"

text \<open>For a service that is already known only the uptime target is set.\<close>

definition set_sla_target :: "string \<Rightarrow> real \<Rightarrow> real \<Rightarrow> sla_monitor \<Rightarrow> sla_monitor" where
  "set_sla_target name uptime latency m =
     dm_insert name ((dm_or_insert m name (sla_initial name uptime latency))\<lparr>sla_target_uptime := uptime\<rparr>) m"

definition clean_latency :: "real option \<Rightarrow> real" where
  "clean_latency l = (case l of Some x \<Rightarrow> if 0 \<le> x then x else 0 | None \<Rightarrow> 0)"

text \<open>\<open>pct p n\<close> is the product of the length and the fraction, truncated.\<close>

definition pct_index :: "(nat \<Rightarrow> nat \<Rightarrow> nat) \<Rightarrow> nat \<Rightarrow> nat \<Rightarrow> nat" where
  "pct_index pct p n = min (pct p n) (n - 1)"

definition sla_percentiles :: "(nat \<Rightarrow> nat \<Rightarrow> nat) \<Rightarrow> sla_metrics \<Rightarrow> sla_metrics" where
  "sla_percentiles pct s =
     (if sla_samples s = [] then s
      else (let sorted = sort (sla_samples s); n = length sorted in
        s\<lparr>sla_avg := sum_list sorted / real n,
          sla_p50 := sorted ! pct_index pct 50 n, sla_p95 := sorted ! pct_index pct 95 n,
          sla_p99 := sorted ! pct_index pct 99 n, sla_max := sorted ! (n - 1)\<rparr>))"

definition sla_count :: "nat \<Rightarrow> bool \<Rightarrow> real \<Rightarrow> sla_metrics \<Rightarrow> sla_metrics" where
  "sla_count now success ms s =
     (let s1 = s\<lparr>sla_total := wrap_add64 (sla_total s) 1, sla_last_check := now\<rparr>;
          s2 = (if success
                then (let xs = sla_samples s1 @ [ms] in
                      s1\<lparr>sla_successful := wrap_add64 (sla_successful s1) 1,
                         sla_samples := (if 1000 < length xs then drop 500 xs else xs)\<rparr>)
                else s1\<lparr>sla_failed := wrap_add64 (sla_failed s1) 1\<rparr>)
      in if 0 < sla_total s2
         then s2\<lparr>sla_uptime := real (sla_successful s2) / real (sla_total s2) * 100\<rparr> else s2)"

definition sla_record ::
  "(nat \<Rightarrow> nat \<Rightarrow> nat) \<Rightarrow> nat \<Rightarrow> bool \<Rightarrow> real \<Rightarrow> sla_metrics \<Rightarrow> sla_metrics" where
  "sla_record pct now success ms s =
     (let t = sla_percentiles pct (sla_count now success ms s)
      in if \<not> (success \<and> ms \<le> sla_target_latency t)
         then t\<lparr>sla_violations := min (sla_violations t + 1) u64_max\<rparr> else t)"

definition sla_record_check ::
  "(nat \<Rightarrow> nat \<Rightarrow> nat) \<Rightarrow> nat \<Rightarrow> string \<Rightarrow> bool \<Rightarrow> real option \<Rightarrow> sla_monitor \<Rightarrow> sla_monitor" where
  "sla_record_check pct now name success latency m =
     dm_insert name
       (sla_record pct now success (clean_latency latency) (dm_or_insert m name (sla_initial name (999 / 10) 500))) m"

definition sla_all_metrics :: "sla_monitor \<Rightarrow> sla_metrics list" where
  "sla_all_metrics m = map snd m"

definition sla_get_metrics :: "string \<Rightarrow> sla_monitor \<Rightarrow> sla_metrics option" where
  "sla_get_metrics name m = dm_get m name"

datatype sla_violation = UptimeBelow real real | P99Above real real

definition check_violations :: "sla_monitor \<Rightarrow> (string \<times> sla_violation) list" where
  "check_violations m =
     concat (map (\<lambda>(_, s).
       (if sla_uptime s < sla_target_uptime s
        then [(sla_service s, UptimeBelow (sla_uptime s) (sla_target_uptime s))] else []) @
       (if sla_target_latency s < sla_p99 s
        then [(sla_service s, P99Above (sla_p99 s) (sla_target_latency s))] else [])) m)"

text \<open>
  What the metrics of a service always satisfy: the checks add up, the samples are bounded,
  and with samples the percentiles are ordered, are among the samples, and are bounded by the
  maximum of the samples.
\<close>

definition pct_monotone :: "(nat \<Rightarrow> nat \<Rightarrow> nat) \<Rightarrow> bool" where
  "pct_monotone pct \<longleftrightarrow> (\<forall>p q n. p \<le> q \<longrightarrow> pct p n \<le> pct q n)"

definition sla_ok :: "sla_metrics \<Rightarrow> bool" where
  "sla_ok s \<longleftrightarrow>
     sla_total s = sla_successful s + sla_failed s \<and> length (sla_samples s) \<le> 1000 \<and>
     0 \<le> sla_uptime s \<and> sla_uptime s \<le> 100 \<and>
     (sla_samples s \<noteq> [] \<longrightarrow>
        sla_p50 s \<le> sla_p95 s \<and> sla_p95 s \<le> sla_p99 s \<and> sla_p99 s \<le> sla_max s \<and>
        sla_max s \<in> set (sla_samples s) \<and> (\<forall>x \<in> set (sla_samples s). x \<le> sla_max s))"

lemma pct_index_bounds:
  "0 < n \<Longrightarrow> pct_index pct p n < n" "pct_monotone pct \<Longrightarrow> p \<le> q \<Longrightarrow> pct_index pct p n \<le> pct_index pct q n"
  by (auto simp: pct_index_def pct_monotone_def intro: min.coboundedI1)

lemma sorted_last_max: "xs \<noteq> [] \<Longrightarrow> sorted xs \<Longrightarrow> x \<in> set xs \<Longrightarrow> x \<le> xs ! (length xs - 1)"
  by (auto simp: in_set_conv_nth sorted_iff_nth_mono)

lemma sla_percentiles_frame [simp]:
  "sla_total (sla_percentiles pct s) = sla_total s" "sla_successful (sla_percentiles pct s) = sla_successful s"
  "sla_failed (sla_percentiles pct s) = sla_failed s" "sla_samples (sla_percentiles pct s) = sla_samples s"
  "sla_uptime (sla_percentiles pct s) = sla_uptime s"
  by (simp_all add: sla_percentiles_def Let_def)

lemma sla_percentiles_ordered:
  assumes "pct_monotone pct" "sla_samples s \<noteq> []"
  shows "let t = sla_percentiles pct s in
    sla_p50 t \<le> sla_p95 t \<and> sla_p95 t \<le> sla_p99 t \<and> sla_p99 t \<le> sla_max t \<and>
    sla_max t \<in> set (sla_samples s) \<and> (\<forall>x \<in> set (sla_samples s). x \<le> sla_max t)"
proof -
  define xs where "xs = sort (sla_samples s)"
  have xs: "sorted xs" "xs \<noteq> []" "set xs = set (sla_samples s)"
    using assms(2) by (simp_all add: xs_def) (metis length_0_conv length_sort)
  have idx: "pct_index pct p (length xs) < length xs" for p using xs(2) by (simp add: pct_index_bounds)
  have le: "xs ! pct_index pct p (length xs) \<le> xs ! pct_index pct q (length xs)" if "p \<le> q" for p q
    using xs(1) idx pct_index_bounds(2) [OF assms(1) that] by (simp add: sorted_iff_nth_mono)
  have mx: "x \<in> set xs \<Longrightarrow> x \<le> xs ! (length xs - 1)" for x using sorted_last_max [OF xs(2,1)] .
  have "xs ! (length xs - 1) \<in> set xs" using xs(2) by simp
  then show ?thesis
    using assms(2) le [of 50 95] le [of 95 99] mx nth_mem [OF idx] xs(3)
    by (simp add: sla_percentiles_def Let_def flip: xs_def)
qed

text \<open>The invariant, as long as the check counter has not wrapped around.\<close>

lemma sla_count_ok:
  assumes "sla_total s = sla_successful s + sla_failed s" "length (sla_samples s) \<le> 1000" "sla_total s < u64_max"
  shows "sla_total (sla_count now success ms s) =
      sla_successful (sla_count now success ms s) + sla_failed (sla_count now success ms s)"
    and "length (sla_samples (sla_count now success ms s)) \<le> 1000"
    and "0 \<le> sla_uptime (sla_count now success ms s)" "sla_uptime (sla_count now success ms s) \<le> 100"
proof -
  have ex: "wrap_add64 (sla_successful s + sla_failed s) (Suc 0) = sla_successful s + sla_failed s + 1"
    "wrap_add64 (sla_successful s) (Suc 0) = sla_successful s + 1"
    "wrap_add64 (sla_failed s) (Suc 0) = sla_failed s + 1"
    using assms by (simp_all add: wrap_add64_exact)
  show "sla_total (sla_count now success ms s) =
      sla_successful (sla_count now success ms s) + sla_failed (sla_count now success ms s)"
    and "length (sla_samples (sla_count now success ms s)) \<le> 1000"
    and "0 \<le> sla_uptime (sla_count now success ms s)" "sla_uptime (sla_count now success ms s) \<le> 100"
    using assms(1,2) by (auto simp: sla_count_def Let_def ex divide_le_eq)
qed

lemma sla_record_ok:
  assumes "pct_monotone pct" "sla_ok s" "sla_total s < u64_max"
  shows "sla_ok (sla_record pct now success ms s)"
proof -
  have "sla_total s = sla_successful s + sla_failed s" "length (sla_samples s) \<le> 1000"
    using assms(2) by (simp_all add: sla_ok_def)
  note counted = sla_count_ok [OF this assms(3), of now success ms]
  have "sla_ok (sla_percentiles pct (sla_count now success ms s))"
    using counted sla_percentiles_ordered [OF assms(1), of "sla_count now success ms s"]
    by (auto simp: sla_ok_def Let_def)
  moreover have "sla_ok (t\<lparr>sla_violations := n\<rparr>) = sla_ok t" for t n by (simp add: sla_ok_def)
  ultimately show ?thesis unfolding sla_record_def Let_def by (simp only: if_split) simp
qed

text \<open>A latency target set for a known service is lost.\<close>

lemma latency_target_lost:
  assumes "dm_get m name = Some s"
  shows "\<exists>t. dm_get (set_sla_target name uptime latency m) name = Some t \<and>
    sla_target_latency t = sla_target_latency s \<and> sla_target_uptime t = uptime"
  using assms by (simp add: set_sla_target_def dm_get_insert dm_or_insert_def)

end
