(* ===== verification/Health_Monitor.thy ===== *)
theory Health_Monitor
  imports Registry Alerts Observability
begin

text \<open>
  src/src/health/mod.rs: the periodic health check. A round probes the services of a snapshot
  of the registry one after the other and feeds the status page, the service levels, the
  alerts, the incidents and the registry. The HTTP client (three attempts per service), the
  clock, the measured latency and fresh identifiers are parameters; the pauses between
  attempts are left out.
\<close>

record health_env =
  he_probe :: "string \<Rightarrow> nat \<Rightarrow> string + nat"
  he_status_text :: "nat \<Rightarrow> string"
  he_latency :: "uuid \<Rightarrow> real"
  he_now :: nat
  he_now_text :: string
  he_uuid_text :: "uuid \<Rightarrow> string"
  he_fresh :: "uuid \<Rightarrow> string"
  he_net :: net_env
  he_pct :: "nat \<Rightarrow> nat \<Rightarrow> nat"

record health_state =
  hm_registry :: registry
  hm_alerts :: alert_settings
  hm_uptime :: uptime_page
  hm_incidents :: "incident list"
  hm_sla :: sla_monitor
  hm_posts :: "(string \<times> json) list"
  hm_gauges :: "nat \<times> nat \<times> nat"

section \<open>One service\<close>

fun probe_loop ::
  "(nat \<Rightarrow> string + nat) \<Rightarrow> (nat \<Rightarrow> string) \<Rightarrow> string \<Rightarrow> nat list \<Rightarrow> service_status \<times> string \<Rightarrow> service_status \<times> string" where
  "probe_loop probe status_text name [] prev = prev"
| "probe_loop probe status_text name (attempt # as) prev =
     (case probe attempt of
        Inr code \<Rightarrow>
          if 200 \<le> code \<and> code < 300 then (Up, name @ '': UP'')
          else probe_loop probe status_text name as (Down, name @ '': DOWN (HTTP '' @ status_text code @ '')'')
      | Inl e \<Rightarrow> probe_loop probe status_text name as (Down, name @ '': DOWN ('' @ e @ '')''))"

definition probe_service :: "health_env \<Rightarrow> service_entry \<Rightarrow> service_status \<times> string" where
  "probe_service env e =
     probe_loop (he_probe env (svc_upstream e @ health_endpoint e)) (he_status_text env) (svc_name e) [1, 2, 3]
       (Down, '''')"

definition posted :: "(string \<times> json) option \<Rightarrow> (string \<times> json) list" where
  "posted p = (case p of None \<Rightarrow> [] | Some x \<Rightarrow> [x])"

text \<open>What a change of status leads to.\<close>

definition status_changed ::
  "health_env \<Rightarrow> service_entry \<Rightarrow> service_status \<Rightarrow> string \<Rightarrow> health_state \<Rightarrow> health_state" where
  "status_changed env e new_status log_msg s =
     (let s1 = (case new_status of
             Up \<Rightarrow>
               s\<lparr>hm_posts := hm_posts s @ posted (alert_service_up (he_net env) (he_now_text env) (svc_name e)
                               (he_uuid_text env (svc_id e)) (hm_alerts s)),
                 hm_incidents := fst (resolve_for_service (he_now env) (svc_name e) (hm_incidents s))\<rparr>
           | Down \<Rightarrow>
               s\<lparr>hm_posts := hm_posts s @ posted (alert_service_down (he_net env) (he_now_text env) (svc_name e)
                               (he_uuid_text env (svc_id e)) log_msg (hm_alerts s)),
                 hm_incidents :=
                   (if find_active_for_service (svc_name e) (hm_incidents s) = None
                    then fst (incident_create (he_fresh env (svc_id e)) (he_now env) (''Service Down: '' @ svc_name e)
                               Major [svc_name e] (hm_incidents s))
                    else hm_incidents s)\<rparr>
           | Unknown \<Rightarrow> s)
      in s1\<lparr>hm_registry := reg_call (LogEvent (''health_'' @ to_lowercase (service_status_fmt new_status)) (svc_id e) (svc_name e))
              (hm_registry s1)\<rparr>)"

definition check_service :: "health_env \<Rightarrow> service_entry \<Rightarrow> health_state \<Rightarrow> health_state" where
  "check_service env e s =
     (let (new_status, log_msg) = probe_service env e;
          is_up = (new_status = Up);
          ms = he_latency env (svc_id e);
          s1 = s\<lparr>hm_uptime := uptime_update (he_now env) (svc_name e) (if is_up then Operational else MajorOutage) ms (hm_uptime s),
                 hm_sla := sla_record_check (he_pct env) (he_now env) (svc_name e) is_up (Some ms) (hm_sla s)\<rparr>;
          s2 = (if svc_status e \<noteq> new_status then status_changed env e new_status log_msg s1 else s1)
      in s2\<lparr>hm_registry := update_status (he_now env) (svc_id e) new_status (hm_registry s2)\<rparr>)"

section \<open>A round\<close>

definition health_tick :: "health_env \<Rightarrow> health_state \<Rightarrow> health_state" where
  "health_tick env s =
     (let svcs = list_all_services (hm_registry s) in
      if svcs = [] then s
      else (let s' = fold (check_service env) svcs s in
            s'\<lparr>hm_gauges := (length svcs, count_by_status Up (hm_registry s'), count_by_status Down (hm_registry s'))\<rparr>))"

section \<open>Probing\<close>

text \<open>A service is up exactly when one of the three attempts succeeds.\<close>

lemma probe_loop_up:
  assumes "fst prev \<noteq> Up"
  shows "fst (probe_loop probe txt name as prev) = Up \<longleftrightarrow>
     (\<exists>a \<in> set as. \<exists>code. probe a = Inr code \<and> 200 \<le> code \<and> code < 300)"
  using assms
proof (induction as arbitrary: prev)
  case (Cons a as)
  then show ?case by (cases "probe a") auto
qed simp

lemma probe_loop_down: "fst prev = Down \<Longrightarrow> fst (probe_loop probe txt name as prev) \<noteq> Unknown"
proof (induction as arbitrary: prev)
  case (Cons a as)
  then show ?case by (cases "probe a") auto
qed simp

definition reachable_in :: "health_env \<Rightarrow> service_entry \<Rightarrow> bool" where
  "reachable_in env e \<longleftrightarrow>
     (\<exists>a \<in> {1, 2, 3}. \<exists>code. he_probe env (svc_upstream e @ health_endpoint e) a = Inr code \<and> 200 \<le> code \<and> code < 300)"

lemma probe_service_status: "fst (probe_service env e) = (if reachable_in env e then Up else Down)"
proof -
  have "fst (probe_service env e) = Up \<longleftrightarrow> reachable_in env e"
    unfolding probe_service_def reachable_in_def by (subst probe_loop_up) auto
  moreover have "fst (probe_service env e) \<noteq> Unknown"
    unfolding probe_service_def by (rule probe_loop_down) simp
  ultimately show ?thesis by (cases "fst (probe_service env e)") auto
qed

section \<open>Incidents follow the status\<close>

text \<open>
  The state of a gateway whose incidents all come from the health check: entries are stored
  under their own identifiers, names are distinct, an open incident is about one service, and
  a service has an open incident, and then one, exactly when it is down.
\<close>

definition tracked :: "service_entry \<Rightarrow> incident list \<Rightarrow> bool" where
  "tracked e is \<longleftrightarrow> open_for (svc_name e) is = (if svc_status e = Down then 1 else 0)"

definition single_service :: "incident list \<Rightarrow> bool" where
  "single_service is \<longleftrightarrow> (\<forall>i \<in> set is. length (inc_services i) = 1)"

definition hm_ok :: "health_state \<Rightarrow> bool" where
  "hm_ok s \<longleftrightarrow>
     dm_wf (services (hm_registry s)) \<and> (\<forall>(i, e) \<in> set (services (hm_registry s)). svc_id e = i) \<and>
     distinct (map (svc_name \<circ> snd) (services (hm_registry s))) \<and>
     single_service (hm_incidents s) \<and>
     (\<forall>(i, e) \<in> set (services (hm_registry s)). tracked e (hm_incidents s))"

lemma services_reg_call [simp]: "services (reg_call c r) = services r"
  by (simp add: reg_call_def)

text \<open>The registry and the incidents after one check.\<close>

lemma check_service_services:
  "services (hm_registry (check_service env e s)) =
     dm_update (svc_id e)
       (\<lambda>x. x\<lparr>svc_status := fst (probe_service env e), last_health_check := Some (he_now env)\<rparr>) (services (hm_registry s))"
  by (simp add: check_service_def update_status_def status_changed_def Let_def split: prod.split service_status.split)

definition incidents_after :: "health_env \<Rightarrow> service_entry \<Rightarrow> incident list \<Rightarrow> incident list" where
  "incidents_after env e is =
     (let st = fst (probe_service env e) in
      if svc_status e = st then is
      else if st = Up then fst (resolve_for_service (he_now env) (svc_name e) is)
      else if find_active_for_service (svc_name e) is = None
      then fst (incident_create (he_fresh env (svc_id e)) (he_now env) (''Service Down: '' @ svc_name e) Major [svc_name e] is)
      else is)"

lemma check_service_incidents:
  "hm_incidents (check_service env e s) = incidents_after env e (hm_incidents s)"
proof -
  have "fst (probe_service env e) \<noteq> Unknown" by (simp add: probe_service_status)
  then show ?thesis
    by (cases "fst (probe_service env e)")
      (simp_all add: check_service_def incidents_after_def status_changed_def Let_def case_prod_unfold)
qed

lemma single_service_after:
  assumes "single_service is"
  shows "single_service (incidents_after env e is)"
  using assms
  by (auto simp: incidents_after_def single_service_def incident_create_def resolve_for_service_def Let_def)

lemma active_single:
  assumes "single_service is" "i \<in> set is" "active_for a i" "active_for b i"
  shows "a = b"
proof -
  from assms(1,2) obtain x where "inc_services i = [x]" by (auto simp: single_service_def length_Suc_conv)
  with assms(3,4) show ?thesis by (simp add: active_for_def)
qed

lemma open_for_after_other:
  assumes "single_service is" "n \<noteq> svc_name e"
  shows "open_for n (incidents_after env e is) = open_for n is"
proof -
  have "filter (\<lambda>i. active_for n i \<and> \<not> active_for (svc_name e) i) is = filter (active_for n) is"
    using active_single [OF assms(1)] assms(2) by (auto intro: filter_cong)
  then show ?thesis
    using assms(2) by (simp add: incidents_after_def Let_def open_for_resolve open_for_create) (simp add: open_for_def)
qed

lemma open_for_after_same:
  assumes "tracked e is"
  shows "open_for (svc_name e) (incidents_after env e is) = (if reachable_in env e then 0 else 1)"
  using assms
  by (simp add: tracked_def incidents_after_def Let_def probe_service_status find_active_None open_for_create)

lemma check_service_ok:
  assumes "hm_ok s" "e \<in> set (list_all_services (hm_registry s))"
  shows "hm_ok (check_service env e s)"
proof -
  let ?m = "services (hm_registry s)"
  from assms(2) obtain i where i: "(i, e) \<in> set ?m" by (auto simp: list_all_services_def)
  have id: "svc_id e = i" and single: "single_service (hm_incidents s)"
    using assms(1) i by (auto simp: hm_ok_def)
  have inj_names: "inj_on (svc_name \<circ> snd) (set ?m)" using assms(1) by (simp add: hm_ok_def distinct_map)
  have others: "x = e" if "(j, x) \<in> set ?m" "svc_name x = svc_name e" for j x
    using inj_onD [OF inj_names, of "(j, x)" "(i, e)"] i that by simp
  have keys: "j = i \<longleftrightarrow> x = e" if "(j, x) \<in> set ?m" for j x
    using assms(1) i that id by (auto simp: hm_ok_def dm_wf_def eq_key_imp_eq_value)
  define u where "u = dm_update i
    (\<lambda>x. x\<lparr>svc_status := fst (probe_service env e), last_health_check := Some (he_now env)\<rparr>) ?m"
  have names: "map (svc_name \<circ> snd) (dm_update i (\<lambda>x. x\<lparr>svc_status := st, last_health_check := t\<rparr>) ?m) =
      map (svc_name \<circ> snd) ?m" for st t
    by (auto simp: dm_update_def)
  have "tracked (if j = i then x\<lparr>svc_status := fst (probe_service env e), last_health_check := Some (he_now env)\<rparr> else x)
      (incidents_after env e (hm_incidents s))" if jx: "(j, x) \<in> set ?m" for j x
  proof (cases "x = e")
    case True
    then show ?thesis
      using assms(1) jx keys [OF jx] open_for_after_same [of e "hm_incidents s" env]
      by (auto simp: hm_ok_def tracked_def probe_service_status)
  next
    case False
    then have "svc_name x \<noteq> svc_name e" using others [OF jx] by blast
    then show ?thesis
      using assms(1) jx keys [OF jx] False open_for_after_other [OF single] by (auto simp: hm_ok_def tracked_def)
  qed
  then have "\<forall>(j, x) \<in> set u. tracked x (incidents_after env e (hm_incidents s))"
    by (auto simp: u_def dm_update_def)
  moreover have "\<forall>(j, x) \<in> set u. svc_id x = j" using assms(1) by (auto simp: hm_ok_def u_def dm_update_def)
  moreover have "dm_wf u" "distinct (map (svc_name \<circ> snd) u)"
    using assms(1) names unfolding u_def by (simp_all add: hm_ok_def dm_wf_update)
  ultimately show ?thesis
    using single_service_after [OF single]
    by (simp add: hm_ok_def check_service_services check_service_incidents id flip: u_def)
qed

lemma check_all_ok:
  assumes "hm_ok s" "set es \<subseteq> set (list_all_services (hm_registry s))" "distinct (map svc_id es)"
  shows "hm_ok (fold (check_service env) es s)"
  using assms
proof (induction es arbitrary: s)
  case (Cons e es)
  have "set es \<subseteq> set (list_all_services (hm_registry (check_service env e s)))"
  proof
    fix x assume x: "x \<in> set es"
    then obtain j where j: "(j, x) \<in> set (services (hm_registry s))"
      using Cons.prems(2) by (auto simp: list_all_services_def)
    then have "svc_id x = j" using Cons.prems(1) by (auto simp: hm_ok_def)
    moreover have "svc_id x \<noteq> svc_id e" using Cons.prems(3) x by (metis distinct.simps(2) image_eqI list.map(2) set_map)
    ultimately show "x \<in> set (list_all_services (hm_registry (check_service env e s)))"
      using j by (force simp: list_all_services_def check_service_services dm_update_def image_iff)
  qed
  with Cons show ?case by (simp add: check_service_ok)
qed simp

lemma health_tick_ok:
  assumes "hm_ok s"
  shows "hm_ok (health_tick env s)"
proof -
  have "map svc_id (list_all_services (hm_registry s)) = map fst (services (hm_registry s))"
    using assms by (auto simp: hm_ok_def list_all_services_def)
  then have "hm_ok (fold (check_service env) (list_all_services (hm_registry s)) s)"
    using assms by (intro check_all_ok) (auto simp: hm_ok_def dm_wf_def)
  then show ?thesis
    using assms by (auto simp: health_tick_def Let_def hm_ok_def)
qed

lemma health_run_ok: "hm_ok s \<Longrightarrow> hm_ok (fold health_tick envs s)"
  by (induction envs arbitrary: s) (simp_all add: health_tick_ok)

text \<open>
  C28: Incidents follow the health of the services. From a start where every service has its own
  name, no service is known to be down and there is no incident, after any number of rounds a
  service that is down has one open incident and a service that is not down has none.
\<close>

theorem incidents_track_status:
  assumes "dm_wf (services (hm_registry s))" "\<forall>(i, e) \<in> set (services (hm_registry s)). svc_id e = i"
    and "distinct (map (svc_name \<circ> snd) (services (hm_registry s)))"
    and "\<forall>e \<in> set (list_all_services (hm_registry s)). svc_status e \<noteq> Down" "hm_incidents s = []"
    and "s' = fold health_tick envs s" "e \<in> set (list_all_services (hm_registry s'))"
  shows "open_for (svc_name e) (hm_incidents s') = (if svc_status e = Down then 1 else 0)"
proof -
  have "hm_ok s"
    using assms(1-5) by (auto simp: hm_ok_def tracked_def single_service_def open_for_def list_all_services_def)
  then have "hm_ok s'" unfolding assms(6) by (rule health_run_ok)
  then show ?thesis using assms(7) by (auto simp: hm_ok_def tracked_def list_all_services_def)
qed

section \<open>A concrete gateway\<close>

definition probe_env :: "(string \<Rightarrow> string + nat) \<Rightarrow> health_env" where
  "probe_env probe =
     \<lparr>he_probe = (\<lambda>u _. probe u), he_status_text = (\<lambda>_. ''''), he_latency = (\<lambda>_. 1), he_now = 0, he_now_text = '''',
      he_uuid_text = (\<lambda>_. ''''), he_fresh = (\<lambda>_. ''i''), he_net = \<lparr>parse_url = (\<lambda>_. Inl ''''), lookup_host = (\<lambda>_. Inl '''')\<rparr>,
      he_pct = (\<lambda>p n. p * n div 100)\<rparr>"

definition monitored :: "string \<Rightarrow> string \<Rightarrow> health_state" where
  "monitored name1 name2 =
     \<lparr>hm_registry = \<lparr>services = [(1, service_entry_new 1 0 name1 ''/a'' ''http://a'' ''/h''),
                                 (2, service_entry_new 2 0 name2 ''/b'' ''http://b'' ''/h'')], reg_storage = None\<rparr>,
      hm_alerts = alert_manager_new None False False False, hm_uptime = uptime_page_new, hm_incidents = [],
      hm_sla = [], hm_posts = [], hm_gauges = (0, 0, 0)\<rparr>"

lemmas tick_simps = health_tick_def Let_def check_service_services check_service_incidents incidents_after_def
  probe_service_def probe_env_def monitored_def service_entry_new_def list_all_services_def dm_update_def
  entry_prefix_def trim_end_matches_def

theorem incidents_track_status_witness:
  "open_for ''a'' (hm_incidents (fold health_tick [probe_env (\<lambda>_. Inl '''')] (monitored ''a'' ''b''))) = 1"
proof -
  let ?s = "monitored ''a'' ''b''" and ?env = "probe_env (\<lambda>_. Inl '''')"
  define s' where "s' = fold health_tick [?env] ?s"
  have "\<exists>e. e \<in> set (list_all_services (hm_registry s')) \<and> svc_name e = ''a'' \<and> svc_status e = Down"
    by (simp add: s'_def tick_simps conj_disj_distribR ex_disj_distrib)
  then obtain e where e: "e \<in> set (list_all_services (hm_registry s'))" "svc_name e = ''a''" "svc_status e = Down"
    by blast
  have "dm_wf (services (hm_registry ?s))" "\<forall>(i, e) \<in> set (services (hm_registry ?s)). svc_id e = i"
    "distinct (map (svc_name \<circ> snd) (services (hm_registry ?s)))"
    "\<forall>e \<in> set (list_all_services (hm_registry ?s)). svc_status e \<noteq> Down" "hm_incidents ?s = []"
    by (simp_all add: monitored_def service_entry_new_def dm_wf_def list_all_services_def)
  from incidents_track_status [OF this s'_def e(1)] e(2,3) show ?thesis by (simp add: s'_def)
qed

text \<open>
  With two services of one name the recovery of one closes the incident of the other, which is
  still down and gets no new one.
\<close>

lemma shared_name_hides_outage:
  defines "s1 \<equiv> health_tick (probe_env (\<lambda>_. Inl '''')) (monitored ''x'' ''x'')"
  defines "s2 \<equiv> health_tick (probe_env (\<lambda>u. if u = ''http://a/h'' then Inr 200 else Inl '''')) s1"
  shows "map svc_status (list_all_services (hm_registry s2)) = [Up, Down]" "open_for ''x'' (hm_incidents s2) = 0"
proof -
  show "map svc_status (list_all_services (hm_registry s2)) = [Up, Down]"
    by (simp add: s2_def s1_def tick_simps)
  show "open_for ''x'' (hm_incidents s2) = 0"
    by (simp add: s2_def s1_def tick_simps find_active_for_service_def incident_create_def resolve_for_service_def
        open_for_def active_for_def)
qed

end
