(* ===== verification/Boot.thy ===== *)
theory Boot
  imports Config Gateway Alerts Rate_Limiter Ip_Filter Gate_Auth Sessions
begin

text \<open>
  src/src/main.rs and src/src/bootstrap/state.rs: how a configuration becomes a running gateway,
  the task that follows changes of the configuration, and the chain of middlewares in front of
  the routes. The file system, the RSA parser, the regular expressions, the rows of the
  database and fresh identifiers are parameters. Not modelled: the banner, logging, the
  background tasks of other components, TLS and the listening sockets.
\<close>

section \<open>Starting\<close>

definition load_for_serve :: "(string \<Rightarrow> xira_config option) \<Rightarrow> (string \<Rightarrow> bool) \<Rightarrow> string \<Rightarrow> xira_config" where
  "load_for_serve load file_exists path =
     (if file_exists path
      then (case load path of Some c \<Rightarrow> c | None \<Rightarrow> load_or_default load file_exists)
      else load_or_default load file_exists)"

definition override_port :: "nat option \<Rightarrow> xira_config \<Rightarrow> xira_config" where
  "override_port port c =
     (case port of Some p \<Rightarrow> c\<lparr>c_gateway := (c_gateway c)\<lparr>c_gateway_port := p\<rparr>\<rparr> | None \<Rightarrow> c)"

record 'k boot_env =
  be_file_exists :: "string \<Rightarrow> bool"
  be_rsa :: "string \<Rightarrow> string + 'k"
  be_regex_error :: "string \<Rightarrow> string option"
  be_scale :: "string \<Rightarrow> nat \<Rightarrow> nat"
  be_hash :: "string list \<Rightarrow> nat"
  be_now :: nat
  be_service_rows :: "service_entry list"
  be_session_rows :: "row list"
  be_fresh :: "nat \<Rightarrow> uuid"

definition rsa_ok :: "(string \<Rightarrow> string + 'k) \<Rightarrow> string \<Rightarrow> bool" where
  "rsa_ok rsa s = (case rsa s of Inl _ \<Rightarrow> False | Inr _ \<Rightarrow> True)"

record ('c, 'k) app_state =
  ap_shared :: xira_config
  ap_gateway :: "'c gateway"
  ap_limiter :: rate_limiter
  ap_alerts :: alert_settings
  ap_sessions :: session_mgr
  ap_jwt :: "'k jwt_auth"
  ap_ip_filter :: ip_filter
  ap_api_key :: string
  ap_waf_hash :: nat

definition waf_mode_of :: "waf_cfg \<Rightarrow> waf_mode" where
  "waf_mode_of w = (if c_waf_mode w = ''detect_only'' then DetectOnly else WafBlock)"

definition gw_config_of :: "(string \<Rightarrow> nat \<Rightarrow> nat) \<Rightarrow> xira_config \<Rightarrow> gw_config" where
  "gw_config_of scale c =
     \<lparr>gc_max_retries = c_retry_max_retries (c_retry c), gc_delay_ms = c_retry_delay_ms (c_retry c),
      gc_backoff = scale (c_retry_backoff_multiplier (c_retry c)), gc_cache_enabled = c_cache_enabled (c_cache c)\<rparr>"

definition init_registry :: "'k boot_env \<Rightarrow> xira_config \<Rightarrow> registry" where
  "init_registry env c =
     load_from_config (be_now env) (zip (map (be_fresh env) [0..<length (c_services c)]) (c_services c))
       (registry_with_storage (be_service_rows env))"

definition init_plugins :: "xira_config \<Rightarrow> plugin_manager" where
  "init_plugins c =
     (let pm = plugin_manager_new (c_plugin_enabled (c_plugins c)) in
      if c_plugin_enabled (c_plugins c)
      then pm_register security_headers_plugin (pm_register logging_plugin pm) else pm)"

definition init_waf :: "'k boot_env \<Rightarrow> xira_config \<Rightarrow> waf" where
  "init_waf env c =
     load_custom_patterns_from_strings (be_regex_error env) (be_now env) (c_waf_custom_block_patterns (c_waf c))
       (waf_new (c_waf_enabled (c_waf c)) (waf_mode_of (c_waf c)))"

definition init_limiter :: "xira_config \<Rightarrow> rate_limiter" where
  "init_limiter c =
     rl_with_trusted_proxies (c_rate_limit_max_requests (c_rate_limit c)) (c_rate_limit_window_secs (c_rate_limit c))
       (c_rate_limit_trust_xff (c_rate_limit c)) (c_rate_limit_trusted_proxies (c_rate_limit c))"

definition init_alerts :: "xira_config \<Rightarrow> alert_settings" where
  "init_alerts c =
     alert_manager_new (c_alerting_webhook_url (c_alerting c)) (c_alerting_enabled (c_alerting c))
       (c_alerting_on_service_down (c_alerting c)) (c_alerting_on_service_up (c_alerting c))"

definition init_gateway :: "('c, cached_response) lru_ops \<Rightarrow> 'k boot_env \<Rightarrow> xira_config \<Rightarrow> 'c gateway" where
  "init_gateway L env c =
     \<lparr>gw_registry = init_registry env c,
      gw_cb = cb_new (c_cb_failure_threshold (c_circuit_breaker c)) (c_cb_reset_timeout_secs (c_circuit_breaker c))
                (c_cb_half_open_max_requests (c_circuit_breaker c)),
      gw_lb = lb_new,
      gw_cache = rc_new L (c_cache_max_entries (c_cache c)) (c_cache_ttl_secs (c_cache c)) (c_cache_enabled (c_cache c)),
      gw_plugins = init_plugins c, gw_config = gw_config_of (be_scale env) c, gw_waf = init_waf env c,
      gw_bots = bot_detector_new (c_bot_enabled (c_bot_detection c)) (c_bot_block_bots (c_bot_detection c))
                  (c_bot_crawl_rate_limit (c_bot_detection c)),
      gw_metrics = adv_new, gw_health = [],
      gw_audit = audit_new_with_dispatcher True True
                   (c_audit_file_path (c_audit c) \<noteq> None \<or> c_audit_webhook_url (c_audit c) \<noteq> None),
      gw_events = []\<rparr>"

definition app_init ::
  "('c, cached_response) lru_ops \<Rightarrow> 'k boot_env \<Rightarrow> 'k jwt_auth \<Rightarrow> xira_config \<Rightarrow> ('c, 'k) app_state" where
  "app_init L env jwt c =
     \<lparr>ap_shared = c, ap_gateway = init_gateway L env c, ap_limiter = init_limiter c, ap_alerts = init_alerts c,
      ap_sessions = sess_with_storage (be_now env) (c_identity_max_sessions_per_user (c_identity c)) (be_session_rows env),
      ap_jwt = jwt,
      ap_ip_filter = ip_filter_new (c_ip_filter_whitelist (c_ip_filter c)) (c_ip_filter_blacklist (c_ip_filter c))
                       (c_ip_filter_enabled (c_ip_filter c)),
      ap_api_key = c_admin_api_key (c_admin c), ap_waf_hash = 0\<rparr>"

datatype serve_error = ConfigRejected nat | JwtInit jwt_init_error

definition serve ::
  "('c, cached_response) lru_ops \<Rightarrow> 'k boot_env \<Rightarrow> xira_config \<Rightarrow> serve_error + ('c, 'k) app_state" where
  "serve L env c =
     (let report = validate (be_file_exists env) (rsa_ok (be_rsa env)) c in
      if \<not> report_ok report then Inl (ConfigRejected (length (rep_errors report)))
      else and_then (map_err JwtInit (jwt_new (be_rsa env) (c_jwt_secret (c_jwt c)) (c_jwt_algorithm (c_jwt c))
                                        (c_jwt_issuer (c_jwt c)) (c_jwt_enabled (c_jwt c))))
             (\<lambda>jwt. Inr (app_init L env jwt c)))"

section \<open>Following the configuration\<close>


definition sync_waf :: "'k boot_env \<Rightarrow> string list \<Rightarrow> nat \<Rightarrow> waf \<Rightarrow> waf \<times> nat" where
  "sync_waf env patterns last_hash w =
     (let new_hash = be_hash env patterns in
      if new_hash \<noteq> last_hash
      then (load_custom_patterns_from_strings (be_regex_error env) (be_now env) patterns w, new_hash)
      else (w, last_hash))"


section \<open>The middlewares\<close>

text \<open>
  A request as the middlewares see it. The middleware wrapped last runs first: API key,
  address filter, JWT, rate limiter, request log, CORS, routes. \<open>preflight\<close> is what the CORS
  crate answers itself; \<open>route\<close> is the status of the handler behind it.
\<close>

record app_request =
  rq_method :: string
  rq_path :: string
  rq_api_key :: "string option"
  rq_authorization :: "string option"
  rq_client :: rl_request

datatype app_answer =
    RefusedKey api_answer
  | RefusedAddress
  | RefusedToken jwt_answer
  | RefusedRate nat
  | Preflight
  | Routed nat

definition logged_path :: "string \<Rightarrow> bool" where
  "logged_path path \<longleftrightarrow> \<not> prefix ''/xira'' path \<and> path \<noteq> ''/metrics'' \<and> path \<noteq> ''/dashboard''"

record request_row =
  rr_service :: "uuid option"
  rr_method :: string
  rr_path :: string
  rr_status :: nat
  rr_peer :: string

record 'k chain =
  ch_api_key :: string
  ch_filter :: ip_filter
  ch_jwt :: "'k jwt_auth"
  ch_limiter :: rate_limiter
  ch_registry :: registry
  ch_rows :: "request_row list"

record 'k chain_env =
  ce_instant :: instant
  ce_decode :: "'k jwt_key \<Rightarrow> jwt_validation \<Rightarrow> string \<Rightarrow> bool"
  ce_preflight :: "app_request \<Rightarrow> nat option"
  ce_route :: "app_request \<Rightarrow> nat"

text \<open>The request log and what it wraps.\<close>

definition logged_call :: "'k chain_env \<Rightarrow> app_request \<Rightarrow> 'k chain \<Rightarrow> 'k chain \<times> app_answer" where
  "logged_call env req s =
     (let answer = (case ce_preflight env req of Some st \<Rightarrow> Preflight | None \<Rightarrow> Routed (ce_route env req));
          status = (case ce_preflight env req of Some st \<Rightarrow> st | None \<Rightarrow> ce_route env req);
          row = \<lparr>rr_service = map_option svc_id (reg_lookup (rq_path req) (ch_registry s)), rr_method = rq_method req,
                 rr_path = rq_path req, rr_status = status,
                 rr_peer = (case rl_peer (rq_client req) of Some a \<Rightarrow> show_ip a | None \<Rightarrow> ''-'')\<rparr>
      in (if logged_path (rq_path req) then s\<lparr>ch_rows := ch_rows s @ [row]\<rparr> else s, answer))"

definition limited_call :: "'k chain_env \<Rightarrow> app_request \<Rightarrow> 'k chain \<Rightarrow> 'k chain \<times> app_answer" where
  "limited_call env req s =
     (case rl_call (ce_instant env) (rq_client req) (ch_limiter s) of
        (l, Pass) \<Rightarrow> logged_call env req (s\<lparr>ch_limiter := l\<rparr>)
      | (l, TooManyRequests n) \<Rightarrow> (s\<lparr>ch_limiter := l\<rparr>, RefusedRate n))"

definition app_call :: "'k chain_env \<Rightarrow> app_request \<Rightarrow> 'k chain \<Rightarrow> 'k chain \<times> app_answer" where
  "app_call env req s =
     (case api_key_call (ch_api_key s) (rq_path req) (rq_api_key req) of
        WrongKey \<Rightarrow> (s, RefusedKey WrongKey)
      | MissingKey \<Rightarrow> (s, RefusedKey MissingKey)
      | ApiPass \<Rightarrow>
          (case ipf_call (ch_filter s) (rl_peer (rq_client req)) of
             ForbiddenIp \<Rightarrow> (s, RefusedAddress)
           | Forward \<Rightarrow>
               (case jwt_call (ce_decode env) (ch_jwt s) (rq_path req) (rq_authorization req) of
                  JwtPass \<Rightarrow> limited_call env req s
                | a \<Rightarrow> (s, RefusedToken a))))"

definition chain_of :: "('c, 'k) app_state \<Rightarrow> 'k chain" where
  "chain_of s =
     \<lparr>ch_api_key = ap_api_key s, ch_filter = ap_ip_filter s, ch_jwt = ap_jwt s, ch_limiter = ap_limiter s,
      ch_registry = gw_registry (ap_gateway s), ch_rows = []\<rparr>"

section \<open>Configured services\<close>

lemma list_all_insert_fresh:
  "dm_get m k = None \<Longrightarrow> dm_insert k v m = m @ [(k, v)]"
  by (induction k v m rule: dm_insert.induct) (auto split: if_splits)

lemma request_entry_simps [simp]:
  "svc_id (request_entry fresh now svc) = fresh"
  "svc_prefix (request_entry fresh now svc) = entry_prefix (req_prefix svc)"
  by (simp_all add: request_entry_def service_entry_new_def)

lemma load_config_one_services:
  assumes "dm_get (services r) fresh = None"
  shows "services (load_config_one now (fresh, svc) r) =
    (if find_by_prefix (req_prefix svc) r \<noteq> None then services r
     else services r @ [(fresh, request_entry fresh now svc)])"
  using assms by (simp add: load_config_one_def Let_def list_all_insert_fresh reg_call_def)

lemma load_one_finds:
  assumes "dm_get (services r) fresh = None" "req_prefix svc \<noteq> []"
  shows "find_by_prefix (req_prefix svc) (load_config_one now (fresh, svc) r) \<noteq> None"
proof (cases "find_by_prefix (req_prefix svc) r = None")
  case True
  then show ?thesis
    using assms by (simp add: load_config_one_services list_all_services_def find_by_prefix_None find_prefix_key_eq)
qed (use assms in \<open>simp add: load_config_one_def\<close>)

lemma load_one_keeps:
  assumes "dm_get (services r) fresh = None" "find_by_prefix p r \<noteq> None"
  shows "find_by_prefix p (load_config_one now (fresh, svc) r) \<noteq> None"
  using assms by (auto simp: find_by_prefix_None list_all_services_def load_config_one_services)

lemma load_one_keys:
  "k \<noteq> fresh \<Longrightarrow> dm_get (services r) fresh = None \<Longrightarrow>
   dm_get (services (load_config_one now (fresh, svc) r)) k = dm_get (services r) k"
  by (simp add: load_config_one_services map_add_def split: option.split)

lemma load_from_config_finds:
  assumes "distinct (map fst svcs)" "\<forall>(i, svc) \<in> set svcs. dm_get (services r) i = None"
  shows "find_by_prefix p r \<noteq> None \<or> (\<exists>(i, svc) \<in> set svcs. req_prefix svc = p \<and> p \<noteq> []) \<Longrightarrow>
    find_by_prefix p (load_from_config now svcs r) \<noteq> None"
  using assms unfolding load_from_config_def
proof (induction svcs arbitrary: r)
  case (Cons s svcs)
  obtain i svc where s: "s = (i, svc)" by force
  have absent: "dm_get (services r) i = None" using Cons.prems(3) s by auto
  have "\<forall>(j, x) \<in> set svcs. dm_get (services (load_config_one now s r)) j = None"
    using Cons.prems(2,3) s load_one_keys [OF _ absent] by force
  moreover have "find_by_prefix p (load_config_one now s r) \<noteq> None \<or> (\<exists>(j, x) \<in> set svcs. req_prefix x = p \<and> p \<noteq> [])"
    using Cons.prems(1) s load_one_finds [OF absent] load_one_keeps [OF absent] by auto
  ultimately show ?case using Cons.IH Cons.prems(2) by simp
qed auto

lemma dm_get_rows:
  "dm_get (fold (\<lambda>e m. dm_insert (svc_id e) e m) rows m) k = None \<longleftrightarrow>
     dm_get m k = None \<and> k \<notin> svc_id ` set rows"
  by (induction rows arbitrary: m) (auto simp: dm_get_insert)

lemma configured_services_found:
  assumes "inj (be_fresh env)" "\<forall>n. be_fresh env n \<notin> svc_id ` set (be_service_rows env)"
    and "svc \<in> set (c_services c)" "req_prefix svc \<noteq> []"
  shows "find_by_prefix (req_prefix svc) (init_registry env c) \<noteq> None"
  unfolding init_registry_def
proof (rule load_from_config_finds)
  let ?svcs = "zip (map (be_fresh env) [0..<length (c_services c)]) (c_services c)"
  show "distinct (map fst ?svcs)" using assms(1) by (simp add: distinct_map) (metis inj_on_subset subset_UNIV)
  show "\<forall>(i, svc) \<in> set ?svcs. dm_get (services (registry_with_storage (be_service_rows env))) i = None"
    using assms(2) dm_get_rows [of "be_service_rows env" "[]"]
    by (fastforce simp: registry_with_storage_def dest!: set_zip_leftD)
  obtain n where "n < length (c_services c)" "c_services c ! n = svc" using assms(3) by (auto simp: in_set_conv_nth)
  then have "(be_fresh env n, svc) \<in> set ?svcs" by (force simp: in_set_conv_nth)
  with assms(4) show "find_by_prefix (req_prefix svc) (registry_with_storage (be_service_rows env)) \<noteq> None \<or>
      (\<exists>(i, x) \<in> set ?svcs. req_prefix x = req_prefix svc \<and> req_prefix svc \<noteq> [])" by blast
qed

text \<open>What the registry holds after the configuration has been loaded, under every identifier.\<close>

lemma load_config_exact:
  assumes "distinct (map fst svcs)" "\<forall>(i, svc) \<in> set svcs. dm_get (services r) i = None" "dm_wf (services r)"
    and "S = services (load_from_config now svcs r)"
  shows "dm_wf S \<and> (\<forall>i. i \<notin> fst ` set svcs \<longrightarrow> dm_get S i = dm_get (services r) i) \<and>
    (\<forall>n < length svcs. dm_get S (fst (svcs ! n)) =
       (if \<exists>e. svc_prefix e = find_prefix_key (req_prefix (snd (svcs ! n))) \<and>
             ((\<exists>i. dm_get (services r) i = Some e) \<or> (\<exists>m < n. dm_get S (fst (svcs ! m)) = Some e))
        then None else Some (request_entry (fst (svcs ! n)) now (snd (svcs ! n)))))"
  using assms
proof (induction svcs arbitrary: S rule: rev_induct)
  case Nil
  then show ?case by (simp add: load_from_config_def)
next
  case (snoc s svcs)
  obtain i svc where s: "s = (i, svc)" by force
  define q where "q = load_from_config now svcs r"
  have pre: "distinct (map fst svcs)" "\<forall>(j, x) \<in> set svcs. dm_get (services r) j = None" "i \<notin> fst ` set svcs"
    using snoc.prems(1,2) s by auto
  note IH = snoc.IH [OF pre(1,2) snoc.prems(3), of "services q", unfolded q_def, OF refl, folded q_def]
  have absent: "dm_get (services q) i = None" using IH pre(3) snoc.prems(2) s by auto
  have S: "S = services (load_config_one now (i, svc) q)"
    using snoc.prems(4) by (simp add: load_from_config_def q_def s)
  have others: "dm_get S j = dm_get (services q) j" if "j \<noteq> i" for j
    using load_one_keys [OF that absent] S by simp
  have wf: "dm_wf (services q)" using IH by simp
  have taken: "find_by_prefix p q \<noteq> None \<longleftrightarrow> (\<exists>e j. svc_prefix e = find_prefix_key p \<and> dm_get (services q) j = Some e)" for p
    using wf by (force simp: find_by_prefix_None list_all_services_def dm_get_mem)
  have held: "(\<exists>j. dm_get (services q) j = Some e) \<longleftrightarrow>
      (\<exists>j. dm_get (services r) j = Some e) \<or> (\<exists>m < length svcs. dm_get (services q) (fst (svcs ! m)) = Some e)" for e
  proof
    assume "\<exists>j. dm_get (services q) j = Some e"
    then obtain j where j: "dm_get (services q) j = Some e" by blast
    show "(\<exists>j. dm_get (services r) j = Some e) \<or> (\<exists>m < length svcs. dm_get (services q) (fst (svcs ! m)) = Some e)"
    proof (cases "j \<in> fst ` set svcs")
      case True
      then show ?thesis using j by (force simp: in_set_conv_nth)
    next
      case False
      then show ?thesis using j IH by metis
    qed
  next
    assume "(\<exists>j. dm_get (services r) j = Some e) \<or> (\<exists>m < length svcs. dm_get (services q) (fst (svcs ! m)) = Some e)"
    then show "\<exists>j. dm_get (services q) j = Some e"
    proof
      assume "\<exists>j. dm_get (services r) j = Some e"
      then obtain j where j: "dm_get (services r) j = Some e" by blast
      then have "j \<notin> fst ` set svcs" using pre(2) by force
      then show ?thesis using j IH by metis
    qed blast
  qed
  have ne: "fst (svcs ! m) \<noteq> i" if "m < length svcs" for m using pre(3) that by force
  have own: "dm_get S i = (if find_by_prefix (req_prefix svc) q \<noteq> None then None else Some (request_entry i now svc))"
    using absent by (simp add: S load_config_one_services map_add_def)
  have "dm_wf S"
    using wf absent unfolding S load_config_one_services [OF absent]
    by (auto simp: dm_wf_def dm_get_None_iff)
  moreover have "\<forall>j. j \<notin> fst ` set (svcs @ [s]) \<longrightarrow> dm_get S j = dm_get (services r) j"
    using others IH s by simp
  moreover have "dm_get S (fst ((svcs @ [s]) ! n)) =
       (if \<exists>e. svc_prefix e = find_prefix_key (req_prefix (snd ((svcs @ [s]) ! n))) \<and>
             ((\<exists>i. dm_get (services r) i = Some e) \<or> (\<exists>m < n. dm_get S (fst ((svcs @ [s]) ! m)) = Some e))
        then None else Some (request_entry (fst ((svcs @ [s]) ! n)) now (snd ((svcs @ [s]) ! n))))"
    if n: "n < length (svcs @ [s])" for n
  proof -
    have eq: "(\<exists>m < n. dm_get S (fst ((svcs @ [s]) ! m)) = Some e) \<longleftrightarrow>
        (\<exists>m < n. dm_get (services q) (fst (svcs ! m)) = Some e)" for e
      using n others ne by (auto simp: nth_append)
    show ?thesis
    proof (cases "n < length svcs")
      case True
      have "dm_get S (fst (svcs ! n)) = dm_get (services q) (fst (svcs ! n))" using others [OF ne [OF True]] .
      moreover have "(svcs @ [s]) ! n = svcs ! n" using True by (simp add: nth_append)
      ultimately show ?thesis using IH True unfolding eq by metis
    next
      case False
      then have "n = length svcs" using n by simp
      then show ?thesis using own held taken [of "req_prefix svc"] unfolding eq by (simp add: s)
    qed
  qed
  ultimately show ?case by blast
qed

lemma configured_entry:
  "request_entry i now svc = \<lparr>svc_id = i, svc_name = req_name svc, svc_prefix = entry_prefix (req_prefix svc),
     svc_upstream = trim_end_matches CHR ''/'' (req_upstream svc), health_endpoint = req_health svc,
     svc_status = Unknown, registered_at = now, last_health_check = None, request_count = 0,
     svc_upstreams = req_upstreams svc, load_balance = req_load_balance svc, svc_version = req_version svc,
     validation_schema = req_schema svc, ip_whitelist = req_whitelist svc, ip_blacklist = req_blacklist svc,
     svc_transform = req_transform svc\<rparr>"
  by (simp add: request_entry_def service_entry_new_def)

lemma rows_wf: "dm_wf m \<Longrightarrow> dm_wf (fold (\<lambda>e m. dm_insert (svc_id e) e m) rows m)"
  by (induction rows arbitrary: m) (auto simp: dm_wf_insert)

lemma init_registry_exact:
  assumes "inj (be_fresh env)" "\<forall>n. be_fresh env n \<notin> svc_id ` set (be_service_rows env)"
    and "S = services (init_registry env c)" "R = services (registry_with_storage (be_service_rows env))"
  shows "(\<forall>i. i \<notin> be_fresh env ` {..<length (c_services c)} \<longrightarrow> dm_get S i = dm_get R i) \<and>
    (\<forall>n < length (c_services c). dm_get S (be_fresh env n) =
       (if \<exists>e. svc_prefix e = find_prefix_key (req_prefix (c_services c ! n)) \<and>
             ((\<exists>i. dm_get R i = Some e) \<or> (\<exists>m < n. dm_get S (be_fresh env m) = Some e))
        then None else Some (request_entry (be_fresh env n) (be_now env) (c_services c ! n))))"
proof -
  let ?svcs = "zip (map (be_fresh env) [0..<length (c_services c)]) (c_services c)"
  have "distinct (map fst ?svcs)" using assms(1) by (simp add: distinct_map) (metis inj_on_subset subset_UNIV)
  moreover have "\<forall>(i, svc) \<in> set ?svcs. dm_get R i = None"
    using assms(2,4) dm_get_rows [of "be_service_rows env" "[]"]
    by (fastforce simp: registry_with_storage_def dest!: set_zip_leftD)
  moreover have "dm_wf R" using rows_wf [of "[]"] by (simp add: assms(4) registry_with_storage_def)
  ultimately have e: "(\<forall>i. i \<notin> fst ` set ?svcs \<longrightarrow> dm_get S i = dm_get R i) \<and>
    (\<forall>n < length ?svcs. dm_get S (fst (?svcs ! n)) =
       (if \<exists>e. svc_prefix e = find_prefix_key (req_prefix (snd (?svcs ! n))) \<and>
             ((\<exists>i. dm_get R i = Some e) \<or> (\<exists>m < n. dm_get S (fst (?svcs ! m)) = Some e))
        then None else Some (request_entry (fst (?svcs ! n)) (be_now env) (snd (?svcs ! n)))))"
    using load_config_exact [of ?svcs "registry_with_storage (be_service_rows env)" S "be_now env"] assms(3,4)
    by (simp add: init_registry_def)
  have ids: "fst ` set ?svcs = be_fresh env ` {..<length (c_services c)}"
    by (simp add: set_map [symmetric] atLeast_upt del: set_map) (simp add: lessThan_atLeast0)
  have nth: "n < length (c_services c) \<Longrightarrow> fst (?svcs ! n) = be_fresh env n \<and> snd (?svcs ! n) = c_services c ! n" for n
    by simp
  have len: "length ?svcs = length (c_services c)" by simp
  show ?thesis using e unfolding ids len by (auto simp: nth simp del: nth_zip)
qed

text \<open>A stored row with the prefix of a configured service hides the configuration.\<close>

lemma stored_service_shadows_config:
  assumes "find_by_prefix (req_prefix svc) r \<noteq> None"
  shows "load_config_one now (fresh, svc) r = r"
  using assms by (simp add: load_config_one_def)

text \<open>Prefixes that differ by a slash pass validation and name the same service.\<close>

lemma equivalent_prefixes_accepted:
  "prefix_errors [] [''/a'', ''/a/''] = []" "entry_prefix ''/a'' = entry_prefix ''/a/''"
  by (simp_all add: entry_prefix_def trim_end_matches_def)

section \<open>A started gateway\<close>

lemma serve_Inr:
  "serve L env c = Inr app \<longleftrightarrow>
     report_ok (validate (be_file_exists env) (rsa_ok (be_rsa env)) c) \<and>
     (\<exists>jwt. jwt_new (be_rsa env) (c_jwt_secret (c_jwt c)) (c_jwt_algorithm (c_jwt c)) (c_jwt_issuer (c_jwt c))
        (c_jwt_enabled (c_jwt c)) = Inr jwt \<and> app = app_init L env jwt c)"
  by (auto simp: serve_def Let_def and_then_Inr map_err_Inr)

lemma jwt_new_keys:
  assumes "jwt_new rsa secret alg iss enabled = Inr j"
  shows "jwt_enabled j = enabled \<and>
    (enabled \<longrightarrow> \<not> is_default_jwt_secret secret \<and>
       (case jwt_key j of Hmac k \<Rightarrow> k = secret \<and> 32 \<le> length k | RsaPem k \<Rightarrow> rsa secret = Inr k))"
  using assms
  by (auto simp: jwt_new_def jwt_new_with_audience_def Let_def and_then_Inr map_err_Inr split: if_splits)

text \<open>
  C24: What a gateway that starts is known to satisfy. Bound to other hosts it has no known
  default administration key; with JWT enabled its key is the configured secret, which is no
  known example, and of at least 32 bytes for an HMAC or a parsed RSA key; and the rate limiter
  has the configured, positive limit. The registry holds the stored rows as they were and, under
  a fresh identifier each, the configured services with every field as configured (prefix and
  upstream without their trailing slashes, the counts at their start), and nothing else; the one
  configured service left out is that whose prefix a stored row or an earlier configured service
  already has.
\<close>

theorem boot_sound:
  assumes "serve L env c = Inr app"
    and "inj (be_fresh env)" "\<forall>n. be_fresh env n \<notin> svc_id ` set (be_service_rows env)"
    and "S = services (gw_registry (ap_gateway app))"
    and "R = services (registry_with_storage (be_service_rows env))"
  shows "(binds_externally (c_gateway_host (c_gateway c)) \<longrightarrow> \<not> is_default_admin_key (ap_api_key app)) \<and>
    (c_jwt_enabled (c_jwt c) \<longrightarrow> jwt_enabled (ap_jwt app) \<and> \<not> is_example_jwt_secret (c_jwt_secret (c_jwt c)) \<and>
       (case jwt_key (ap_jwt app) of
          Hmac k \<Rightarrow> k = c_jwt_secret (c_jwt c) \<and> 32 \<le> length k
        | RsaPem k \<Rightarrow> be_rsa env (c_jwt_secret (c_jwt c)) = Inr k)) \<and>
    (\<forall>svc \<in> set (c_services c). req_prefix svc \<noteq> [] \<longrightarrow>
       find_by_prefix (req_prefix svc) (gw_registry (ap_gateway app)) \<noteq> None) \<and>
    (\<forall>i. i \<notin> be_fresh env ` {..<length (c_services c)} \<longrightarrow> dm_get S i = dm_get R i) \<and>
    (\<forall>n < length (c_services c). dm_get S (be_fresh env n) =
       (if \<exists>e. svc_prefix e = find_prefix_key (req_prefix (c_services c ! n)) \<and>
             ((\<exists>i. dm_get R i = Some e) \<or> (\<exists>m < n. dm_get S (be_fresh env m) = Some e))
        then None
        else let svc = c_services c ! n in
          Some \<lparr>svc_id = be_fresh env n, svc_name = req_name svc, svc_prefix = entry_prefix (req_prefix svc),
            svc_upstream = trim_end_matches CHR ''/'' (req_upstream svc), health_endpoint = req_health svc,
            svc_status = Unknown, registered_at = be_now env, last_health_check = None, request_count = 0,
            svc_upstreams = req_upstreams svc, load_balance = req_load_balance svc, svc_version = req_version svc,
            validation_schema = req_schema svc, ip_whitelist = req_whitelist svc, ip_blacklist = req_blacklist svc,
            svc_transform = req_transform svc\<rparr>)) \<and>
    rl_max_requests (ap_limiter app) = c_rate_limit_max_requests (c_rate_limit c) \<and> 0 < rl_max_requests (ap_limiter app)"
proof -
  obtain jwt where ok: "report_ok (validate (be_file_exists env) (rsa_ok (be_rsa env)) c)"
    and jwt: "jwt_new (be_rsa env) (c_jwt_secret (c_jwt c)) (c_jwt_algorithm (c_jwt c)) (c_jwt_issuer (c_jwt c))
        (c_jwt_enabled (c_jwt c)) = Inr jwt" and app: "app = app_init L env jwt c"
    using assms(1) by (auto simp: serve_Inr)
  have reg: "gw_registry (ap_gateway app) = init_registry env c" by (simp add: app app_init_def init_gateway_def)
  have "\<not> is_example_jwt_secret s" if "\<not> is_default_jwt_secret s" for s
    using that by (simp add: is_example_jwt_secret_def is_default_jwt_secret_def)
  then have 1: "(binds_externally (c_gateway_host (c_gateway c)) \<longrightarrow> \<not> is_default_admin_key (ap_api_key app)) \<and>
    (c_jwt_enabled (c_jwt c) \<longrightarrow> jwt_enabled (ap_jwt app) \<and> \<not> is_example_jwt_secret (c_jwt_secret (c_jwt c)) \<and>
       (case jwt_key (ap_jwt app) of
          Hmac k \<Rightarrow> k = c_jwt_secret (c_jwt c) \<and> 32 \<le> length k
        | RsaPem k \<Rightarrow> be_rsa env (c_jwt_secret (c_jwt c)) = Inr k)) \<and>
    rl_max_requests (ap_limiter app) = c_rate_limit_max_requests (c_rate_limit c) \<and> 0 < rl_max_requests (ap_limiter app)"
    using jwt_new_keys [OF jwt] ok
    by (auto simp: app app_init_def report_ok_iff admin_errors_empty init_limiter_def rl_with_trusted_proxies_def)
  have "S = services (init_registry env c)" using assms(4) reg by simp
  from init_registry_exact [OF assms(2,3) this assms(5), unfolded configured_entry] configured_services_found [OF assms(2,3)] 1
  show ?thesis unfolding reg Let_def by blast
qed

text \<open>
  A configuration without a \<open>[jwt]\<close> section does not start, although JWT is off and the
  validation has nothing against it: the algorithm of the derived default is the empty string,
  which the constructor refuses before it looks at the switch.
\<close>

theorem missing_jwt_section_refused:
  assumes "de_config t = Some c" "map_of t ''jwt'' = None"
    and "report_ok (validate (be_file_exists env) (rsa_ok (be_rsa env)) c)"
  shows "c_jwt_enabled (c_jwt c) = False \<and> jwt_errors (rsa_ok (be_rsa env)) (c_jwt c) = [] \<and>
    serve L env c = Inl (JwtInit (UnsupportedAlgorithm ''''))"
  using assms(3) absent_section_loses_defaults(3) [OF assms(1,2)]
  by (simp add: serve_def Let_def jwt_new_def jwt_new_with_audience_def jwt_cfg_default_def jwt_errors_def map_err_def)

section \<open>Reloading\<close>

lemma compile_patterns_srcs:
  "map cr_pattern_src (snd (compile_patterns regex_error now srcs w)) = filter (\<lambda>s. regex_error s = None) srcs"
  by (induction srcs arbitrary: w) (simp_all add: Let_def case_prod_unfold split: option.split)

lemma loaded_srcs:
  "map cr_pattern_src (waf_custom (load_custom_patterns_from_strings regex_error now srcs w)) =
     filter (\<lambda>s. regex_error s = None) srcs"
  by (simp add: load_custom_patterns_from_strings_def case_prod_unfold Let_def compile_patterns_srcs)




text \<open>
  The first round loads the patterns of the configuration again: rules added at run time
  before it, or before any later change of the patterns, are gone.
\<close>

lemma sync_drops_runtime_rules:
  assumes "be_hash env patterns \<noteq> last_hash" "r \<in> set (waf_custom (fst (sync_waf env patterns last_hash w)))"
  shows "cr_pattern_src r \<in> set patterns"
proof -
  have "cr_pattern_src r \<in> set (map cr_pattern_src (waf_custom (fst (sync_waf env patterns last_hash w))))"
    using assms(2) by simp
  then show ?thesis using assms(1) by (simp add: sync_waf_def Let_def loaded_srcs del: set_map)
qed

section \<open>Who reaches a route\<close>

definition key_accepted :: "'k chain \<Rightarrow> app_request \<Rightarrow> bool" where
  "key_accepted s req \<longleftrightarrow> api_key_call (ch_api_key s) (rq_path req) (rq_api_key req) = ApiPass"

definition address_accepted :: "'k chain \<Rightarrow> app_request \<Rightarrow> bool" where
  "address_accepted s req \<longleftrightarrow> ipf_call (ch_filter s) (rl_peer (rq_client req)) = Forward"

definition token_accepted :: "'k chain_env \<Rightarrow> 'k chain \<Rightarrow> app_request \<Rightarrow> bool" where
  "token_accepted env s req \<longleftrightarrow> jwt_call (ce_decode env) (ch_jwt s) (rq_path req) (rq_authorization req) = JwtPass"

lemma limited_call_answer:
  "snd (limited_call env req s) =
     (case snd (rl_call (ce_instant env) (rq_client req) (ch_limiter s)) of
        TooManyRequests n \<Rightarrow> RefusedRate n
      | Pass \<Rightarrow> if ce_preflight env req = None then Routed (ce_route env req) else Preflight)"
  by (simp add: limited_call_def logged_call_def Let_def split: prod.split rl_answer.split option.split)

lemma app_call_passed:
  "key_accepted s req \<Longrightarrow> address_accepted s req \<Longrightarrow> token_accepted env s req \<Longrightarrow>
   app_call env req s = limited_call env req s"
  by (simp add: app_call_def key_accepted_def address_accepted_def token_accepted_def)

lemma app_call_refused:
  assumes "\<not> (key_accepted s req \<and> address_accepted s req \<and> token_accepted env s req)"
  shows "fst (app_call env req s) = s" "\<nexists>st. snd (app_call env req s) = Routed st"
    "snd (app_call env req s) \<noteq> Preflight" "\<nexists>n. snd (app_call env req s) = RefusedRate n"
  using assms
  by (auto simp: app_call_def key_accepted_def address_accepted_def token_accepted_def
      split: api_answer.split ipf_answer.split jwt_answer.split)

text \<open>
  C26: The chain of middlewares. A request reaches a route exactly when it has the
  administration key if its path needs it, a permitted address, a valid token if its path needs
  one, a place in the current window of the rate limiter, and is no CORS preflight. A request
  refused by one of the first three leaves no trace: it is neither counted by the rate limiter
  nor logged, and a preflight without a token is refused among them.
\<close>

theorem chain_exact:
  "(snd (app_call env req s) = Routed (ce_route env req) \<longleftrightarrow>
      key_accepted s req \<and> address_accepted s req \<and> token_accepted env s req \<and>
      snd (rl_call (ce_instant env) (rq_client req) (ch_limiter s)) = Pass \<and> ce_preflight env req = None) \<and>
   (\<not> (key_accepted s req \<and> address_accepted s req \<and> token_accepted env s req) \<longrightarrow>
      fst (app_call env req s) = s \<and> snd (app_call env req s) \<noteq> Preflight)"
proof (cases "key_accepted s req \<and> address_accepted s req \<and> token_accepted env s req")
  case True
  then show ?thesis
    by (auto simp: app_call_passed limited_call_answer split: rl_answer.splits)
next
  case False
  then show ?thesis using app_call_refused [OF False] by auto
qed

text \<open>Guessing the administration key is not slowed down, however many guesses are made.\<close>

lemma guessing_unlimited:
  assumes "list_all (\<lambda>req. \<not> key_accepted s req) reqs"
  shows "fold (\<lambda>req t. fst (app_call env req t)) reqs s = s"
  using assms by (induction reqs) (simp_all add: app_call_refused(1))

section \<open>A concrete boot\<close>

definition demo_boot :: "unit boot_env" where
  "demo_boot =
     \<lparr>be_file_exists = (\<lambda>_. True), be_rsa = (\<lambda>_. Inl ''''), be_regex_error = (\<lambda>_. None), be_scale = (\<lambda>_ d. d),
      be_hash = (\<lambda>ps. 1 + length ps), be_now = 0, be_service_rows = [], be_session_rows = [], be_fresh = (\<lambda>n. n)\<rparr>"

definition boot_config :: xira_config where
  "boot_config = demo_config\<lparr>c_jwt := (c_jwt demo_config)\<lparr>c_jwt_algorithm := ''HS256''\<rparr>\<rparr>"

lemma demo_config_ok: "report_ok (validate file_exists rsa demo_config)"
  by (simp add: report_ok_iff admin_errors_empty jwt_errors_empty tls_errors_empty bus_errors_empty demo_config_def
      xira_config_default_def is_default_admin_key_def jwt_cfg_default_def rate_limit_cfg_default_def bus_cfg_default_def)

lemma boot_config_serves: "\<exists>app. serve list_lru demo_boot boot_config = Inr app"
proof -
  have "report_ok (validate (be_file_exists demo_boot) (rsa_ok (be_rsa demo_boot)) boot_config)"
    using demo_config_ok [of "be_file_exists demo_boot" "rsa_ok (be_rsa demo_boot)"]
    by (simp add: report_ok_iff jwt_errors_empty boot_config_def admin_errors_empty)
      (simp add: demo_config_def xira_config_default_def jwt_cfg_default_def)
  then show ?thesis
    by (simp add: serve_Inr jwt_new_def jwt_new_with_audience_def)
      (simp add: boot_config_def demo_config_def xira_config_default_def jwt_cfg_default_def Jwt.ascii_upper_def)
qed

theorem boot_sound_witness:
  "\<exists>app. serve list_lru demo_boot boot_config = Inr app \<and>
     find_by_prefix ''/a'' (gw_registry (ap_gateway app)) \<noteq> None \<and> rl_max_requests (ap_limiter app) = 100"
proof -
  obtain app where app: "serve list_lru demo_boot boot_config = Inr app" using boot_config_serves by blast
  have "inj (be_fresh demo_boot)" "\<forall>n. be_fresh demo_boot n \<notin> svc_id ` set (be_service_rows demo_boot)"
    by (simp_all add: demo_boot_def inj_def)
  from boot_sound [OF app this refl refl] app show ?thesis
    by (simp add: boot_config_def demo_config_def xira_config_default_def rate_limit_cfg_default_def)
qed

theorem missing_jwt_section_refused_witness:
  "serve list_lru demo_boot demo_config = Inl (JwtInit (UnsupportedAlgorithm ''''))"
proof -
  have "map_of demo_document ''jwt'' = None" by (simp add: demo_document_def)
  from missing_jwt_section_refused [OF de_demo_document this demo_config_ok] show ?thesis by blast
qed


theorem chain_exact_witness:
  "\<forall>(env :: unit chain_env) f j l r rows. fst (app_call env \<lparr>rq_method = ''GET'', rq_path = ''/xira/waf'', rq_api_key = Some ''guess'', rq_authorization = None,
       rq_client = \<lparr>rl_peer = None, rl_xff = None\<rparr>\<rparr>
     \<lparr>ch_api_key = ''k'', ch_filter = f, ch_jwt = j, ch_limiter = l, ch_registry = r, ch_rows = rows\<rparr>) =
   \<lparr>ch_api_key = ''k'', ch_filter = f, ch_jwt = j, ch_limiter = l, ch_registry = r, ch_rows = rows\<rparr>"
proof (intro allI)
  fix env :: "unit chain_env" and j :: "unit jwt_auth" and f l r rows
  let ?req = "\<lparr>rq_method = ''GET'', rq_path = ''/xira/waf'', rq_api_key = Some ''guess'', rq_authorization = None,
       rq_client = \<lparr>rl_peer = None, rl_xff = None\<rparr>\<rparr>"
  let ?s = "\<lparr>ch_api_key = ''k'', ch_filter = f, ch_jwt = j, ch_limiter = l, ch_registry = r, ch_rows = rows\<rparr>"
  have "\<not> key_accepted ?s ?req" by (simp add: key_accepted_def api_key_exact)
  then show "fst (app_call env ?req ?s) = ?s" using chain_exact [of env ?req ?s] by blast
qed

end
