(* ===== verification/Identity_Api.thy ===== *)
theory Identity_Api
  imports Authenticator Gate_Auth Config
begin

text \<open>
  The identity handlers of src/src/admin/v2_handlers.rs over the authenticator, and the scope
  \<open>/auth\<close> of src/src/main.rs that puts the session and role checks in front of them. A reply
  is its status and the data its JSON body carries. Registration and the session listings are
  mounted under \<open>/xira\<close>, behind the administration key.
\<close>

section \<open>Requests and replies\<close>

text \<open>
  What a request brings besides its body: the headers and the peer address, and what the
  handler draws while it runs (a fresh identifier, random bytes, the time between the two
  clock readings of a login).
\<close>

record id_request =
  ir_sess :: sess_request
  ir_uuid :: string
  ir_random :: "byte list"
  ir_elapsed :: nat

record session_view =
  sv_device :: string
  sv_ip :: string
  sv_agent :: string
  sv_created_at :: nat
  sv_expires_at :: nat
  sv_last_activity :: nat

record user_view =
  uv_id :: string
  uv_email :: string
  uv_username :: string
  uv_role :: string
  uv_enabled :: bool
  uv_created_at :: nat
  uv_last_login :: nat
  uv_login_count :: nat
  uv_mfa_enabled :: bool
  uv_permissions :: "string list"

datatype id_reply =
    Created string string string
  | LoggedIn string string nat
  | MfaNeeded string
  | TooManyFailures nat
  | Failed nat string
  | UnknownRole string
  | MeReply string string string user_role
  | LoggedOut bool
  | SessionList "session_view list" nat
  | UserList "user_view list" nat
  | RoleUpdated nat
  | UserDisabled nat
  | MfaDisabled
  | Invalidated nat
  | Enrolled string string
  | MfaEnabled
  | SessionCounts nat nat
  | Cleaned nat
  | NoSession session_answer
  | NoRole role_answer

text \<open>The peer address and the user agent as the login handlers read them.\<close>

definition login_ip :: "id_request \<Rightarrow> string" where
  "login_ip req = (case sess_peer (ir_sess req) of Some a \<Rightarrow> show_ip a | None \<Rightarrow> [])"

definition login_agent :: "id_request \<Rightarrow> string" where
  "login_agent req = (case user_agent_header (ir_sess req) of Some ua \<Rightarrow> ua | None \<Rightarrow> ''unknown'')"

section \<open>Handlers\<close>

definition user_view_of :: "user \<Rightarrow> user_view" where
  "user_view_of u =
     \<lparr>uv_id = uid u, uv_email = email u, uv_username = username u, uv_role = role_debug (role u),
      uv_enabled = u_enabled u, uv_created_at = u_created_at u, uv_last_login = last_login u,
      uv_login_count = login_count u, uv_mfa_enabled = mfa_enabled u, uv_permissions = permissions u\<rparr>"

definition list_users :: "user_mgr \<Rightarrow> user_view list" where
  "list_users m = map (user_view_of \<circ> snd) (users m)"

definition role_of_request :: "string \<Rightarrow> user_role option" where
  "role_of_request s =
     (if s = ''SuperAdmin'' then Some SuperAdmin
      else if s = ''Admin'' then Some Admin
      else if s = ''Developer'' then Some Developer
      else if s = ''Service'' then Some ServiceRole
      else if s = ''Viewer'' then Some Viewer
      else None)"

definition create_user ::
  "id_env \<Rightarrow> identity_cfg \<Rightarrow> nat \<Rightarrow> id_request \<Rightarrow> string \<Rightarrow> string \<Rightarrow> string \<Rightarrow> string \<Rightarrow>
     authenticator \<Rightarrow> authenticator \<times> id_reply" where
  "create_user env cfg now req mail name password ro a =
     (if \<not> c_identity_registration_enabled cfg then (a, Failed 403 ''Registration is disabled'')
      else if length password < c_identity_password_min_length cfg
      then (a, Failed 400 (''Password must be at least '' @
                 show_nat (c_identity_password_min_length cfg) @ '' characters''))
      else if mail = [] \<or> name = [] then (a, Failed 400 ''email and username are required'')
      else case role_of_request ro of
             None \<Rightarrow> (a, UnknownRole ro)
           | Some r \<Rightarrow>
               (case register env now (ir_uuid req) mail name password r (auth_users a) of
                  (us, Inr u) \<Rightarrow> (a\<lparr>auth_users := us\<rparr>, Created (uid u) (email u) (username u))
                | (us, Inl e) \<Rightarrow> (a\<lparr>auth_users := us\<rparr>, Failed 400 e)))"

fun login_reply :: "auth_outcome \<Rightarrow> id_reply" where
  "login_reply (LoginSuccess user_id mail session) =
     LoggedIn (sess_token session) user_id (expires_at session)"
| "login_reply (NeedsMfa user_id) = MfaNeeded user_id"
| "login_reply LoginDisabled = Failed 403 ''Account disabled''"
| "login_reply (LoginLocked retry) = TooManyFailures retry"
| "login_reply LoginInvalid = Failed 401 ''Invalid credentials''"

definition login_user ::
  "id_env \<Rightarrow> (string \<Rightarrow> string) \<Rightarrow> nat \<Rightarrow> id_request \<Rightarrow> string \<Rightarrow> string \<Rightarrow>
     authenticator \<Rightarrow> authenticator \<times> id_reply" where
  "login_user env hsh now req mail password a =
     (if mail = [] \<or> password = [] then (a, Failed 400 ''email and password are required'')
      else apsnd login_reply
             (auth_login env hsh now (now + ir_elapsed req) (ir_uuid req) mail password
                (login_ip req) (login_agent req) a))"

fun mfa_reply :: "auth_outcome \<Rightarrow> id_reply" where
  "mfa_reply (LoginSuccess user_id mail session) =
     LoggedIn (sess_token session) user_id (expires_at session)"
| "mfa_reply LoginDisabled = Failed 403 ''Account disabled''"
| "mfa_reply _ = Failed 401 ''Invalid code''"

definition mfa_login ::
  "id_env \<Rightarrow> (string \<Rightarrow> string) \<Rightarrow> nat \<Rightarrow> id_request \<Rightarrow> string \<Rightarrow> string \<Rightarrow>
     authenticator \<Rightarrow> authenticator \<times> id_reply" where
  "mfa_login env hsh now req user_id code a =
     apsnd mfa_reply
       (auth_complete_mfa env hsh now (now + ir_elapsed req) (ir_uuid req) user_id code
          (login_ip req) (login_agent req) a)"

definition list_sessions :: "authenticator \<Rightarrow> id_reply" where
  "list_sessions a = SessionCounts (active_count (auth_sessions a)) (total_count (auth_sessions a))"

definition flush_sessions :: "nat \<Rightarrow> authenticator \<Rightarrow> authenticator \<times> id_reply" where
  "flush_sessions now a =
     (let (ss, cleaned) = cleanup_expired now (auth_sessions a)
      in (a\<lparr>auth_sessions := ss\<rparr>, Cleaned cleaned))"

definition me :: "session_info \<Rightarrow> authenticator \<Rightarrow> id_reply" where
  "me info a =
     (case get_user (info_user_id info) (auth_users a) of
        Some u \<Rightarrow> MeReply (uid u) (email u) (username u) (role u)
      | None \<Rightarrow> Failed 404 ''user not found'')"

definition logout :: "(string \<Rightarrow> string) \<Rightarrow> session_info \<Rightarrow> authenticator \<Rightarrow> authenticator \<times> id_reply" where
  "logout hsh info a =
     (let (ss, removed, _) = sess_invalidate hsh (info_token info) (auth_sessions a)
      in (a\<lparr>auth_sessions := ss\<rparr>, LoggedOut removed))"

definition session_view_of :: "session \<Rightarrow> session_view" where
  "session_view_of s =
     \<lparr>sv_device = device_name s, sv_ip = sess_ip s, sv_agent = sess_agent s,
      sv_created_at = created_at s, sv_expires_at = expires_at s, sv_last_activity = last_activity s\<rparr>"

definition my_sessions :: "session_info \<Rightarrow> authenticator \<Rightarrow> id_reply" where
  "my_sessions info a =
     (let safe = map session_view_of (user_sessions_of (info_user_id info) (auth_sessions a))
      in SessionList safe (length safe))"

text \<open>\<open>sessions.invalidate_all\<close> on the sessions of the authenticator.\<close>

definition end_sessions :: "string \<Rightarrow> authenticator \<Rightarrow> authenticator \<times> nat" where
  "end_sessions user_id a =
     (let (ss, n, _) = sess_invalidate_all user_id (auth_sessions a) in (a\<lparr>auth_sessions := ss\<rparr>, n))"

definition logout_all :: "session_info \<Rightarrow> authenticator \<Rightarrow> authenticator \<times> id_reply" where
  "logout_all info a = apsnd Invalidated (end_sessions (info_user_id info) a)"

definition mfa_enroll :: "id_env \<Rightarrow> id_request \<Rightarrow> session_info \<Rightarrow> authenticator \<Rightarrow> authenticator \<times> id_reply" where
  "mfa_enroll env req info a =
     (case start_mfa_enrollment env (ir_random req) (info_user_id info) (auth_users a) of
        (us, Inr (secret, qr)) \<Rightarrow> (a\<lparr>auth_users := us\<rparr>, Enrolled secret qr)
      | (us, Inl e) \<Rightarrow> (a\<lparr>auth_users := us\<rparr>, Failed 400 e))"

definition mfa_verify ::
  "id_env \<Rightarrow> nat \<Rightarrow> session_info \<Rightarrow> string \<Rightarrow> authenticator \<Rightarrow> authenticator \<times> id_reply" where
  "mfa_verify env now info code a =
     (let (us, ok) = verify_mfa_setup env now (info_user_id info) code (auth_users a)
      in (a\<lparr>auth_users := us\<rparr>, if ok then MfaEnabled else Failed 400 ''invalid code''))"

definition admin_list_users :: "authenticator \<Rightarrow> id_reply" where
  "admin_list_users a = UserList (list_users (auth_users a)) (user_count (auth_users a))"

definition admin_update_role ::
  "id_env \<Rightarrow> string \<Rightarrow> string \<Rightarrow> authenticator \<Rightarrow> authenticator \<times> id_reply" where
  "admin_update_role env target ro a =
     (case role_of_request ro of
        None \<Rightarrow> (a, UnknownRole ro)
      | Some r \<Rightarrow>
          (case update_role env target r (auth_users a) of
             (us, False) \<Rightarrow> (a\<lparr>auth_users := us\<rparr>, Failed 404 ''user not found'')
           | (us, True) \<Rightarrow> apsnd RoleUpdated (end_sessions target (a\<lparr>auth_users := us\<rparr>))))"

definition admin_disable_user :: "id_env \<Rightarrow> string \<Rightarrow> authenticator \<Rightarrow> authenticator \<times> id_reply" where
  "admin_disable_user env target a =
     (case disable_user env target (auth_users a) of
        (us, False) \<Rightarrow> (a\<lparr>auth_users := us\<rparr>, Failed 404 ''user not found'')
      | (us, True) \<Rightarrow> apsnd UserDisabled (end_sessions target (a\<lparr>auth_users := us\<rparr>)))"

definition admin_disable_mfa :: "id_env \<Rightarrow> string \<Rightarrow> authenticator \<Rightarrow> authenticator \<times> id_reply" where
  "admin_disable_mfa env target a =
     (case disable_mfa env target (auth_users a) of
        (us, False) \<Rightarrow> (a\<lparr>auth_users := us\<rparr>, Failed 404 ''user not found'')
      | (us, True) \<Rightarrow> (a\<lparr>auth_users := us\<rparr>, MfaDisabled))"

definition admin_logout_all :: "string \<Rightarrow> authenticator \<Rightarrow> authenticator \<times> id_reply" where
  "admin_logout_all target a = apsnd Invalidated (end_sessions target a)"

section \<open>The scopes\<close>

text \<open>
  The routes below \<open>/auth/admin\<close> run behind the session and the role check, the two logins in
  the open, the rest behind the session check; the last three are those of \<open>/xira/identity\<close>.
\<close>

datatype admin_call =
    AdminListUsers
  | AdminUpdateRole string string
  | AdminDisableUser string
  | AdminDisableMfa string
  | AdminLogoutAll string

datatype own_call = Me | Logout | LogoutAll | MySessions | MfaEnroll | MfaVerify string

datatype id_call =
    AdminCall admin_call
  | Login string string
  | MfaLogin string string
  | OwnCall own_call
  | CreateUser string string string string
  | ListSessions
  | FlushSessions

fun admin_handler :: "id_env \<Rightarrow> admin_call \<Rightarrow> authenticator \<Rightarrow> authenticator \<times> id_reply" where
  "admin_handler env AdminListUsers a = (a, admin_list_users a)"
| "admin_handler env (AdminUpdateRole target ro) a = admin_update_role env target ro a"
| "admin_handler env (AdminDisableUser target) a = admin_disable_user env target a"
| "admin_handler env (AdminDisableMfa target) a = admin_disable_mfa env target a"
| "admin_handler env (AdminLogoutAll target) a = admin_logout_all target a"

fun own_handler ::
  "id_env \<Rightarrow> (string \<Rightarrow> string) \<Rightarrow> nat \<Rightarrow> id_request \<Rightarrow> session_info \<Rightarrow> own_call \<Rightarrow>
     authenticator \<Rightarrow> authenticator \<times> id_reply" where
  "own_handler env hsh now req info Me a = (a, me info a)"
| "own_handler env hsh now req info Logout a = logout hsh info a"
| "own_handler env hsh now req info LogoutAll a = logout_all info a"
| "own_handler env hsh now req info MySessions a = (a, my_sessions info a)"
| "own_handler env hsh now req info MfaEnroll a = mfa_enroll env req info a"
| "own_handler env hsh now req info (MfaVerify code) a = mfa_verify env now info code a"

fun identity_call ::
  "id_env \<Rightarrow> (string \<Rightarrow> string) \<Rightarrow> identity_cfg \<Rightarrow> nat \<Rightarrow> id_request \<Rightarrow> id_call \<Rightarrow>
     authenticator \<Rightarrow> authenticator \<times> id_reply" where
  "identity_call env hsh cfg now req (AdminCall c) a =
     (case admin_scope hsh now SuperAdmin (auth_users a) (ir_sess req) (auth_sessions a) of
        (ss, Inr RolePass) \<Rightarrow> admin_handler env c (a\<lparr>auth_sessions := ss\<rparr>)
      | (ss, Inr r) \<Rightarrow> (a\<lparr>auth_sessions := ss\<rparr>, NoRole r)
      | (ss, Inl s) \<Rightarrow> (a\<lparr>auth_sessions := ss\<rparr>, NoSession s))"
| "identity_call env hsh cfg now req (Login mail password) a = login_user env hsh now req mail password a"
| "identity_call env hsh cfg now req (MfaLogin user_id code) a = mfa_login env hsh now req user_id code a"
| "identity_call env hsh cfg now req (OwnCall c) a =
     (case session_auth_call hsh now (ir_sess req) (auth_sessions a) of
        (ss, Authenticated info) \<Rightarrow> own_handler env hsh now req info c (a\<lparr>auth_sessions := ss\<rparr>)
      | (ss, s) \<Rightarrow> (a\<lparr>auth_sessions := ss\<rparr>, NoSession s))"
| "identity_call env hsh cfg now req (CreateUser mail name password ro) a =
     create_user env cfg now req mail name password ro a"
| "identity_call env hsh cfg now req ListSessions a = (a, list_sessions a)"
| "identity_call env hsh cfg now req FlushSessions a = flush_sessions now a"

section \<open>What a request does to the users\<close>

text \<open>
  No request but a change of role, a registration and an administrative action alters who a
  user is: the entries keep their key, their identity and their role, and are at most disabled.
\<close>

definition users_kept :: "user_mgr \<Rightarrow> user_mgr \<Rightarrow> bool" where
  "users_kept m m' \<longleftrightarrow>
     (\<forall>k. case dm_get (users m) k of
        None \<Rightarrow> dm_get (users m') k = None
      | Some v \<Rightarrow> (\<exists>v'. dm_get (users m') k = Some v' \<and> uid v' = uid v \<and> role v' = role v \<and>
                       (u_enabled v' \<longrightarrow> u_enabled v)))"

lemma users_kept_same: "users m' = users m \<Longrightarrow> users_kept m m'"
  by (simp add: users_kept_def split: option.split)

lemma users_kept_insert:
  assumes "dm_get (users m) k = Some v" "users m' = dm_insert k v' (users m)"
    "uid v' = uid v" "role v' = role v" "u_enabled v' \<longrightarrow> u_enabled v"
  shows "users_kept m m'"
  using assms by (auto simp: users_kept_def dashmap_simps split: option.split)

lemma authenticate_kept: "users_kept m (fst (authenticate env now w mail password m))"
proof -
  obtain m1 r where l: "lockout_check now (normalize_email mail) m = (m1, r)" by fastforce
  then have same: "users m1 = users m"
    using lockout_check_frame(1) [of now "normalize_email mail" m] by simp
  show ?thesis
    by (auto simp: authenticate_def Let_def l login_success_frame(1) same
        intro: users_kept_same users_kept_insert split: option.split bind_splits)
qed

lemma second_factor_kept:
  "users_kept m (fst (complete_mfa_login env now w i code m))"
  "users_kept m (fst (start_mfa_enrollment env bs i m))"
  "users_kept m (fst (verify_mfa_setup env now i code m))"
  by (auto simp: complete_mfa_login_def start_mfa_enrollment_def verify_mfa_setup_def Let_def
      login_success_frame(1) intro: users_kept_same users_kept_insert split: option.split)

lemma modify_user_kept:
  assumes "\<And>v. uid (f v) = uid v \<and> role (f v) = role v \<and> (u_enabled (f v) \<longrightarrow> u_enabled v)"
  shows "users_kept m (fst (modify_user env i f m))"
  using assms by (auto simp: modify_user_def intro: users_kept_same users_kept_insert split: option.split)

lemma admin_ops_kept:
  "users_kept m (fst (disable_user env i m))" "users_kept m (fst (disable_mfa env i m))"
  by (simp_all add: disable_user_def disable_mfa_def modify_user_kept)

lemmas kept_facts = authenticate_kept second_factor_kept admin_ops_kept users_kept_same [OF refl]

lemma grant_frame [simp]:
  "auth_users (fst (grant_session hsh now now2 ip ua u token a)) = auth_users a"
  "session_ttl_secs (fst (grant_session hsh now now2 ip ua u token a)) = session_ttl_secs a"
  by (simp_all add: grant_session_def case_prod_unfold Let_def)

lemma end_sessions_frame [simp]:
  "auth_users (fst (end_sessions i a)) = auth_users a"
  "session_ttl_secs (fst (end_sessions i a)) = session_ttl_secs a"
  "auth_sessions (fst (end_sessions i a)) = fst (sess_invalidate_all i (auth_sessions a))"
  by (simp_all add: end_sessions_def case_prod_unfold Let_def)

lemma login_users [simp]:
  "auth_users (fst (auth_login env hsh now now2 w mail password ip ua a)) =
     fst (authenticate env now w mail password (auth_users a))"
  "auth_users (fst (auth_complete_mfa env hsh now now2 w i code ip ua a)) =
     fst (complete_mfa_login env now w i code (auth_users a))"
  by (auto simp: auth_login_def auth_complete_mfa_def Let_def case_prod_unfold split: auth_result.split)

lemma own_handler_kept:
  "users_kept (auth_users a) (auth_users (fst (own_handler env hsh now req info c a)))"
proof (cases c)
  case MfaEnroll
  then show ?thesis
    using second_factor_kept(2) [of "auth_users a" env "ir_random req" "info_user_id info"]
    by (auto simp: mfa_enroll_def split: prod.split sum.split)
next
  case (MfaVerify code)
  then show ?thesis
    using second_factor_kept(3) [of "auth_users a" env now "info_user_id info" code]
    by (auto simp: mfa_verify_def split: prod.split)
qed (auto simp: logout_def logout_all_def kept_facts case_prod_unfold Let_def)

lemma admin_handler_kept:
  assumes "\<And>target ro. c \<noteq> AdminUpdateRole target ro"
  shows "users_kept (auth_users a) (auth_users (fst (admin_handler env c a)))"
proof (cases c)
  case (AdminDisableUser target)
  then show ?thesis
    using admin_ops_kept(1) [of "auth_users a" env target]
    by (auto simp: admin_disable_user_def split: prod.split bool.split)
next
  case (AdminDisableMfa target)
  then show ?thesis
    using admin_ops_kept(2) [of "auth_users a" env target]
    by (auto simp: admin_disable_mfa_def split: prod.split bool.split)
qed (use assms in \<open>auto simp: admin_logout_all_def kept_facts\<close>)

text \<open>The wrapped scopes change the sessions only before their handler runs.\<close>

lemma call_users_kept:
  assumes "\<And>mail name password ro. c \<noteq> CreateUser mail name password ro"
    and "\<And>target ro. c \<noteq> AdminCall (AdminUpdateRole target ro)"
  shows "users_kept (auth_users a) (auth_users (fst (identity_call env hsh cfg now req c a)))"
proof (cases c)
  case (AdminCall ac)
  have "users_kept (auth_users a)
      (auth_users (fst (admin_handler env ac (a\<lparr>auth_sessions := ss\<rparr>))))" for ss
    using admin_handler_kept [of ac "a\<lparr>auth_sessions := ss\<rparr>" env] assms(2) AdminCall by auto
  then show ?thesis
    by (auto simp: AdminCall kept_facts split: prod.split sum.split role_answer.split)
next
  case (OwnCall oc)
  have "users_kept (auth_users a)
      (auth_users (fst (own_handler env hsh now req info oc (a\<lparr>auth_sessions := ss\<rparr>))))" for info ss
    using own_handler_kept [of "a\<lparr>auth_sessions := ss\<rparr>"] by simp
  then show ?thesis
    by (auto simp: OwnCall kept_facts split: prod.split session_answer.split)
qed (use assms in \<open>auto simp: login_user_def mfa_login_def flush_sessions_def kept_facts
        case_prod_unfold Let_def\<close>)

lemma update_role_get:
  "dm_get (users (fst (update_role env target r m))) k =
     (if k = target then map_option (\<lambda>v. v\<lparr>role := r\<rparr>) (dm_get (users m) k) else dm_get (users m) k)"
  by (auto simp: update_role_def modify_user_def dashmap_simps split: option.split)

lemma update_role_call_get:
  "dm_get (users (auth_users (fst (admin_update_role env target ro a)))) k =
     (if k = target then map_option (\<lambda>v. case role_of_request ro of Some r \<Rightarrow> v\<lparr>role := r\<rparr> | None \<Rightarrow> v)
                           (dm_get (users (auth_users a)) k)
      else dm_get (users (auth_users a)) k)"
proof -
  have "auth_users (fst (admin_update_role env target ro a)) =
      (case role_of_request ro of
         Some r \<Rightarrow> fst (update_role env target r (auth_users a)) | None \<Rightarrow> auth_users a)"
    by (auto simp: admin_update_role_def split: option.split prod.split bool.split)
  then show ?thesis
    by (simp add: update_role_get option.map_ident split: option.split)
qed

lemma register_get:
  "dm_get (users (fst (register env now i mail name password r m))) k = dm_get (users m) k \<or>
   k = i \<and> (\<exists>u. dm_get (users (fst (register env now i mail name password r m))) k = Some u \<and> uid u = k)"
  unfolding register_def Let_def by (simp add: dashmap_simps)

lemma create_user_get:
  "dm_get (users (auth_users (fst (create_user env cfg now req mail name password ro a)))) k =
      dm_get (users (auth_users a)) k \<or>
   k = ir_uuid req \<and>
   (\<exists>u. dm_get (users (auth_users (fst (create_user env cfg now req mail name password ro a)))) k = Some u \<and>
        uid u = k)"
proof -
  let ?us = "auth_users (fst (create_user env cfg now req mail name password ro a))"
  have "\<exists>r. ?us = fst (register env now (ir_uuid req) mail name password r (auth_users a)) \<or> ?us = auth_users a"
    by (auto simp: create_user_def split: option.split prod.split sum.split) (metis fst_conv)+
  then show ?thesis
    using register_get [of env now "ir_uuid req" mail name password _ "auth_users a" k] by metis
qed

text \<open>
  C30: Only a super-administrator changes a role. If the role of a registered user differs after
  a request, that request is the role change for this user, it carries the token of a live
  session whose user is a super-administrator at that moment, and the new role is the one it
  asks for; no login, enrolment or registration of another account does it.
\<close>

theorem role_changed_by_superadmin_only:
  assumes "dm_get (users (auth_users a)) k = Some v"
    and "dm_get (users (auth_users (fst (identity_call env hsh cfg now req c a)))) k = Some v'"
    and "role v' \<noteq> role v"
    and "k \<noteq> ir_uuid req"
  shows "\<exists>ro info admin. c = AdminCall (AdminUpdateRole k ro) \<and> role_of_request ro = Some (role v') \<and>
    snd (session_auth_call hsh now (ir_sess req) (auth_sessions a)) = Authenticated info \<and>
    get_user (info_user_id info) (auth_users a) = Some admin \<and> role admin = SuperAdmin"
proof -
  consider (create) mail name password ro where "c = CreateUser mail name password ro"
    | (update) target ro where "c = AdminCall (AdminUpdateRole target ro)"
    | (other) "\<And>mail name password ro. c \<noteq> CreateUser mail name password ro"
        "\<And>target ro. c \<noteq> AdminCall (AdminUpdateRole target ro)" by metis
  then show ?thesis
  proof cases
    case create
    with create_user_get [of env cfg now req _ _ _ _ a k] assms show ?thesis by fastforce
  next
    case update
    let ?scope = "admin_scope hsh now SuperAdmin (auth_users a) (ir_sess req) (auth_sessions a)"
    have pass: "snd ?scope = Inr RolePass" (is ?P)
    proof (rule ccontr)
      assume "\<not> ?P"
      then have "auth_users (fst (identity_call env hsh cfg now req c a)) = auth_users a"
        by (auto simp: update split: prod.split sum.split role_answer.split)
      with assms show False by simp
    qed
    then have "identity_call env hsh cfg now req c a =
        admin_update_role env target ro (a\<lparr>auth_sessions := fst ?scope\<rparr>)"
      by (cases ?scope) (simp add: update)
    with assms(1,2,3) have t: "target = k" "role_of_request ro = Some (role v')"
      by (auto simp: update_role_call_get split: if_splits option.splits)
    from pass obtain info where info: "snd (session_auth_call hsh now (ir_sess req) (auth_sessions a)) = Authenticated info"
      "require_role_call SuperAdmin (auth_users a) (Some info) = RolePass"
      by (auto simp: admin_scope_def split: prod.splits session_answer.splits)
    from info(2) obtain admin where "get_user (info_user_id info) (auth_users a) = Some admin"
      "role admin = SuperAdmin"
      by (auto simp: require_role_call_def user_role_of_def get_user_def only_superadmin_satisfies
          split: option.splits if_splits)
    with info(1) t update show ?thesis by blast
  next
    case other
    have "users_kept (auth_users a) (auth_users (fst (identity_call env hsh cfg now req c a)))"
      by (rule call_users_kept) (use other in auto)
    with assms show ?thesis by (auto simp: users_kept_def dest: spec [of _ k])
  qed
qed

section \<open>What a request does to the sessions\<close>

text \<open>
  The clock after a request is past both of its readings. An event is a request or a message
  of another node on the bus.
\<close>

datatype id_event = Request id_request id_call | FromBus bus_event

type_synonym id_state = "nat \<times> authenticator"

fun id_step :: "id_env \<Rightarrow> (string \<Rightarrow> string) \<Rightarrow> identity_cfg \<Rightarrow> nat \<times> id_event \<Rightarrow> id_state \<Rightarrow> id_state" where
  "id_step env hsh cfg (delay, Request req c) (T, a) =
     (T + delay + ir_elapsed req, fst (identity_call env hsh cfg (T + delay) req c a))"
| "id_step env hsh cfg (delay, FromBus e) (T, a) =
     (T + delay, a\<lparr>auth_sessions := sess_handle e (auth_sessions a)\<rparr>)"

text \<open>
  What a sequence of session operations keeps: the invariant, and the absence of live sessions
  for every user it creates none for.
\<close>

definition sess_path :: "string set \<Rightarrow> sess_state \<Rightarrow> sess_state \<Rightarrow> bool" where
  "sess_path created s s' \<longleftrightarrow>
     (sess_invar s \<longrightarrow> sess_invar s' \<and> (\<forall>u. u \<notin> created \<longrightarrow> user_gone u s \<longrightarrow> user_gone u s'))"

lemma sess_path_refl [simp]: "sess_path X s s"
  by (simp add: sess_path_def)

lemma sess_path_trans: "sess_path X s s' \<Longrightarrow> sess_path X s' s'' \<Longrightarrow> sess_path X s s''"
  by (simp add: sess_path_def)

lemma user_gone_later: "user_gone u (T, m) \<Longrightarrow> T \<le> T' \<Longrightarrow> user_gone u (T', m)"
  unfolding user_gone_def by (simp, metis live_later)

lemma sess_path_later: "T \<le> T' \<Longrightarrow> sess_path X (T, m) (T', m)"
  by (auto simp: sess_path_def intro: sess_invar_later user_gone_later)

lemma sess_path_weaken: "sess_path {} s s' \<Longrightarrow> sess_path X s s'"
  by (simp add: sess_path_def)

lemma op_path:
  assumes "\<And>u tok. creates op = Some (u, tok) \<Longrightarrow> u \<in> X"
  shows "sess_path X (T, m) (T + op_duration op, sess_exec hsh T op m)"
  using sess_step_invar [of "(T, m)" hsh "(0, op)"] gone_step(1) [of T m _ op hsh 0] assms
  by (auto simp: sess_path_def)

lemma session_auth_path:
  "sess_path X (now, m) (now, fst (session_auth_call hsh now req m))"
proof (cases "session_token_of req")
  case None
  then show ?thesis by (simp add: session_auth_call_def Let_def)
next
  case (Some t)
  let ?op = "OpValidate t (Some (case sess_peer req of Some a \<Rightarrow> show_ip a | None \<Rightarrow> []))
    (Some (case user_agent_header req of Some ua \<Rightarrow> ua | None \<Rightarrow> []))"
  have "fst (session_auth_call hsh now req m) = sess_exec hsh now ?op m"
    by (simp add: session_auth_call_def Let_def Some split: prod.split option.split)
  then show ?thesis using op_path [of ?op X now m hsh] by simp
qed

lemma admin_scope_path: "sess_path X (now, m) (now, fst (admin_scope hsh now ro us req m))"
proof -
  have "fst (admin_scope hsh now ro us req m) = fst (session_auth_call hsh now req m)"
    by (simp add: admin_scope_def split: prod.split session_answer.split)
  then show ?thesis by (simp add: session_auth_path)
qed

lemma end_sessions_path:
  "sess_path X (now, m) (now, fst (sess_invalidate_all i m))"
  "sess_path X (now, m) (now, fst (sess_invalidate hsh token m))"
  "sess_path X (now, m) (now, fst (cleanup_expired now m))"
  "sess_path X (now, m) (now, sess_handle e m)"
  using op_path [of "OpInvalidateAll i" X now m hsh] op_path [of "OpInvalidate token" X now m hsh]
    op_path [of OpCleanup X now m hsh] op_path [of "OpBus e" X now m hsh] by simp_all

lemma own_handler_path:
  "sess_path X (now, auth_sessions a) (now, auth_sessions (fst (own_handler env hsh now req info c a)))"
  using end_sessions_path(1) [of X now "auth_sessions a" "info_user_id info"]
    end_sessions_path(2) [of X now "auth_sessions a" hsh "info_token info"]
  by (cases c) (auto simp: logout_def logout_all_def mfa_enroll_def mfa_verify_def case_prod_unfold Let_def
      split: sum.split)

lemma admin_handler_path:
  "sess_path X (now, auth_sessions a) (now, auth_sessions (fst (admin_handler env c a)))"
  using end_sessions_path(1) [of X now "auth_sessions a"]
  by (cases c)
    (auto simp: admin_update_role_def admin_disable_user_def admin_disable_mfa_def admin_logout_all_def
      split: option.split prod.split bool.split)

text \<open>Only a login that hands out a token creates a session, for the user it names.\<close>

definition issued :: "id_reply \<Rightarrow> string set" where
  "issued r = (case r of LoggedIn token i expires \<Rightarrow> {i} | _ \<Rightarrow> {})"

lemma grant_path:
  "sess_path {uid u} (now, auth_sessions a)
     (now + d, auth_sessions (fst (grant_session hsh now (now + d) ip ua u token a)))"
  "issued (login_reply (snd (grant_session hsh now (now + d) ip ua u token a))) = {uid u}"
  "issued (mfa_reply (snd (grant_session hsh now (now + d) ip ua u token a))) = {uid u}"
  using op_path [of "OpCreate d (uid u) token ip ua (session_ttl_secs a)" "{uid u}" now "auth_sessions a" hsh]
  by (simp_all add: grant_session_def case_prod_unfold Let_def issued_def)

lemma login_path:
  "sess_path (issued (login_reply (snd (auth_login env hsh now (now + d) w mail password ip ua a))))
     (now, auth_sessions a)
     (now + d, auth_sessions (fst (auth_login env hsh now (now + d) w mail password ip ua a)))"
  "sess_path (issued (mfa_reply (snd (auth_complete_mfa env hsh now (now + d) w i code ip ua a))))
     (now, auth_sessions a)
     (now + d, auth_sessions (fst (auth_complete_mfa env hsh now (now + d) w i code ip ua a)))"
  using grant_path [where a = "a\<lparr>auth_users := _\<rparr>" and now = now and hsh = hsh and ip = ip and ua = ua and d = d]
  by (auto simp: auth_login_def auth_complete_mfa_def Let_def sess_path_later
      split: prod.split auth_result.split)

text \<open>The outcome of one request, for the invariant of the sessions and for a user without one.\<close>

lemma call_path:
  "sess_path (issued (snd (identity_call env hsh cfg now req c a))) (now, auth_sessions a)
     (now + ir_elapsed req, auth_sessions (fst (identity_call env hsh cfg now req c a)))"
proof -
  let ?r = "identity_call env hsh cfg now req c a"
  have later: "sess_path X (now, m) (now, m') \<Longrightarrow> sess_path X (now, m) (now + ir_elapsed req, m')" for X m m'
    by (erule sess_path_trans) (simp add: sess_path_later)
  show ?thesis
  proof (cases c)
    case (AdminCall ac)
    let ?s = "admin_scope hsh now SuperAdmin (auth_users a) (ir_sess req) (auth_sessions a)"
    have "fst ?r = a\<lparr>auth_sessions := fst ?s\<rparr> \<or> ?r = admin_handler env ac (a\<lparr>auth_sessions := fst ?s\<rparr>)"
      by (auto simp: AdminCall split: prod.split sum.split role_answer.split)
    then show ?thesis
      using admin_scope_path [of "issued (snd ?r)" now "auth_sessions a" hsh SuperAdmin "auth_users a" "ir_sess req"]
        admin_handler_path [of "issued (snd ?r)" now "a\<lparr>auth_sessions := fst ?s\<rparr>" env ac]
      by (auto intro!: later intro: sess_path_trans)
  next
    case (OwnCall oc)
    let ?s = "session_auth_call hsh now (ir_sess req) (auth_sessions a)"
    have "fst ?r = a\<lparr>auth_sessions := fst ?s\<rparr> \<or>
        (\<exists>info. ?r = own_handler env hsh now req info oc (a\<lparr>auth_sessions := fst ?s\<rparr>))"
      by (auto simp: OwnCall split: prod.split session_answer.split)
    then show ?thesis
      using session_auth_path [of "issued (snd ?r)" now "auth_sessions a" hsh "ir_sess req"]
        own_handler_path [of "issued (snd ?r)" now "a\<lparr>auth_sessions := fst ?s\<rparr>" env hsh req _ oc]
      by (auto intro!: later intro: sess_path_trans)
  next
    case (Login mail password)
    then show ?thesis
      by (auto simp: login_user_def login_path(1) sess_path_later)
  next
    case (MfaLogin i code)
    then show ?thesis by (simp add: mfa_login_def login_path(2))
  next
    case FlushSessions
    then show ?thesis
      using end_sessions_path(3) [of "{}" now "auth_sessions a"]
      by (auto simp: flush_sessions_def case_prod_unfold Let_def intro!: later intro: sess_path_weaken)
  qed (auto simp: create_user_def intro!: later split: option.split prod.split sum.split)
qed

section \<open>A disabled user stays out\<close>

definition keyed_users :: "user_mgr \<Rightarrow> bool" where
  "keyed_users m \<longleftrightarrow> (\<forall>k v. dm_get (users m) k = Some v \<longrightarrow> uid v = k)"

definition disabled :: "string \<Rightarrow> user_mgr \<Rightarrow> bool" where
  "disabled u m \<longleftrightarrow> (\<exists>v. dm_get (users m) u = Some v \<and> \<not> u_enabled v)"

text \<open>An identifier a registration draws.\<close>

fun draws :: "id_event \<Rightarrow> string option" where
  "draws (Request req (CreateUser mail name password ro)) = Some (ir_uuid req)"
| "draws _ = None"

lemma kept_keyed:
  assumes "users_kept m m'" "keyed_users m"
  shows "keyed_users m'"
  unfolding keyed_users_def
proof (intro allI impI)
  fix k v' assume "dm_get (users m') k = Some v'"
  with assms show "uid v' = k"
    by (cases "dm_get (users m) k") (auto simp: users_kept_def keyed_users_def dest!: spec [of _ k])
qed

lemma kept_disabled: "users_kept m m' \<Longrightarrow> disabled u m \<Longrightarrow> disabled u m'"
  by (auto simp: disabled_def users_kept_def dest!: spec [of _ u])

lemma call_scope_cases:
  obtains (same) "auth_users (fst (identity_call env hsh cfg now req (AdminCall c) a)) = auth_users a"
  | (run) ss where "identity_call env hsh cfg now req (AdminCall c) a =
      admin_handler env c (a\<lparr>auth_sessions := ss\<rparr>)"
proof (cases "\<exists>ss. admin_scope hsh now SuperAdmin (auth_users a) (ir_sess req) (auth_sessions a) = (ss, Inr RolePass)")
  case True
  then show ?thesis using run by auto
next
  case False
  then show ?thesis
    by (intro same) (auto split: prod.split sum.split role_answer.split)
qed

lemma call_users:
  assumes us': "us' = auth_users (fst (identity_call env hsh cfg now req c a))"
  shows "keyed_users (auth_users a) \<Longrightarrow> keyed_users us'"
    and "disabled u (auth_users a) \<Longrightarrow> draws (Request req c) \<noteq> Some u \<Longrightarrow> disabled u us'"
proof -
  let ?us = "auth_users a"
  consider (create) mail name password ro where "c = CreateUser mail name password ro"
    | (update) target ro where "c = AdminCall (AdminUpdateRole target ro)"
    | (other) "\<And>mail name password ro. c \<noteq> CreateUser mail name password ro"
        "\<And>target ro. c \<noteq> AdminCall (AdminUpdateRole target ro)" by metis
  then have "(keyed_users ?us \<longrightarrow> keyed_users us') \<and>
      (disabled u ?us \<longrightarrow> draws (Request req c) \<noteq> Some u \<longrightarrow> disabled u us')"
  proof cases
    case (create mail name password ro)
    have "dm_get (users us') k = dm_get (users ?us) k \<or>
        k = ir_uuid req \<and> (\<exists>u. dm_get (users us') k = Some u \<and> uid u = k)" for k
      using create_user_get [of env cfg now req mail name password ro a k] by (simp add: us' create)
    then show ?thesis
      by (auto simp: keyed_users_def disabled_def create) (metis option.inject)+
  next
    case (update target ro)
    show ?thesis
    proof (rule call_scope_cases [of env hsh cfg now req "AdminUpdateRole target ro" a])
      fix ss
      assume "identity_call env hsh cfg now req (AdminCall (AdminUpdateRole target ro)) a =
        admin_handler env (AdminUpdateRole target ro) (a\<lparr>auth_sessions := ss\<rparr>)"
      then have "dm_get (users us') k =
          (if k = target then map_option (\<lambda>v. case role_of_request ro of Some r \<Rightarrow> v\<lparr>role := r\<rparr> | None \<Rightarrow> v)
                                (dm_get (users ?us) k)
           else dm_get (users ?us) k)" for k
        by (simp add: us' update update_role_call_get)
      then show ?thesis
        by (cases "role_of_request ro") (auto simp: keyed_users_def disabled_def split: if_splits)
    qed (simp add: us' update)
  next
    case other
    then have "users_kept ?us us'" unfolding us' by (rule call_users_kept)
    then show ?thesis using kept_keyed kept_disabled by blast
  qed
  then show "keyed_users ?us \<Longrightarrow> keyed_users us'"
    "disabled u ?us \<Longrightarrow> draws (Request req c) \<noteq> Some u \<Longrightarrow> disabled u us'" by blast+
qed

lemma complete_mfa_sound:
  "snd (complete_mfa_login env now w i code m) = AuthSuccess u' token \<longleftrightarrow>
     (\<exists>u secret. dm_get (users m) i = Some u \<and> u_enabled u \<and> mfa_enabled u \<and> mfa_secret u = Some secret \<and>
        verify_totp (hmac_sha1 env) now secret code \<and>
        u' = u\<lparr>last_login := now, login_count := wrap_add64 (login_count u) 1\<rparr> \<and> token = fresh_token w)"
  by (auto simp: complete_mfa_login_def login_success_frame(4) split: option.splits)

text \<open>A token is only handed to an enabled user.\<close>

lemma issued_enabled:
  assumes "keyed_users (auth_users a)"
    and "u \<in> issued (snd (identity_call env hsh cfg now req c a))"
  shows "\<not> disabled u (auth_users a)"
proof -
  have granted: "issued (login_reply (snd (grant_session hsh now now2 ip ua v token b))) = {uid v}"
    "issued (mfa_reply (snd (grant_session hsh now now2 ip ua v token b))) = {uid v}" for v token b ip ua now2
    by (simp_all add: grant_session_def case_prod_unfold Let_def issued_def)
  have none: "issued r = {}" if "\<And>t i e. r \<noteq> LoggedIn t i e" for r
    using that by (cases r) (auto simp: issued_def)
  show ?thesis
  proof (cases c)
    case (Login mail password)
    with assms(2) obtain us v token where
      "authenticate env now (ir_uuid req) mail password (auth_users a) = (us, AuthSuccess v token)" "uid v = u"
      by (auto simp: login_user_def auth_login_def Let_def granted none split: if_splits prod.splits auth_result.splits)
    then have "snd (authenticate env now (ir_uuid req) mail password (auth_users a)) = AuthSuccess v token \<and> uid v = u"
      by simp
    then show ?thesis
      using assms(1) by (auto simp: authenticate_result account_def disabled_def keyed_users_def
          split: option.splits bind_splits if_splits)
  next
    case (MfaLogin i code)
    with assms(2) obtain us v token where
      "complete_mfa_login env now (ir_uuid req) i code (auth_users a) = (us, AuthSuccess v token)" "uid v = u"
      by (auto simp: mfa_login_def auth_complete_mfa_def Let_def granted none split: prod.splits auth_result.splits)
    then have "snd (complete_mfa_login env now (ir_uuid req) i code (auth_users a)) = AuthSuccess v token \<and> uid v = u"
      by simp
    then show ?thesis
      using assms(1) by (auto simp: complete_mfa_sound disabled_def keyed_users_def)
  next
    case (AdminCall ac)
    have "issued (snd (admin_handler env ac b)) = {}" for b
      by (cases ac) (auto simp: issued_def admin_update_role_def admin_disable_user_def admin_disable_mfa_def
          admin_logout_all_def admin_list_users_def split: option.split prod.split bool.split)
    with assms(2) show ?thesis
      by (auto simp: AdminCall issued_def split: prod.splits sum.splits role_answer.splits)
  next
    case (OwnCall oc)
    have "issued (snd (own_handler env hsh now req info oc b)) = {}" for info b
      by (cases oc) (auto simp: issued_def me_def logout_def logout_all_def my_sessions_def mfa_enroll_def
          mfa_verify_def Let_def split: option.split prod.split sum.split)
    with assms(2) show ?thesis
      by (auto simp: OwnCall issued_def split: prod.splits session_answer.splits)
  qed (use assms(2) in \<open>auto simp: issued_def create_user_def list_sessions_def flush_sessions_def Let_def
        split: if_splits option.splits prod.splits sum.splits\<close>)
qed

definition id_invar :: "id_state \<Rightarrow> bool" where
  "id_invar = (\<lambda>(T, a). sess_invar (T, auth_sessions a) \<and> keyed_users (auth_users a))"

definition shut_out :: "string \<Rightarrow> id_state \<Rightarrow> bool" where
  "shut_out u = (\<lambda>(T, a). id_invar (T, a) \<and> user_gone u (T, auth_sessions a) \<and> disabled u (auth_users a))"

lemma id_step_invar: "id_invar s \<Longrightarrow> id_invar (id_step env hsh cfg e s)"
proof (cases s; cases e)
  fix T a delay ev
  assume inv: "id_invar s" and s: "s = (T, a)" and e: "e = (delay, ev)"
  then have now: "sess_invar (T + delay, auth_sessions a)" by (auto simp: id_invar_def intro: sess_invar_later)
  show ?thesis
  proof (cases ev)
    case (Request req c)
    then show ?thesis
      using now call_path [of env hsh cfg "T + delay" req c a] call_users(1) [OF refl, of a env hsh cfg "T + delay" req c] inv
      by (simp add: s e id_invar_def sess_path_def)
  next
    case (FromBus b)
    then show ?thesis
      using now end_sessions_path(4) [of "{}" "T + delay" "auth_sessions a" b] inv
      by (simp add: s e id_invar_def sess_path_def)
  qed
qed

interpretation ids: invariant_machine "id_step env hsh cfg" id_invar
  by unfold_locales (rule id_step_invar)

lemma id_init_invar: "id_invar (T, auth_new user_new (sess_new k))"
  by (simp add: id_invar_def auth_new_def sess_new_invar keyed_users_def user_new_def)

lemma shut_out_step:
  assumes "shut_out u s" "draws (snd e) \<noteq> Some u"
  shows "shut_out u (id_step env hsh cfg e s)"
proof (cases s; cases e)
  fix T a delay ev
  assume s: "s = (T, a)" and e: "e = (delay, ev)"
  have inv: "id_invar (id_step env hsh cfg e s)"
    using assms(1) by (auto simp: shut_out_def intro!: id_step_invar)
  have now: "sess_invar (T + delay, auth_sessions a)" "user_gone u (T + delay, auth_sessions a)"
    using assms(1) by (auto simp: s shut_out_def id_invar_def intro: sess_invar_later user_gone_later)
  show ?thesis
  proof (cases ev)
    case (Request req c)
    have "u \<notin> issued (snd (identity_call env hsh cfg (T + delay) req c a))"
      using issued_enabled [of a u env hsh cfg "T + delay" req c] assms(1) by (auto simp: s shut_out_def id_invar_def)
    then show ?thesis
      using inv now call_path [of env hsh cfg "T + delay" req c a] assms
        call_users(2) [OF refl, of u a req c env hsh cfg "T + delay"]
      by (simp add: s e Request shut_out_def sess_path_def)
  next
    case (FromBus b)
    then show ?thesis
      using inv now end_sessions_path(4) [of "{}" "T + delay" "auth_sessions a" b] assms(1)
      by (simp add: s e shut_out_def sess_path_def)
  qed
qed

lemma shut_out_run:
  "shut_out u s \<Longrightarrow> \<forall>e \<in> set es. draws (snd e) \<noteq> Some u \<Longrightarrow> shut_out u (fold (id_step env hsh cfg) es s)"
  by (induction es arbitrary: s) (simp_all add: shut_out_step)

lemma shut_out_refused:
  assumes "shut_out u (T, a)"
  shows "snd (session_auth_call hsh T sreq (auth_sessions a)) = Authenticated info \<Longrightarrow> info_user_id info \<noteq> u"
    and "snd (identity_call env hsh cfg T req c a) \<noteq> LoggedIn token u expires"
proof -
  show "info_user_id info \<noteq> u" if "snd (session_auth_call hsh T sreq (auth_sessions a)) = Authenticated info"
    using that assms by (auto simp: session_auth_iff shut_out_def user_gone_def)
  have "u \<notin> issued (snd (identity_call env hsh cfg T req c a))"
    using assms issued_enabled [of a u env hsh cfg T req c] by (auto simp: shut_out_def id_invar_def)
  then show "snd (identity_call env hsh cfg T req c a) \<noteq> LoggedIn token u expires"
    by (auto simp: issued_def)
qed

lemma disable_user_disabled:
  assumes "disable_user env u m = (m', True)"
  shows "disabled u m'"
  using assms by (auto simp: disable_user_def modify_user_def disabled_def dashmap_simps split: option.splits)

lemma disable_shuts_out:
  assumes "id_invar (T, a)"
    and "snd (identity_call env hsh cfg (T + delay) req (AdminCall (AdminDisableUser u)) a) = UserDisabled n"
  shows "shut_out u (id_step env hsh cfg (delay, Request req (AdminCall (AdminDisableUser u))) (T, a))"
proof -
  let ?scope = "admin_scope hsh (T + delay) SuperAdmin (auth_users a) (ir_sess req) (auth_sessions a)"
  let ?a = "fst (identity_call env hsh cfg (T + delay) req (AdminCall (AdminDisableUser u)) a)"
  have "snd ?scope = Inr RolePass"
    using assms(2) by (auto split: prod.splits sum.splits role_answer.splits)
  then have call: "identity_call env hsh cfg (T + delay) req (AdminCall (AdminDisableUser u)) a =
      admin_disable_user env u (a\<lparr>auth_sessions := fst ?scope\<rparr>)"
    by (cases ?scope) simp
  then obtain us where us: "disable_user env u (auth_users a) = (us, True)"
    using assms(2) by (auto simp: admin_disable_user_def split: prod.splits bool.splits)
  have a: "auth_users ?a = us" "auth_sessions ?a = fst (sess_invalidate_all u (fst ?scope))"
    unfolding call by (simp_all add: admin_disable_user_def us)
  have "sess_invar (T + delay, auth_sessions a)"
    using assms(1) by (auto simp: id_invar_def intro: sess_invar_later)
  then have "sess_invar (T + delay, fst ?scope)"
    using admin_scope_path [of "{}" "T + delay" "auth_sessions a" hsh SuperAdmin "auth_users a" "ir_sess req"]
    by (simp add: sess_path_def)
  then have "user_gone u (T + delay, auth_sessions ?a)"
    using invalidate_user_gone [of "T + delay" "fst ?scope" u] by (simp add: a sess_invalidate_all_def case_prod_unfold Let_def del: identity_call.simps)
  then have "user_gone u (T + delay + ir_elapsed req, auth_sessions ?a)"
    by (rule user_gone_later) simp
  then show ?thesis
    using id_step_invar [OF assms(1), of env hsh cfg "(delay, Request req (AdminCall (AdminDisableUser u)))"]
      disable_user_disabled [OF us]
    by (simp add: shut_out_def a del: identity_call.simps)
qed

text \<open>
  C29: A disabled user stays out. Once an administrator's request to disable a user has been
  answered with success, no request that arrives later is authenticated as that user and no
  login, by password or by code, hands out a token for it, whatever requests and bus messages
  follow; nothing in the interface enables a user again, so it is enough that no registration
  draws the same identifier.
\<close>

theorem disabled_user_shut_out:
  assumes "fold (id_step env hsh cfg) earlier (T0, auth_new user_new (sess_new k)) = (T, a)"
    and "snd (identity_call env hsh cfg (T + delay) req (AdminCall (AdminDisableUser u)) a) = UserDisabled n"
    and "\<forall>e \<in> set later. draws (snd e) \<noteq> Some u"
    and "fold (id_step env hsh cfg) ((delay, Request req (AdminCall (AdminDisableUser u))) # later) (T, a) = (T', a')"
  shows "(\<forall>sreq info. snd (session_auth_call hsh T' sreq (auth_sessions a')) = Authenticated info \<longrightarrow>
      info_user_id info \<noteq> u) \<and>
    (\<forall>req' c token expires. snd (identity_call env hsh cfg T' req' c a') \<noteq> LoggedIn token u expires)"
proof -
  have "id_invar (T, a)"
    using ids.run_invar [OF id_init_invar, of env hsh cfg earlier T0 k] by (simp add: assms(1))
  from shut_out_run [OF disable_shuts_out [OF this assms(2)] assms(3), of env hsh cfg] assms(4)
  have "shut_out u (T', a')" by (simp del: id_step.simps)
  then show ?thesis using shut_out_refused by blast
qed

definition demo_request :: "string \<Rightarrow> string option \<Rightarrow> id_request" where
  "demo_request uuid token =
     \<lparr>ir_sess = \<lparr>x_session_token = token, authorization = None, sess_peer = None, user_agent_header = None\<rparr>,
      ir_uuid = uuid, ir_random = [], ir_elapsed = 0\<rparr>"

definition demo_identity :: identity_cfg where
  "demo_identity = identity_cfg_default\<lparr>c_identity_password_min_length := 1\<rparr>"

definition demo_setup :: "(nat \<times> id_event) list" where
  "demo_setup =
     [(0, Request (demo_request ''u1'' None) (CreateUser ''a@x'' ''a'' ''pw'' ''SuperAdmin'')),
      (0, Request (demo_request ''t'' None) (Login ''a@x'' ''pw''))]"

lemma demo_setup_state:
  "\<exists>a v s. fold (id_step demo_id_env (\<lambda>t. t) demo_identity) demo_setup (100, auth_new user_new (sess_new 5)) = (100, a) \<and>
     users (auth_users a) = [(''u1'', v)] \<and> uid v = ''u1'' \<and> role v = SuperAdmin \<and> u_enabled v \<and>
     dm_get (sessions (auth_sessions a)) ''xira_tok_t'' = Some s \<and> sess_user s = ''u1'' \<and> live 100 s \<and> sess_ip s = []"
  by (simp add: demo_setup_def demo_request_def demo_identity_def identity_cfg_default_def auth_new_def
      create_user_def role_of_request_def register_def user_new_def demo_mail Let_def persist_user_def
      login_user_def auth_login_def authenticate_def lockout_check_def hash_password_def verify_password_def
      demo_id_env_def login_success_def fresh_token_def grant_session_def case_prod_unfold create_effect
      live_def wrap_add64_def u64_max_def login_ip_def)

theorem disabled_user_shut_out_witness:
  "\<exists>T a. fold (id_step demo_id_env (\<lambda>t. t) demo_identity)
       (demo_setup @ [(0, Request (demo_request ''x'' (Some ''xira_tok_t'')) (AdminCall (AdminDisableUser ''u1'')))])
       (100, auth_new user_new (sess_new 5)) = (T, a) \<and>
     snd (session_auth_call (\<lambda>t. t) T (ir_sess (demo_request ''x'' (Some ''xira_tok_t''))) (auth_sessions a)) \<noteq>
       Authenticated \<lparr>info_user_id = ''u1'', info_token = ''xira_tok_t''\<rparr>"
proof -
  let ?step = "id_step demo_id_env (\<lambda>t. t) demo_identity"
  let ?req = "demo_request ''x'' (Some ''xira_tok_t'')"
  let ?c = "AdminCall (AdminDisableUser ''u1'')"
  obtain a v s where a: "fold ?step demo_setup (100, auth_new user_new (sess_new 5)) = (100, a)"
    and v: "users (auth_users a) = [(''u1'', v)]" "role v = SuperAdmin"
    and s: "dm_get (sessions (auth_sessions a)) ''xira_tok_t'' = Some s" "sess_user s = ''u1''" "live 100 s" "sess_ip s = []"
    using demo_setup_state by blast
  obtain T' a' where after: "fold ?step [(0, Request ?req ?c)] (100, a) = (T', a')" by fastforce
  have "snd (session_auth_call (\<lambda>t. t) 100 (ir_sess ?req) (auth_sessions a)) =
      Authenticated \<lparr>info_user_id = ''u1'', info_token = ''xira_tok_t''\<rparr>"
    unfolding session_auth_iff using s by (simp add: demo_request_def session_token_of_def ip_mismatch_def)
  then obtain n where "snd (identity_call demo_id_env (\<lambda>t. t) demo_identity (100 + 0) ?req ?c a) = UserDisabled n"
    by (cases "session_auth_call (\<lambda>t. t) 100 (ir_sess ?req) (auth_sessions a)")
      (simp add: admin_scope_def require_role_call_def user_role_of_def v role_satisfies_def
        admin_disable_user_def disable_user_def modify_user_def split: prod.split)
  from disabled_user_shut_out [OF a this, of "[]" T' a'] after
  have "snd (session_auth_call (\<lambda>t. t) T' (ir_sess ?req) (auth_sessions a')) \<noteq>
      Authenticated \<lparr>info_user_id = ''u1'', info_token = ''xira_tok_t''\<rparr>"
    by (force simp del: id_step.simps)
  with after a show ?thesis by (auto simp del: id_step.simps)
qed

theorem role_changed_by_superadmin_only_witness:
  "\<exists>a v'. dm_get (users (auth_users (fst (identity_call demo_id_env (\<lambda>t. t) demo_identity 100
       (demo_request ''x'' (Some ''xira_tok_t'')) (AdminCall (AdminUpdateRole ''u1'' ''Viewer'')) a)))) ''u1'' = Some v' \<and>
     role v' = Viewer \<and>
     (\<exists>info admin. snd (session_auth_call (\<lambda>t. t) 100 (ir_sess (demo_request ''x'' (Some ''xira_tok_t''))) (auth_sessions a)) =
        Authenticated info \<and> get_user (info_user_id info) (auth_users a) = Some admin \<and> role admin = SuperAdmin)"
proof -
  let ?req = "demo_request ''x'' (Some ''xira_tok_t'')"
  let ?c = "AdminCall (AdminUpdateRole ''u1'' ''Viewer'')"
  obtain a v s where "fold (id_step demo_id_env (\<lambda>t. t) demo_identity) demo_setup (100, auth_new user_new (sess_new 5)) = (100, a)"
    and v: "users (auth_users a) = [(''u1'', v)]" "role v = SuperAdmin"
    and s: "dm_get (sessions (auth_sessions a)) ''xira_tok_t'' = Some s" "sess_user s = ''u1''" "live 100 s" "sess_ip s = []"
    using demo_setup_state by blast
  have auth: "snd (session_auth_call (\<lambda>t. t) 100 (ir_sess ?req) (auth_sessions a)) =
      Authenticated \<lparr>info_user_id = ''u1'', info_token = ''xira_tok_t''\<rparr>"
    unfolding session_auth_iff using s by (simp add: demo_request_def session_token_of_def ip_mismatch_def)
  then have after: "dm_get (users (auth_users (fst (identity_call demo_id_env (\<lambda>t. t) demo_identity 100 ?req ?c a)))) ''u1'' =
      Some (v\<lparr>role := Viewer\<rparr>)"
    by (cases "session_auth_call (\<lambda>t. t) 100 (ir_sess ?req) (auth_sessions a)")
      (simp add: admin_scope_def require_role_call_def user_role_of_def v role_satisfies_def
        update_role_call_get role_of_request_def)
  moreover have "ir_uuid ?req \<noteq> ''u1''" by (simp add: demo_request_def)
  ultimately show ?thesis
    using role_changed_by_superadmin_only [of a "''u1''" v demo_id_env "\<lambda>t. t" demo_identity 100 ?req ?c "v\<lparr>role := Viewer\<rparr>"]
    by (intro exI [of _ a] exI [of _ "v\<lparr>role := Viewer\<rparr>"]) (simp add: v del: identity_call.simps)
qed

section \<open>The second factor on its own\<close>

text \<open>
  The code alone opens an account with a second factor. A request for \<open>/auth/mfa/login\<close> gets a
  token exactly when the user exists, is enabled, has a second factor and the six digits fit:
  no password step has to come first and no lockout is consulted. A wrong code
  changes nothing, so the number of guesses is not bounded here.
\<close>

theorem mfa_code_alone:
  "(\<exists>token expires. snd (mfa_login env hsh now req i code a) = LoggedIn token j expires) \<longleftrightarrow>
     (\<exists>u secret. dm_get (users (auth_users a)) i = Some u \<and> uid u = j \<and> u_enabled u \<and> mfa_enabled u \<and>
        mfa_secret u = Some secret \<and> verify_totp (hmac_sha1 env) now secret code)"
  "(\<And>token j expires. snd (mfa_login env hsh now req i code a) \<noteq> LoggedIn token j expires) \<Longrightarrow>
     fst (mfa_login env hsh now req i code a) = a"
proof -
  let ?m = "complete_mfa_login env now (ir_uuid req) i code (auth_users a)"
  have grant: "\<exists>t e. mfa_reply (snd (grant_session hsh now n2 ip ua v token b)) = LoggedIn t (uid v) e" for v token b ip ua n2
    by (simp add: grant_session_def case_prod_unfold Let_def)
  have same: "fst ?m = auth_users a \<or> (\<exists>v t. snd ?m = AuthSuccess v t)"
    by (auto simp: complete_mfa_login_def login_success_frame(4) split: option.split)
  obtain us r where m: "?m = (us, r)" by fastforce
  have ok: "(\<exists>token expires. snd (mfa_login env hsh now req i code a) = LoggedIn token j expires) \<longleftrightarrow>
      (\<exists>v token. snd ?m = AuthSuccess v token \<and> uid v = j)"
    using grant [where b = "a\<lparr>auth_users := us\<rparr>"]
    by (cases r) (auto simp: mfa_login_def auth_complete_mfa_def m, (metis id_reply.inject(2))+)
  show "(\<exists>token expires. snd (mfa_login env hsh now req i code a) = LoggedIn token j expires) \<longleftrightarrow>
     (\<exists>u secret. dm_get (users (auth_users a)) i = Some u \<and> uid u = j \<and> u_enabled u \<and> mfa_enabled u \<and>
        mfa_secret u = Some secret \<and> verify_totp (hmac_sha1 env) now secret code)"
    unfolding ok complete_mfa_sound by auto
  assume fail: "\<And>token j expires. snd (mfa_login env hsh now req i code a) \<noteq> LoggedIn token j expires"
  then have "snd ?m \<noteq> AuthSuccess v t" for v t
    using grant [where b = "a\<lparr>auth_users := us\<rparr>"] by (force simp: mfa_login_def auth_complete_mfa_def m)
  with same have "us = auth_users a" "\<And>v t. r \<noteq> AuthSuccess v t" by (auto simp: m)
  then show "fst (mfa_login env hsh now req i code a) = a"
    by (cases r) (auto simp: mfa_login_def auth_complete_mfa_def m)
qed

text \<open>
  Enrolment replaces the secret of an account whose second factor is already active, and the
  factor stays active: from then on the new secret decides, without the old one or the
  password having been asked for.
\<close>

theorem enroll_replaces_active_secret:
  assumes "dm_get (users (auth_users a)) (info_user_id info) = Some u" "mfa_enabled u"
  shows "\<exists>u'. dm_get (users (auth_users (fst (mfa_enroll env req info a)))) (info_user_id info) = Some u' \<and>
    mfa_enabled u' \<and> mfa_secret u' = Some (generate_secret (ir_random req)) \<and>
    snd (mfa_enroll env req info a) = Enrolled (generate_secret (ir_random req)) (generate_qr_url (email u) (generate_secret (ir_random req)))"
  using assms by (simp add: mfa_enroll_def start_mfa_enrollment_def Let_def dashmap_simps)

text \<open>
  A login that overlaps with the disabling of its user. Its check of the account and the
  creation of the session are separate steps; when the request to disable the user runs
  between them, the session is created after all sessions were ended, and its token is accepted
  for its whole lifetime although the user is disabled.
\<close>

theorem disable_during_login:
  assumes "snd (authenticate env now w mail password (auth_users a)) = AuthSuccess v token" "keyed_users (auth_users a)"
    and "a1 = a\<lparr>auth_users := fst (authenticate env now w mail password (auth_users a))\<rparr>"
    and "admin_disable_user env (uid v) a1 = (a2, r)"
    and "grant_session hsh now2 now3 ip ua v token a2 = (a3, LoginSuccess i m s)"
    and "now2 + session_ttl_secs a2 \<le> u64_max" "t \<le> now2 + session_ttl_secs a2"
  shows "disabled (uid v) (auth_users a3) \<and>
    (\<exists>s'. snd (validate_with_request hsh t (sess_token s) (Some ip) None (auth_sessions a3)) = Some s' \<and> sess_user s' = uid v)"
proof -
  obtain k u where "dm_get (users (auth_users a)) k = Some u" "v = u\<lparr>last_login := now, login_count := wrap_add64 (login_count u) 1\<rparr>"
    using assms(1) by (auto simp: authenticate_result account_def split: option.splits bind_splits if_splits)
  with assms(2) have "dm_get (users (auth_users a)) (uid v) = Some u" by (auto simp: keyed_users_def)
  then obtain u' where "dm_get (users (auth_users a1)) (uid v) = Some u'"
    using authenticate_kept [of "auth_users a" env now w mail password]
    by (auto simp: assms(3) users_kept_def dest!: spec [of _ "uid v"])
  then have "snd (disable_user env (uid v) (auth_users a1))" by (simp add: disable_user_def modify_user_def)
  moreover have "auth_users (fst (admin_disable_user env (uid v) a1)) = fst (disable_user env (uid v) (auth_users a1))"
    by (simp add: admin_disable_user_def split: prod.split bool.split)
  ultimately have "disable_user env (uid v) (auth_users a1) = (auth_users a2, True)"
    by (simp add: assms(4) prod_eq_iff)
  then have "disabled (uid v) (auth_users a2)" by (rule disable_user_disabled)
  moreover have "auth_users a3 = auth_users a2" "i = uid v"
    using assms(5) by (auto simp: grant_session_def case_prod_unfold Let_def)
  moreover have "\<exists>s'. snd (validate_with_request hsh t (sess_token s) (Some ip) None (auth_sessions a3)) = Some s' \<and> sess_user s' = i"
    using assms(5,6,7) by (rule granted_valid)
  ultimately show ?thesis by simp
qed

end
