(* ===== verification/Cron.thy ===== *)
theory Cron
  imports Url_Guard Storage Complex_Main
begin

text \<open>
  src/src/automation/cron.rs: the scheduler of HTTP calls. One round of the scheduler collects
  the jobs that are due, runs them as tasks and writes their results back. Jobs can be added and
  removed at any moment, so the round is also split into the steps between two locks
  (\<open>cron_step\<close>). The JSON of a schedule and the HTTP client are parameters.
\<close>

section \<open>Jobs and schedules\<close>

datatype cron_schedule =
    EverySeconds nat
  | EveryMinutes nat
  | EveryHours nat
  | Daily nat nat
  | CustomCron string

record cron_job =
  job_id :: string
  job_name :: string
  job_schedule :: cron_schedule
  job_url :: string
  job_method :: string
  job_headers :: "(string \<times> string) list"
  job_body :: "string option"
  job_enabled :: bool
  last_run :: nat
  next_run :: nat
  run_count :: nat
  last_status :: "nat option"
  last_duration_ms :: real
  failure_count :: nat

definition mul64 :: "nat \<Rightarrow> nat \<Rightarrow> nat" where
  "mul64 a b = (a * b) mod (u64_max + 1)"

definition sat_inc64 :: "nat \<Rightarrow> nat \<Rightarrow> nat" where
  "sat_inc64 a b = min (a + b) u64_max"

fun interval_secs :: "cron_schedule \<Rightarrow> nat" where
  "interval_secs (EverySeconds s) = max s 1"
| "interval_secs (EveryMinutes m) = mul64 (max m 1) 60"
| "interval_secs (EveryHours h) = mul64 (max h 1) 3600"
| "interval_secs (Daily _ _) = 86400"
| "interval_secs (CustomCron _) = 3600"

definition next_daily :: "nat \<Rightarrow> nat \<Rightarrow> nat \<Rightarrow> nat" where
  "next_daily hour minute now =
     (let day_start = now - now mod 86400;
          target_today = wrap_add64 (wrap_add64 day_start (mul64 hour 3600)) (mul64 minute 60)
      in if now < target_today then target_today else wrap_add64 target_today 86400)"

fun next_after :: "cron_schedule \<Rightarrow> nat \<Rightarrow> nat" where
  "next_after (Daily hour minute) now = next_daily hour minute now"
| "next_after other now = sat_inc64 now (interval_secs other)"

section \<open>State and storage\<close>

record cron =
  cron_jobs :: "cron_job list"
  cron_storage :: "db_op list option"
  in_flight :: "string list"
  cron_pins :: pin_cache

datatype verb = VPost | VPut | VDelete | VGet

record cron_env =
  sched_to_json :: "cron_schedule \<Rightarrow> string"
  sched_of_json :: "string \<Rightarrow> cron_schedule option"
  cron_net :: net_env
  build_client :: "pinned_url \<Rightarrow> nat \<Rightarrow> string + unit"
  send_request :: "verb \<Rightarrow> string \<Rightarrow> string + nat"
  guard_text :: "url_guard_error \<Rightarrow> string"

definition cron_new :: cron where
  "cron_new = \<lparr>cron_jobs = [], cron_storage = None, in_flight = [], cron_pins = pin_cache_new 60\<rparr>"

definition job_row :: "cron_env \<Rightarrow> cron_job \<Rightarrow> row" where
  "job_row env j =
     [(''id'', SText (job_id j)), (''name'', SText (job_name j)),
      (''schedule'', SText (sched_to_json env (job_schedule j))), (''url'', SText (job_url j)),
      (''method'', SText (job_method j)), (''enabled'', SInt (if job_enabled j then 1 else 0)),
      (''last_run'', SInt (i64_of_u64 (last_run j))), (''next_run'', SInt (i64_of_u64 (next_run j))),
      (''run_count'', SInt (i64_of_u64 (run_count j))),
      (''last_status'', case last_status j of Some s \<Rightarrow> SInt (int s) | None \<Rightarrow> SOther),
      (''failure_count'', SInt (i64_of_u64 (failure_count j)))]"

definition persist_job :: "cron_env \<Rightarrow> cron_job \<Rightarrow> cron \<Rightarrow> cron" where
  "persist_job env j c =
     c\<lparr>cron_storage := map_option (\<lambda>log. log @ [Replace (job_id j) (job_row env j)]) (cron_storage c)\<rparr>"

text \<open>A schedule column that is not JSON is read as a number of seconds, and as an hour otherwise.\<close>

definition row_job :: "cron_env \<Rightarrow> row \<Rightarrow> cron_job" where
  "row_job env r =
     (let schedule_str = (case row_text_opt ''schedule'' r of Some s \<Rightarrow> s | None \<Rightarrow> ''3600'') in
      \<lparr>job_id = row_text ''id'' r, job_name = row_text ''name'' r,
       job_schedule = (case sched_of_json env schedule_str of
          Some s \<Rightarrow> s
        | None \<Rightarrow> EverySeconds (case parse_uint u64_max schedule_str of Some n \<Rightarrow> n | None \<Rightarrow> 3600)),
       job_url = row_text ''url'' r,
       job_method = (case row_text_opt ''method'' r of Some s \<Rightarrow> s | None \<Rightarrow> ''GET''),
       job_headers = [], job_body = None,
       job_enabled = (case map_of r ''enabled'' of Some (SInt i) \<Rightarrow> if 0 \<le> i then i = 1 else True | _ \<Rightarrow> True),
       last_run = row_u64 ''last_run'' r, next_run = row_u64 ''next_run'' r,
       run_count = row_u64 ''run_count'' r,
       last_status = (case map_of r ''last_status'' of
          Some (SInt i) \<Rightarrow> if 0 \<le> i then Some (nat i mod 65536) else None | _ \<Rightarrow> None),
       last_duration_ms = 0, failure_count = row_u64 ''failure_count'' r\<rparr>)"

definition cron_with_storage :: "cron_env \<Rightarrow> row list \<Rightarrow> cron" where
  "cron_with_storage env rows =
     \<lparr>cron_jobs = map (row_job env) rows, cron_storage = Some [], in_flight = [],
      cron_pins = pin_cache_new 60\<rparr>"

section \<open>Operations\<close>

definition new_job :: "nat \<Rightarrow> string \<Rightarrow> string \<Rightarrow> cron_schedule \<Rightarrow> string \<Rightarrow> string \<Rightarrow> cron_job" where
  "new_job now i name schedule url method =
     \<lparr>job_id = i, job_name = name, job_schedule = schedule, job_url = url, job_method = method,
      job_headers = [], job_body = None, job_enabled = True, last_run = 0,
      next_run = next_after schedule now, run_count = 0, last_status = None,
      last_duration_ms = 0, failure_count = 0\<rparr>"

definition add_job ::
  "cron_env \<Rightarrow> nat \<Rightarrow> string \<Rightarrow> string \<Rightarrow> cron_schedule \<Rightarrow> string \<Rightarrow> string \<Rightarrow> cron \<Rightarrow> cron \<times> string" where
  "add_job env now fresh_id name schedule url method c =
     (let j = new_job now fresh_id name schedule url method; c1 = persist_job env j c
      in (c1\<lparr>cron_jobs := cron_jobs c1 @ [j]\<rparr>, fresh_id))"

definition remove_row :: "string \<Rightarrow> cron \<Rightarrow> cron" where
  "remove_row i c = c\<lparr>cron_storage := map_option (\<lambda>log. log @ [Delete i]) (cron_storage c)\<rparr>"

definition remove_entry :: "string \<Rightarrow> cron \<Rightarrow> cron \<times> bool" where
  "remove_entry i c =
     (let kept = filter (\<lambda>j. job_id j \<noteq> i) (cron_jobs c)
      in (c\<lparr>cron_jobs := kept, in_flight := filter (\<lambda>x. x \<noteq> i) (in_flight c)\<rparr>,
          length kept < length (cron_jobs c)))"

definition remove_job :: "string \<Rightarrow> cron \<Rightarrow> cron \<times> bool" where
  "remove_job i c = remove_entry i (remove_row i c)"

text \<open>The scan of a round: which jobs start, with their next time moved ahead.\<close>

fun collect_due :: "nat \<Rightarrow> cron_job list \<Rightarrow> string list \<Rightarrow> cron_job list \<times> string list \<times> (string \<times> string \<times> string) list" where
  "collect_due now [] flying = ([], flying, [])"
| "collect_due now (j # js) flying =
     (if \<not> job_enabled j \<or> now < next_run j \<or> job_id j \<in> set flying
      then (let (js', flying', due) = collect_due now js flying in (j # js', flying', due))
      else (let (js', flying', due) = collect_due now js (job_id j # flying)
            in (j\<lparr>next_run := next_after (job_schedule j) now\<rparr> # js', flying',
                (job_id j, job_url j, job_method j) # due)))"

definition collect :: "nat \<Rightarrow> cron \<Rightarrow> cron \<times> (string \<times> string \<times> string) list" where
  "collect now c =
     (let (js, flying, due) = collect_due now (cron_jobs c) (in_flight c)
      in (c\<lparr>cron_jobs := js, in_flight := flying\<rparr>, due))"

text \<open>The verb of a request: the upper case of its method, and \<open>GET\<close> for every other word.\<close>

definition verb_of :: "string \<Rightarrow> verb" where
  "verb_of method =
     (let m = str_upper method in
      if m = ''POST'' then VPost else if m = ''PUT'' then VPut else if m = ''DELETE'' then VDelete else VGet)"

datatype run_outcome = RunOk nat bool | RunErr string

text \<open>One task: the two clock readings of the pin cache and the time the call took.\<close>

definition run_task ::
  "cron_env \<Rightarrow> nat \<times> nat \<times> real \<Rightarrow> string \<times> string \<times> string \<Rightarrow> pin_cache \<Rightarrow>
     pin_cache \<times> string \<times> real \<times> run_outcome" where
  "run_task env clocks task pins =
     (let (t, t', took) = clocks; (i, url, method) = task;
          (pins', pinned) = pc_pin_upstream (cron_net env) t t' url pins
      in case pinned of
           Inl e \<Rightarrow> (pins', i, 0, RunErr (''URL pin failed: '' @ guard_text env e))
         | Inr p \<Rightarrow>
             (case build_client env p 30 of
                Inl e \<Rightarrow> (pins', i, 0, RunErr (''client build: '' @ e))
              | Inr _ \<Rightarrow>
                  (pins', i, took,
                   case send_request env (verb_of method) url of
                     Inr status \<Rightarrow> RunOk status (200 \<le> status \<and> status \<le> 299)
                   | Inl e \<Rightarrow> RunErr e)))"

definition finish_job :: "nat \<Rightarrow> real \<Rightarrow> run_outcome \<Rightarrow> cron_job \<Rightarrow> cron_job" where
  "finish_job now took outcome j =
     (let j1 = j\<lparr>last_run := now, run_count := sat_inc64 (run_count j) 1, last_duration_ms := took\<rparr>
      in case outcome of
           RunOk status success \<Rightarrow>
             j1\<lparr>last_status := Some status,
                failure_count := (if success then failure_count j1 else sat_inc64 (failure_count j1) 1)\<rparr>
         | RunErr _ \<Rightarrow> j1\<lparr>failure_count := sat_inc64 (failure_count j1) 1\<rparr>)"

text \<open>The first job with the identifier is updated; its copy is what is stored afterwards.\<close>

fun finish_in :: "nat \<Rightarrow> string \<Rightarrow> real \<Rightarrow> run_outcome \<Rightarrow> cron_job list \<Rightarrow> cron_job list \<times> cron_job option" where
  "finish_in now i took outcome [] = ([], None)"
| "finish_in now i took outcome (j # js) =
     (if job_id j = i
      then (finish_job now took outcome j # js, Some (finish_job now took outcome j))
      else (let (js', snap) = finish_in now i took outcome js in (j # js', snap)))"

definition apply_result :: "cron_env \<Rightarrow> nat \<Rightarrow> string \<times> real \<times> run_outcome \<Rightarrow> cron \<Rightarrow> cron" where
  "apply_result env now result c =
     (let (i, took, outcome) = result; (js, snap) = finish_in now i took outcome (cron_jobs c);
          c1 = c\<lparr>cron_jobs := js\<rparr>
      in case snap of Some j \<Rightarrow> persist_job env j c1 | None \<Rightarrow> c1)"

text \<open>
  One round without interference. The tasks run one after the other here; they share nothing but
  the pin cache and each removes its own mark.
\<close>

fun run_tasks ::
  "cron_env \<Rightarrow> (string \<Rightarrow> nat \<times> nat \<times> real) \<Rightarrow> (string \<times> string \<times> string) list \<Rightarrow> cron \<Rightarrow>
     cron \<times> (string \<times> real \<times> run_outcome) list" where
  "run_tasks env clocks [] c = (c, [])"
| "run_tasks env clocks (task # tasks) c =
     (let (pins, result) = run_task env (clocks (fst task)) task (cron_pins c);
          (c', results) = run_tasks env clocks tasks
            (c\<lparr>cron_pins := pins, in_flight := filter (\<lambda>x. x \<noteq> fst task) (in_flight c)\<rparr>)
      in (c', result # results))"

definition tick :: "cron_env \<Rightarrow> (string \<Rightarrow> nat \<times> nat \<times> real) \<Rightarrow> nat \<Rightarrow> cron \<Rightarrow> cron" where
  "tick env clocks now c =
     (let (c1, due) = collect now c; (c2, results) = run_tasks env clocks due c1
      in fold (apply_result env now) results c2)"

section \<open>The clock of a schedule\<close>

lemma next_after_greater:
  assumes "now < u64_max" "\<And>h m. s \<noteq> Daily h m" "0 < interval_secs s"
  shows "now < next_after s now"
  using assms by (cases s) (auto simp: sat_inc64_def)

lemma mul64_exact: "a * b \<le> u64_max \<Longrightarrow> mul64 a b = a * b"
  by (simp add: mul64_def)

text \<open>
  The next run of a daily job is the first moment after now at which the clock of the day shows
  its hour and minute: it is later than now, at most a day away, and no earlier moment after now
  has that time of day.
\<close>

theorem next_daily_exact:
  assumes "hour < 24" "minute < 60" "now + 172800 \<le> u64_max"
  shows "now < next_after (Daily hour minute) now"
    and "next_after (Daily hour minute) now \<le> now + 86400"
    and "next_after (Daily hour minute) now mod 86400 = hour * 3600 + minute * 60"
    and "now < t \<Longrightarrow> t mod 86400 = hour * 3600 + minute * 60 \<Longrightarrow> next_after (Daily hour minute) now \<le> t"
proof -
  let ?o = "hour * 3600 + minute * 60"
  have o: "?o < 86400" using assms by simp
  define q where "q = now div 86400"
  obtain x where now: "now = q * 86400 + x" and r: "x < 86400"
    by (rule that [of "now mod 86400"]) (simp_all add: q_def)
  have day: "now - now mod 86400 = q * 86400" by (simp add: q_def minus_mod_eq_div_mult)
  have small: "q * 86400 + ?o + 86400 \<le> u64_max" using now assms(3) o by simp
  have target: "wrap_add64 (wrap_add64 (now - now mod 86400) (mul64 hour 3600)) (mul64 minute 60) = q * 86400 + ?o"
    unfolding day using small by (simp add: mul64_exact wrap_add64_exact)
  have next_eq: "next_after (Daily hour minute) now = (if now < q * 86400 + ?o then q * 86400 + ?o else q * 86400 + ?o + 86400)"
    using small by (simp add: next_daily_def target Let_def wrap_add64_exact)
  show "now < next_after (Daily hour minute) now" unfolding next_eq using now r by simp
  show "next_after (Daily hour minute) now \<le> now + 86400" unfolding next_eq using now r o by simp
  have "(q * 86400 + ?o) mod 86400 = ?o" "(q * 86400 + ?o + 86400) mod 86400 = ?o"
    using o by simp_all
  then show "next_after (Daily hour minute) now mod 86400 = ?o" unfolding next_eq by simp
  show "next_after (Daily hour minute) now \<le> t" if t: "now < t" "t mod 86400 = ?o"
  proof -
    have te: "t = (t div 86400) * 86400 + ?o" using t(2) by (metis div_mult_mod_eq)
    have "q \<le> t div 86400" unfolding q_def using t(1) by (simp add: div_le_mono)
    then consider "t div 86400 = q" | "Suc q \<le> t div 86400" by linarith
    then show ?thesis
    proof cases
      case 1
      with te t(1) show ?thesis unfolding next_eq by simp
    next
      case 2
      then have "Suc q * 86400 \<le> (t div 86400) * 86400" by (rule mult_le_mono1)
      with te show ?thesis unfolding next_eq by simp
    qed
  qed
qed

section \<open>A round\<close>

definition due_at :: "nat \<Rightarrow> cron_job \<Rightarrow> bool" where
  "due_at now j \<longleftrightarrow> job_enabled j \<and> next_run j \<le> now"

definition advance :: "nat \<Rightarrow> cron_job \<Rightarrow> cron_job" where
  "advance now j = (if due_at now j then j\<lparr>next_run := next_after (job_schedule j) now\<rparr> else j)"

lemma advance_id [simp]: "job_id (advance now j) = job_id j"
  by (simp add: advance_def)

lemma collect_due_exact:
  assumes "distinct (map job_id js)" "set (map job_id js) \<inter> set flying = {}"
  shows "collect_due now js flying =
    (map (advance now) js, rev (map job_id (filter (due_at now) js)) @ flying,
     map (\<lambda>j. (job_id j, job_url j, job_method j)) (filter (due_at now) js))"
  using assms
proof (induction js arbitrary: flying)
  case (Cons j js)
  then show ?case
    using Cons.IH [of flying] Cons.IH [of "job_id j # flying"]
    by (auto simp: due_at_def advance_def not_less)
qed simp

lemma finish_job_id [simp]: "job_id (finish_job now took outcome j) = job_id j"
  by (simp add: finish_job_def Let_def split: run_outcome.split)

lemma finish_in_exact:
  assumes "distinct (map job_id js)"
  shows "fst (finish_in now i took outcome js) =
    map (\<lambda>j. if job_id j = i then finish_job now took outcome j else j) js"
  using assms
proof (induction js)
  case (Cons j js)
  have "job_id x \<noteq> job_id j" if "x \<in> set js" for x
    using Cons.prems that by (metis distinct.simps(2) image_eqI list.simps(9) list.set_map)
  then have "map (\<lambda>x. if job_id x = job_id j then finish_job now took outcome x else x) js = js"
    by (auto intro: map_idI)
  with Cons show ?case by (auto simp: case_prod_unfold)
qed simp

lemma persist_job_frame [simp]:
  "cron_jobs (persist_job env j c) = cron_jobs c" "in_flight (persist_job env j c) = in_flight c"
  by (simp_all add: persist_job_def)

lemma apply_result_frame [simp]:
  "in_flight (apply_result env now r c) = in_flight c"
  "distinct (map job_id (cron_jobs c)) \<Longrightarrow> cron_jobs (apply_result env now (i, took, outcome) c) =
     map (\<lambda>j. if job_id j = i then finish_job now took outcome j else j) (cron_jobs c)"
  using finish_in_exact [of "cron_jobs c" now i took outcome]
  by (auto simp: apply_result_def case_prod_unfold Let_def split: option.split)

definition with_result :: "nat \<Rightarrow> (string \<times> real \<times> run_outcome) list \<Rightarrow> cron_job \<Rightarrow> cron_job" where
  "with_result now results j =
     (case map_of results (job_id j) of Some (took, outcome) \<Rightarrow> finish_job now took outcome j | None \<Rightarrow> j)"

lemma apply_results_exact:
  assumes "distinct (map job_id (cron_jobs c))" "distinct (map fst results)"
  shows "cron_jobs (fold (apply_result env now) results c) = map (with_result now results) (cron_jobs c)"
    and "in_flight (fold (apply_result env now) results c) = in_flight c"
proof -
  show "cron_jobs (fold (apply_result env now) results c) = map (with_result now results) (cron_jobs c)"
    using assms
  proof (induction results arbitrary: c)
    case Nil
    then show ?case by (simp add: with_result_def map_idI)
  next
    case (Cons r results)
    obtain i took outcome where r: "r = (i, took, outcome)" by (cases r) auto
    have ids: "distinct (map job_id (cron_jobs (apply_result env now r c)))"
      using Cons.prems(1) by (simp add: r comp_def if_distrib cong: if_cong)
    have "map_of results i = None" using Cons.prems(2) by (auto simp: r map_of_eq_None_iff)
    then have "with_result now results (if job_id j = i then finish_job now took outcome j else j) =
        with_result now (r # results) j" for j
      by (auto simp: r with_result_def)
    with Cons.IH [OF ids] Cons.prems show ?case by (simp add: r comp_def)
  qed
  show "in_flight (fold (apply_result env now) results c) = in_flight c"
    by (induction results arbitrary: c) simp_all
qed

lemma run_task_id: "fst (snd (run_task env clock task pins)) = fst task"
  by (cases task; cases clock) (auto simp: run_task_def Let_def split: prod.split sum.split)

lemma run_tasks_frame:
  "map fst (snd (run_tasks env clocks tasks c)) = map fst tasks"
  "cron_jobs (fst (run_tasks env clocks tasks c)) = cron_jobs c"
  "in_flight (fst (run_tasks env clocks tasks c)) = filter (\<lambda>x. x \<notin> fst ` set tasks) (in_flight c)"
proof (induction tasks arbitrary: c)
  case (Cons task tasks)
  {
    case 1
    show ?case using Cons(1) run_task_id [of env "clocks (fst task)" task "cron_pins c"]
      by (auto simp: case_prod_unfold Let_def)
  next
    case 2
    show ?case using Cons(2) by (simp add: case_prod_unfold Let_def)
  next
    case 3
    show ?case using Cons(3) by (simp add: case_prod_unfold Let_def conj_commute)
  }
qed simp_all

text \<open>
  A round runs each due job exactly once. With no run in progress, after the round every job that
  was enabled and due has its counters, status and times updated by the result of one run and its
  next time set by its schedule, every other job is as it was, and no run is marked any more.
\<close>

theorem tick_exact:
  assumes "distinct (map job_id (cron_jobs c))" "in_flight c = []"
  shows "\<exists>result. cron_jobs (tick env clocks now c) =
      map (\<lambda>j. if due_at now j
               then finish_job now (fst (result (job_id j))) (snd (result (job_id j)))
                      (j\<lparr>next_run := next_after (job_schedule j) now\<rparr>)
               else j) (cron_jobs c) \<and>
    in_flight (tick env clocks now c) = []"
proof -
  let ?due = "map (\<lambda>j. (job_id j, job_url j, job_method j)) (filter (due_at now) (cron_jobs c))"
  define c1 where "c1 = c\<lparr>cron_jobs := map (advance now) (cron_jobs c),
      in_flight := rev (map job_id (filter (due_at now) (cron_jobs c)))\<rparr>"
  have collect: "collect now c = (c1, ?due)"
    using assms by (simp add: collect_def collect_due_exact c1_def)
  define results where "results = snd (run_tasks env clocks ?due c1)"
  have ids: "map fst results = map job_id (filter (due_at now) (cron_jobs c))"
    by (simp add: results_def run_tasks_frame comp_def)
  then have distinct: "distinct (map fst results)"
    using assms(1) by (simp add: distinct_map_filter)
  have tick: "tick env clocks now c = fold (apply_result env now) results (fst (run_tasks env clocks ?due c1))"
    by (simp add: tick_def collect results_def case_prod_unfold Let_def)
  have jobs: "cron_jobs (tick env clocks now c) = map (with_result now results) (map (advance now) (cron_jobs c))"
    unfolding tick using assms(1)
    by (subst apply_results_exact) (simp_all add: run_tasks_frame c1_def distinct comp_def)
  have flying: "in_flight (tick env clocks now c) = []"
    unfolding tick using assms(1)
    by (subst apply_results_exact(2)) (auto simp: run_tasks_frame c1_def distinct comp_def filter_empty_conv image_image)
  let ?result = "\<lambda>i. the (map_of results i)"
  have "with_result now results (advance now j) =
      (if due_at now j then finish_job now (fst (?result (job_id j))) (snd (?result (job_id j)))
         (j\<lparr>next_run := next_after (job_schedule j) now\<rparr>) else j)" if "j \<in> set (cron_jobs c)" for j
  proof (cases "due_at now j")
    case True
    then have "job_id j \<in> set (map fst results)" using that unfolding ids by auto
    then obtain r where "map_of results (job_id j) = Some r" by (auto dest: weak_map_of_SomeI)
    with True show ?thesis by (cases r) (simp add: with_result_def advance_def)
  next
    case False
    then have "job_id j \<notin> set (map fst results)"
      using that assms(1) unfolding ids by (auto simp: distinct_map inj_on_def)
    then have "map_of results (job_id j) = None" by (simp add: map_of_eq_None_iff)
    with False show ?thesis by (simp add: with_result_def advance_def)
  qed
  with jobs flying show ?thesis by (intro exI [of _ ?result]) simp
qed

section \<open>Interleavings\<close>

text \<open>
  The scheduler between its locks. Rounds may overlap; a task ends (its mark is removed), its
  result is applied under the lock, and the copy taken there is stored after the lock is released.
  Removing a job deletes its row first and its entry later. \<open>starts\<close> records when each job started and on what schedule,
  \<open>drawn\<close> the identifiers ever drawn, which are fresh. The clock does not run backwards.
\<close>

record cron_sys =
  sched :: cron
  running :: "string list"
  ended :: "(string \<times> real \<times> run_outcome) list"
  unsaved :: "cron_job list"
  removing :: "string list"
  starts :: "(string \<times> cron_schedule \<times> nat) list"
  drawn :: "string set"
  clock :: nat

definition apply_in_memory :: "nat \<Rightarrow> string \<times> real \<times> run_outcome \<Rightarrow> cron \<Rightarrow> cron \<times> cron_job option" where
  "apply_in_memory now result c =
     (let (i, took, outcome) = result; (js, snap) = finish_in now i took outcome (cron_jobs c)
      in (c\<lparr>cron_jobs := js\<rparr>, snap))"

inductive cron_step :: "cron_env \<Rightarrow> cron_sys \<Rightarrow> cron_sys \<Rightarrow> bool" for env where
  Add: "i \<notin> drawn s \<Longrightarrow> clock s \<le> now \<Longrightarrow>
    cron_step env s (s\<lparr>sched := fst (add_job env now i name schedule url method (sched s)),
      drawn := insert i (drawn s), clock := now\<rparr>)"
| RemoveRow: "cron_step env s (s\<lparr>sched := remove_row i (sched s), removing := i # removing s\<rparr>)"
| RemoveEntry: "removing s = xs @ i # ys \<Longrightarrow>
    cron_step env s (s\<lparr>sched := fst (remove_entry i (sched s)), removing := xs @ ys\<rparr>)"
| Collect: "clock s \<le> now \<Longrightarrow> collect now (sched s) = (c, due) \<Longrightarrow>
    cron_step env s (s\<lparr>sched := c, running := map fst due @ running s,
      starts := map (\<lambda>j. (job_id j, job_schedule j, now))
        (filter (\<lambda>j. job_id j \<in> fst ` set due) (cron_jobs (sched s))) @ starts s, clock := now\<rparr>)"
| End: "running s = xs @ i # ys \<Longrightarrow>
    cron_step env s (s\<lparr>sched := (sched s)\<lparr>in_flight := filter (\<lambda>x. x \<noteq> i) (in_flight (sched s))\<rparr>,
      running := xs @ ys, ended := (i, took, outcome) # ended s\<rparr>)"
| Apply: "ended s = xs @ r # ys \<Longrightarrow> apply_in_memory now r (sched s) = (c, snap) \<Longrightarrow>
    cron_step env s (s\<lparr>sched := c, ended := xs @ ys,
      unsaved := (case snap of Some j \<Rightarrow> j # unsaved s | None \<Rightarrow> unsaved s)\<rparr>)"
| Save: "unsaved s = xs @ j # ys \<Longrightarrow>
    cron_step env s (s\<lparr>sched := persist_job env j (sched s), unsaved := xs @ ys\<rparr>)"

inductive_cases cron_stepE: "cron_step env s s'"

abbreviation cron_reach :: "cron_env \<Rightarrow> cron_sys \<Rightarrow> cron_sys \<Rightarrow> bool" where
  "cron_reach env \<equiv> (cron_step env)\<^sup>*\<^sup>*"

definition cron_init :: "cron \<Rightarrow> nat \<Rightarrow> cron_sys" where
  "cron_init c now =
     \<lparr>sched = c, running = [], ended = [], unsaved = [], removing = [], starts = [],
      drawn = job_id ` set (cron_jobs c), clock = now\<rparr>"

definition cron_invar :: "cron_sys \<Rightarrow> bool" where
  "cron_invar s \<longleftrightarrow>
     distinct (map job_id (cron_jobs (sched s))) \<and> job_id ` set (cron_jobs (sched s)) \<subseteq> drawn s \<and>
     distinct (running s) \<and> set (running s) \<subseteq> drawn s \<and>
     (\<forall>i \<in> set (running s). i \<in> job_id ` set (cron_jobs (sched s)) \<longrightarrow> i \<in> set (in_flight (sched s)))"

lemma cron_init_invar:
  "distinct (map job_id (cron_jobs c)) \<Longrightarrow> cron_invar (cron_init c now)"
  by (simp add: cron_invar_def cron_init_def)

text \<open>What a scan guarantees of the marks, whatever they were before.\<close>

lemma collect_due_marks:
  assumes "collect_due now js flying = (js', flying', due)"
  shows "map job_id js' = map job_id js \<and> set flying' = set (map fst due) \<union> set flying \<and>
    set (map fst due) \<subseteq> set (map job_id js) \<and> distinct (map fst due) \<and> set (map fst due) \<inter> set flying = {}"
  using assms
proof (induction js arbitrary: flying js' flying' due)
  case (Cons j js)
  show ?case
  proof (cases "\<not> job_enabled j \<or> now < next_run j \<or> job_id j \<in> set flying")
    case True
    then obtain js1 where "collect_due now js flying = (js1, flying', due)" "js' = j # js1"
      using Cons.prems by (cases "collect_due now js flying") auto
    with Cons.IH [OF this(1)] show ?thesis by auto
  next
    case False
    obtain js1 due1 where "collect_due now js (job_id j # flying) = (js1, flying', due1)"
      "js' = j\<lparr>next_run := next_after (job_schedule j) now\<rparr> # js1" "due = (job_id j, job_url j, job_method j) # due1"
      using False Cons.prems by (cases "collect_due now js (job_id j # flying)") auto
    with Cons.IH [OF this(1)] False show ?thesis by auto
  qed
qed simp

lemma finish_in_ids: "map job_id (fst (finish_in now i took outcome js)) = map job_id js"
  by (induction js) (auto simp: case_prod_unfold Let_def)

lemma cron_step_invar: "cron_step env s s' \<Longrightarrow> cron_invar s \<Longrightarrow> cron_invar s'"
proof (induction rule: cron_step.induct)
  case (Add i s now name schedule url verb)
  then show ?case
    by (auto simp: cron_invar_def add_job_def Let_def new_job_def)
next
  case (RemoveEntry s xs i ys)
  then show ?case
    by (auto simp: cron_invar_def remove_entry_def Let_def distinct_map_filter)
next
  case (Collect s now c due)
  obtain js flying where cd: "collect_due now (cron_jobs (sched s)) (in_flight (sched s)) = (js, flying, due)"
    "c = (sched s)\<lparr>cron_jobs := js, in_flight := flying\<rparr>"
    using Collect.hyps(2) by (auto simp: collect_def Let_def split: prod.splits)
  note marks = collect_due_marks [OF cd(1)]
  have ids: "job_id ` set js = job_id ` set (cron_jobs (sched s))"
    using marks by (metis list.set_map)
  have fresh: "set (map fst due) \<inter> set (running s) = {}"
    using marks Collect.prems unfolding cron_invar_def set_map by (metis (no_types, lifting) disjoint_iff subsetD)
  have "distinct (map job_id js)" using marks Collect.prems by (simp add: cron_invar_def)
  moreover have "distinct (map fst due @ running s)" using marks fresh Collect.prems by (auto simp: cron_invar_def)
  moreover have "set (map fst due) \<subseteq> drawn s"
    using marks Collect.prems unfolding cron_invar_def set_map by (metis subset_trans)
  ultimately show ?case
    using Collect.prems marks ids by (auto simp: cron_invar_def cd(2))
next
  case (Apply s xs r ys now c snap)
  obtain i took outcome where r: "r = (i, took, outcome)" by (cases r) auto
  have c: "cron_jobs c = fst (finish_in now i took outcome (cron_jobs (sched s)))" "in_flight c = in_flight (sched s)"
    using Apply.hyps(2) by (auto simp: apply_in_memory_def r split: prod.splits)
  have "map job_id (cron_jobs c) = map job_id (cron_jobs (sched s))" by (simp add: c finish_in_ids)
  then have "job_id ` set (cron_jobs c) = job_id ` set (cron_jobs (sched s))" by (metis list.set_map)
  with Apply.prems c show ?case by (simp add: cron_invar_def finish_in_ids)
qed (auto simp: cron_invar_def remove_row_def)

lemma cron_reach_invar: "cron_reach env s s' \<Longrightarrow> cron_invar s \<Longrightarrow> cron_invar s'"
  by (induction rule: rtranclp_induct) (auto intro: cron_step_invar)

text \<open>
  C32: No job overlaps with itself. However rounds, ends of runs, additions and removals of jobs
  interleave, at no moment are two runs of one job in progress, even if a job is removed while
  it runs.
\<close>

theorem no_overlapping_runs:
  assumes "distinct (map job_id (cron_jobs c))" "cron_reach env (cron_init c now) s"
  shows "distinct (running s)"
  using cron_reach_invar [OF assms(2) cron_init_invar [OF assms(1)]] by (simp add: cron_invar_def)

section \<open>How often a job starts\<close>

definition not_daily :: "cron_schedule \<Rightarrow> bool" where
  "not_daily sc \<longleftrightarrow> (case sc of Daily h m \<Rightarrow> False | _ \<Rightarrow> True)"

lemma next_after_mono: "t \<le> t' \<Longrightarrow> not_daily sc \<Longrightarrow> next_after sc t \<le> next_after sc t'"
  by (cases sc) (auto simp: sat_inc64_def not_daily_def)

lemma collect_due_ConsE:
  assumes "collect_due now (j # js) flying = (js', flying', due)" "distinct (map job_id (j # js))"
  obtains (off) js1 where "collect_due now js flying = (js1, flying', due)" "js' = j # js1"
      "job_id j \<notin> fst ` set due"
    | (on) js1 due1 where "due_at now j" "collect_due now js (job_id j # flying) = (js1, flying', due1)"
      "js' = j\<lparr>next_run := next_after (job_schedule j) now\<rparr> # js1"
      "due = (job_id j, job_url j, job_method j) # due1"
proof (cases "\<not> job_enabled j \<or> now < next_run j \<or> job_id j \<in> set flying")
  case True
  then obtain js1 where r: "collect_due now js flying = (js1, flying', due)" "js' = j # js1"
    using assms(1) by (cases "collect_due now js flying") auto
  have "job_id j \<notin> fst ` set due" using collect_due_marks [OF r(1)] assms(2) by auto
  with r show ?thesis by (rule off)
next
  case False
  obtain js1 due1 where r: "collect_due now js (job_id j # flying) = (js1, flying', due1)"
    "js' = j\<lparr>next_run := next_after (job_schedule j) now\<rparr> # js1" "due = (job_id j, job_url j, job_method j) # due1"
    using False assms(1) by (cases "collect_due now js (job_id j # flying)") auto
  with False show ?thesis by (intro on [of js1 due1]) (auto simp: due_at_def)
qed

lemma collect_due_jobs:
  assumes "collect_due now js flying = (js', flying', due)" "distinct (map job_id js)"
  shows "(\<forall>j' \<in> set js'. \<exists>j \<in> set js. job_id j' = job_id j \<and> job_schedule j' = job_schedule j \<and>
      (if job_id j \<in> fst ` set due then due_at now j \<and> next_run j' = next_after (job_schedule j) now else j' = j)) \<and>
    (\<forall>j \<in> set js. job_id j \<in> fst ` set due \<longrightarrow> due_at now j)"
  using assms
proof (induction js arbitrary: flying js' flying' due)
  case (Cons j js)
  have fresh: "\<forall>x \<in> set js. job_id x \<noteq> job_id j" "distinct (map job_id js)"
    using Cons.prems(2) by (auto simp: image_iff)
  from Cons.prems show ?case
  proof (cases rule: collect_due_ConsE)
    case off
    with Cons.IH [OF off(1) fresh(2)] show ?thesis by auto
  next
    case (on js1 due1)
    note ih = Cons.IH [OF on(2) fresh(2)]
    have same: "job_id x \<in> fst ` set due \<longleftrightarrow> job_id x \<in> fst ` set due1" if "x \<in> set js" for x
      using that fresh(1) by (simp add: on(4))
    show ?thesis
    proof (intro conjI ballI impI)
      fix j' assume "j' \<in> set js'"
      then consider "j' = j\<lparr>next_run := next_after (job_schedule j) now\<rparr>" | "j' \<in> set js1" by (auto simp: on(3))
      then show "\<exists>x \<in> set (j # js). job_id j' = job_id x \<and> job_schedule j' = job_schedule x \<and>
        (if job_id x \<in> fst ` set due then due_at now x \<and> next_run j' = next_after (job_schedule x) now else j' = x)"
      proof cases
        case 1
        show ?thesis by (rule bexI [of _ j]) (simp_all add: 1 on)
      next
        case 2
        with ih obtain x where x: "x \<in> set js" "job_id j' = job_id x" "job_schedule j' = job_schedule x"
          "if job_id x \<in> fst ` set due1 then due_at now x \<and> next_run j' = next_after (job_schedule x) now else j' = x"
          by blast
        with same show ?thesis by (intro bexI [of _ x]) simp_all
      qed
    next
      fix x assume "x \<in> set (j # js)" "job_id x \<in> fst ` set due"
      with ih same on(1) show "due_at now x" by auto
    qed
  qed
qed simp

lemma finish_job_frame [simp]:
  "job_schedule (finish_job now took outcome j) = job_schedule j"
  "next_run (finish_job now took outcome j) = next_run j"
  by (simp_all add: finish_job_def Let_def split: run_outcome.split)

lemma finish_in_jobs:
  "\<forall>j' \<in> set (fst (finish_in now i took outcome js)).
     \<exists>j \<in> set js. job_id j' = job_id j \<and> job_schedule j' = job_schedule j \<and> next_run j' = next_run j"
  by (induction js) (auto simp: case_prod_unfold Let_def)

text \<open>Of any two recorded starts of a job the later one is at least one interval after the other.\<close>

fun spaced_log :: "(string \<times> cron_schedule \<times> nat) list \<Rightarrow> bool" where
  "spaced_log [] \<longleftrightarrow> True"
| "spaced_log ((i, sc, t) # hist) \<longleftrightarrow>
     (\<forall>(i', sc', t') \<in> set hist. i' = i \<longrightarrow> sc' = sc \<and> (not_daily sc \<longrightarrow> next_after sc t' \<le> t)) \<and> spaced_log hist"

definition next_ahead :: "cron_job \<Rightarrow> string \<times> cron_schedule \<times> nat \<Rightarrow> bool" where
  "next_ahead j e = (case e of (i, sc, t) \<Rightarrow>
     job_id j = i \<longrightarrow> job_schedule j = sc \<and> (not_daily sc \<longrightarrow> next_after sc t \<le> next_run j))"

definition starts_invar :: "cron_sys \<Rightarrow> bool" where
  "starts_invar s \<longleftrightarrow> spaced_log (starts s) \<and>
     (\<forall>e \<in> set (starts s). fst e \<in> drawn s \<and> snd (snd e) \<le> clock s \<and>
        (\<forall>j \<in> set (cron_jobs (sched s)). next_ahead j e))"

lemma starts_invar_jobs:
  assumes "starts_invar s" "starts s' = starts s" "drawn s \<subseteq> drawn s'" "clock s \<le> clock s'"
    and "\<forall>j' \<in> set (cron_jobs (sched s')). job_id j' \<in> drawn s \<longrightarrow>
      (\<exists>j \<in> set (cron_jobs (sched s)). job_id j' = job_id j \<and> job_schedule j' = job_schedule j \<and> next_run j' = next_run j)"
  shows "starts_invar s'"
  unfolding starts_invar_def assms(2)
proof (intro conjI ballI)
  show "spaced_log (starts s)" using assms(1) by (simp add: starts_invar_def)
  fix e assume e: "e \<in> set (starts s)"
  then have old: "fst e \<in> drawn s" "snd (snd e) \<le> clock s" "\<forall>j \<in> set (cron_jobs (sched s)). next_ahead j e"
    using assms(1) by (auto simp: starts_invar_def)
  then show "fst e \<in> drawn s'" "snd (snd e) \<le> clock s'" using assms(3,4) by auto
  fix j' assume j': "j' \<in> set (cron_jobs (sched s'))"
  show "next_ahead j' e"
  proof (cases "job_id j' = fst e")
    case True
    with j' old(1) assms(5) obtain j where "j \<in> set (cron_jobs (sched s))" "job_id j' = job_id j"
      "job_schedule j' = job_schedule j" "next_run j' = next_run j" by metis
    with old(3) show ?thesis by (auto simp: next_ahead_def split: prod.split)
  qed (auto simp: next_ahead_def split: prod.split)
qed

lemma spaced_log_append:
  assumes "distinct (map job_id js)"
  shows "spaced_log (map (\<lambda>j. (job_id j, job_schedule j, now)) js @ hist) \<longleftrightarrow> spaced_log hist \<and>
    (\<forall>j \<in> set js. \<forall>(i, sc, t) \<in> set hist. i = job_id j \<longrightarrow>
       sc = job_schedule j \<and> (not_daily (job_schedule j) \<longrightarrow> next_after (job_schedule j) t \<le> now))"
  using assms by (induction js) (auto 0 3 simp: image_iff)

lemma cron_step_starts:
  "cron_step env s s' \<Longrightarrow> cron_invar s \<Longrightarrow> starts_invar s \<Longrightarrow> starts_invar s'"
proof (induction rule: cron_step.induct)
  case (Add i s now name schedule url verb)
  show ?case
    by (rule starts_invar_jobs [OF Add.prems(2)])
      (use Add.hyps in \<open>auto simp: add_job_def Let_def new_job_def\<close>)
next
  case (RemoveRow s i)
  show ?case by (rule starts_invar_jobs [OF RemoveRow.prems(2)]) (auto simp: remove_row_def)
next
  case (RemoveEntry s xs i ys)
  show ?case by (rule starts_invar_jobs [OF RemoveEntry.prems(2)]) (auto simp: remove_entry_def Let_def)
next
  case (End s xs i ys took outcome)
  show ?case by (rule starts_invar_jobs [OF End.prems(2)]) auto
next
  case (Apply s xs r ys now c snap)
  obtain i took outcome where r: "r = (i, took, outcome)" by (cases r) auto
  have "cron_jobs c = fst (finish_in now i took outcome (cron_jobs (sched s)))"
    using Apply.hyps(2) by (auto simp: apply_in_memory_def r split: prod.splits)
  then show ?case
    using finish_in_jobs [of now i took outcome "cron_jobs (sched s)"]
    by (intro starts_invar_jobs [OF Apply.prems(2)]) auto
next
  case (Save s xs j ys)
  show ?case by (rule starts_invar_jobs [OF Save.prems(2)]) auto
next
  case (Collect s now c due)
  obtain js flying where cd: "collect_due now (cron_jobs (sched s)) (in_flight (sched s)) = (js, flying, due)"
    "c = (sched s)\<lparr>cron_jobs := js, in_flight := flying\<rparr>"
    using Collect.hyps(2) by (auto simp: collect_def Let_def split: prod.splits)
  have dist: "distinct (map job_id (cron_jobs (sched s)))" using Collect.prems(1) by (simp add: cron_invar_def)
  note jobs = conjunct1 [OF collect_due_jobs [OF cd(1) dist]] conjunct2 [OF collect_due_jobs [OF cd(1) dist]]
  let ?started = "filter (\<lambda>j. job_id j \<in> fst ` set due) (cron_jobs (sched s))"
  have old: "spaced_log (starts s)" "\<And>e. e \<in> set (starts s) \<Longrightarrow> fst e \<in> drawn s \<and> snd (snd e) \<le> clock s \<and>
      (\<forall>j \<in> set (cron_jobs (sched s)). next_ahead j e)"
    using Collect.prems(2) by (auto simp: starts_invar_def)
  have "sc = job_schedule j \<and> (not_daily (job_schedule j) \<longrightarrow> next_after (job_schedule j) t \<le> now)"
    if "j \<in> set ?started" "(job_id j, sc, t) \<in> set (starts s)" for j sc t
  proof -
    have "next_ahead j (job_id j, sc, t)" "due_at now j" using that old(2) jobs(2) by auto
    then show ?thesis by (auto simp: next_ahead_def due_at_def)
  qed
  then have log: "spaced_log (map (\<lambda>j. (job_id j, job_schedule j, now)) ?started @ starts s)"
    using old(1) dist by (subst spaced_log_append) (auto simp: distinct_map_filter)
  have new: "next_ahead j' (job_id j, job_schedule j, now)" if "j \<in> set ?started" "j' \<in> set js" for j j'
  proof -
    note that' = that
    obtain j0 where "j0 \<in> set (cron_jobs (sched s))" "job_id j' = job_id j0" "job_schedule j' = job_schedule j0"
      "if job_id j0 \<in> fst ` set due then due_at now j0 \<and> next_run j' = next_after (job_schedule j0) now else j' = j0"
      using bspec [OF jobs(1) that'(2)] by blast
    note j0 = this
    show ?thesis
    proof (cases "job_id j' = job_id j")
      case True
      with j0(1,2) that(1) dist have "j0 = j" by (auto simp: distinct_map inj_on_def)
      with j0 that(1) show ?thesis by (simp add: next_ahead_def)
    qed (simp add: next_ahead_def)
  qed
  have kept: "next_ahead j' e" if "e \<in> set (starts s)" "j' \<in> set js" for j' e
  proof -
    note that' = that
    obtain i sc t where e: "e = (i, sc, t)" by (cases e) auto
    obtain j0 where j0: "j0 \<in> set (cron_jobs (sched s))" "job_id j' = job_id j0" "job_schedule j' = job_schedule j0"
      "if job_id j0 \<in> fst ` set due then due_at now j0 \<and> next_run j' = next_after (job_schedule j0) now else j' = j0"
      using bspec [OF jobs(1) that'(2)] by blast
    have "next_ahead j0 e" "t \<le> clock s" using old(2) [OF that(1)] j0(1) by (auto simp: e)
    then show ?thesis
      using j0 Collect.hyps(1) next_after_mono [of t now sc]
      by (auto simp: next_ahead_def e split: if_splits)
  qed
  have "set (map fst due) \<subseteq> drawn s"
    using collect_due_marks [OF cd(1)] Collect.prems(1) unfolding cron_invar_def set_map by (metis subset_trans)
  show ?case
    unfolding starts_invar_def
  proof (intro conjI ballI, goal_cases)
    case 1
    show ?case using log by simp
  next
    case (2 e)
    then show ?case using \<open>set (map fst due) \<subseteq> drawn s\<close> old(2) [of e] by auto
  next
    case (3 e)
    then show ?case using old(2) [of e] Collect.hyps(1) by auto
  next
    case (4 e j')
    then show ?case using new kept [of e j'] by (auto simp: cd(2))
  qed
qed

text \<open>
  C31: A job never starts more often than its schedule says. In every run of the scheduler, with
  rounds, additions and removals interleaved in any way, any two recorded starts of a job belong
  to the same schedule and, unless it is a daily one, the later is at least one interval after
  the earlier.
\<close>

theorem starts_spaced:
  assumes "distinct (map job_id (cron_jobs c))" "cron_reach env (cron_init c now) s"
  shows "spaced_log (starts s)"
proof -
  have "starts_invar (cron_init c now)" by (simp add: starts_invar_def cron_init_def)
  moreover have "cron_reach env s0 s \<Longrightarrow> cron_invar s0 \<Longrightarrow> starts_invar s0 \<Longrightarrow> cron_invar s \<and> starts_invar s" for s0
    by (induction rule: rtranclp_induct) (auto intro: cron_step_invar cron_step_starts)
  ultimately show ?thesis
    using cron_init_invar [OF assms(1)] assms(2) by (auto simp: starts_invar_def)
qed

section \<open>What a restart brings back\<close>

text \<open>
  A stored job is read back with its schedule, its times and its counters, without its headers,
  body and duration. The numbers have to fit in a signed column, and the schedule has to survive
  its JSON form, which is what the serialiser promises.
\<close>

lemma row_job_round:
  assumes "sched_of_json env (sched_to_json env (job_schedule j)) = Some (job_schedule j)"
    and "last_run j < 2 ^ 63" "next_run j < 2 ^ 63" "run_count j < 2 ^ 63" "failure_count j < 2 ^ 63"
    and "\<forall>s. last_status j = Some s \<longrightarrow> s < 65536"
  shows "row_job env (job_row env j) = j\<lparr>job_headers := [], job_body := None, last_duration_ms := 0\<rparr>"
  using assms
  by (cases j) (auto simp: row_job_def job_row_def Let_def row_text_opt_def row_text_def row_u64_def
      i64_of_u64_def split: option.splits)

text \<open>
  A job further away than the largest signed number is stored as a negative one, so a restart
  reads its next time as 0 and the first round starts it.
\<close>

lemma far_job_runs_at_restart:
  assumes "2 ^ 63 \<le> next_run j" "next_run j < 2 ^ 64" "job_enabled j"
  shows "due_at now (row_job env (job_row env j))"
  using assms by (simp add: due_at_def row_job_def job_row_def Let_def row_u64_def i64_of_u64_def)

definition stored_rows :: "cron \<Rightarrow> (string, row) dashmap" where
  "stored_rows c = (case cron_storage c of Some ops \<Rightarrow> db_replay ops | None \<Rightarrow> [])"

lemma stored_persist:
  "cron_storage c \<noteq> None \<Longrightarrow> stored_rows (persist_job env j c) = dm_insert (job_id j) (job_row env j) (stored_rows c)"
  by (auto simp: stored_rows_def persist_job_def)

text \<open>
  A removed job can come back. The removal deletes the row before it takes the lock, and a result
  is stored after the lock is released: when a run of the job ends in between, the row is written
  again. The removal reports success and no job is left in memory, but the next restart loads it.
\<close>

theorem removed_job_returns:
  assumes "cron_jobs c = [j]" "cron_storage c = Some ops" "in_flight c = []" "due_at now j" "t0 \<le> now"
  shows "\<exists>s. cron_reach env (cron_init c t0) s \<and> cron_jobs (sched s) = [] \<and> removing s = [] \<and>
    running s = [] \<and> ended s = [] \<and> unsaved s = [] \<and>
    (\<exists>r. dm_get (stored_rows (sched s)) (job_id j) = Some r)"
proof -
  let ?i = "job_id j"
  let ?j1 = "j\<lparr>next_run := next_after (job_schedule j) now\<rparr>"
  let ?j2 = "finish_job now 0 (RunErr []) ?j1"
  let ?s0 = "cron_init c t0"
  let ?s1 = "?s0\<lparr>sched := c\<lparr>cron_jobs := [?j1], in_flight := [?i]\<rparr>, running := [?i],
    starts := [(?i, job_schedule j, now)], clock := now\<rparr>"
  let ?s2 = "?s1\<lparr>sched := c\<lparr>cron_jobs := [?j1], in_flight := []\<rparr>, running := [], ended := [(?i, 0, RunErr [])]\<rparr>"
  let ?s3 = "?s2\<lparr>sched := c\<lparr>cron_jobs := [?j2], in_flight := []\<rparr>, ended := [], unsaved := [?j2]\<rparr>"
  let ?s4 = "?s3\<lparr>sched := remove_row ?i (sched ?s3), removing := [?i]\<rparr>"
  let ?s5 = "?s4\<lparr>sched := persist_job env ?j2 (sched ?s4), unsaved := []\<rparr>"
  let ?s6 = "?s5\<lparr>sched := fst (remove_entry ?i (sched ?s5)), removing := []\<rparr>"
  have "collect now (sched ?s0) = (sched ?s1, [(?i, job_url j, job_method j)])"
    using assms by (simp add: cron_init_def collect_def due_at_def)
  from cron_step.Collect [of ?s0 now, OF _ this, of env] assms
  have 1: "cron_step env ?s0 ?s1" by (simp add: cron_init_def)
  from cron_step.End [of ?s1 "[]" ?i "[]" env 0 "RunErr []"]
  have 2: "cron_step env ?s1 ?s2" by (simp add: cron_init_def)
  have "apply_in_memory now (?i, 0, RunErr []) (sched ?s2) = (sched ?s3, Some ?j2)"
    by (simp add: apply_in_memory_def)
  from cron_step.Apply [of ?s2 "[]" _ "[]", OF _ this, of env]
  have 3: "cron_step env ?s2 ?s3" by (simp add: cron_init_def)
  have 4: "cron_step env ?s3 ?s4"
    using cron_step.RemoveRow [of env ?s3 ?i] by (simp add: cron_init_def)
  from cron_step.Save [of ?s4 "[]" ?j2 "[]" env]
  have 5: "cron_step env ?s4 ?s5" by (simp add: cron_init_def)
  from cron_step.RemoveEntry [of ?s5 "[]" ?i "[]" env]
  have 6: "cron_step env ?s5 ?s6" by (simp add: cron_init_def)
  have "cron_reach env ?s0 ?s6"
    using 1 2 3 4 5 6 by (meson converse_rtranclp_into_rtranclp rtranclp.rtrancl_refl)
  moreover have "cron_jobs (sched ?s6) = []" "removing ?s6 = []" "running ?s6 = []" "ended ?s6 = []" "unsaved ?s6 = []"
    by (simp_all add: remove_entry_def remove_row_def persist_job_def cron_init_def)
  moreover have "\<exists>r. dm_get (stored_rows (sched ?s6)) ?i = Some r"
    using assms(2) by (simp add: stored_rows_def remove_entry_def persist_job_def remove_row_def dashmap_simps db_replay_def)
  ultimately show ?thesis by blast
qed

section \<open>Witnesses\<close>

definition demo_job :: cron_job where
  "demo_job = new_job 0 ''j1'' ''ping'' (EverySeconds 5) ''http://svc/'' ''get''"

definition demo_cron :: cron where
  "demo_cron = cron_new\<lparr>cron_jobs := [demo_job], cron_storage := Some []\<rparr>"

lemma demo_cron_simps:
  "cron_jobs demo_cron = [demo_job]" "in_flight demo_cron = []" "cron_storage demo_cron = Some []"
  "job_id demo_job = ''j1''" "job_enabled demo_job" "next_run demo_job = 5" "job_schedule demo_job = EverySeconds 5"
  by (simp_all add: demo_cron_def demo_job_def new_job_def cron_new_def sat_inc64_def u64_max_def)

text \<open>The job starts at 7, ends, and starts again at 12.\<close>

definition demo_run :: "nat \<Rightarrow> cron_sys" where
  "demo_run k =
     (let s1 = (cron_init demo_cron 0)\<lparr>sched := fst (collect 7 demo_cron), running := [''j1''],
            starts := [(''j1'', EverySeconds 5, 7)], clock := 7\<rparr>;
          s2 = s1\<lparr>sched := (sched s1)\<lparr>in_flight := []\<rparr>, running := [], ended := [(''j1'', 1, RunErr [])]\<rparr>
      in if k = 1 then s1 else if k = 2 then s2
         else s2\<lparr>sched := fst (collect 12 (sched s2)), running := [''j1''],
                starts := [(''j1'', EverySeconds 5, 12), (''j1'', EverySeconds 5, 7)], clock := 12\<rparr>)"

lemma demo_run_reach: "cron_reach env (cron_init demo_cron 0) (demo_run 3)"
proof -
  have next_run: "sat_inc64 7 5 = 12" by (simp add: sat_inc64_def u64_max_def)
  have "collect 7 (sched (cron_init demo_cron 0)) =
      (sched (demo_run 1), [(''j1'', job_url demo_job, job_method demo_job)])"
    by (simp add: demo_run_def cron_init_def collect_def demo_cron_simps)
  from cron_step.Collect [of "cron_init demo_cron 0" 7, OF _ this, of env]
  have 1: "cron_step env (cron_init demo_cron 0) (demo_run 1)"
    by (simp add: cron_init_def demo_cron_simps demo_run_def)
  from cron_step.End [of "demo_run 1" "[]" "''j1''" "[]" env 1 "RunErr []"]
  have 2: "cron_step env (demo_run 1) (demo_run 2)"
    by (simp add: demo_run_def cron_init_def collect_def demo_cron_simps)
  have "collect 12 (sched (demo_run 2)) = (sched (demo_run 3), [(''j1'', job_url demo_job, job_method demo_job)])"
    by (simp add: demo_run_def cron_init_def collect_def demo_cron_simps next_run)
  from cron_step.Collect [of "demo_run 2" 12, OF _ this, of env]
  have 3: "cron_step env (demo_run 2) (demo_run 3)"
    by (simp add: demo_run_def cron_init_def collect_def demo_cron_simps)
  from 1 2 3 show ?thesis by (meson converse_rtranclp_into_rtranclp rtranclp.rtrancl_refl)
qed

theorem no_overlapping_runs_witness: "distinct (running (demo_run 3)) \<and> running (demo_run 3) = [''j1'']"
  using no_overlapping_runs [OF _ demo_run_reach] by (simp add: demo_cron_simps demo_run_def)

theorem starts_spaced_witness:
  "spaced_log (starts (demo_run 3)) \<and> map (snd \<circ> snd) (starts (demo_run 3)) = [12, 7]"
  using starts_spaced [OF _ demo_run_reach] by (simp add: demo_cron_simps demo_run_def)

theorem removed_job_returns_witness:
  "\<exists>s. cron_reach env (cron_init demo_cron 0) s \<and> cron_jobs (sched s) = [] \<and>
     (\<exists>r. dm_get (stored_rows (sched s)) ''j1'' = Some r)"
  using removed_job_returns [of demo_cron demo_job "[]" 7 0 env]
  by (auto simp: demo_cron_simps due_at_def)

end
