(* ===== verification/Workflows.thy ===== *)
theory Workflows
  imports Cron
begin

text \<open>
  src/src/automation/workflows.rs, the chains of HTTP calls, and src/src/automation/retry.rs, the
  call with exponential back-off. The HTTP client is a parameter; it is told the number of the
  request, so that two requests for one address may be answered differently. An execution is
  modelled on its own: the lock is not held between its steps, but no other operation changes a
  workflow once it exists.
\<close>

section \<open>Workflows\<close>

datatype failure_action = StopFlow | SkipStep | RetryStep nat

datatype wf_state = WfPending | WfRunning | WfCompleted | WfFailed | WfCancelled

datatype step_state = StepPending | StepRunning | StepSuccess | StepFailed | StepSkipped

record wf_step =
  ws_name :: string
  ws_url :: string
  ws_method :: string
  ws_body :: "string option"
  ws_timeout_secs :: nat
  ws_on_failure :: failure_action
  ws_status :: step_state
  ws_response_status :: "nat option"
  ws_duration_ms :: real

record workflow =
  wf_id :: string
  wf_name :: string
  wf_steps :: "wf_step list"
  wf_status :: wf_state
  wf_current_step :: nat
  wf_created_at :: nat
  wf_finished_at :: "nat option"
  wf_error :: "string option"

text \<open>\<open>wf_send n\<close> is the answer to the \<open>n\<close>-th request and the time it took, \<open>wf_now n\<close> the clock after it.\<close>

record wf_env =
  wf_send :: "nat \<Rightarrow> verb \<Rightarrow> string \<Rightarrow> string option \<Rightarrow> (string + nat) \<times> real"
  wf_now :: "nat \<Rightarrow> nat"
  status_text :: "nat \<Rightarrow> string"

definition workflow_create ::
  "nat \<Rightarrow> string \<Rightarrow> string \<Rightarrow> wf_step list \<Rightarrow> workflow list \<Rightarrow> workflow list \<times> string" where
  "workflow_create now fresh_id name steps ws =
     (ws @ [\<lparr>wf_id = fresh_id, wf_name = name, wf_steps = steps, wf_status = WfPending,
             wf_current_step = 0, wf_created_at = now, wf_finished_at = None, wf_error = None\<rparr>], fresh_id)"

definition send_step :: "wf_env \<Rightarrow> nat \<Rightarrow> wf_step \<Rightarrow> (string + nat) \<times> real" where
  "send_step env n st =
     (let v = verb_of (ws_method st) in
      wf_send env n v (ws_url st) (if v = VPost then ws_body st else None))"

definition is_success :: "nat \<Rightarrow> bool" where
  "is_success status \<longleftrightarrow> 200 \<le> status \<and> status \<le> 299"

text \<open>The retries of a step: did one succeed, the last status and duration, the next request.\<close>

fun retry_step :: "wf_env \<Rightarrow> wf_step \<Rightarrow> nat \<Rightarrow> nat \<Rightarrow> nat \<Rightarrow> real \<Rightarrow> bool \<times> nat \<times> real \<times> nat" where
  "retry_step env st 0 n last_code last_duration = (False, last_code, last_duration, n)"
| "retry_step env st (Suc left) n last_code last_duration =
     (case send_step env n st of
        (Inr status, took) \<Rightarrow>
          if is_success status then (True, status, took, Suc n)
          else retry_step env st left (Suc n) status took
      | (Inl e, took) \<Rightarrow> retry_step env st left (Suc n) last_code took)"

definition set_step :: "nat \<Rightarrow> (wf_step \<Rightarrow> wf_step) \<Rightarrow> workflow \<Rightarrow> workflow" where
  "set_step i f w = w\<lparr>wf_steps := (wf_steps w)[i := f (wf_steps w ! i)]\<rparr>"

definition fail_workflow :: "string \<Rightarrow> nat \<Rightarrow> workflow \<Rightarrow> workflow" where
  "fail_workflow e now w = w\<lparr>wf_status := WfFailed, wf_error := Some e, wf_finished_at := Some now\<rparr>"

text \<open>
  One step on its workflow. \<open>Inl e\<close> ends the execution with the error, \<open>Inr (Some e)\<close> goes on
  after a skipped failure.
\<close>

definition run_step ::
  "wf_env \<Rightarrow> nat \<Rightarrow> wf_step \<Rightarrow> nat \<Rightarrow> workflow \<Rightarrow> workflow \<times> nat \<times> (string + string option)" where
  "run_step env i st n w0 =
     (let (result, took) = send_step env n st; n1 = Suc n; w = w0\<lparr>wf_current_step := i\<rparr> in
      case result of
        Inr status \<Rightarrow>
          (let w1 = set_step i (\<lambda>s. s\<lparr>ws_response_status := Some status, ws_duration_ms := took\<rparr>) w;
               err = ''Step '' @ ws_name st @ '' failed: HTTP '' @ status_text env status in
           if is_success status then (set_step i (\<lambda>s. s\<lparr>ws_status := StepSuccess\<rparr>) w1, n1, Inr None)
           else case ws_on_failure st of
                  StopFlow \<Rightarrow>
                    (fail_workflow err (wf_now env n1) (set_step i (\<lambda>s. s\<lparr>ws_status := StepFailed\<rparr>) w1), n1, Inl err)
                | SkipStep \<Rightarrow> (set_step i (\<lambda>s. s\<lparr>ws_status := StepSkipped\<rparr>) w1, n1, Inr (Some err))
                | RetryStep max_retries \<Rightarrow>
                    (let attempts = max max_retries 1;
                         (succeeded, last_code, last_duration, n2) = retry_step env st attempts n1 status took;
                         w2 = set_step i (\<lambda>s. s\<lparr>ws_status := (if succeeded then StepSuccess else StepFailed),
                                ws_duration_ms := last_duration, ws_response_status := Some last_code\<rparr>) w1;
                         final = ''Step '' @ ws_name st @ '' failed after '' @ show_nat attempts @
                           '' retries: last HTTP '' @ show_nat last_code
                     in if succeeded then (w2, n2, Inr None)
                        else (fail_workflow final (wf_now env n2) w2, n2, Inl final)))
      | Inl e \<Rightarrow>
          (let err = ''Step '' @ ws_name st @ '' error: '' @ e in
           case ws_on_failure st of
             SkipStep \<Rightarrow>
               (set_step i (\<lambda>s. s\<lparr>ws_status := StepSkipped, ws_duration_ms := took\<rparr>) w, n1, Inr (Some err))
           | _ \<Rightarrow>
               (fail_workflow err (wf_now env n1)
                  (set_step i (\<lambda>s. s\<lparr>ws_status := StepFailed, ws_duration_ms := took\<rparr>) w), n1, Inl err)))"

fun run_steps ::
  "wf_env \<Rightarrow> nat \<Rightarrow> wf_step list \<Rightarrow> nat \<Rightarrow> string option \<Rightarrow> workflow \<Rightarrow> workflow \<times> nat \<times> (string + unit)" where
  "run_steps env i [] n first_failure w =
     (case first_failure of
        Some e \<Rightarrow> w\<lparr>wf_status := WfFailed, wf_error := Some e, wf_finished_at := Some (wf_now env n)\<rparr>
      | None \<Rightarrow> w\<lparr>wf_status := WfCompleted, wf_finished_at := Some (wf_now env n)\<rparr>, n, Inr ())"
| "run_steps env i (st # sts) n first_failure w =
     (case run_step env i st n w of
        (w', n', Inl e) \<Rightarrow> (w', n', Inl e)
      | (w', n', Inr skipped) \<Rightarrow>
          run_steps env (Suc i) sts n' (if first_failure = None then skipped else first_failure) w')"

text \<open>The first workflow with the identifier is executed; the number of requests is returned too.\<close>

fun workflow_execute ::
  "wf_env \<Rightarrow> string \<Rightarrow> nat \<Rightarrow> workflow list \<Rightarrow> workflow list \<times> nat \<times> (string + unit)" where
  "workflow_execute env i n [] = ([], n, Inl ''Workflow not found'')"
| "workflow_execute env i n (w # ws) =
     (if wf_id w = i
      then (let (w', n', r) = run_steps env 0 (wf_steps w) n None (w\<lparr>wf_status := WfRunning\<rparr>) in (w' # ws, n', r))
      else (let (ws', n', r) = workflow_execute env i n ws in (w # ws', n', r)))"

section \<open>The call with back-off\<close>

record auto_retry_policy =
  ar_max_attempts :: nat
  ar_initial_delay_ms :: nat
  ar_max_delay_ms :: nat
  ar_backoff_multiplier :: real
  ar_retry_on_status :: "nat list"

definition auto_retry_default :: auto_retry_policy where
  "auto_retry_default =
     \<lparr>ar_max_attempts = 3, ar_initial_delay_ms = 1000, ar_max_delay_ms = 30000,
      ar_backoff_multiplier = 2, ar_retry_on_status = [500, 502, 503, 504]\<rparr>"

record retry_result =
  rr_status :: nat
  rr_attempts :: nat
  rr_total_duration_ms :: real
  rr_success :: bool

text \<open>The cast of a float to \<open>u64\<close> cuts the fraction and saturates.\<close>

definition real_to_u64 :: "real \<Rightarrow> nat" where
  "real_to_u64 x = min (nat \<lfloor>x\<rfloor>) u64_max"

definition calculate_delay :: "nat \<Rightarrow> auto_retry_policy \<Rightarrow> nat" where
  "calculate_delay attempt p =
     min (real_to_u64 (real (ar_initial_delay_ms p) * ar_backoff_multiplier p ^ (attempt - 1))) (ar_max_delay_ms p)"

text \<open>
  The loop from an attempt on: the answer, the pauses it slept in milliseconds, and the next
  request. It stops at the latest with attempt \<open>max_attempts\<close>.
\<close>

function retry_from ::
  "wf_env \<Rightarrow> wf_step \<Rightarrow> auto_retry_policy \<Rightarrow> nat \<Rightarrow> real \<Rightarrow> nat \<Rightarrow> (string + retry_result) \<times> nat list \<times> nat" where
  "retry_from env st p tried spent n =
     (let attempt = Suc tried; (result, took) = send_step env n st; spent' = spent + took in
      case result of
        Inr status \<Rightarrow>
          if status \<in> set (ar_retry_on_status p) \<and> attempt < ar_max_attempts p
          then (let (r, pauses, n') = retry_from env st p attempt spent' (Suc n)
                in (r, calculate_delay attempt p # pauses, n'))
          else (Inr \<lparr>rr_status = status, rr_attempts = attempt, rr_total_duration_ms = spent',
                    rr_success = is_success status\<rparr>, [], Suc n)
      | Inl e \<Rightarrow>
          if ar_max_attempts p \<le> attempt
          then (Inl (''All '' @ show_nat (ar_max_attempts p) @ '' attempts failed. Last: '' @ e), [], Suc n)
          else (let (r, pauses, n') = retry_from env st p attempt spent' (Suc n)
                in (r, calculate_delay attempt p # pauses, n')))"
  by pat_completeness auto
termination by (relation "measure (\<lambda>(env, st, p, tried, spent, n). ar_max_attempts p - tried)") auto

declare retry_from.simps [simp del]

definition execute_with_retry ::
  "wf_env \<Rightarrow> wf_step \<Rightarrow> auto_retry_policy \<Rightarrow> nat \<Rightarrow> (string + retry_result) \<times> nat list \<times> nat" where
  "execute_with_retry env st p n = retry_from env st p 0 0 n"

section \<open>What the call with back-off does\<close>

definition retryable :: "auto_retry_policy \<Rightarrow> string + nat \<Rightarrow> bool" where
  "retryable p r = (case r of Inl e \<Rightarrow> True | Inr status \<Rightarrow> status \<in> set (ar_retry_on_status p))"

lemma retry_from_exact:
  assumes "retry_from env st p tried spent n = (r, pauses, n')" "tried < max 1 (ar_max_attempts p)"
  shows "n' = n + length pauses + 1 \<and> tried + length pauses < max 1 (ar_max_attempts p) \<and>
    (\<forall>k < length pauses. retryable p (fst (send_step env (n + k) st)) \<and>
       pauses ! k = calculate_delay (tried + k + 1) p) \<and>
    (case fst (send_step env (n + length pauses) st) of
       Inr status \<Rightarrow> \<exists>t. r = Inr \<lparr>rr_status = status, rr_attempts = tried + length pauses + 1,
                                 rr_total_duration_ms = t, rr_success = is_success status\<rparr>
     | Inl e \<Rightarrow> r = Inl (''All '' @ show_nat (ar_max_attempts p) @ '' attempts failed. Last: '' @ e)) \<and>
    (retryable p (fst (send_step env (n + length pauses) st)) \<longrightarrow>
       ar_max_attempts p \<le> tried + length pauses + 1)"
  using assms
proof (induction "ar_max_attempts p - tried" arbitrary: tried spent n r pauses n' rule: less_induct)
  case less
  obtain result took where send: "send_step env n st = (result, took)" by fastforce
  show ?case
  proof (cases "retryable p result \<and> Suc tried < ar_max_attempts p")
    case True
    obtain r1 pauses1 n1 where rec: "retry_from env st p (Suc tried) (spent + took) (Suc n) = (r1, pauses1, n1)"
      by (cases "retry_from env st p (Suc tried) (spent + took) (Suc n)") auto
    have eq: "r = r1" "pauses = calculate_delay (Suc tried) p # pauses1" "n' = n1"
      using less.prems(1) True
      by (auto simp: retry_from.simps [of env st p tried] send rec retryable_def Let_def split: sum.splits if_splits)
    have "ar_max_attempts p - Suc tried < ar_max_attempts p - tried" "Suc tried < max 1 (ar_max_attempts p)"
      using True by auto
    note ih = less.hyps [OF this(1) rec this(2)]
    have first: "\<forall>k < length pauses. retryable p (fst (send_step env (n + k) st)) \<and>
        pauses ! k = calculate_delay (tried + k + 1) p"
    proof (intro allI impI)
      fix k assume k: "k < length pauses"
      show "retryable p (fst (send_step env (n + k) st)) \<and> pauses ! k = calculate_delay (tried + k + 1) p"
      proof (cases k)
        case 0
        then show ?thesis using True by (simp add: eq send)
      next
        case (Suc m)
        with k ih show ?thesis by (simp add: eq)
      qed
    qed
    with ih show ?thesis by (simp add: eq cong: sum.case_cong)
  next
    case False
    then have "pauses = [] \<and> n' = Suc n \<and>
       (case result of
          Inr status \<Rightarrow> r = Inr \<lparr>rr_status = status, rr_attempts = Suc tried, rr_total_duration_ms = spent + took,
                                rr_success = is_success status\<rparr>
        | Inl e \<Rightarrow> r = Inl (''All '' @ show_nat (ar_max_attempts p) @ '' attempts failed. Last: '' @ e))"
      using less.prems(1)
      by (auto simp: retry_from.simps [of env st p tried] send retryable_def Let_def not_less
          split: sum.splits if_splits)
    with False less.prems(2) show ?thesis
      by (auto simp: send split: sum.splits)
  qed
qed

text \<open>
  The call with back-off sends as many requests as it needs and no more than the policy allows. It
  returns the answer of its last request; all earlier ones were refused by the network or had a
  status to retry, each was followed by the pause of the policy, and the last one is such a
  failure only when the attempts are used up.
\<close>

theorem execute_with_retry_exact:
  assumes "execute_with_retry env st p n = (r, pauses, n')"
  shows "n' - n = length pauses + 1 \<and> length pauses < max 1 (ar_max_attempts p) \<and>
    (\<forall>k < length pauses. retryable p (fst (send_step env (n + k) st)) \<and> pauses ! k = calculate_delay (k + 1) p \<and>
       pauses ! k \<le> ar_max_delay_ms p) \<and>
    (case fst (send_step env (n' - 1) st) of
       Inr status \<Rightarrow> \<exists>t. r = Inr \<lparr>rr_status = status, rr_attempts = n' - n, rr_total_duration_ms = t,
                                 rr_success = is_success status\<rparr>
     | Inl e \<Rightarrow> r = Inl (''All '' @ show_nat (ar_max_attempts p) @ '' attempts failed. Last: '' @ e)) \<and>
    (retryable p (fst (send_step env (n' - 1) st)) \<longrightarrow> ar_max_attempts p \<le> n' - n)"
proof -
  have "retry_from env st p 0 0 n = (r, pauses, n')" using assms by (simp add: execute_with_retry_def)
  note exact = retry_from_exact [OF this]
  have "calculate_delay k p \<le> ar_max_delay_ms p" for k by (simp add: calculate_delay_def)
  with exact show ?thesis by (auto split: sum.splits)
qed

section \<open>What an execution does\<close>

lemma set_step_simps [simp]:
  "wf_id (set_step i f w) = wf_id w" "wf_status (set_step i f w) = wf_status w"
  "wf_error (set_step i f w) = wf_error w" "wf_finished_at (set_step i f w) = wf_finished_at w"
  "length (wf_steps (set_step i f w)) = length (wf_steps w)"
  by (simp_all add: set_step_def)

lemma set_step_nth [simp]:
  "wf_steps (set_step i f w) ! k = (if k = i \<and> i < length (wf_steps w) then f (wf_steps w ! i) else wf_steps w ! k)"
  unfolding set_step_def by (cases "i < length (wf_steps w)") (simp_all add: list_update_beyond)

lemma fail_workflow_simps [simp]:
  "wf_id (fail_workflow e t w) = wf_id w" "wf_status (fail_workflow e t w) = WfFailed"
  "wf_error (fail_workflow e t w) = Some e" "wf_finished_at (fail_workflow e t w) = Some t"
  "wf_steps (fail_workflow e t w) = wf_steps w"
  by (simp_all add: fail_workflow_def)

lemma run_step_exact:
  assumes "run_step env i st n w = (w', n', r)" "i < length (wf_steps w)"
  shows "length (wf_steps w') = length (wf_steps w) \<and> wf_id w' = wf_id w \<and>
    (\<forall>k. k \<noteq> i \<longrightarrow> wf_steps w' ! k = wf_steps w ! k) \<and>
    (case r of
       Inl e \<Rightarrow> wf_status w' = WfFailed \<and> wf_error w' = Some e \<and> wf_finished_at w' \<noteq> None \<and>
                ws_status (wf_steps w' ! i) = StepFailed
     | Inr None \<Rightarrow> wf_status w' = wf_status w \<and> ws_status (wf_steps w' ! i) = StepSuccess
     | Inr (Some e) \<Rightarrow> wf_status w' = wf_status w \<and> ws_status (wf_steps w' ! i) = StepSkipped)"
  using assms
  by (auto simp: run_step_def Let_def split: prod.splits sum.splits if_splits failure_action.splits)

definition execution_outcome :: "nat \<Rightarrow> workflow \<Rightarrow> string option \<Rightarrow> workflow \<Rightarrow> string + unit \<Rightarrow> bool" where
  "execution_outcome i w failure w' r \<longleftrightarrow>
     (\<exists>k. i \<le> k \<and> k \<le> length (wf_steps w) \<and> length (wf_steps w') = length (wf_steps w) \<and> wf_id w' = wf_id w \<and>
        (\<forall>m < i. wf_steps w' ! m = wf_steps w ! m) \<and>
        (\<forall>m. i \<le> m \<and> m < k \<longrightarrow> ws_status (wf_steps w' ! m) \<in> {StepSuccess, StepSkipped}) \<and>
        (\<forall>m. k < m \<longrightarrow> wf_steps w' ! m = wf_steps w ! m) \<and> wf_finished_at w' \<noteq> None \<and>
        (case r of
           Inl e \<Rightarrow> k < length (wf_steps w) \<and> ws_status (wf_steps w' ! k) = StepFailed \<and>
             wf_status w' = WfFailed \<and> wf_error w' = Some e
         | Inr _ \<Rightarrow> k = length (wf_steps w) \<and>
             wf_status w' = (if failure = None \<and>
                 (\<forall>m. i \<le> m \<and> m < k \<longrightarrow> ws_status (wf_steps w' ! m) = StepSuccess)
               then WfCompleted else WfFailed)))"

lemma run_steps_exact:
  assumes "run_steps env i sts n failure w = (w', n', r)" "i + length sts = length (wf_steps w)"
  shows "execution_outcome i w failure w' r"
  using assms
proof (induction sts arbitrary: i n failure w)
  case Nil
  then show ?case by (auto simp: execution_outcome_def split: option.splits)
next
  case (Cons st sts)
  obtain w1 n1 r1 where step: "run_step env i st n w = (w1, n1, r1)" by (cases "run_step env i st n w") auto
  have i: "i < length (wf_steps w)" using Cons.prems(2) by simp
  note one = run_step_exact [OF step i]
  show ?case
  proof (cases r1)
    case (Inl e)
    then have "w' = w1" "r = Inl e" using Cons.prems(1) by (auto simp: step)
    then show ?thesis using one i unfolding execution_outcome_def by (intro exI [of _ i]) (auto simp: Inl)
  next
    case (Inr skipped)
    let ?f = "if failure = None then skipped else failure"
    have rest: "run_steps env (Suc i) sts n1 ?f w1 = (w', n', r)" using Cons.prems(1) by (simp add: step Inr)
    have "Suc i + length sts = length (wf_steps w1)" using Cons.prems(2) one by simp
    from Cons.IH [OF rest this] obtain k where k: "Suc i \<le> k" "k \<le> length (wf_steps w1)"
      "length (wf_steps w') = length (wf_steps w1)" "wf_id w' = wf_id w1"
      "\<forall>m < Suc i. wf_steps w' ! m = wf_steps w1 ! m"
      "\<forall>m. Suc i \<le> m \<and> m < k \<longrightarrow> ws_status (wf_steps w' ! m) \<in> {StepSuccess, StepSkipped}"
      "\<forall>m. k < m \<longrightarrow> wf_steps w' ! m = wf_steps w1 ! m" "wf_finished_at w' \<noteq> None"
      "case r of
         Inl e \<Rightarrow> k < length (wf_steps w1) \<and> ws_status (wf_steps w' ! k) = StepFailed \<and>
           wf_status w' = WfFailed \<and> wf_error w' = Some e
       | Inr _ \<Rightarrow> k = length (wf_steps w1) \<and>
           wf_status w' = (if ?f = None \<and> (\<forall>m. Suc i \<le> m \<and> m < k \<longrightarrow> ws_status (wf_steps w' ! m) = StepSuccess)
             then WfCompleted else WfFailed)"
      unfolding execution_outcome_def by blast
    have here: "ws_status (wf_steps w' ! i) = (if skipped = None then StepSuccess else StepSkipped)"
      using k(5) one by (cases skipped) (simp_all add: Inr)
    have range: "(\<forall>m. i \<le> m \<and> m < k \<longrightarrow> P m) \<longleftrightarrow> P i \<and> (\<forall>m. Suc i \<le> m \<and> m < k \<longrightarrow> P m)" for P
      using k(1) by (auto simp: Suc_le_eq) (metis le_neq_implies_less)
    have status: "(?f = None \<and> (\<forall>m. Suc i \<le> m \<and> m < k \<longrightarrow> ws_status (wf_steps w' ! m) = StepSuccess)) \<longleftrightarrow>
        (failure = None \<and> (\<forall>m. i \<le> m \<and> m < k \<longrightarrow> ws_status (wf_steps w' ! m) = StepSuccess))"
      unfolding range [of "\<lambda>m. ws_status (wf_steps w' ! m) = StepSuccess"] here by (cases skipped) auto
    have same: "length (wf_steps w1) = length (wf_steps w)" "wf_id w1 = wf_id w"
      "\<And>m. m \<noteq> i \<Longrightarrow> wf_steps w1 ! m = wf_steps w ! m" using one by simp_all
    show ?thesis
      unfolding execution_outcome_def
    proof (intro exI [of _ k] conjI)
      show "\<forall>m. i \<le> m \<and> m < k \<longrightarrow> ws_status (wf_steps w' ! m) \<in> {StepSuccess, StepSkipped}"
        unfolding range [of "\<lambda>m. ws_status (wf_steps w' ! m) \<in> {StepSuccess, StepSkipped}"]
        using k(6) here by simp
      show "case r of
         Inl e \<Rightarrow> k < length (wf_steps w) \<and> ws_status (wf_steps w' ! k) = StepFailed \<and>
           wf_status w' = WfFailed \<and> wf_error w' = Some e
       | Inr _ \<Rightarrow> k = length (wf_steps w) \<and>
           wf_status w' = (if failure = None \<and>
               (\<forall>m. i \<le> m \<and> m < k \<longrightarrow> ws_status (wf_steps w' ! m) = StepSuccess)
             then WfCompleted else WfFailed)"
        using k(9) unfolding status same by simp
    qed (use k same in auto)
  qed
qed

lemma execute_member:
  assumes "workflow_execute env i n ws = (ws', n', r)" "w \<in> set ws" "wf_id w = i" "distinct (map wf_id ws)"
  shows "\<exists>w'. run_steps env 0 (wf_steps w) n None (w\<lparr>wf_status := WfRunning\<rparr>) = (w', n', r) \<and>
    ws' = map (\<lambda>x. if wf_id x = i then w' else x) ws"
  using assms
proof (induction ws arbitrary: ws')
  case (Cons x ws)
  show ?case
  proof (cases "wf_id x = i")
    case True
    have other: "wf_id y \<noteq> i" if "y \<in> set ws" for y
      using Cons.prems(4) that True by (metis distinct.simps(2) image_eqI list.simps(9) list.set_map)
    with Cons.prems(2,3) True have "x = w" by auto
    moreover have "map (\<lambda>x. if wf_id x = i then w' else x) ws = ws" for w'
      using other by (auto intro: map_idI)
    ultimately show ?thesis using Cons.prems(1,3) by (auto split: prod.splits)
  next
    case False
    obtain ws1 where "workflow_execute env i n ws = (ws1, n', r)" "ws' = x # ws1"
      using Cons.prems(1) False by (cases "workflow_execute env i n ws") auto
    with Cons.IH [OF this(1)] Cons.prems False show ?thesis by auto
  qed
qed simp

text \<open>
  C33: How an execution ends. Executing a workflow leaves every other workflow alone and this one
  finished: all its steps up to some point succeeded or were skipped. If it returns an error, the
  next step failed, the steps after it were not touched and the workflow has failed with that very
  error; otherwise all steps were run, and the workflow is completed exactly when
  every step succeeded, so that a skipped failure still shows.
\<close>

theorem workflow_outcome:
  assumes "workflow_execute env (wf_id w) n ws = (ws', n', r)" "w \<in> set ws" "distinct (map wf_id ws)"
  shows "\<exists>w' k. ws' = map (\<lambda>x. if wf_id x = wf_id w then w' else x) ws \<and> wf_id w' = wf_id w \<and>
    length (wf_steps w') = length (wf_steps w) \<and> k \<le> length (wf_steps w) \<and>
    (\<forall>m < k. ws_status (wf_steps w' ! m) \<in> {StepSuccess, StepSkipped}) \<and>
    (\<forall>m > k. wf_steps w' ! m = wf_steps w ! m) \<and> wf_finished_at w' \<noteq> None \<and>
    (case r of
       Inl e \<Rightarrow> k < length (wf_steps w) \<and> ws_status (wf_steps w' ! k) = StepFailed \<and>
         wf_status w' = WfFailed \<and> wf_error w' = Some e
     | Inr _ \<Rightarrow> k = length (wf_steps w) \<and>
         wf_status w' = (if \<forall>m < k. ws_status (wf_steps w' ! m) = StepSuccess then WfCompleted else WfFailed))"
proof -
  obtain w' where run: "run_steps env 0 (wf_steps w) n None (w\<lparr>wf_status := WfRunning\<rparr>) = (w', n', r)"
    and ws': "ws' = map (\<lambda>x. if wf_id x = wf_id w then w' else x) ws"
    using execute_member [OF assms(1,2) refl assms(3)] by blast
  have "execution_outcome 0 (w\<lparr>wf_status := WfRunning\<rparr>) None w' r"
    by (rule run_steps_exact [OF run]) simp
  then obtain k where k: "k \<le> length (wf_steps w)" "length (wf_steps w') = length (wf_steps w)" "wf_id w' = wf_id w"
    "\<forall>m. m < k \<longrightarrow> ws_status (wf_steps w' ! m) \<in> {StepSuccess, StepSkipped}"
    "\<forall>m. k < m \<longrightarrow> wf_steps w' ! m = wf_steps w ! m" "wf_finished_at w' \<noteq> None"
    "case r of
       Inl e \<Rightarrow> k < length (wf_steps w) \<and> ws_status (wf_steps w' ! k) = StepFailed \<and>
         wf_status w' = WfFailed \<and> wf_error w' = Some e
     | Inr _ \<Rightarrow> k = length (wf_steps w) \<and>
         wf_status w' = (if \<forall>m. m < k \<longrightarrow> ws_status (wf_steps w' ! m) = StepSuccess then WfCompleted else WfFailed)"
    by (auto simp: execution_outcome_def cong: sum.case_cong)
  with ws' show ?thesis by blast
qed

text \<open>
  A step with retries is not retried when the network fails: with no answer at all to its first
  request the workflow fails after that one request, while any answered failure is retried.
\<close>

theorem transport_error_not_retried:
  assumes "wf_steps w = [st]" "ws_on_failure st = RetryStep max_retries" "fst (send_step env n st) = Inl e"
  shows "\<exists>w'. workflow_execute env (wf_id w) n [w] = ([w'], Suc n, Inl (''Step '' @ ws_name st @ '' error: '' @ e)) \<and>
    wf_status w' = WfFailed"
  using assms by (cases "send_step env n st") (simp add: run_step_def Let_def)

section \<open>Witnesses\<close>

definition demo_wf_step :: "string \<Rightarrow> failure_action \<Rightarrow> wf_step" where
  "demo_wf_step name action =
     \<lparr>ws_name = name, ws_url = ''http://svc/'' @ name, ws_method = ''GET'', ws_body = None, ws_timeout_secs = 5,
      ws_on_failure = action, ws_status = StepPending, ws_response_status = None, ws_duration_ms = 0\<rparr>"

definition demo_wf_env :: wf_env where
  "demo_wf_env = \<lparr>wf_send = (\<lambda>n v url body. (Inr (if n = 1 then 500 else 200), 1)), wf_now = (\<lambda>n. 100 + n),
     status_text = (\<lambda>_. ''500'')\<rparr>"

definition demo_workflow :: workflow where
  "demo_workflow =
     \<lparr>wf_id = ''w1'', wf_name = ''deploy'',
      wf_steps = [demo_wf_step ''a'' StopFlow, demo_wf_step ''b'' SkipStep, demo_wf_step ''c'' StopFlow],
      wf_status = WfPending, wf_current_step = 0, wf_created_at = 0, wf_finished_at = None, wf_error = None\<rparr>"

theorem workflow_outcome_witness:
  "\<exists>w'. fst (workflow_execute demo_wf_env ''w1'' 0 [demo_workflow]) = [w'] \<and>
     snd (snd (workflow_execute demo_wf_env ''w1'' 0 [demo_workflow])) = Inr () \<and>
     ws_status (wf_steps w' ! 1) = StepSkipped \<and> wf_status w' = WfFailed"
proof -
  have i: "wf_id demo_workflow = ''w1''" "length (wf_steps demo_workflow) = 3" by (simp_all add: demo_workflow_def)
  have "ws_status (wf_steps (fst (workflow_execute demo_wf_env ''w1'' 0 [demo_workflow]) ! 0) ! 1) = StepSkipped \<and>
      snd (snd (workflow_execute demo_wf_env ''w1'' 0 [demo_workflow])) = Inr ()"
    by (simp add: demo_workflow_def demo_wf_step_def demo_wf_env_def run_step_def send_step_def is_success_def
        set_step_def Let_def verb_of_def split: verb.split)
  then obtain ws' n' where run: "workflow_execute demo_wf_env (wf_id demo_workflow) 0 [demo_workflow] = (ws', n', Inr ())"
    and skipped: "ws_status (wf_steps (ws' ! 0) ! 1) = StepSkipped"
    by (cases "workflow_execute demo_wf_env ''w1'' 0 [demo_workflow]") (simp add: i)
  obtain w' where w': "ws' = [w']" "wf_status w' = (if \<forall>m < (3::nat). ws_status (wf_steps w' ! m) = StepSuccess then WfCompleted else WfFailed)"
    using workflow_outcome [OF run] by (auto simp: i)
  have "\<not> (\<forall>m < (3::nat). ws_status (wf_steps w' ! m) = StepSuccess)"
    using skipped w'(1) by (auto intro: exI [of _ 1])
  with w' skipped run show ?thesis by (auto simp: i)
qed

end
