(* ===== verification/Deployment.thy ===== *)
theory Deployment
  imports Interfaces Complex_Main "HOL-Library.List_Lexorder" "HOL-Library.Char_ord"
begin

text \<open>
  src/src/deployment/: feature flags with targeting rules and a gradual roll-out, and blue/green
  releases with an automatic roll-back. The hash of the roll-out is a parameter; the error rates
  are reals (a rate that is not a number is left out).
\<close>

section \<open>Feature flags\<close>

datatype operator = OpEquals | OpNotEquals | OpContains | OpStartsWith | OpInList

record target_rule =
  tr_attribute :: string
  tr_operator :: operator
  tr_value :: string

record feature_flag =
  flag_name :: string
  flag_enabled :: bool
  flag_description :: string
  flag_percentage :: nat
  flag_rules :: "target_rule list"
  flag_created_at :: nat
  flag_updated_at :: nat
  eval_count :: nat
  true_count :: nat

type_synonym flag_mgr = "(string, feature_flag) dashmap"

type_synonym flag_context = "(string, string) dashmap"

definition flag_create :: "nat \<Rightarrow> string \<Rightarrow> string \<Rightarrow> bool \<Rightarrow> nat \<Rightarrow> flag_mgr \<Rightarrow> flag_mgr" where
  "flag_create now name description enabled percentage m =
     dm_insert name
       \<lparr>flag_name = name, flag_enabled = enabled, flag_description = description,
        flag_percentage = percentage, flag_rules = [], flag_created_at = now, flag_updated_at = now,
        eval_count = 0, true_count = 0\<rparr> m"

fun operator_matches :: "operator \<Rightarrow> string \<Rightarrow> string \<Rightarrow> bool" where
  "operator_matches OpEquals attr v \<longleftrightarrow> attr = v"
| "operator_matches OpNotEquals attr v \<longleftrightarrow> attr \<noteq> v"
| "operator_matches OpContains attr v \<longleftrightarrow> str_contains attr v"
| "operator_matches OpStartsWith attr v \<longleftrightarrow> prefix v attr"
| "operator_matches OpInList attr v \<longleftrightarrow> list_ex (\<lambda>x. trim x = attr) (split_on (CHR '','') v)"

definition rule_matches :: "flag_context \<Rightarrow> target_rule \<Rightarrow> bool" where
  "rule_matches ctx r =
     operator_matches (tr_operator r) (dm_or_insert ctx (tr_attribute r) []) (tr_value r)"

text \<open>The bucket of a caller: the hash of the sorted context and the name, from 0 to 99.\<close>

definition rollout_bucket :: "((string \<times> string) list \<Rightarrow> string \<Rightarrow> nat) \<Rightarrow> string \<Rightarrow> flag_context \<Rightarrow> nat" where
  "rollout_bucket hsh name ctx = hsh (sort_key fst ctx) name mod 100"

definition flag_on ::
  "((string \<times> string) list \<Rightarrow> string \<Rightarrow> nat) \<Rightarrow> string \<Rightarrow> flag_context \<Rightarrow> feature_flag \<Rightarrow> bool" where
  "flag_on hsh name ctx f =
     (if \<not> flag_enabled f then False
      else if \<not> list_all (rule_matches ctx) (flag_rules f) then False
      else if flag_percentage f < 100 \<and> flag_percentage f \<le> rollout_bucket hsh name ctx then False
      else True)"

definition flag_evaluate ::
  "((string \<times> string) list \<Rightarrow> string \<Rightarrow> nat) \<Rightarrow> string \<Rightarrow> flag_context \<Rightarrow> flag_mgr \<Rightarrow> flag_mgr \<times> bool" where
  "flag_evaluate hsh name ctx m =
     (case dm_get m name of
        None \<Rightarrow> (m, False)
      | Some f \<Rightarrow>
          (let f1 = f\<lparr>eval_count := wrap_add64 (eval_count f) 1\<rparr>; on = flag_on hsh name ctx f1
           in (dm_insert name (if on then f1\<lparr>true_count := wrap_add64 (true_count f1) 1\<rparr> else f1) m, on)))"

definition flag_add_rule :: "string \<Rightarrow> target_rule \<Rightarrow> flag_mgr \<Rightarrow> flag_mgr \<times> bool" where
  "flag_add_rule name r m =
     (case dm_get m name of
        Some f \<Rightarrow> (dm_insert name (f\<lparr>flag_rules := flag_rules f @ [r]\<rparr>) m, True)
      | None \<Rightarrow> (m, False))"

definition flag_toggle :: "string \<Rightarrow> flag_mgr \<Rightarrow> flag_mgr \<times> bool option" where
  "flag_toggle name m =
     (case dm_get m name of
        Some f \<Rightarrow> (dm_insert name (f\<lparr>flag_enabled := \<not> flag_enabled f\<rparr>) m, Some (\<not> flag_enabled f))
      | None \<Rightarrow> (m, None))"

definition flag_list :: "flag_mgr \<Rightarrow> feature_flag list" where
  "flag_list m = map snd m"

section \<open>What the flags promise\<close>

lemma evaluate_result:
  "snd (flag_evaluate hsh name ctx m) = (case dm_get m name of Some f \<Rightarrow> flag_on hsh name ctx f | None \<Rightarrow> False)"
  by (auto simp: flag_evaluate_def Let_def flag_on_def split: option.split)

text \<open>Evaluating changes counters only, so it never changes an answer.\<close>

definition same_but_counters :: "feature_flag \<Rightarrow> feature_flag \<Rightarrow> bool" where
  "same_but_counters f g \<longleftrightarrow> f\<lparr>eval_count := 0, true_count := 0\<rparr> = g\<lparr>eval_count := 0, true_count := 0\<rparr>"

lemma flag_on_same: "same_but_counters f g \<Longrightarrow> flag_on hsh name ctx f = flag_on hsh name ctx g"
  by (cases f; cases g) (simp add: same_but_counters_def flag_on_def)

lemma evaluate_same:
  "rel_option same_but_counters (dm_get m k) (dm_get (fst (flag_evaluate hsh name ctx m)) k)"
proof -
  have refl: "rel_option same_but_counters x x" for x
    by (cases x) (simp_all add: same_but_counters_def)
  show ?thesis
    by (auto simp: flag_evaluate_def Let_def dashmap_simps same_but_counters_def refl split: option.split)
qed

theorem evaluation_stable:
  "snd (flag_evaluate hsh name ctx (fold (\<lambda>(n, c) m. fst (flag_evaluate hsh n c m)) es m)) =
     snd (flag_evaluate hsh name ctx m)"
proof (induction es arbitrary: m)
  case (Cons e es)
  obtain n c where e: "e = (n, c)" by (cases e)
  have "rel_option same_but_counters (dm_get m name) (dm_get (fst (flag_evaluate hsh n c m)) name)"
    by (rule evaluate_same)
  then have "snd (flag_evaluate hsh name ctx (fst (flag_evaluate hsh n c m))) = snd (flag_evaluate hsh name ctx m)"
    by (cases "dm_get m name"; cases "dm_get (fst (flag_evaluate hsh n c m)) name")
      (simp_all add: evaluate_result flag_on_same)
  with Cons.IH [of "fst (flag_evaluate hsh n c m)"] show ?case by (simp add: e)
qed simp

text \<open>
  When a flag is on, and that a roll-out only grows: it is on for a caller exactly when it exists,
  is enabled, all its rules match and the caller's bucket is below its percentage; raising the
  percentage switches nobody off, and a percentage of 100 reaches everybody the rules admit.
\<close>

theorem rollout_monotone:
  "snd (flag_evaluate hsh name ctx m) \<longleftrightarrow>
     (\<exists>f. dm_get m name = Some f \<and> flag_enabled f \<and> (\<forall>r \<in> set (flag_rules f). rule_matches ctx r) \<and>
        rollout_bucket hsh name ctx < flag_percentage f)"
  "flag_percentage f \<le> p \<Longrightarrow> flag_on hsh name ctx f \<Longrightarrow> flag_on hsh name ctx (f\<lparr>flag_percentage := p\<rparr>)"
proof -
  have "rollout_bucket hsh name ctx < 100" by (simp add: rollout_bucket_def)
  then show "snd (flag_evaluate hsh name ctx m) \<longleftrightarrow>
     (\<exists>f. dm_get m name = Some f \<and> flag_enabled f \<and> (\<forall>r \<in> set (flag_rules f). rule_matches ctx r) \<and>
        rollout_bucket hsh name ctx < flag_percentage f)"
    by (auto simp: evaluate_result flag_on_def list_all_iff not_le split: option.split)
  show "flag_percentage f \<le> p \<Longrightarrow> flag_on hsh name ctx f \<Longrightarrow> flag_on hsh name ctx (f\<lparr>flag_percentage := p\<rparr>)"
    by (auto simp: flag_on_def split: if_splits)
qed

text \<open>
  Creating a flag under a name that exists replaces it: its rules are gone, so a flag that was
  limited to some callers is on for everybody.
\<close>

lemma recreated_flag_is_open:
  "snd (flag_evaluate hsh name ctx (flag_create now name description True 100
     (fst (flag_add_rule name r m))))"
  by (simp add: evaluate_result flag_create_def dashmap_simps flag_on_def)

section \<open>Releases\<close>

datatype release_strategy = BlueGreen | CanaryRelease nat

datatype release_status = RelActive | RelRolledBack | RelCompleted

record release =
  rel_id :: string
  rel_service :: string
  rel_strategy :: release_strategy
  rel_status :: release_status
  blue_upstream :: string
  green_upstream :: string
  active_color :: string
  error_threshold :: real
  rel_created_at :: nat
  switched_at :: "nat option"
  rollback_count :: nat

type_synonym release_mgr = "(string, release) dashmap"

definition flip_color :: "string \<Rightarrow> string" where
  "flip_color c = (if c = ''blue'' then ''green'' else ''blue'')"

definition release_create ::
  "nat \<Rightarrow> string \<Rightarrow> string \<Rightarrow> string \<Rightarrow> string \<Rightarrow> release_strategy \<Rightarrow> real \<Rightarrow> release_mgr \<Rightarrow> release_mgr \<times> string" where
  "release_create now fresh_id service blue green strategy threshold m =
     (dm_insert fresh_id
        \<lparr>rel_id = fresh_id, rel_service = service, rel_strategy = strategy, rel_status = RelActive,
         blue_upstream = blue, green_upstream = green, active_color = ''blue'', error_threshold = threshold,
         rel_created_at = now, switched_at = None, rollback_count = 0\<rparr> m, fresh_id)"

definition release_switch :: "nat \<Rightarrow> string \<Rightarrow> release_mgr \<Rightarrow> release_mgr \<times> string option" where
  "release_switch now i m =
     (case dm_get m i of
        None \<Rightarrow> (m, None)
      | Some r \<Rightarrow>
          if rel_status r \<noteq> RelActive then (m, None)
          else (dm_insert i (r\<lparr>active_color := flip_color (active_color r), switched_at := Some now\<rparr>) m,
                Some (flip_color (active_color r))))"

definition active_upstream :: "string \<Rightarrow> release_mgr \<Rightarrow> string option" where
  "active_upstream i m =
     map_option (\<lambda>r. if active_color r = ''blue'' then blue_upstream r else green_upstream r) (dm_get m i)"

definition check_rollback :: "nat \<Rightarrow> string \<Rightarrow> real \<Rightarrow> release_mgr \<Rightarrow> release_mgr \<times> bool" where
  "check_rollback now i error_rate m =
     (case dm_get m i of
        None \<Rightarrow> (m, False)
      | Some r \<Rightarrow>
          if rel_status r \<noteq> RelActive then (m, False)
          else if error_rate \<le> error_threshold r then (m, False)
          else (dm_insert i (r\<lparr>active_color := flip_color (active_color r),
                  rollback_count := min (rollback_count r + 1) u64_max,
                  rel_status := RelRolledBack, switched_at := Some now\<rparr>) m, True))"

definition release_list :: "release_mgr \<Rightarrow> release list" where
  "release_list m = map snd m"

section \<open>What the releases promise\<close>

datatype release_op = DoSwitch string | DoCheck string real

fun release_step :: "nat \<times> release_op \<Rightarrow> release_mgr \<Rightarrow> release_mgr" where
  "release_step (now, DoSwitch i) m = fst (release_switch now i m)"
| "release_step (now, DoCheck i rate) m = fst (check_rollback now i rate m)"

definition rolled_back :: "string \<Rightarrow> release \<Rightarrow> release_mgr \<Rightarrow> bool" where
  "rolled_back i r m \<longleftrightarrow> dm_get m i = Some r \<and> rel_status r = RelRolledBack"

lemma rolled_back_step: "rolled_back i r m \<Longrightarrow> rolled_back i r (release_step e m)"
  by (cases e rule: prod.exhaust, rename_tac now op, case_tac op)
    (auto simp: rolled_back_def release_switch_def check_rollback_def dashmap_simps split: option.split)

lemma rolled_back_run: "rolled_back i r m \<Longrightarrow> rolled_back i r (fold release_step es m)"
  by (induction es arbitrary: m) (auto intro: rolled_back_step)

text \<open>
  A release rolls back once and for good. After a check has rolled a release back, whatever
  switches and checks follow, it serves the same upstream and has counted this one roll-back.
\<close>

theorem rollback_once:
  assumes "check_rollback now i rate m = (m', True)"
  shows "dm_get (fold release_step es m') i = dm_get m' i"
    and "active_upstream i (fold release_step es m') = active_upstream i m'"
proof -
  obtain r where "rolled_back i r m'"
    using assms by (auto simp: check_rollback_def rolled_back_def dashmap_simps split: option.splits if_splits)
  then show 1: "dm_get (fold release_step es m') i = dm_get m' i"
    using rolled_back_run [of i r m' es] by (simp add: rolled_back_def)
  then show "active_upstream i (fold release_step es m') = active_upstream i m'"
    by (simp add: active_upstream_def)
qed

text \<open>
  The roll-back flips the colour whatever it is. A release that still serves its old (blue)
  version when the error rate rises is moved to the new one, and then stays there.
\<close>

theorem rollback_deploys_green:
  assumes "m1 = fst (release_create t0 i service blue green BlueGreen threshold m)" "threshold < rate"
  shows "active_upstream i m1 = Some blue"
    and "active_upstream i (fold release_step es (fst (check_rollback now i rate m1))) = Some green"
proof -
  have created: "dm_get m1 i = Some \<lparr>rel_id = i, rel_service = service, rel_strategy = BlueGreen,
      rel_status = RelActive, blue_upstream = blue, green_upstream = green, active_color = ''blue'',
      error_threshold = threshold, rel_created_at = t0, switched_at = None, rollback_count = 0\<rparr>"
    by (simp add: assms(1) release_create_def dashmap_simps)
  then show "active_upstream i m1 = Some blue" by (simp add: active_upstream_def)
  have "active_upstream i (fst (check_rollback now i rate m1)) = Some green"
    using assms(2) created by (simp add: check_rollback_def dashmap_simps active_upstream_def flip_color_def)
  moreover obtain r where "rolled_back i r (fst (check_rollback now i rate m1))"
    using assms(2) created by (auto simp: check_rollback_def rolled_back_def dashmap_simps)
  ultimately show "active_upstream i (fold release_step es (fst (check_rollback now i rate m1))) = Some green"
    using rolled_back_run [of i r _ es] by (simp add: rolled_back_def active_upstream_def)
qed

end
