(* ===== verification/Db_Gateway.thy ===== *)
theory Db_Gateway
  imports Interfaces Waf Complex_Main
begin

text \<open>
  src/src/dbgateway/: the query firewall, the read/write splitter and the registry of database
  connections. Regular expressions are a parameter. Slicing a string inside a character panics;
  a function that may panic returns an option, with \<open>None\<close> for the panic. Durations are reals.
\<close>

section \<open>The query firewall\<close>

record slow_query =
  query_preview :: string
  sq_duration_ms :: real
  sq_source :: string
  sq_timestamp :: nat

record query_stats =
  total_queries :: nat
  blocked_queries :: nat
  slow_queries :: nat
  query_reads :: nat
  query_writes :: nat

datatype query_verdict = QueryAllow bool | QueryBlock string

record query_firewall =
  blocked_patterns :: "string list"
  slow_threshold_ms :: real
  slow_log :: "slow_query list"
  fw_stats :: query_stats

definition query_patterns :: "string list" where
  "query_patterns =
     [re ''(?i)`b(DROP|TRUNCATE)`s+(TABLE|DATABASE|SCHEMA)'',
      re ''(?i)`bALTER`s+TABLE`b.*`b(DROP|RENAME)`b'',
      re ''(?i)`bDELETE`s+FROM`s+`w+`s*$'',
      re ''(?i)`b(GRANT|REVOKE)`s+(ALL|SUPER|CREATE)'',
      re ''(?i)`bSHUTDOWN`b'', re ''(?i)`bLOAD`s+DATA`b'', re ''(?i)`bINTO`s+OUTFILE`b'']"

definition query_firewall_new :: "real \<Rightarrow> query_firewall" where
  "query_firewall_new threshold =
     \<lparr>blocked_patterns = query_patterns, slow_threshold_ms = threshold, slow_log = [],
      fw_stats = \<lparr>total_queries = 0, blocked_queries = 0, slow_queries = 0, query_reads = 0, query_writes = 0\<rparr>\<rparr>"

text \<open>\<open>&query[..query.len().min(n)]\<close>\<close>

definition slice_to :: "nat \<Rightarrow> string \<Rightarrow> string option" where
  "slice_to n s = (let e = min (length s) n in if is_char_boundary s e then Some (take e s) else None)"

definition is_read_query :: "string \<Rightarrow> bool" where
  "is_read_query query =
     (let u = str_upper (trim_start query) in
      prefix ''SELECT'' u \<or> prefix ''SHOW'' u \<or> prefix ''DESCRIBE'' u \<or> prefix ''EXPLAIN'' u)"

definition update_without_where :: "string \<Rightarrow> bool" where
  "update_without_where query =
     (let u = str_upper query in str_contains u ''UPDATE'' \<and> str_contains u ''SET'' \<and> \<not> str_contains u ''WHERE'')"

text \<open>A block is logged with the first 80 bytes of the query before it is returned.\<close>

definition query_inspect ::
  "(string \<Rightarrow> string \<Rightarrow> bool) \<Rightarrow> string \<Rightarrow> query_firewall \<Rightarrow> query_verdict option" where
  "query_inspect is_match query fw =
     (if update_without_where query
      then map_option (\<lambda>_. QueryBlock ''UPDATE without WHERE clause detected'') (slice_to 80 query)
      else case List.find (\<lambda>p. is_match p query) (blocked_patterns fw) of
             Some p \<Rightarrow> map_option (\<lambda>_. QueryBlock (''Dangerous query pattern detected: '' @ p)) (slice_to 80 query)
           | None \<Rightarrow> Some (QueryAllow (is_read_query query)))"

definition record_slow :: "nat \<Rightarrow> string \<Rightarrow> real \<Rightarrow> string \<Rightarrow> query_firewall \<Rightarrow> query_firewall option" where
  "record_slow now query duration source fw =
     (if slow_threshold_ms fw < duration
      then map_option (\<lambda>preview.
             (let entries = slow_log fw @ [\<lparr>query_preview = preview, sq_duration_ms = duration,
                                       sq_source = source, sq_timestamp = now\<rparr>]
              in fw\<lparr>slow_log := (if 500 < length entries then drop 250 entries else entries),
                    fw_stats := (fw_stats fw)\<lparr>slow_queries := wrap_add64 (slow_queries (fw_stats fw)) 1\<rparr>\<rparr>))
             (slice_to 200 query)
      else Some fw)"

definition fw_record_query :: "bool \<Rightarrow> query_firewall \<Rightarrow> query_firewall" where
  "fw_record_query is_read fw =
     (let st = (fw_stats fw)\<lparr>total_queries := wrap_add64 (total_queries (fw_stats fw)) 1\<rparr> in
      fw\<lparr>fw_stats := (if is_read then st\<lparr>query_reads := wrap_add64 (query_reads st) 1\<rparr>
                     else st\<lparr>query_writes := wrap_add64 (query_writes st) 1\<rparr>)\<rparr>)"

definition get_slow_queries :: "nat \<Rightarrow> query_firewall \<Rightarrow> slow_query list" where
  "get_slow_queries limit fw = take limit (rev (slow_log fw))"

section \<open>The read/write splitter\<close>

record rw_splitter =
  rw_primary :: string
  rw_replicas :: "string list"
  current_replica :: nat

definition rw_new :: "string \<Rightarrow> string list \<Rightarrow> rw_splitter" where
  "rw_new primary replicas = \<lparr>rw_primary = primary, rw_replicas = replicas, current_replica = 0\<rparr>"

definition rw_route :: "bool \<Rightarrow> rw_splitter \<Rightarrow> rw_splitter \<times> string" where
  "rw_route is_read s =
     (if is_read \<and> rw_replicas s \<noteq> []
      then (s\<lparr>current_replica := wrap_add64 (current_replica s) 1\<rparr>,
            rw_replicas s ! (current_replica s mod length (rw_replicas s)))
      else (s, rw_primary s))"

section \<open>The registry of connections\<close>

datatype db_type = PostgreSQL | MySQL | SQLite | RedisDb | MongoDB

record db_connection =
  db_name :: string
  db_kind :: db_type
  primary_url :: string
  replica_urls :: "string list"
  pool_size :: nat
  query_count :: nat
  error_count :: nat
  avg_query_ms :: real
  db_enabled :: bool

type_synonym db_proxy = "(string, db_connection) dashmap"

definition db_register ::
  "string \<Rightarrow> db_type \<Rightarrow> string \<Rightarrow> string list \<Rightarrow> nat \<Rightarrow> db_proxy \<Rightarrow> db_proxy" where
  "db_register name kind primary replicas pool m =
     dm_insert name
       \<lparr>db_name = name, db_kind = kind, primary_url = primary, replica_urls = replicas, pool_size = pool,
        query_count = 0, error_count = 0, avg_query_ms = 0, db_enabled = True\<rparr> m"

definition db_get :: "string \<Rightarrow> db_proxy \<Rightarrow> db_connection option" where
  "db_get name m = dm_get m name"

definition db_record_query :: "string \<Rightarrow> real \<Rightarrow> bool \<Rightarrow> db_proxy \<Rightarrow> db_proxy" where
  "db_record_query name duration success m =
     dm_update name (\<lambda>c.
       (let n = wrap_add64 (query_count c) 1 in
        c\<lparr>query_count := n,
          error_count := (if success then error_count c else wrap_add64 (error_count c) 1),
          avg_query_ms := (avg_query_ms c * real (wrap_sub64 n 1) + duration) / real n\<rparr>)) m"

definition db_list :: "db_proxy \<Rightarrow> db_connection list" where
  "db_list m = map snd m"

definition db_count :: "db_proxy \<Rightarrow> nat" where
  "db_count m = length m"

section \<open>What the firewall promises\<close>

text \<open>
  The verdict of the firewall. A query is allowed exactly when neither the check for an update
  without a condition nor a pattern hits. It is blocked otherwise, unless its 80th byte lies
  inside a character: then the log line panics and there is no verdict.
\<close>

theorem query_verdict_exact:
  "query_inspect is_match query fw = Some (QueryAllow r) \<longleftrightarrow>
     \<not> update_without_where query \<and> (\<forall>p \<in> set (blocked_patterns fw). \<not> is_match p query) \<and>
     r = is_read_query query"
  "query_inspect is_match query fw = None \<longleftrightarrow>
     (update_without_where query \<or> (\<exists>p \<in> set (blocked_patterns fw). is_match p query)) \<and>
     80 < length query \<and> \<not> is_char_boundary query 80"
proof -
  have slice: "slice_to 80 query = None \<longleftrightarrow> 80 < length query \<and> \<not> is_char_boundary query 80"
    by (auto simp: slice_to_def Let_def min_def is_char_boundary_def)
  show "query_inspect is_match query fw = Some (QueryAllow r) \<longleftrightarrow>
     \<not> update_without_where query \<and> (\<forall>p \<in> set (blocked_patterns fw). \<not> is_match p query) \<and>
     r = is_read_query query"
    by (auto simp: query_inspect_def find_None_iff find_Some_iff split: option.split)
  show "query_inspect is_match query fw = None \<longleftrightarrow>
     (update_without_where query \<or> (\<exists>p \<in> set (blocked_patterns fw). is_match p query)) \<and>
     80 < length query \<and> \<not> is_char_boundary query 80"
    unfolding slice [symmetric]
    by (auto simp: query_inspect_def find_None_iff find_Some_iff split: option.split)
qed

text \<open>
  The update check reads words where there are none: a query that only reads is refused because
  a column name contains the first word and a table name the second.
\<close>

lemma harmless_read_blocked:
  "query_inspect is_match ''select updated_at from assets'' fw =
     Some (QueryBlock ''UPDATE without WHERE clause detected'')"
proof -
  have "update_without_where ''select updated_at from assets''" by code_simp
  moreover have "slice_to 80 ''select updated_at from assets'' \<noteq> None" by code_simp
  ultimately show ?thesis by (auto simp: query_inspect_def)
qed

text \<open>
  The check is satisfied by the word alone, in a comment for instance; and a batch whose first
  statement reads counts as a read, so its writes go to a replica.
\<close>

lemma where_in_comment_suffices: "\<not> update_without_where ''update users set admin = 1 -- where''"
  by code_simp

lemma batch_counts_as_read: "is_read_query '' select 1; insert into t values (1)''"
  by code_simp

text \<open>The log of slow queries keeps the newest entries and at most 500 of them.\<close>

lemma slow_log_bounded:
  assumes "record_slow now query duration source fw = Some fw'" "length (slow_log fw) \<le> 500"
  shows "length (slow_log fw') \<le> 500"
    and "slow_threshold_ms fw < duration \<Longrightarrow>
      \<exists>e. get_slow_queries 1 fw' = [e] \<and> prefix (query_preview e) query \<and> sq_timestamp e = now"
  using assms
  by (auto simp: record_slow_def Let_def get_slow_queries_def slice_to_def take_is_prefix
      split: if_splits)

text \<open>
  The splitter: writes go to the primary, the reads visit the replicas in turn.
\<close>

fun rw_run :: "bool list \<Rightarrow> rw_splitter \<Rightarrow> string list" where
  "rw_run [] s = []"
| "rw_run (b # bs) s = (let (s', target) = rw_route b s in target # rw_run bs s')"

theorem rw_route_exact:
  assumes "k < length bs" "current_replica s + length bs \<le> u64_max"
  shows "rw_run bs s ! k =
    (if bs ! k \<and> rw_replicas s \<noteq> []
     then rw_replicas s ! ((current_replica s + length (filter (\<lambda>b. b) (take k bs))) mod length (rw_replicas s))
     else rw_primary s)"
  using assms
proof (induction bs arbitrary: s k)
  case (Cons b bs)
  let ?s = "fst (rw_route b s)"
  have s: "rw_replicas ?s = rw_replicas s" "rw_primary ?s = rw_primary s"
    "rw_replicas s \<noteq> [] \<Longrightarrow> current_replica ?s = current_replica s + (if b then 1 else 0)"
    using Cons.prems(2) by (auto simp: rw_route_def wrap_add64_exact)
  show ?case
  proof (cases k)
    case 0
    then show ?thesis by (auto simp: rw_route_def)
  next
    case (Suc m)
    show ?thesis
    proof (cases "rw_replicas s = []")
      case True
      have "rw_run bs s ! m = rw_primary s" if "m < length bs" and "rw_replicas s = []"
        for bs :: "bool list" and m and s :: rw_splitter
        using that by (induction bs arbitrary: m s) (auto simp: rw_route_def less_Suc_eq_0_disj)
      with True Suc Cons.prems(1) s(1,2) show ?thesis by (simp add: case_prod_unfold Let_def)
    next
      case False
      have "m < length bs" "current_replica ?s + length bs \<le> u64_max"
        using Suc Cons.prems s(3) False by auto
      from Cons.IH [OF this] show ?thesis using Suc s False by (simp add: case_prod_unfold Let_def)
    qed
  qed
qed simp

lemma db_record_get:
  assumes "dm_get m name = Some c" "query_count c + 1 \<le> u64_max" "error_count c + 1 \<le> u64_max"
  shows "dm_get (db_record_query name d ok m) name =
    Some (c\<lparr>query_count := query_count c + 1, error_count := error_count c + (if ok then 0 else 1),
      avg_query_ms := (avg_query_ms c * real (query_count c) + d) / real (query_count c + 1)\<rparr>)"
  using assms by (simp add: db_record_query_def dashmap_simps Let_def wrap_add64_exact)

text \<open>The average of a connection is the mean of the recorded durations.\<close>

theorem average_exact:
  assumes "dm_get m name = Some c" "query_count c = 0" "error_count c = 0" "length ds \<le> u64_max" "ds \<noteq> []"
  shows "\<exists>c'. dm_get (fold (\<lambda>(d, ok). db_record_query name d ok) ds m) name = Some c' \<and>
    query_count c' = length ds \<and> avg_query_ms c' = sum_list (map fst ds) / real (length ds) \<and>
    error_count c' = length (filter (\<lambda>(d, ok). \<not> ok) ds)"
proof -
  have "\<exists>c'. dm_get (fold (\<lambda>(d, ok). db_record_query name d ok) ds m) name = Some c' \<and>
    query_count c' = length ds \<and> avg_query_ms c' * real (length ds) = sum_list (map fst ds) \<and>
    error_count c' = length (filter (\<lambda>(d, ok). \<not> ok) ds)"
    using assms(4)
  proof (induction ds rule: rev_induct)
    case Nil
    then show ?case using assms by simp
  next
    case (snoc x ds)
    obtain d ok where x: "x = (d, ok)" by (cases x)
    from snoc obtain c' where c': "dm_get (fold (\<lambda>(d, ok). db_record_query name d ok) ds m) name = Some c'"
      "query_count c' = length ds" "avg_query_ms c' * real (length ds) = sum_list (map fst ds)"
      "error_count c' = length (filter (\<lambda>(d, ok). \<not> ok) ds)" by auto
    have "length (filter (\<lambda>(d, ok). \<not> ok) ds) \<le> length ds" by simp
    moreover have "length ds + 1 \<le> u64_max" using snoc.prems by simp
    ultimately have "length (filter (\<lambda>(d, ok). \<not> ok) ds) + 1 \<le> u64_max" by linarith
    with c' snoc.prems db_record_get [OF c'(1), of d ok] show ?case
      by (simp add: x)
  qed
  with assms(5) show ?thesis by (auto simp: field_simps)
qed

end
