(* ===== verification/Data_Pipeline.thy ===== *)
theory Data_Pipeline
  imports Body_Transform Complex_Main
begin

text \<open>
  src/src/datapipeline/: the transformation rules for JSON bodies, the watchers that compare the
  answers of an endpoint, and the buffer of analytics events. Parameters are the JSON pointer of
  serde_json, the Unicode case mappings, SHA-256 and the HTTP client.
\<close>

section \<open>Transformation rules\<close>

datatype value_transform = ToUpper | ToLower | TrimText | HashText

datatype transform_action =
    MaskField string nat
  | RemoveField string
  | AddField string string
  | RenameField string string
  | TransformValue string value_transform

record transform_rule =
  trule_name :: string
  trule_path :: string
  trule_action :: transform_action

text \<open>\<open>pointer_update p f v\<close> is the value with \<open>f\<close> applied at the pointer, if something is there.\<close>

record transform_env =
  pointer_update :: "string \<Rightarrow> (json \<Rightarrow> json) \<Rightarrow> json \<Rightarrow> json"
  text_upper :: "string \<Rightarrow> string"
  text_lower :: "string \<Rightarrow> string"
  sha256_hex :: "string \<Rightarrow> string"

definition rule_path_matches :: "string \<Rightarrow> string \<Rightarrow> bool" where
  "rule_path_matches path pattern =
     (if pattern = [] then True
      else if path = pattern then True
      else case strip_prefix pattern path of Some rest \<Rightarrow> prefix ''/'' rest | None \<Rightarrow> False)"

definition field_pointer :: "string \<Rightarrow> string" where
  "field_pointer field = ''/'' @ map (\<lambda>c. if c = CHR ''.'' then CHR ''/'' else c) field"

definition mask_text :: "nat \<Rightarrow> string \<Rightarrow> string" where
  "mask_text visible_chars s =
     (let chars = utf8_chars s; n = length chars; visible = min visible_chars n in
      if visible < n then replicate (n - visible) (CHR ''*'') @ concat (drop (n - visible) chars)
      else replicate n (CHR ''*''))"

fun on_text :: "(string \<Rightarrow> string) \<Rightarrow> json \<Rightarrow> json" where
  "on_text f (JStr s) = JStr (f s)"
| "on_text f v = v"

fun on_object :: "((string, json) dashmap \<Rightarrow> (string, json) dashmap) \<Rightarrow> json \<Rightarrow> json" where
  "on_object f (JObj m) = JObj (f m)"
| "on_object f v = v"

fun value_text :: "transform_env \<Rightarrow> value_transform \<Rightarrow> string \<Rightarrow> string" where
  "value_text env ToUpper s = text_upper env s"
| "value_text env ToLower s = text_lower env s"
| "value_text env TrimText s = trim s"
| "value_text env HashText s = sha256_hex env s"

fun apply_action :: "transform_env \<Rightarrow> transform_action \<Rightarrow> json \<Rightarrow> json" where
  "apply_action env (MaskField field visible) body =
     pointer_update env (field_pointer field) (on_text (mask_text visible)) body"
| "apply_action env (RemoveField field) body = on_object (dm_remove field) body"
| "apply_action env (AddField field v) body = on_object (dm_insert field (JStr v)) body"
| "apply_action env (RenameField old_name new_name) body = on_object (rename_field (old_name, new_name)) body"
| "apply_action env (TransformValue field t) body =
     pointer_update env (field_pointer field) (on_text (value_text env t)) body"

definition engine_apply :: "transform_env \<Rightarrow> transform_rule list \<Rightarrow> string \<Rightarrow> json \<Rightarrow> json" where
  "engine_apply env rules path body =
     fold (\<lambda>r b. if rule_path_matches path (trule_path r) then apply_action env (trule_action r) b else b) rules body"

section \<open>Masking\<close>

lemma utf8_chars_stars: "utf8_chars (replicate n (CHR ''*'') @ s) = replicate n ''*'' @ utf8_chars s"
  by (induction n) (simp_all add: utf8_len_def)

lemma utf8_chars_drop: "utf8_chars (concat (drop k (utf8_chars s))) = drop k (utf8_chars s)"
proof (induction s arbitrary: k rule: utf8_chars.induct)
  case (2 b bs)
  then show ?case by (cases k) simp_all
qed simp

text \<open>
  What a mask leaves. The masked text has as many characters as the original; at most the given
  number of them, the last ones, are those of the original and all others are stars. A text that
  is no longer than that number is masked completely.
\<close>

theorem mask_exact:
  "utf8_chars (mask_text visible s) =
     (if visible < length (utf8_chars s)
      then replicate (length (utf8_chars s) - visible) ''*'' @ drop (length (utf8_chars s) - visible) (utf8_chars s)
      else replicate (length (utf8_chars s)) ''*'')"
  using utf8_chars_stars [of "length (utf8_chars s)" "[]"]
  by (simp add: mask_text_def Let_def utf8_chars_stars utf8_chars_drop min_def)

text \<open>
  A pointer to a field of the body itself. serde_json promises this for names without the two
  characters that have a meaning in a pointer.
\<close>

definition top_level_pointer :: "transform_env \<Rightarrow> bool" where
  "top_level_pointer env \<longleftrightarrow>
     (\<forall>field f m. set field \<inter> {CHR ''/'', CHR ''~''} = {} \<longrightarrow>
        pointer_update env (''/'' @ field) f (JObj m) = JObj (dm_update field f m))"

lemma field_pointer_plain: "CHR ''.'' \<notin> set field \<Longrightarrow> field_pointer field = ''/'' @ field"
  by (auto simp: field_pointer_def intro: map_idI)

text \<open>
  A masked field of an object holds a masked text or something that is no text: a number under
  the same name passes through unmasked.
\<close>

lemma mask_rule_effect:
  assumes "top_level_pointer env" "set field \<inter> {CHR ''/'', CHR ''~'', CHR ''.''} = {}"
  shows "apply_action env (MaskField field visible) (JObj m) = JObj (dm_update field (on_text (mask_text visible)) m)"
    and "dm_get m field = Some (JNum n) \<Longrightarrow>
      \<exists>m'. apply_action env (MaskField field visible) (JObj m) = JObj m' \<and> dm_get m' field = Some (JNum n)"
  using assms by (auto simp: top_level_pointer_def field_pointer_plain dashmap_simps)

text \<open>
  Unlike masking, removing a field does not follow dots: a rule for a nested field changes nothing,
  so what it should remove stays in the body.
\<close>

lemma nested_removal_ignored:
  assumes "dm_get m (outer @ ''.'' @ inner) = None"
  shows "apply_action env (RemoveField (outer @ ''.'' @ inner)) (JObj m) = JObj m"
  using assms by (simp add: dm_remove_absent del: dm_get_None_iff)

section \<open>Watchers\<close>

record cdc_watcher =
  cdc_id :: string
  cdc_endpoint :: string
  cdc_webhook :: string
  last_response_hash :: string
  change_count :: nat
  cdc_enabled :: bool

definition add_watcher :: "string \<Rightarrow> string \<Rightarrow> string \<Rightarrow> cdc_watcher list \<Rightarrow> cdc_watcher list \<times> string" where
  "add_watcher fresh_id endpoint webhook ws =
     (ws @ [\<lparr>cdc_id = fresh_id, cdc_endpoint = endpoint, cdc_webhook = webhook, last_response_hash = [],
             change_count = 0, cdc_enabled = True\<rparr>], fresh_id)"

text \<open>One watcher of the snapshot: its new hash and whether it changed, or nothing when the call failed.\<close>

definition check_one ::
  "(string \<Rightarrow> string) \<Rightarrow> (string \<Rightarrow> string option) \<Rightarrow> cdc_watcher \<Rightarrow> (string \<times> string \<times> bool) option" where
  "check_one hex fetch w =
     map_option (\<lambda>body. (cdc_id w, hex body, last_response_hash w \<noteq> [] \<and> hex body \<noteq> last_response_hash w))
       (fetch (cdc_endpoint w))"

text \<open>The first watcher with the identifier takes the new hash.\<close>

fun merge_update :: "string \<times> string \<times> bool \<Rightarrow> cdc_watcher list \<Rightarrow> cdc_watcher list" where
  "merge_update u [] = []"
| "merge_update (i, h, changed) (w # ws) =
     (if cdc_id w = i
      then w\<lparr>last_response_hash := h,
             change_count := (if changed then min (change_count w + 1) u64_max else change_count w)\<rparr> # ws
      else w # merge_update (i, h, changed) ws)"

text \<open>A check: the watchers afterwards and the webhooks called, each with its endpoint.\<close>

definition check_changes ::
  "(string \<Rightarrow> string) \<Rightarrow> (string \<Rightarrow> string option) \<Rightarrow> cdc_watcher list \<Rightarrow>
     cdc_watcher list \<times> (string \<times> string) list" where
  "check_changes hex fetch ws =
     (let snapshot = filter cdc_enabled ws;
          updates = List.map_filter (check_one hex fetch) snapshot;
          calls = List.map_filter (\<lambda>w. case check_one hex fetch w of
                    Some (_, _, True) \<Rightarrow> Some (cdc_webhook w, cdc_endpoint w) | _ \<Rightarrow> None) snapshot
      in (fold merge_update updates ws, calls))"

definition checked :: "(string \<Rightarrow> string) \<Rightarrow> (string \<Rightarrow> string option) \<Rightarrow> cdc_watcher \<Rightarrow> cdc_watcher" where
  "checked hex fetch w =
     (if cdc_enabled w
      then case check_one hex fetch w of
             Some (_, h, changed) \<Rightarrow>
               w\<lparr>last_response_hash := h,
                  change_count := (if changed then min (change_count w + 1) u64_max else change_count w)\<rparr>
           | None \<Rightarrow> w
      else w)"

lemma merge_update_other: "i \<notin> cdc_id ` set ws \<Longrightarrow> merge_update (i, h, c) ws = ws"
  by (induction ws) auto

lemma merge_update_id [simp]: "map cdc_id (merge_update u ws) = map cdc_id ws"
  by (cases u) (induction ws, auto)

lemma fold_merge_cons:
  "cdc_id w \<notin> fst ` set us \<Longrightarrow> fold merge_update us (w # ws) = w # fold merge_update us ws"
  by (induction us arbitrary: ws) auto

lemma check_changes_exact:
  assumes "distinct (map cdc_id ws)"
  shows "fst (check_changes hex fetch ws) = map (checked hex fetch) ws"
proof -
  have ids: "fst ` set (List.map_filter (check_one hex fetch) vs) \<subseteq> cdc_id ` set vs" for vs
    by (auto simp: List.map_filter_def check_one_def)
  have "fold merge_update (List.map_filter (check_one hex fetch) (filter cdc_enabled ws)) ws = map (checked hex fetch) ws"
    using assms
  proof (induction ws)
    case (Cons w ws)
    let ?us = "List.map_filter (check_one hex fetch) (filter cdc_enabled ws)"
    have w: "cdc_id w \<notin> fst ` set ?us" using Cons.prems ids [of "filter cdc_enabled ws"] by auto
    have rest: "fold merge_update ?us ws = map (checked hex fetch) ws" using Cons by simp
    show ?case
    proof (cases "cdc_enabled w")
      case True
      show ?thesis
      proof (cases "fetch (cdc_endpoint w)")
        case None
        then have "check_one hex fetch w = None" by (simp add: check_one_def)
        then show ?thesis using True w rest by (simp add: map_filter_simps fold_merge_cons checked_def)
      next
        case (Some body)
        have "cdc_id (w\<lparr>last_response_hash := h, change_count := n\<rparr>) \<notin> fst ` set ?us" for h n using w by simp
        moreover obtain h c where "check_one hex fetch w = Some (cdc_id w, h, c)"
          using Some by (simp add: check_one_def)
        ultimately show ?thesis using True rest
          by (simp add: map_filter_simps fold_merge_cons checked_def)
      qed
    next
      case False
      then show ?thesis using w rest by (simp add: fold_merge_cons checked_def)
    qed
  qed (simp add: map_filter_simps)
  then show ?thesis by (simp add: check_changes_def Let_def)
qed

fun changes :: "string list \<Rightarrow> nat" where
  "changes (h # h' # hs) = (if h = h' then 0 else 1) + changes (h' # hs)"
| "changes _ = 0"

lemma changes_snoc: "changes (hs @ [h]) = changes hs + (if hs \<noteq> [] \<and> last hs \<noteq> h then 1 else 0)"
  by (induction hs rule: changes.induct) auto

definition seen_hashes :: "(string \<Rightarrow> string) \<Rightarrow> string \<Rightarrow> (string \<Rightarrow> string option) list \<Rightarrow> string list" where
  "seen_hashes hex endpoint fs = List.map_filter (\<lambda>f. map_option hex (f endpoint)) fs"

lemma seen_hashes_snoc:
  "seen_hashes hex endpoint (fs @ [f]) =
     seen_hashes hex endpoint fs @ (case f endpoint of Some b \<Rightarrow> [hex b] | None \<Rightarrow> [])"
  by (auto simp: seen_hashes_def List.map_filter_def split: option.split)

lemma checked_enabled:
  "cdc_enabled w \<Longrightarrow> checked hex f w =
     (case f (cdc_endpoint w) of
        None \<Rightarrow> w
      | Some b \<Rightarrow> w\<lparr>last_response_hash := hex b,
          change_count := (if last_response_hash w \<noteq> [] \<and> hex b \<noteq> last_response_hash w
                           then min (change_count w + 1) u64_max else change_count w)\<rparr>)"
  by (simp add: checked_def check_one_def split: option.split)

lemma checked_series:
  assumes "cdc_enabled w" "last_response_hash w = []" "change_count w = 0" "\<And>b. hex b \<noteq> []"
    and "length fs \<le> u64_max"
  shows "fold (checked hex) fs w =
    w\<lparr>last_response_hash := (case seen_hashes hex (cdc_endpoint w) fs of [] \<Rightarrow> [] | hs \<Rightarrow> last hs),
      change_count := changes (seen_hashes hex (cdc_endpoint w) fs)\<rparr> \<and>
    changes (seen_hashes hex (cdc_endpoint w) fs) \<le> length fs"
  using assms(5)
proof (induction fs rule: rev_induct)
  case Nil
  then show ?case using assms(2,3) by (simp add: seen_hashes_def map_filter_simps)
next
  case (snoc f fs)
  let ?hs = "seen_hashes hex (cdc_endpoint w) fs"
  have IH: "fold (checked hex) fs w = w\<lparr>last_response_hash := (case ?hs of [] \<Rightarrow> [] | hs \<Rightarrow> last hs), change_count := changes ?hs\<rparr>"
    "changes ?hs \<le> length fs" using snoc by simp_all
  have nonempty: "h \<noteq> []" if "h \<in> set ?hs" for h
    using that assms(4) by (auto simp: seen_hashes_def List.map_filter_def)
  have last_seen: "(case ?hs of [] \<Rightarrow> [] | hs \<Rightarrow> last hs) = (if ?hs = [] then [] else last ?hs)"
    by (simp split: list.split)
  have step: "fold (checked hex) (fs @ [f]) w =
      checked hex f (w\<lparr>last_response_hash := (if ?hs = [] then [] else last ?hs), change_count := changes ?hs\<rparr>)"
    using IH(1) by (simp add: last_seen)
  show ?case
  proof (cases "f (cdc_endpoint w)")
    case None
    then show ?thesis using IH(2) assms(1) unfolding step by (simp add: checked_enabled seen_hashes_snoc last_seen)
  next
    case (Some b)
    have "last ?hs \<noteq> []" if "?hs \<noteq> []" using that nonempty by simp
    moreover have "changes ?hs + 1 \<le> u64_max" using IH(2) snoc.prems by simp
    moreover have "(case ?hs @ [hex b] of [] \<Rightarrow> [] | hs \<Rightarrow> last hs) = hex b"
      by (cases ?hs) simp_all
    ultimately show ?thesis
      using IH(2) assms(1) Some
      unfolding step by (simp add: checked_enabled seen_hashes_snoc changes_snoc)
  qed
qed

text \<open>
  A watcher counts changes, not observations. After any number of checks of a new watcher its
  counter is the number of times two consecutive answers that arrived had different hashes: the
  first answer is no change and a failed call is ignored.
\<close>

theorem watcher_counts_changes:
  assumes "distinct (map cdc_id ws)" "w \<in> set ws" "cdc_enabled w" "last_response_hash w = []"
    "change_count w = 0" "\<And>b. hex b \<noteq> []" "length fs \<le> u64_max"
  shows "\<exists>w' \<in> set (fold (\<lambda>fetch ws. fst (check_changes hex fetch ws)) fs ws).
    cdc_id w' = cdc_id w \<and> change_count w' = changes (seen_hashes hex (cdc_endpoint w) fs)"
proof -
  have "fold (\<lambda>fetch ws. fst (check_changes hex fetch ws)) fs ws = map (fold (checked hex) fs) ws"
    using assms(1)
  proof (induction fs arbitrary: ws)
    case (Cons f fs)
    have "cdc_id (checked hex f x) = cdc_id x" for x
      by (auto simp: checked_def split: option.split)
    then have "distinct (map cdc_id (map (checked hex f) ws))"
      using Cons.prems by (simp add: comp_def)
    from Cons.IH [OF this] show ?case using Cons.prems by (simp add: check_changes_exact)
  qed simp
  then have "fold (checked hex) fs w \<in> set (fold (\<lambda>fetch ws. fst (check_changes hex fetch ws)) fs ws)"
    using assms(2) by simp
  then show ?thesis
    using checked_series [of w hex fs] assms(3-7) by (intro bexI [of _ "fold (checked hex) fs w"]) simp_all
qed

section \<open>The analytics buffer\<close>

record analytics_event =
  ae_timestamp :: nat
  ae_type :: string
  ae_path :: string
  ae_method :: string
  ae_status :: nat
  ae_duration_ms :: real
  ae_ip :: string
  ae_user_agent :: string
  ae_body_size :: nat

record analytics =
  an_buffer :: "analytics_event list"
  an_buffer_size :: nat
  an_sink_url :: "string option"

definition analytics_new :: "nat \<Rightarrow> string option \<Rightarrow> analytics" where
  "analytics_new n sink = \<lparr>an_buffer = [], an_buffer_size = n, an_sink_url = sink\<rparr>"

text \<open>
  The second component is the batch taken out of the buffer; it is posted when there is a sink,
  and gone either way: a failed post is only logged.
\<close>

definition flush_buffer :: "analytics \<Rightarrow> analytics \<times> analytics_event list" where
  "flush_buffer a = (a\<lparr>an_buffer := []\<rparr>, an_buffer a)"

definition record_event :: "analytics_event \<Rightarrow> analytics \<Rightarrow> analytics \<times> analytics_event list option" where
  "record_event e a =
     (let a1 = a\<lparr>an_buffer := an_buffer a @ [e]\<rparr> in
      if an_buffer_size a1 \<le> length (an_buffer a1) then apsnd Some (flush_buffer a1) else (a1, None))"

definition analytics_export :: "analytics \<Rightarrow> analytics_event list" where
  "analytics_export a = an_buffer a"

fun record_events :: "analytics_event list \<Rightarrow> analytics \<Rightarrow> analytics \<times> analytics_event list list" where
  "record_events [] a = (a, [])"
| "record_events (e # es) a =
     (let (a', batch) = record_event e a; (a'', batches) = record_events es a'
      in (a'', case batch of Some b \<Rightarrow> b # batches | None \<Rightarrow> batches))"

text \<open>
  The buffer neither drops nor repeats an event. The batches flushed so far followed by the
  buffer are the recorded events in order, every batch has exactly the configured size, and the
  buffer always holds fewer events than that.
\<close>

theorem analytics_batches:
  assumes "record_events es a = (a', batches)" "length (an_buffer a) < max 1 (an_buffer_size a)"
  shows "concat batches @ an_buffer a' = an_buffer a @ es"
    and "\<forall>b \<in> set batches. length b = max 1 (an_buffer_size a)"
    and "length (an_buffer a') < max 1 (an_buffer_size a)"
proof -
  have "concat batches @ an_buffer a' = an_buffer a @ es \<and>
      (\<forall>b \<in> set batches. length b = max 1 (an_buffer_size a)) \<and> length (an_buffer a') < max 1 (an_buffer_size a)"
    using assms
  proof (induction es arbitrary: a batches)
    case (Cons e es)
    obtain a1 batch where one: "record_event e a = (a1, batch)" by fastforce
    obtain batches1 where rest: "record_events es a1 = (a', batches1)"
      "batches = (case batch of Some b \<Rightarrow> b # batches1 | None \<Rightarrow> batches1)"
      using Cons.prems(1) by (auto simp: one split: prod.splits)
    have same: "an_buffer_size a1 = an_buffer_size a"
      using one by (auto simp: record_event_def flush_buffer_def Let_def split: if_splits)
    have a1: "case batch of
        Some b \<Rightarrow> b = an_buffer a @ [e] \<and> an_buffer a1 = [] \<and> length b = max 1 (an_buffer_size a)
      | None \<Rightarrow> an_buffer a1 = an_buffer a @ [e] \<and> length (an_buffer a1) < max 1 (an_buffer_size a)"
      using one Cons.prems(2) by (auto simp: record_event_def flush_buffer_def Let_def split: if_splits)
    then have "length (an_buffer a1) < max 1 (an_buffer_size a1)"
      using same by (auto split: option.splits)
    from Cons.IH [OF rest(1) this] show ?case
      using a1 same by (auto simp: rest(2) split: option.splits)
  qed simp
  then show "concat batches @ an_buffer a' = an_buffer a @ es"
    "\<forall>b \<in> set batches. length b = max 1 (an_buffer_size a)"
    "length (an_buffer a') < max 1 (an_buffer_size a)" by blast+
qed

end
