(* ===== verification/Discovery.thy ===== *)
theory Discovery
  imports Registry Body_Transform
begin

text \<open>
  src/src/discovery/: the mesh registry, and the discovery of services from Docker labels, a
  Consul catalogue and DNS service records, with the Docker loop of src/src/bootstrap/state.rs.
  The answers of Docker, Consul and the resolver are parameters; a JSON object is a list in the
  order of its map. Fresh identifiers and the clock are arguments.
\<close>

section \<open>The mesh\<close>

record mesh_retry =
  mesh_max_retries :: nat
  mesh_per_try_timeout_ms :: nat
  mesh_retry_on :: "string list"

record mesh_service =
  mesh_name :: string
  sidecar_port :: nat
  mtls_enabled :: bool
  mesh_retry_policy :: mesh_retry
  mesh_circuit_breaker :: bool
  mesh_load_balance :: string
  mesh_tags :: "string list"

record service_mesh =
  mesh_enabled :: bool
  mesh_services :: "(string, mesh_service) dashmap"

definition mesh_retry_default :: mesh_retry where
  "mesh_retry_default =
     \<lparr>mesh_max_retries = 3, mesh_per_try_timeout_ms = 5000, mesh_retry_on = [''5xx'', ''connect-failure'']\<rparr>"

definition mesh_new :: "bool \<Rightarrow> service_mesh" where
  "mesh_new enabled = \<lparr>mesh_enabled = enabled, mesh_services = []\<rparr>"

definition mesh_register :: "string \<Rightarrow> nat \<Rightarrow> bool \<Rightarrow> string list \<Rightarrow> service_mesh \<Rightarrow> service_mesh" where
  "mesh_register name port mtls tags m =
     m\<lparr>mesh_services := dm_insert name
         \<lparr>mesh_name = name, sidecar_port = port, mtls_enabled = mtls, mesh_retry_policy = mesh_retry_default,
          mesh_circuit_breaker = True, mesh_load_balance = ''round-robin'', mesh_tags = tags\<rparr> (mesh_services m)\<rparr>"

definition mesh_resolve :: "string \<Rightarrow> service_mesh \<Rightarrow> mesh_service option" where
  "mesh_resolve name m = dm_get (mesh_services m) name"

definition mesh_list :: "service_mesh \<Rightarrow> mesh_service list" where
  "mesh_list m = map snd (mesh_services m)"

definition mesh_deregister :: "string \<Rightarrow> service_mesh \<Rightarrow> service_mesh \<times> bool" where
  "mesh_deregister name m =
     (m\<lparr>mesh_services := dm_remove name (mesh_services m)\<rparr>, dm_get (mesh_services m) name \<noteq> None)"

definition mesh_count :: "service_mesh \<Rightarrow> nat" where
  "mesh_count m = length (mesh_services m)"

section \<open>Docker\<close>

record discovered =
  dis_name :: string
  dis_prefix :: string
  dis_upstream :: string
  dis_health :: string

definition label_text :: "(string, json) dashmap \<Rightarrow> string \<Rightarrow> string option" where
  "label_text labels k = Option.bind (dm_get labels k) as_text"

definition container_ip :: "json \<Rightarrow> string option" where
  "container_ip c =
     Option.bind (Option.bind (Option.bind (json_get ''NetworkSettings'' c) (json_get ''Networks'')) as_object)
       (\<lambda>networks. case networks of
          [] \<Rightarrow> None
        | (_, first) # _ \<Rightarrow> Option.bind (json_get ''IPAddress'' first) as_text)"

definition container_service :: "json \<Rightarrow> discovered option" where
  "container_service c =
     Option.bind (Option.bind (json_get ''Labels'' c) as_object) (\<lambda>labels.
     Option.bind (label_text labels ''xiranet.service.name'') (\<lambda>name.
     Option.bind (label_text labels ''xiranet.service.prefix'') (\<lambda>pref.
     Option.bind (Option.bind (label_text labels ''xiranet.service.port'') (parse_uint 65535)) (\<lambda>port.
     Option.bind (container_ip c) (\<lambda>ip.
       Some \<lparr>dis_name = name, dis_prefix = pref, dis_upstream = ''http://'' @ ip @ '':'' @ show_nat port,
             dis_health = (case label_text labels ''xiranet.service.health'' of
                Some h \<Rightarrow> h | None \<Rightarrow> ''/health'')\<rparr>)))))"

text \<open>\<open>None\<close> for a failed call or an answer that is not a list.\<close>

definition docker_discover :: "json list option \<Rightarrow> discovered list" where
  "docker_discover answer = (case answer of Some cs \<Rightarrow> List.map_filter container_service cs | None \<Rightarrow> [])"

definition docker_round :: "nat \<Rightarrow> (uuid \<times> discovered) list \<Rightarrow> registry \<Rightarrow> registry" where
  "docker_round now found r =
     fold (\<lambda>(fresh, s) r.
       if find_by_prefix (dis_prefix s) r = None
       then fst (reg_register fresh now (dis_name s) (dis_prefix s) (dis_upstream s) (dis_health s) r)
       else r) found r"

section \<open>Consul and DNS\<close>

definition instance_url :: "string \<times> nat \<Rightarrow> string" where
  "instance_url = (\<lambda>(host, port). ''http://'' @ host @ '':'' @ show_nat port)"

definition register_instances ::
  "uuid \<Rightarrow> nat \<Rightarrow> string \<Rightarrow> string list \<Rightarrow> registry \<Rightarrow> registry" where
  "register_instances fresh now name upstreams r =
     (let (r1, e) = reg_register fresh now name (''/'' @ name) (hd upstreams) ''/health'' r
      in if 1 < length upstreams then fst (set_upstreams (svc_id e) (tl upstreams) r1) else r1)"

text \<open>One service of the catalogue: \<open>instances\<close> is \<open>None\<close> when its details cannot be read.\<close>

definition consul_one ::
  "nat \<Rightarrow> uuid \<times> string \<times> (string \<times> nat) list option \<Rightarrow> registry \<Rightarrow> registry" where
  "consul_one now = (\<lambda>(fresh, name, instances) r.
     if name = ''consul'' then r
     else case instances of
            Some (i # is) \<Rightarrow>
              if find_by_prefix (''/'' @ name) r = None
              then register_instances fresh now name (map instance_url (i # is)) r
              else r
          | _ \<Rightarrow> r)"

definition discover_consul ::
  "nat \<Rightarrow> (uuid \<times> string \<times> (string \<times> nat) list option) list option \<Rightarrow> registry \<Rightarrow> registry" where
  "discover_consul now catalogue r =
     (case catalogue of None \<Rightarrow> r | Some services_map \<Rightarrow> fold (consul_one now) services_map r)"

definition dns_service_name :: "string \<Rightarrow> string" where
  "dns_service_name domain = hd (split_on (CHR ''.'') (dropWhile (\<lambda>c. c = CHR ''_'') domain))"

definition dns_target :: "string \<times> nat \<Rightarrow> string \<times> nat" where
  "dns_target = (\<lambda>(target, port). (trim_end_matches (CHR ''.'') target, port))"

definition discover_dns :: "uuid \<Rightarrow> nat \<Rightarrow> string \<Rightarrow> (string \<times> nat) list option \<Rightarrow> registry \<Rightarrow> registry" where
  "discover_dns fresh now domain records r =
     (case records of
        None \<Rightarrow> r
      | Some rs \<Rightarrow>
          if rs = [] then r
          else (let name = dns_service_name domain in
                if find_by_prefix (''/'' @ name) r = None
                then register_instances fresh now name (map (instance_url \<circ> dns_target) rs) r
                else r))"

datatype discovery_backend = ConsulBackend string "string option" | DnsBackend string | StaticBackend

text \<open>One round of the loop; the answers of both sources are given, one of them is read.\<close>

definition discovery_round ::
  "nat \<Rightarrow> uuid \<Rightarrow> (uuid \<times> string \<times> (string \<times> nat) list option) list option \<Rightarrow>
     (string \<times> nat) list option \<Rightarrow> discovery_backend \<Rightarrow> registry \<Rightarrow> registry" where
  "discovery_round now fresh catalogue records backend r =
     (case backend of
        ConsulBackend url dc \<Rightarrow> discover_consul now catalogue r
      | DnsBackend domain \<Rightarrow> discover_dns fresh now domain records r
      | StaticBackend \<Rightarrow> r)"

section \<open>What discovery does to the registry\<close>

lemma replace_absent: "find_by_prefix p r = None \<Longrightarrow> replace_prefix p r = r"
  by (simp add: replace_prefix_def)

lemma register_absent_get:
  assumes "find_by_prefix p r = None"
  shows "dm_get (services (fst (reg_register fresh now name p upstream health r))) i =
    (if i = fresh then Some (service_entry_new fresh now name p upstream health) else dm_get (services r) i)"
  using assms by (simp add: reg_register_def Let_def replace_absent add_entry_def dashmap_simps service_entry_new_def)

lemma register_instances_get:
  assumes "find_by_prefix (''/'' @ name) r = None"
  shows "dm_get (services (register_instances fresh now name us r)) i =
    (if i = fresh
     then Some ((service_entry_new fresh now name (''/'' @ name) (hd us) ''/health'')
            \<lparr>svc_upstreams := (if 1 < length us then tl us else [])\<rparr>)
     else dm_get (services r) i)"
proof -
  have e: "snd (reg_register fresh now name p u ''/health'' r) =
      service_entry_new fresh now name p u ''/health''" for p u
    by (simp add: reg_register_def Let_def)
  have "e\<lparr>svc_upstreams := []\<rparr> = e" if "svc_upstreams e = []" for e :: service_entry
    using that by (cases e) simp
  then show ?thesis
    using assms
    by (simp add: register_instances_def Let_def case_prod_unfold e register_absent_get set_upstreams_def dashmap_simps)
      (auto simp: service_entry_new_def)
qed

definition round_fresh ::
  "uuid \<Rightarrow> (uuid \<times> string \<times> (string \<times> nat) list option) list option \<Rightarrow> uuid \<Rightarrow> bool" where
  "round_fresh fresh catalogue i \<longleftrightarrow>
     fresh \<noteq> i \<and> (case catalogue of Some cs \<Rightarrow> i \<notin> fst ` set cs | None \<Rightarrow> True)"

lemma consul_fold_keeps:
  assumes "i \<notin> fst ` set cs"
  shows "dm_get (services (fold (consul_one now) cs r)) i = dm_get (services r) i"
  using assms
proof (induction cs arbitrary: r)
  case (Cons c cs)
  have "dm_get (services (consul_one now c r)) i = dm_get (services r) i"
    using Cons.prems
    by (cases c) (auto simp: consul_one_def register_instances_get split: option.split list.split)
  with Cons show ?case by simp
qed simp

lemma round_keeps:
  assumes "round_fresh fresh catalogue i"
  shows "dm_get (services (discovery_round now fresh catalogue records backend r)) i = dm_get (services r) i"
  using assms
  by (auto simp: discovery_round_def discover_consul_def discover_dns_def round_fresh_def consul_fold_keeps
      register_instances_get Let_def split: discovery_backend.split option.split)

text \<open>
  Discovery only adds. However many rounds run and whatever the sources answer, a service that is
  registered keeps its upstreams as they are: instances that move, join or go away are never
  followed.
\<close>

theorem discovery_never_updates:
  assumes "dm_get (services r) i = Some e"
    and "\<forall>(now, fresh, catalogue, records) \<in> set rounds. round_fresh fresh catalogue i"
  shows "dm_get (services (fold (\<lambda>(now, fresh, catalogue, records). discovery_round now fresh catalogue records backend)
      rounds r)) i = Some e"
  using assms
proof (induction rounds arbitrary: r)
  case (Cons x rounds)
  obtain now fresh catalogue records where x: "x = (now, fresh, catalogue, records)" by (cases x) auto
  have "dm_get (services (discovery_round now fresh catalogue records backend r)) i = Some e"
    using Cons.prems by (simp add: x round_keeps)
  with Cons show ?case by (simp add: x)
qed simp

text \<open>
  A new service of the catalogue gets all its instances, the first as its upstream, the rest as
  further ones. But what is stored is the entry before the further ones were added, and
  they are not stored later: after a restart only the first instance is left, and, the prefix being
  known, discovery does not add the others again.
\<close>

theorem discovered_instances:
  assumes "find_by_prefix (''/'' @ name) r = None" "name \<noteq> ''consul''" "reg_storage r = Some calls"
    and "r' = consul_one now (fresh, name, Some (i # is)) r"
  shows "\<exists>e. dm_get (services r') fresh = Some e \<and> svc_prefix e = entry_prefix (''/'' @ name) \<and>
      svc_upstream e = trim_end_matches CHR ''/'' (instance_url i) \<and> svc_upstreams e = map instance_url is"
    and "\<exists>e. reg_storage r' = Some (calls @ [SaveService e, LogEvent ''service_registered'' fresh name]) \<and>
      svc_prefix e = entry_prefix (''/'' @ name) \<and> svc_upstreams e = []"
proof -
  have r': "r' = register_instances fresh now name (map instance_url (i # is)) r"
    using assms by (simp add: consul_one_def)
  show "\<exists>e. dm_get (services r') fresh = Some e \<and> svc_prefix e = entry_prefix (''/'' @ name) \<and>
      svc_upstream e = trim_end_matches CHR ''/'' (instance_url i) \<and> svc_upstreams e = map instance_url is"
    using assms(1) by (simp add: r' register_instances_get service_entry_new_def)
  show "\<exists>e. reg_storage r' = Some (calls @ [SaveService e, LogEvent ''service_registered'' fresh name]) \<and>
      svc_prefix e = entry_prefix (''/'' @ name) \<and> svc_upstreams e = []"
    using assms(1,3)
    by (simp add: r' register_instances_def reg_register_def Let_def replace_absent add_entry_def reg_call_def
        set_upstreams_def service_entry_new_def)
qed

end
