(* ===== verification/Service_Table.thy ===== *)
theory Service_Table
  imports Boot Storage Complex_Main
begin

text \<open>
  src/src/registry/storage.rs: the tables behind the registry and the request log. A table is the
  list of its rows. The statements have their documented effect under the constraints of the schema:
  \<open>services\<close> has the primary key \<open>id\<close> and a unique \<open>prefix\<close>, so that \<open>INSERT OR REPLACE\<close> deletes
  every row that conflicts with the new one, and \<open>request_logs.service_id\<close> refers to
  \<open>services.id\<close> with \<open>PRAGMA foreign_keys=ON\<close>, so that a statement after which a log row refers to
  nothing fails and changes nothing. The text of identifiers, times, string lists and header rules
  (uuid, chrono, serde_json) is a parameter; what the code relies on is that each can be read back.
  Errors of the disk are not modelled.
\<close>

section \<open>Rows\<close>

record table_env =
  uuid_text :: "uuid \<Rightarrow> string"
  parse_uuid :: "string \<Rightarrow> uuid option"
  list_text :: "string list \<Rightarrow> string"
  parse_list :: "string \<Rightarrow> string list option"
  transform_text :: "transform_config \<Rightarrow> string"
  parse_transform_text :: "string \<Rightarrow> transform_config option"
  time_text :: "nat \<Rightarrow> string"
  parse_time :: "string \<Rightarrow> nat option"

definition codecs_ok :: "table_env \<Rightarrow> bool" where
  "codecs_ok env \<longleftrightarrow>
     (\<forall>i. parse_uuid env (uuid_text env i) = Some i) \<and>
     (\<forall>xs. parse_list env (list_text env xs) = Some xs) \<and>
     (\<forall>t. parse_transform_text env (transform_text env t) = Some t) \<and>
     (\<forall>n. parse_time env (time_text env n) = Some n)"

record service_row =
  sr_id :: string
  sr_name :: string
  sr_prefix :: string
  sr_upstream :: string
  sr_health :: string
  sr_upstreams :: string
  sr_load_balance :: "string option"
  sr_version :: "string option"
  sr_schema :: "string option"
  sr_whitelist :: string
  sr_blacklist :: string
  sr_transform :: "string option"
  sr_registered_at :: string
  sr_request_count :: int

record log_row =
  lg_service :: "string option"
  lg_method :: string
  lg_path :: string
  lg_status :: nat
  lg_duration_ms :: int
  lg_peer :: string
  lg_timestamp :: string

record event_row =
  er_type :: string
  er_service :: "string option"
  er_name :: "string option"
  er_message :: string
  er_timestamp :: string

record service_db =
  tb_services :: "service_row list"
  tb_logs :: "log_row list"
  tb_events :: "event_row list"

definition db_new :: service_db where
  "db_new = \<lparr>tb_services = [], tb_logs = [], tb_events = []\<rparr>"

text \<open>The columns that older databases lack are added when the storage is opened.\<close>

definition add_services_column_if_missing :: "string list \<Rightarrow> string \<Rightarrow> string list \<Rightarrow> string list" where
  "add_services_column_if_missing existing column columns =
     (if column \<in> set existing then columns else columns @ [column])"

definition migrate_services_table :: "string list \<Rightarrow> string list" where
  "migrate_services_table existing =
     fold (add_services_column_if_missing existing) [''ip_whitelist'', ''ip_blacklist'', ''transform''] existing"

definition service_row_of :: "table_env \<Rightarrow> service_entry \<Rightarrow> service_row" where
  "service_row_of env e =
     \<lparr>sr_id = uuid_text env (svc_id e), sr_name = svc_name e, sr_prefix = svc_prefix e,
      sr_upstream = svc_upstream e, sr_health = health_endpoint e,
      sr_upstreams = list_text env (svc_upstreams e), sr_load_balance = load_balance e,
      sr_version = svc_version e, sr_schema = validation_schema e,
      sr_whitelist = list_text env (ip_whitelist e), sr_blacklist = list_text env (ip_blacklist e),
      sr_transform = map_option (transform_text env) (svc_transform e),
      sr_registered_at = time_text env (registered_at e), sr_request_count = i64_of_u64 (request_count e)\<rparr>"

text \<open>The cast \<open>i as u64\<close>.\<close>

definition u64_of_i64 :: "int \<Rightarrow> nat" where
  "u64_of_i64 i = nat (i mod 2 ^ 64)"

definition parse_string_vec :: "table_env \<Rightarrow> string \<Rightarrow> string list" where
  "parse_string_vec env raw = (case parse_list env raw of Some xs \<Rightarrow> xs | None \<Rightarrow> [])"

definition parse_transform :: "table_env \<Rightarrow> string option \<Rightarrow> transform_config option" where
  "parse_transform env raw = Option.bind raw (parse_transform_text env)"

text \<open>An identifier that is not one becomes the nil identifier, a time that is not one the present.\<close>

definition service_of_row :: "table_env \<Rightarrow> nat \<Rightarrow> service_row \<Rightarrow> service_entry" where
  "service_of_row env now r =
     \<lparr>svc_id = (case parse_uuid env (sr_id r) of Some i \<Rightarrow> i | None \<Rightarrow> 0), svc_name = sr_name r,
      svc_prefix = sr_prefix r, svc_upstream = sr_upstream r, health_endpoint = sr_health r,
      svc_status = Unknown,
      registered_at = (case parse_time env (sr_registered_at r) of Some t \<Rightarrow> t | None \<Rightarrow> now),
      last_health_check = None, request_count = u64_of_i64 (sr_request_count r),
      svc_upstreams = parse_string_vec env (sr_upstreams r), load_balance = sr_load_balance r,
      svc_version = sr_version r, validation_schema = sr_schema r,
      ip_whitelist = parse_string_vec env (sr_whitelist r), ip_blacklist = parse_string_vec env (sr_blacklist r),
      svc_transform = parse_transform env (sr_transform r)\<rparr>"

section \<open>Statements\<close>

definition logged_ids :: "service_db \<Rightarrow> string set" where
  "logged_ids db = set (List.map_filter lg_service (tb_logs db))"


definition references_ok :: "service_db \<Rightarrow> bool" where
  "references_ok db \<longleftrightarrow> logged_ids db \<subseteq> sr_id ` set (tb_services db)"

text \<open>A statement that leaves a reference open fails; \<open>False\<close> is the error the caller sees.\<close>

definition commit :: "service_db \<Rightarrow> service_db \<Rightarrow> service_db \<times> bool" where
  "commit db db' = (if references_ok db' then (db', True) else (db, False))"

definition save_service :: "table_env \<Rightarrow> service_entry \<Rightarrow> service_db \<Rightarrow> service_db \<times> bool" where
  "save_service env e db =
     (let row = service_row_of env e;
          kept = filter (\<lambda>r. sr_id r \<noteq> sr_id row \<and> sr_prefix r \<noteq> sr_prefix row) (tb_services db)
      in commit db (db\<lparr>tb_services := kept @ [row]\<rparr>))"

definition load_all_services :: "table_env \<Rightarrow> nat \<Rightarrow> service_db \<Rightarrow> service_entry list" where
  "load_all_services env now db = map (service_of_row env now) (tb_services db)"

definition remove_service :: "string \<Rightarrow> service_db \<Rightarrow> service_db \<times> bool" where
  "remove_service i db = commit db (db\<lparr>tb_services := filter (\<lambda>r. sr_id r \<noteq> i) (tb_services db)\<rparr>)"

definition db_log_request ::
  "table_env \<Rightarrow> nat \<Rightarrow> string option \<Rightarrow> string \<Rightarrow> string \<Rightarrow> nat \<Rightarrow> nat \<Rightarrow> string \<Rightarrow> service_db \<Rightarrow> service_db \<times> bool" where
  "db_log_request env now service verb path status duration peer db =
     commit db (db\<lparr>tb_logs := tb_logs db @
       [\<lparr>lg_service = service, lg_method = verb, lg_path = path, lg_status = status,
         lg_duration_ms = i64_of_u64 duration, lg_peer = peer, lg_timestamp = time_text env now\<rparr>]\<rparr>)"

definition db_log_event ::
  "table_env \<Rightarrow> nat \<Rightarrow> string \<Rightarrow> string option \<Rightarrow> string option \<Rightarrow> string \<Rightarrow> service_db \<Rightarrow> service_db" where
  "db_log_event env now event_type service name message db =
     db\<lparr>tb_events := tb_events db @
       [\<lparr>er_type = event_type, er_service = service, er_name = name, er_message = message,
         er_timestamp = time_text env now\<rparr>]\<rparr>"

definition update_request_count :: "string \<Rightarrow> nat \<Rightarrow> service_db \<Rightarrow> service_db" where
  "update_request_count i n db =
     db\<lparr>tb_services := map (\<lambda>r. if sr_id r = i then r\<lparr>sr_request_count := i64_of_u64 n\<rparr> else r) (tb_services db)\<rparr>"

text \<open>\<open>LIMIT ?1\<close> with the limit cast to a signed number: a negative limit is none.\<close>

definition limited :: "nat \<Rightarrow> 'a list \<Rightarrow> 'a list" where
  "limited n xs = (if i64_of_u64 n < 0 then xs else take n xs)"

definition get_recent_logs :: "nat \<Rightarrow> service_db \<Rightarrow> log_row list" where
  "get_recent_logs n db = limited n (rev (tb_logs db))"

definition get_recent_events :: "nat \<Rightarrow> service_db \<Rightarrow> event_row list" where
  "get_recent_events n db = limited n (rev (tb_events db))"

definition get_stats :: "service_db \<Rightarrow> nat \<times> real \<times> nat" where
  "get_stats db =
     (length (tb_logs db),
      (if tb_logs db = [] then 0
       else real_of_int (sum_list (map lg_duration_ms (tb_logs db))) / real (length (tb_logs db))),
      length (filter (\<lambda>l. 500 \<le> lg_status l) (tb_logs db)))"

section \<open>The registry and its tables\<close>

text \<open>
  What the registry asks of the storage, in order; it logs an error and goes on. The message of an
  event names the service in quotes.
\<close>

definition event_message :: "string \<Rightarrow> string \<Rightarrow> string" where
  "event_message event_type name =
     ''Service '' @ CHR 0x27 # name @ CHR 0x27 #
     (if event_type = ''service_registered'' then '' registered'' else '' unregistered'')"

fun db_call :: "table_env \<Rightarrow> nat \<Rightarrow> storage_call \<Rightarrow> service_db \<Rightarrow> service_db" where
  "db_call env now (SaveService e) db = fst (save_service env e db)"
| "db_call env now (RemoveService i) db = fst (remove_service (uuid_text env i) db)"
| "db_call env now (LogEvent t i name) db =
     db_log_event env now t (Some (uuid_text env i)) (Some name) (event_message t name) db"
| "db_call env now (UpdateRequestCount i n) db = update_request_count (uuid_text env i) n db"

definition emitted :: "reg_event \<Rightarrow> registry \<Rightarrow> storage_call list" where
  "emitted e r = the (reg_storage (reg_step e (r\<lparr>reg_storage := Some []\<rparr>)))"

text \<open>
  A node: an operation of the registry with its statements, or a request that the logger records
  with the service its path leads to.
\<close>

datatype node_event =
    RegCall nat reg_event
  | Served nat string string nat nat string

fun node_step :: "table_env \<Rightarrow> node_event \<Rightarrow> registry \<times> service_db \<Rightarrow> registry \<times> service_db" where
  "node_step env (RegCall now e) (r, db) =
     (reg_step e (r\<lparr>reg_storage := Some []\<rparr>), fold (db_call env now) (emitted e r) db)"
| "node_step env (Served now verb path status duration peer) (r, db) =
     (r, if logged_path path
         then fst (db_log_request env now (map_option (uuid_text env \<circ> svc_id) (reg_lookup path r)) verb path
                     status duration peer db)
         else db)"

definition restarted :: "table_env \<Rightarrow> nat \<Rightarrow> service_db \<Rightarrow> registry" where
  "restarted env now db = registry_with_storage (load_all_services env now db)"

section \<open>What is read back\<close>

lemma u64_i64_cast [simp]: "n \<le> u64_max \<Longrightarrow> u64_of_i64 (i64_of_u64 n) = n"
  by (auto simp: u64_of_i64_def i64_of_u64_def u64_max_def mod_pos_pos_trivial)

text \<open>
  A service that is saved is read back as it was, but for its status and the time of its last
  check, which are not stored.
\<close>

theorem service_row_round:
  assumes "codecs_ok env" "request_count e \<le> u64_max"
  shows "service_of_row env now (service_row_of env e) = e\<lparr>svc_status := Unknown, last_health_check := None\<rparr>"
  using assms
  by (cases e; cases "svc_transform e")
    (simp_all add: service_of_row_def service_row_of_def codecs_ok_def parse_string_vec_def parse_transform_def)

text \<open>A migrated table is left alone by the next start, and has the columns that are read.\<close>

theorem migration_idempotent:
  "migrate_services_table (migrate_services_table columns) = migrate_services_table columns"
  "{''ip_whitelist'', ''ip_blacklist'', ''transform''} \<subseteq> set (migrate_services_table columns)"
  by (auto simp: migrate_services_table_def add_services_column_if_missing_def)

section \<open>What the table holds of the registry\<close>

text \<open>The part of an entry that is kept in the table: the count only down to the last hundred.\<close>

definition rounded :: "service_entry \<Rightarrow> service_entry" where
  "rounded e = e\<lparr>request_count := request_count e - request_count e mod 100\<rparr>"

definition entry_key :: "table_env \<Rightarrow> service_entry \<Rightarrow> service_row" where
  "entry_key env e = service_row_of env (rounded e)"

definition counts_ok :: "registry \<Rightarrow> bool" where
  "counts_ok r \<longleftrightarrow> (\<forall>e \<in> set (list_all_services r). request_count e \<le> u64_max)"

definition table_match :: "table_env \<Rightarrow> registry \<Rightarrow> service_db \<Rightarrow> bool" where
  "table_match env r db \<longleftrightarrow>
     reg_wf r \<and> counts_ok r \<and> distinct (map sr_id (tb_services db)) \<and> references_ok db \<and>
     set (tb_services db) = entry_key env ` set (list_all_services r)"

lemma key_simps [simp]:
  "sr_id (entry_key env e) = uuid_text env (svc_id e)" "sr_prefix (entry_key env e) = svc_prefix e"
  "sr_id (service_row_of env e) = uuid_text env (svc_id e)" "sr_prefix (service_row_of env e) = svc_prefix e"
  by (simp_all add: entry_key_def service_row_of_def rounded_def)

lemma uuid_text_inj [simp]: "codecs_ok env \<Longrightarrow> uuid_text env i = uuid_text env j \<longleftrightarrow> i = j"
  by (metis codecs_ok_def option.inject)

lemma match_ids:
  "set rows = entry_key env ` S \<Longrightarrow> sr_id ` set rows = (\<lambda>e. uuid_text env (svc_id e)) ` S"
  by (drule arg_cong [of _ _ "image sr_id"]) (simp add: image_image)

lemma match_filter:
  assumes "set rows = entry_key env ` S" "\<And>e. P (entry_key env e) = Q e"
  shows "set (filter P rows) = entry_key env ` {e \<in> S. Q e}"
  using assms by auto

lemma list_all_remove: "reg_wf r \<Longrightarrow>
  set (list_all_services (r\<lparr>services := dm_remove i (services r)\<rparr>)) = {e \<in> set (list_all_services r). svc_id e \<noteq> i}"
  by (auto simp: list_all_services_def dm_remove_def reg_wf_def)

lemma list_all_insert:
  assumes "reg_wf r" "svc_id e = i"
  shows "set (list_all_services (r\<lparr>services := dm_insert i e (services r)\<rparr>)) =
    insert e {x \<in> set (list_all_services r). svc_id x \<noteq> i}"
proof -
  have "set (dm_insert i e m) = insert (i, e) {(j, x) \<in> set m. j \<noteq> i}" if "dm_wf m" for m
    using that by (induction i e m rule: dm_insert.induct) (auto simp: dm_wf_def image_iff)
  then show ?thesis using assms by (auto simp: list_all_services_def reg_wf_def)
qed

lemma list_all_call [simp]: "list_all_services (reg_call c r) = list_all_services r"
  by (simp add: list_all_services_def)

lemma call_frame [simp]:
  "logged_ids (db_call env now c db) = logged_ids db"
  by (cases c) (auto simp: logged_ids_def save_service_def remove_service_def commit_def db_log_event_def
      update_request_count_def Let_def)

lemma calls_frame [simp]: "logged_ids (fold (db_call env now) cs db) = logged_ids db"
  by (induction cs arbitrary: db) auto

lemma match_frame [simp]:
  "table_match env (reg_call c r) db = table_match env r db"
  "table_match env (r\<lparr>reg_storage := cs\<rparr>) db = table_match env r db"
  "table_match env (r\<lparr>reg_storage := cs, services := svcs\<rparr>) db = table_match env (r\<lparr>services := svcs\<rparr>) db"
  "table_match env r (db_log_event env now t i n m db) = table_match env r db"
  by (simp_all add: table_match_def reg_wf_def counts_ok_def list_all_services_def references_ok_def logged_ids_def
      db_log_event_def)

lemma save_match:
  assumes ok: "codecs_ok env" and m: "table_match env r db"
    and e: "svc_prefix e \<notin> svc_prefix ` set (list_all_services r)" "request_count e = 0"
  shows "table_match env (r\<lparr>services := dm_insert (svc_id e) e (services r)\<rparr>) (fst (save_service env e db))"
proof -
  let ?S = "set (list_all_services r)" and ?row = "service_row_of env e"
  let ?P = "\<lambda>x. sr_id x \<noteq> sr_id ?row \<and> sr_prefix x \<noteq> sr_prefix ?row"
  let ?kept = "filter ?P (tb_services db)"
  from m have wf: "reg_wf r" and rows: "set (tb_services db) = entry_key env ` ?S"
    and refs: "references_ok db" and d: "distinct (map sr_id (tb_services db))" and c: "counts_ok r"
    by (auto simp: table_match_def)
  have kept: "set ?kept = entry_key env ` {x \<in> ?S. svc_id x \<noteq> svc_id e \<and> svc_prefix x \<noteq> svc_prefix e}"
    by (rule match_filter [OF rows]) (simp_all add: ok)
  also have "{x \<in> ?S. svc_id x \<noteq> svc_id e \<and> svc_prefix x \<noteq> svc_prefix e} = {x \<in> ?S. svc_id x \<noteq> svc_id e}"
    using e(1) by (auto simp: image_iff)
  finally have keys: "set ?kept = entry_key env ` {x \<in> ?S. svc_id x \<noteq> svc_id e}" .
  have own: "?row = entry_key env e" using e(2) by (cases e) (simp add: entry_key_def rounded_def)
  have refs': "references_ok (db\<lparr>tb_services := ?kept @ [?row]\<rparr>)"
    using refs match_ids [OF rows] match_ids [OF keys] by (fastforce simp: references_ok_def logged_ids_def)
  have "distinct (map sr_id (?kept @ [?row]))" using d by (auto simp: distinct_map_filter)
  moreover have "reg_wf (r\<lparr>services := dm_insert (svc_id e) e (services r)\<rparr>)"
    by (rule insert_entry_wf [OF wf e(1)])
  ultimately show ?thesis
    using refs' keys own c e(2) list_all_insert [OF wf refl, of e]
    by (simp add: save_service_def commit_def table_match_def counts_ok_def)
qed

lemma remove_match:
  assumes ok: "codecs_ok env" and m: "table_match env r db" and i: "uuid_text env i \<notin> logged_ids db"
  shows "table_match env (r\<lparr>services := dm_remove i (services r)\<rparr>) (fst (remove_service (uuid_text env i) db))"
proof -
  let ?S = "set (list_all_services r)" and ?kept = "filter (\<lambda>r. sr_id r \<noteq> uuid_text env i) (tb_services db)"
  from m have wf: "reg_wf r" and rows: "set (tb_services db) = entry_key env ` ?S"
    and refs: "references_ok db" and d: "distinct (map sr_id (tb_services db))" and c: "counts_ok r"
    by (auto simp: table_match_def)
  have kept: "set ?kept = entry_key env ` {x \<in> ?S. svc_id x \<noteq> i}"
    by (rule match_filter [OF rows]) (simp_all add: ok)
  have "references_ok (db\<lparr>tb_services := ?kept\<rparr>)"
    using refs i by (fastforce simp: references_ok_def logged_ids_def)
  moreover have "reg_wf (r\<lparr>services := dm_remove i (services r)\<rparr>)"
    using wf by (auto simp: reg_wf_def dm_remove_def distinct_filter_fst distinct_filter_prefixes)
  ultimately show ?thesis
    using kept c d list_all_remove [OF wf, of i]
    by (simp add: remove_service_def commit_def table_match_def counts_ok_def distinct_map_filter)
qed

lemma list_all_update:
  "reg_wf r \<Longrightarrow> list_all_services (r\<lparr>services := dm_update i f (services r)\<rparr>) =
     map (\<lambda>e. if svc_id e = i then f e else e) (list_all_services r)"
  by (auto simp: list_all_services_def dm_update_def reg_wf_def case_prod_unfold)

lemma volatile_match:
  assumes "table_match env r db" "\<And>e. entry_key env (f e) = entry_key env e" "\<And>e. svc_prefix (f e) = svc_prefix e"
    "\<And>e. svc_id (f e) = svc_id e" "\<And>e. request_count (f e) = request_count e"
  shows "table_match env (r\<lparr>services := dm_update i f (services r)\<rparr>) db"
proof -
  from assms(1) have wf: "reg_wf r" by (simp add: table_match_def)
  have keys: "entry_key env ` set (list_all_services (r\<lparr>services := dm_update i f (services r)\<rparr>)) =
      entry_key env ` set (list_all_services r)"
    unfolding list_all_update [OF wf] set_map image_image by (intro image_cong) (simp_all add: assms(2))
  have "counts_ok (r\<lparr>services := dm_update i f (services r)\<rparr>)"
    using assms(1,5) by (auto simp: table_match_def counts_ok_def list_all_update [OF wf])
  then show ?thesis using keys assms(1) update_wf [OF wf assms(3,4)] by (simp add: table_match_def)
qed

lemma rounded_step:
  fixes n :: nat
  assumes "n \<le> u64_max" "wrap_add64 n 1 mod 100 \<noteq> 0"
  shows "wrap_add64 n 1 - wrap_add64 n 1 mod 100 = n - n mod 100"
proof -
  have w: "wrap_add64 n 1 = Suc n"
    using assms by (cases "n = u64_max") (simp_all add: wrap_add64_def u64_max_def)
  then show ?thesis using assms(2) mod_Suc [of n 100] by auto
qed

lemma update_count_ids [simp]:
  "map sr_id (tb_services (update_request_count i n db)) = map sr_id (tb_services db)"
  "sr_id ` set (tb_services (update_request_count i n db)) = sr_id ` set (tb_services db)"
proof -
  show ids: "map sr_id (tb_services (update_request_count i n db)) = map sr_id (tb_services db)"
    by (simp add: update_request_count_def)
  from arg_cong [OF ids, of set]
  show "sr_id ` set (tb_services (update_request_count i n db)) = sr_id ` set (tb_services db)" by simp
qed

lemma count_match:
  assumes ok: "codecs_ok env" and m: "table_match env r db" and i: "dm_get (services r) i = Some e"
    and n: "n = wrap_add64 (request_count e) 1"
  shows "table_match env (r\<lparr>services := dm_update i (\<lambda>e. e\<lparr>request_count := n\<rparr>) (services r)\<rparr>)
    (if n mod 100 = 0 then update_request_count (uuid_text env i) n db else db)"
proof -
  let ?S = "set (list_all_services r)" and ?f = "\<lambda>e. e\<lparr>request_count := n\<rparr>"
  let ?r = "r\<lparr>services := dm_update i ?f (services r)\<rparr>"
  let ?db = "if n mod 100 = 0 then update_request_count (uuid_text env i) n db else db"
  from m have wf: "reg_wf r" and rows: "set (tb_services db) = entry_key env ` ?S" and c: "counts_ok r"
    by (auto simp: table_match_def)
  have only: "x = e" if "x \<in> ?S" "svc_id x = i" for x
    using that i wf dm_get_mem [of "services r" i] by (fastforce simp: list_all_services_def reg_wf_def)
  have e: "request_count e \<le> u64_max"
    using c i by (force simp: counts_ok_def list_all_services_def dest: map_of_SomeD)
  have all: "list_all_services ?r = map (\<lambda>e. if svc_id e = i then ?f e else e) (list_all_services r)"
    by (rule list_all_update [OF wf])
  have frame: "sr_id ` set (tb_services ?db) = sr_id ` set (tb_services db)"
    "map sr_id (tb_services ?db) = map sr_id (tb_services db)" by simp_all
  have keys: "set (tb_services ?db) = entry_key env ` set (list_all_services ?r)"
  proof (cases "n mod 100 = 0")
    case False
    have "entry_key env (if svc_id x = i then ?f x else x) = entry_key env x" if "x \<in> ?S" for x
      using only [OF that] rounded_step [OF e] False n by (auto simp: entry_key_def rounded_def)
    then show ?thesis using rows False unfolding all set_map image_image by simp
  next
    case True
    let ?g = "\<lambda>x. if sr_id x = uuid_text env i then x\<lparr>sr_request_count := i64_of_u64 n\<rparr> else x"
    have "?g ` set (tb_services db) = (\<lambda>x. ?g (entry_key env x)) ` ?S" by (simp only: rows image_image)
    also have "\<dots> = (\<lambda>x. entry_key env (if svc_id x = i then ?f x else x)) ` ?S"
      by (intro image_cong refl) (use True in \<open>auto simp: ok entry_key_def rounded_def service_row_of_def\<close>)
    finally show ?thesis using True unfolding all set_map
      by (simp add: update_request_count_def image_image del: if_image_distrib)
  qed
  moreover have "counts_ok ?r" using c unfolding counts_ok_def all by (auto simp: n)
  moreover have "reg_wf ?r" by (rule update_wf [OF wf]) simp_all
  moreover have "references_ok ?db"
    using m frame(1) by (auto simp: references_ok_def table_match_def logged_ids_def update_request_count_def)
  ultimately show ?thesis using m frame(2) by (simp add: table_match_def)
qed

text \<open>The calls of an operation are appended to those of the operations before it.\<close>

definition synced :: "table_env \<Rightarrow> nat \<Rightarrow> service_db \<Rightarrow> registry \<Rightarrow> bool" where
  "synced env now db r \<longleftrightarrow>
     (case reg_storage r of Some cs \<Rightarrow> table_match env r (fold (db_call env now) cs db) | None \<Rightarrow> False)"

definition undisturbed_call :: "table_env \<Rightarrow> service_db \<Rightarrow> storage_call \<Rightarrow> bool" where
  "undisturbed_call env db c \<longleftrightarrow>
     (case c of RemoveService i \<Rightarrow> uuid_text env i \<notin> logged_ids db | _ \<Rightarrow> True)"

lemma synced_frame: "synced env now db r \<Longrightarrow> reg_storage r = Some cs \<Longrightarrow>
  table_match env r (fold (db_call env now) cs db)"
  by (simp add: synced_def)

lemma replace_calls:
  "reg_storage (replace_prefix p r) = map_option (\<lambda>cs. cs @
     (case find_by_prefix p r of Some e \<Rightarrow> [RemoveService (svc_id e)] | None \<Rightarrow> [])) (reg_storage r)"
  by (cases "reg_storage r") (simp_all add: replace_prefix_def reg_call_def split: option.split)

lemma synced_replace:
  assumes ok: "codecs_ok env" and s: "synced env now db r"
    and u: "\<forall>c \<in> set (the (reg_storage (replace_prefix p r))). undisturbed_call env db c"
  shows "synced env now db (replace_prefix p r)"
proof (cases "find_by_prefix p r")
  case None
  then show ?thesis using s by (simp add: replace_prefix_def)
next
  case (Some e)
  from s obtain cs where cs: "reg_storage r = Some cs" by (auto simp: synced_def split: option.splits)
  have "uuid_text env (svc_id e) \<notin> logged_ids db"
    using u Some cs by (simp add: replace_calls undisturbed_call_def)
  then have "table_match env (r\<lparr>services := dm_remove (svc_id e) (services r)\<rparr>)
      (fst (remove_service (uuid_text env (svc_id e)) (fold (db_call env now) cs db)))"
    by (intro remove_match [OF ok synced_frame [OF s cs]]) simp
  then show ?thesis using Some cs by (simp add: synced_def replace_prefix_def) (simp add: reg_call_def)
qed

lemma synced_save:
  assumes ok: "codecs_ok env" and s: "synced env now db r"
    and e: "svc_prefix e \<notin> svc_prefix ` set (list_all_services r)" "request_count e = 0"
  shows "synced env now db ((reg_call (SaveService e) r)\<lparr>services := dm_insert (svc_id e) e (services r)\<rparr>)"
    and "synced env now db (add_entry e r)"
proof -
  from s obtain cs where cs: "reg_storage r = Some cs" by (auto simp: synced_def split: option.splits)
  from save_match [OF ok synced_frame [OF s cs] e] cs
  show "synced env now db ((reg_call (SaveService e) r)\<lparr>services := dm_insert (svc_id e) e (services r)\<rparr>)"
    and "synced env now db (add_entry e r)"
    by (simp_all add: synced_def add_entry_def Let_def) (simp_all add: reg_call_def)
qed

lemma synced_config:
  "codecs_ok env \<Longrightarrow> synced env now db r \<Longrightarrow> \<forall>(i, svc) \<in> set svcs. req_prefix svc \<noteq> [] \<Longrightarrow>
   synced env now db (load_from_config t svcs r)"
proof (induction svcs arbitrary: r)
  case (Cons c svcs)
  obtain i svc where c: "c = (i, svc)" by (cases c)
  have "synced env now db (load_config_one t c r)"
  proof (cases "find_by_prefix (req_prefix svc) r")
    case None
    let ?e = "request_entry i t svc"
    have new: "svc_id ?e = i" "request_count ?e = 0" by (simp_all add: request_entry_def service_entry_new_def)
    have "svc_prefix ?e \<notin> svc_prefix ` set (list_all_services r)"
      using None Cons.prems(3) find_prefix_key_eq [of "req_prefix svc"] by (auto simp: find_by_prefix_None c)
    from synced_save(1) [OF Cons.prems(1,2) this new(2)] None show ?thesis
      by (simp add: load_config_one_def c Let_def)
  qed (use Cons.prems(2) in \<open>simp add: load_config_one_def c\<close>)
  with Cons show ?case by (simp add: load_from_config_def)
qed (simp add: load_from_config_def)

lemma add_entry_calls:
  "reg_storage (add_entry e r) = map_option (\<lambda>cs. cs @
     [SaveService e, LogEvent ''service_registered'' (svc_id e) (svc_name e)]) (reg_storage r)"
  by (cases "reg_storage r") (simp_all add: add_entry_def reg_call_def)

lemma synced_register:
  assumes ok: "codecs_ok env" and s: "synced env now db r" and p: "p \<noteq> []"
    and e: "svc_prefix e = entry_prefix p" "request_count e = 0"
    and u: "\<forall>c \<in> set (the (reg_storage (add_entry e (replace_prefix p r)))). undisturbed_call env db c"
  shows "synced env now db (add_entry e (replace_prefix p r))"
proof -
  from s obtain cs where cs: "reg_storage r = Some cs" by (auto simp: synced_def split: option.splits)
  have "synced env now db (replace_prefix p r)"
    by (rule synced_replace [OF ok s]) (use u cs in \<open>simp add: add_entry_calls replace_calls\<close>)
  moreover have "reg_wf r" using synced_frame [OF s cs] by (simp add: table_match_def)
  from replace_prefix_wf(2) [OF this, of p] have "svc_prefix e \<notin> svc_prefix ` set (list_all_services (replace_prefix p r))"
    using find_prefix_key_eq [OF p] e(1) by simp
  ultimately show ?thesis using synced_save(2) [OF ok] e(2) by blast
qed

lemma unregister_calls:
  "reg_storage (fst (unregister i r)) = map_option (\<lambda>cs. cs @ (case dm_get (services r) i of
      Some e \<Rightarrow> [RemoveService (svc_id e), LogEvent ''service_unregistered'' (svc_id e) (svc_name e)]
    | None \<Rightarrow> [])) (reg_storage r)"
  by (cases "reg_storage r") (simp_all add: unregister_def reg_call_def split: option.split)

lemma wf_get_id: "reg_wf r \<Longrightarrow> dm_get (services r) i = Some e \<Longrightarrow> svc_id e = i"
  by (auto simp: reg_wf_def dest!: map_of_SomeD)

text \<open>An operation other than the run-time change of the further upstreams, which is not stored.\<close>

fun stored_event :: "reg_event \<Rightarrow> bool" where
  "stored_event (RegUpstreams i us) \<longleftrightarrow> False"
| "stored_event _ \<longleftrightarrow> True"

fun stored_node :: "node_event \<Rightarrow> bool" where
  "stored_node (RegCall now e) \<longleftrightarrow> stored_event e"
| "stored_node _ \<longleftrightarrow> True"

lemma synced_step:
  assumes ok: "codecs_ok env" and s: "synced env now db r" and p: "[] \<notin> set (reg_prefixes e)" and st: "stored_event e"
    and u: "\<forall>c \<in> set (the (reg_storage (reg_step e r))). undisturbed_call env db c"
  shows "synced env now db (reg_step e r)"
proof -
  from s obtain cs where cs: "reg_storage r = Some cs" by (auto simp: synced_def split: option.splits)
  note m = synced_frame [OF s cs]
  then have wf: "reg_wf r" by (simp add: table_match_def)
  show ?thesis
  proof (cases e)
    case (RegRegister i t n q up h)
    then show ?thesis using synced_register [OF ok s, of q "service_entry_new i t n q up h"] p u
      by (simp add: reg_register_def Let_def service_entry_new_def)
  next
    case (RegAdvanced i t req)
    then show ?thesis using synced_register [OF ok s, of "req_prefix req" "request_entry i t req"] p u
      by (simp add: register_advanced_def Let_def request_entry_def service_entry_new_def)
  next
    case (RegConfig t svcs)
    then show ?thesis using synced_config [OF ok s] p by force
  next
    case (RegUnregister i)
    show ?thesis
    proof (cases "dm_get (services r) i")
      case (Some x)
      have x: "svc_id x = i" by (rule wf_get_id [OF wf Some])
      have "uuid_text env i \<notin> logged_ids db"
        using u RegUnregister cs Some x by (simp add: unregister_calls undisturbed_call_def)
      then have "table_match env (r\<lparr>services := dm_remove i (services r)\<rparr>)
          (fst (remove_service (uuid_text env i) (fold (db_call env now) cs db)))"
        by (intro remove_match [OF ok m]) simp
      then show ?thesis using RegUnregister Some cs x
        by (simp add: synced_def unregister_def) (simp add: reg_call_def)
    qed (use s RegUnregister in \<open>simp add: unregister_def\<close>)
  next
    case (RegStatus t i st)
    have "table_match env (r\<lparr>services := dm_update i (\<lambda>e. e\<lparr>svc_status := st, last_health_check := Some t\<rparr>) (services r)\<rparr>)
        (fold (db_call env now) cs db)"
      by (rule volatile_match [OF m]) (simp_all add: entry_key_def service_row_of_def rounded_def)
    then show ?thesis using RegStatus cs by (simp add: synced_def update_status_def)
  next
    case (RegUpstreams i us)
    then show ?thesis using st by simp
  next
    case (RegCount i)
    show ?thesis
    proof (cases "dm_get (services r) i")
      case (Some x)
      then show ?thesis using count_match [OF ok m Some refl] RegCount cs wf_get_id [OF wf Some]
        by (auto simp: synced_def increment_request_count_def Let_def reg_call_def)
    qed (use s RegCount in \<open>simp add: increment_request_count_def\<close>)
  qed
qed

section \<open>Restarts\<close>

text \<open>A run in which no service is removed that has been recorded in the request log.\<close>

fun undisturbed :: "table_env \<Rightarrow> node_event list \<Rightarrow> registry \<times> service_db \<Rightarrow> bool" where
  "undisturbed env [] s \<longleftrightarrow> True"
| "undisturbed env (RegCall now e # es) s \<longleftrightarrow>
     list_all (undisturbed_call env (snd s)) (emitted e (fst s)) \<and> undisturbed env es (node_step env (RegCall now e) s)"
| "undisturbed env (ev # es) s \<longleftrightarrow> undisturbed env es (node_step env ev s)"

fun named_prefixes :: "node_event \<Rightarrow> bool" where
  "named_prefixes (RegCall now e) \<longleftrightarrow> [] \<notin> set (reg_prefixes e)"
| "named_prefixes _ \<longleftrightarrow> True"

lemma call_match:
  assumes "codecs_ok env" "table_match env r db" "[] \<notin> set (reg_prefixes e)"
    "list_all (undisturbed_call env db) (emitted e r)" "stored_event e"
  shows "table_match env (fst (node_step env (RegCall now e) (r, db))) (snd (node_step env (RegCall now e) (r, db)))"
proof -
  let ?r = "r\<lparr>reg_storage := Some []\<rparr>"
  have "synced env now db ?r" using assms(2) by (simp add: synced_def)
  from synced_step [OF assms(1) this assms(3,5)] assms(4) have "synced env now db (reg_step e ?r)"
    by (simp add: emitted_def list_all_iff)
  then show ?thesis by (auto simp: synced_def emitted_def split: option.splits)
qed

lemma log_match:
  "table_match env r db \<Longrightarrow> table_match env r (fst (db_log_request env now service verb path status duration peer db))"
  by (auto simp: db_log_request_def commit_def table_match_def)

lemma run_match:
  "codecs_ok env \<Longrightarrow> table_match env (fst s) (snd s) \<Longrightarrow> list_all named_prefixes es \<Longrightarrow>
   list_all stored_node es \<Longrightarrow> undisturbed env es s \<Longrightarrow> table_match env (fst (fold (node_step env) es s)) (snd (fold (node_step env) es s))"
proof (induction env es s rule: undisturbed.induct)
  case (2 env now e es s)
  have "table_match env (fst (node_step env (RegCall now e) s)) (snd (node_step env (RegCall now e) s))"
    using call_match [OF 2(2,3), of e now] 2(4,5,6) by simp
  with 2 show ?case by simp
next
  case (3 env now verb path status duration peer es s)
  then show ?case by (cases s) (simp add: log_match)
qed simp

lemma init_match: "table_match env registry_new db_new"
  by (simp add: table_match_def registry_new_def db_new_def reg_wf_def counts_ok_def list_all_services_def
      references_ok_def logged_ids_def List.map_filter_def)

section \<open>The further upstreams\<close>

text \<open>
  Two registries are alike when they differ at most in the further upstreams of their entries. No
  operation reads these, so a run makes the same calls with and without their changes.
\<close>

definition without_upstreams :: "service_entry \<Rightarrow> service_entry" where
  "without_upstreams e = e\<lparr>svc_upstreams := []\<rparr>"

definition bare :: "(uuid, service_entry) dashmap \<Rightarrow> (uuid, service_entry) dashmap" where
  "bare m = map (\<lambda>(i, e). (i, without_upstreams e)) m"

definition alike :: "registry \<Rightarrow> registry \<Rightarrow> bool" where
  "alike r r' \<longleftrightarrow> reg_storage r = reg_storage r' \<and> bare (services r) = bare (services r')"

lemma without_simps [simp]:
  "svc_id (without_upstreams e) = svc_id e" "svc_name (without_upstreams e) = svc_name e"
  "svc_prefix (without_upstreams e) = svc_prefix e" "request_count (without_upstreams e) = request_count e"
  "svc_upstream (without_upstreams e) = svc_upstream e"
  by (simp_all add: without_upstreams_def)

lemma bare_insert: "bare (dm_insert k v m) = dm_insert k (without_upstreams v) (bare m)"
  by (induction k v m rule: dm_insert.induct) (simp_all add: bare_def)

lemma bare_remove: "bare (dm_remove k m) = dm_remove k (bare m)"
  by (simp add: bare_def dm_remove_def filter_map comp_def case_prod_unfold)

lemma bare_update:
  "(\<And>e. without_upstreams (f e) = f (without_upstreams e)) \<Longrightarrow> bare (dm_update k f m) = dm_update k f (bare m)"
  by (simp add: bare_def dm_update_def case_prod_unfold)

lemma bare_upstreams: "bare (dm_update k (\<lambda>e. e\<lparr>svc_upstreams := us\<rparr>) m) = bare m"
  by (simp add: bare_def dm_update_def case_prod_unfold without_upstreams_def)

lemma bare_get: "dm_get (bare m) k = map_option without_upstreams (dm_get m k)"
  by (induction m) (auto simp: bare_def)

lemma bare_find: "map_option without_upstreams (map_option snd (find (\<lambda>(i, e). svc_prefix e = p) m)) =
  map_option snd (find (\<lambda>(i, e). svc_prefix e = p) (bare m))"
  by (induction m) (auto simp: bare_def)

lemma alike_get: "alike r r' \<Longrightarrow>
  map_option without_upstreams (dm_get (services r) k) = map_option without_upstreams (dm_get (services r') k)"
  by (simp add: alike_def flip: bare_get)

lemma alike_find: "alike r r' \<Longrightarrow>
  map_option without_upstreams (find_by_prefix p r) = map_option without_upstreams (find_by_prefix p r')"
  by (simp add: alike_def find_by_prefix_def bare_find del: option.map_comp)


lemma alike_lookup: "alike r r' \<Longrightarrow>
  map_option without_upstreams (reg_lookup path r) = map_option without_upstreams (reg_lookup path r')"
proof -
  have loop: "map_option without_upstreams (lookup_loop path es n b) =
      lookup_loop path (map without_upstreams es) n (map_option without_upstreams b)" for es n b
    by (induction path es n b rule: lookup_loop.induct) (simp_all add: path_matches_def)
  have e: "map without_upstreams (map snd (services q)) = map snd (bare (services q))" for q
    by (simp add: bare_def case_prod_unfold)
  show "alike r r' \<Longrightarrow> ?thesis" by (simp add: reg_lookup_def loop e alike_def del: map_map)
qed

lemma alike_call: "alike r r' \<Longrightarrow> alike (reg_call c r) (reg_call c r')"
  by (simp add: alike_def) (simp add: reg_call_def)

lemma alike_replace: "alike r r' \<Longrightarrow> alike (replace_prefix p r) (replace_prefix p r')"
proof -
  assume a: "alike r r'"
  have id: "map_option svc_id (find_by_prefix p r) = map_option svc_id (find_by_prefix p r')"
    using arg_cong [OF alike_find [OF a, of p], of "map_option svc_id"] by (simp add: option.map_comp comp_def)
  show ?thesis
  proof (cases "find_by_prefix p r")
    case (Some e)
    then obtain e' where e': "find_by_prefix p r' = Some e'" "svc_id e' = svc_id e"
      using id by (cases "find_by_prefix p r'") auto
    have "alike (r\<lparr>services := dm_remove i (services r)\<rparr>) (r'\<lparr>services := dm_remove i (services r')\<rparr>)" for i
      using a by (simp add: alike_def bare_remove)
    with Some e' show ?thesis by (simp add: replace_prefix_def alike_call)
  qed (use a id in \<open>simp add: replace_prefix_def\<close>)
qed

lemma alike_insert: "alike r r' \<Longrightarrow>
  alike (r\<lparr>services := dm_insert k e (services r)\<rparr>) (r'\<lparr>services := dm_insert k e (services r')\<rparr>)"
  by (simp add: alike_def bare_insert)

lemma alike_add: "alike r r' \<Longrightarrow> alike (add_entry e r) (add_entry e r')"
  by (simp add: add_entry_def Let_def alike_def bare_insert) (simp add: reg_call_def)

lemma alike_config: "alike r r' \<Longrightarrow> alike (load_from_config now svcs r) (load_from_config now svcs r')"
  unfolding load_from_config_def
proof (induction svcs arbitrary: r r')
  case (Cons c svcs)
  obtain i svc where c: "c = (i, svc)" by (cases c)
  have "find_by_prefix (req_prefix svc) r = None \<longleftrightarrow> find_by_prefix (req_prefix svc) r' = None"
    using arg_cong [OF alike_find [OF Cons.prems, of "req_prefix svc"], of "\<lambda>x. x = None"] by simp
  then have "alike (load_config_one now c r) (load_config_one now c r')"
    using Cons.prems alike_insert [OF alike_call [OF Cons.prems]]
    by (cases "find_by_prefix (req_prefix svc) r = None") (auto simp: load_config_one_def c Let_def)
  with Cons.IH show ?case by simp
qed simp

lemma alike_update:
  "alike r r' \<Longrightarrow> (\<And>e. without_upstreams (f e) = f (without_upstreams e)) \<Longrightarrow>
   alike (r\<lparr>services := dm_update k f (services r)\<rparr>) (r'\<lparr>services := dm_update k f (services r')\<rparr>)"
  by (simp add: alike_def bare_update)

lemma get_cases:
  assumes "alike r r'"
  obtains "dm_get (services r) i = None" "dm_get (services r') i = None"
  | e e' where "dm_get (services r) i = Some e" "dm_get (services r') i = Some e'"
      "without_upstreams e = without_upstreams e'"
  using alike_get [OF assms, of i] by (cases "dm_get (services r) i"; cases "dm_get (services r') i") auto

lemma same_fields:
  assumes "without_upstreams e = without_upstreams e'"
  shows "svc_id e = svc_id e'" "svc_name e = svc_name e'" "svc_prefix e = svc_prefix e'"
    "svc_upstream e = svc_upstream e'" "request_count e = request_count e'"
  using assms by (cases e, cases e', simp add: without_upstreams_def)+

lemma alike_step:
  assumes a: "alike r r'"
  shows "alike (reg_step e r) (reg_step e r')"
proof (cases e)
  case (RegUnregister i)
  have rem: "alike (r\<lparr>services := dm_remove i (services r)\<rparr>) (r'\<lparr>services := dm_remove i (services r')\<rparr>)"
    using a by (simp add: alike_def bare_remove)
  from a show ?thesis
  proof (cases rule: get_cases [of r r' i])
    case (2 x x')
    then show ?thesis
      by (simp add: RegUnregister unregister_def same_fields(1,2) [OF 2(3)] alike_call rem)
  qed (use a in \<open>simp add: RegUnregister unregister_def\<close>)
next
  case (RegUpstreams i us)
  then show ?thesis using a by (simp add: set_upstreams_def alike_def bare_upstreams)
next
  case (RegCount i)
  have upd: "alike (r\<lparr>services := dm_update i (\<lambda>e. e\<lparr>request_count := n\<rparr>) (services r)\<rparr>)
      (r'\<lparr>services := dm_update i (\<lambda>e. e\<lparr>request_count := n\<rparr>) (services r')\<rparr>)" for n
    by (rule alike_update [OF a]) (simp add: without_upstreams_def)
  from a show ?thesis
  proof (cases rule: get_cases [of r r' i])
    case (2 x x')
    then show ?thesis
      by (simp add: RegCount increment_request_count_def Let_def same_fields(1,5) [OF 2(3)] alike_call upd)
  qed (use a in \<open>simp add: RegCount increment_request_count_def\<close>)
qed (use a in \<open>auto simp: reg_register_def register_advanced_def Let_def update_status_def without_upstreams_def
    intro!: alike_add alike_replace alike_config alike_update\<close>)

lemma alike_emitted: "alike r r' \<Longrightarrow> emitted e r = emitted e r'"
  using alike_step [of "r\<lparr>reg_storage := Some []\<rparr>" "r'\<lparr>reg_storage := Some []\<rparr>" e]
  by (simp add: alike_def emitted_def)

lemma alike_node:
  assumes "alike r r'"
  shows "alike (fst (node_step env ev (r, db))) (fst (node_step env ev (r', db))) \<and>
    snd (node_step env ev (r, db)) = snd (node_step env ev (r', db))"
proof (cases ev)
  case (RegCall now e)
  have "alike (r\<lparr>reg_storage := Some []\<rparr>) (r'\<lparr>reg_storage := Some []\<rparr>)" using assms by (simp add: alike_def)
  from alike_step [OF this] RegCall alike_emitted [OF assms] show ?thesis by simp
next
  case (Served now verb path status duration peer)
  have "map_option svc_id (reg_lookup path r) = map_option svc_id (reg_lookup path r')"
    using arg_cong [OF alike_lookup [OF assms, of path], of "map_option svc_id"] by (simp add: option.map_comp comp_def)
  then have "map_option (uuid_text env \<circ> svc_id) (reg_lookup path r) = map_option (uuid_text env \<circ> svc_id) (reg_lookup path r')"
    by (metis option.map_comp)
  then show ?thesis using Served assms by simp
qed

lemma unstored_node: "\<not> stored_node ev \<Longrightarrow>
  bare (services (fst (node_step env ev (r, db)))) = bare (services r) \<and> snd (node_step env ev (r, db)) = db \<and>
  reg_storage (fst (node_step env ev (r, db))) = Some []"
proof (cases ev)
  case (RegCall now e)
  assume "\<not> stored_node ev"
  then obtain i us where "e = RegUpstreams i us" using RegCall by (cases e) auto
  then show ?thesis using RegCall by (simp add: emitted_def set_upstreams_def bare_upstreams)
qed simp

definition same_services :: "registry \<times> service_db \<Rightarrow> registry \<times> service_db \<Rightarrow> bool" where
  "same_services s t \<longleftrightarrow> bare (services (fst s)) = bare (services (fst t)) \<and> snd s = snd t"

lemma same_node:
  assumes "same_services s t"
  shows "same_services (node_step env ev s) (if stored_node ev then node_step env ev t else t)"
    "stored_node ev \<Longrightarrow> undisturbed env (ev # es) s \<Longrightarrow>
       undisturbed env es (node_step env ev s) \<and>
       (undisturbed env kept (node_step env ev t) \<longrightarrow> undisturbed env (ev # kept) t)"
    "undisturbed env (ev # es) s \<Longrightarrow> undisturbed env es (node_step env ev s)"
proof -
  obtain r db where s: "s = (r, db)" by force
  obtain r' where t: "t = (r', db)" using assms s by (cases t) (auto simp: same_services_def)
  let ?x = "r\<lparr>reg_storage := Some []\<rparr>" and ?y = "r'\<lparr>reg_storage := Some []\<rparr>"
  have xy: "alike ?x ?y" using assms s t by (simp add: same_services_def alike_def)
  have reset: "services (fst (node_step env ev (q, db))) = services (fst (node_step env ev (q\<lparr>reg_storage := Some []\<rparr>, db)))"
    "snd (node_step env ev (q, db)) = snd (node_step env ev (q\<lparr>reg_storage := Some []\<rparr>, db))" for q
    by (cases ev; simp add: emitted_def reg_lookup_def)+
  show "same_services (node_step env ev s) (if stored_node ev then node_step env ev t else t)"
  proof (cases "stored_node ev")
    case True
    then show ?thesis using alike_node [OF xy, of env ev db] reset [of r] reset [of r']
      by (simp add: s t same_services_def alike_def)
  next
    case False
    then show ?thesis using unstored_node [OF False, of env r db] assms by (simp add: s t same_services_def)
  qed
  have em: "emitted e r = emitted e r'" for e
    using alike_emitted [OF xy, of e] by (simp add: emitted_def)
  show "undisturbed env (ev # es) s \<Longrightarrow> undisturbed env es (node_step env ev s)"
    by (cases ev) simp_all
  show "stored_node ev \<Longrightarrow> undisturbed env (ev # es) s \<Longrightarrow>
       undisturbed env es (node_step env ev s) \<and>
       (undisturbed env kept (node_step env ev t) \<longrightarrow> undisturbed env (ev # kept) t)"
    by (cases ev) (simp_all add: s t em)
qed

lemma stored_run:
  "same_services s t \<Longrightarrow> undisturbed env es s \<Longrightarrow>
   same_services (fold (node_step env) es s) (fold (node_step env) (filter stored_node es) t) \<and>
   undisturbed env (filter stored_node es) t"
proof (induction es arbitrary: s t)
  case (Cons ev es)
  note step = same_node [OF Cons.prems(1)]
  have "same_services (node_step env ev s) (if stored_node ev then node_step env ev t else t)" by (rule step(1))
  from Cons.IH [OF this step(3) [OF Cons.prems(2)]] step(2) [OF _ Cons.prems(2)] show ?case
    by (auto split: if_splits)
qed simp

lemma stored_match:
  assumes "codecs_ok env" "list_all named_prefixes es" "undisturbed env es (registry_new, db_new)"
    and "fold (node_step env) es (registry_new, db_new) = (r, db)"
    and "fold (node_step env) (filter stored_node es) (registry_new, db_new) = (r', db')"
  shows "table_match env r' db' \<and> db' = db \<and> bare (services r) = bare (services r')"
proof -
  have "same_services (r, db) (r', db') \<and> undisturbed env (filter stored_node es) (registry_new, db_new)"
    using stored_run [OF _ assms(3), of "(registry_new, db_new)"] assms(4,5) by (simp add: same_services_def)
  then show ?thesis
    using run_match [OF assms(1), of "(registry_new, db_new)" "filter stored_node es"] init_match [of env] assms(2,5)
    by (simp add: same_services_def list_all_iff)
qed

section \<open>What a restart gives\<close>

text \<open>What a restart gives of an entry.\<close>

definition recovered :: "service_entry \<Rightarrow> service_entry" where
  "recovered e = (rounded e)\<lparr>svc_status := Unknown, last_health_check := None\<rparr>"

lemma load_key:
  assumes "codecs_ok env" "request_count e \<le> u64_max"
  shows "service_of_row env now (entry_key env e) = recovered e"
  unfolding entry_key_def using assms(2)
  by (subst service_row_round [OF assms(1)]) (simp_all add: rounded_def recovered_def)

lemma rows_get:
  "distinct (map svc_id es) \<Longrightarrow>
   dm_get (services (registry_with_storage es)) i = map_of (map (\<lambda>e. (svc_id e, e)) es) i"
proof -
  have "dm_get (fold (\<lambda>e m. dm_insert (svc_id e) e m) es m) i =
      (case map_of (map (\<lambda>e. (svc_id e, e)) es) i of Some e \<Rightarrow> Some e | None \<Rightarrow> dm_get m i)"
    if "distinct (map svc_id es)" for es m
    using that
  proof (induction es arbitrary: m)
    case (Cons a es)
    then have "map_of (map (\<lambda>e. (svc_id e, e)) es) (svc_id a) = None"
      by (simp add: map_of_eq_None_iff image_image)
    with Cons show ?case by (auto simp: dashmap_simps split: option.split)
  qed simp
  from this [of es "[]"] show "distinct (map svc_id es) \<Longrightarrow> ?thesis"
    by (cases "map_of (map (\<lambda>e. (svc_id e, e)) es) i") (simp_all add: registry_with_storage_def)
qed

lemma loaded_id: "codecs_ok env \<Longrightarrow> x = entry_key env e \<Longrightarrow> svc_id (service_of_row env now x) = svc_id e"
  by (drule arg_cong [of _ _ sr_id]) (simp add: service_of_row_def codecs_ok_def)

lemma loaded_distinct:
  assumes "codecs_ok env" "table_match env r db"
  shows "distinct (map svc_id (load_all_services env now db))"
proof -
  have rows: "set (tb_services db) = entry_key env ` set (list_all_services r)"
    and d: "distinct (map sr_id (tb_services db))" using assms(2) by (auto simp: table_match_def)
  have id: "uuid_text env (svc_id (service_of_row env now x)) = sr_id x" if x: "x \<in> set (tb_services db)" for x
  proof -
    from x rows obtain e where "x = entry_key env e" by blast
    from loaded_id [OF assms(1) this] arg_cong [OF this, of sr_id] show ?thesis by simp
  qed
  have "map (uuid_text env) (map svc_id (load_all_services env now db)) = map sr_id (tb_services db)"
    by (simp add: load_all_services_def id)
  with d show ?thesis by (metis distinct_map)
qed

lemma match_recovers:
  assumes ok: "codecs_ok env" and m: "table_match env r db"
  shows "dm_get (services (restarted env now db)) i = map_option recovered (dm_get (services r) i)"
proof -
  let ?load = "service_of_row env now"
  have rows: "set (tb_services db) = entry_key env ` set (list_all_services r)" and wf: "reg_wf r"
    and c: "\<forall>e \<in> set (list_all_services r). request_count e \<le> u64_max"
    using m by (auto simp: table_match_def counts_ok_def)
  note d = loaded_distinct [OF ok m, of now]
  have get: "dm_get (services (restarted env now db)) i = Some x \<longleftrightarrow> x \<in> ?load ` set (tb_services db) \<and> svc_id x = i" for x
    using d by (auto simp: restarted_def rows_get load_all_services_def comp_def distinct_map dest!: map_of_SomeD)
  show ?thesis
  proof (cases "dm_get (services r) i")
    case (Some e)
    have e: "e \<in> set (list_all_services r)" "svc_id e = i"
      using map_of_SomeD [OF Some] wf_get_id [OF wf Some] by (force simp: list_all_services_def)+
    from e(1) rows obtain x where x: "x \<in> set (tb_services db)" "x = entry_key env e" by (metis imageE imageI)
    have "dm_get (services (restarted env now db)) i = Some (?load x)"
      using x e(2) loaded_id [OF ok x(2)] by (simp add: get)
    then show ?thesis using load_key [OF ok] x(2) c e(1) Some by simp
  next
    case None
    have "dm_get (services (restarted env now db)) i = None"
    proof (rule ccontr)
      assume "dm_get (services (restarted env now db)) i \<noteq> None"
      then obtain x where x: "x \<in> set (tb_services db)" "svc_id (?load x) = i" by (auto simp: get)
      then obtain e where e: "e \<in> set (list_all_services r)" "x = entry_key env e" using rows by (metis imageE imageI)
      then have "(i, e) \<in> set (services r)"
        using loaded_id [OF ok e(2), of now] x(2) wf by (fastforce simp: list_all_services_def reg_wf_def)
      with None show False by (force simp: map_of_eq_None_iff)
    qed
    with None show ?thesis by simp
  qed
qed

text \<open>
  C34: The table of services implements the registry. After any run of registrations, removals,
  discovery, health checks, counts and logged requests, a restart finds the very services that are
  registered, each with every field as it was registered, its count down to the last hundred, an
  unknown status and no check yet; provided no service was removed or replaced that the request
  log refers to, and no prefix was empty. The further upstreams are those of the registration:
  the restarted entries are those of the same run without the changes of the further upstreams at
  run time (\<open>set_upstreams\<close>, which writes nothing), and these two runs differ in nothing else.
\<close>

theorem restart_restores_registry:
  assumes "codecs_ok env" "list_all named_prefixes es" "undisturbed env es (registry_new, db_new)"
    and "fold (node_step env) es (registry_new, db_new) = (r, db)"
    and "fold (node_step env) (filter stored_node es) (registry_new, db_new) = (r', db')"
  shows "dm_get (services (restarted env now db)) i =
      map_option (\<lambda>e. e\<lparr>svc_status := Unknown, last_health_check := None,
        request_count := request_count e - request_count e mod 100\<rparr>) (dm_get (services r') i) \<and>
    db' = db \<and>
    map_option (\<lambda>e. e\<lparr>svc_upstreams := []\<rparr>) (dm_get (services r) i) =
      map_option (\<lambda>e. e\<lparr>svc_upstreams := []\<rparr>) (dm_get (services r') i)"
proof -
  note m = stored_match [OF assms]
  have "recovered = (\<lambda>e. e\<lparr>svc_status := Unknown, last_health_check := None,
      request_count := request_count e - request_count e mod 100\<rparr>)"
    by (simp add: fun_eq_iff recovered_def rounded_def)
  moreover have "map_option without_upstreams (dm_get (services r) i) = map_option without_upstreams (dm_get (services r') i)"
    using m by (metis bare_get)
  moreover have "dm_get (services (restarted env now db)) i = map_option recovered (dm_get (services r') i)"
    using match_recovers [OF assms(1)] m by metis
  ultimately show ?thesis using m by (simp add: without_upstreams_def [abs_def])
qed

section \<open>Services that have served a request\<close>


















section \<open>A concrete node\<close>

text \<open>A text that can be read back: every element ends with a zero, every character has a one before it.\<close>

fun demo_list_text :: "string list \<Rightarrow> string" where
  "demo_list_text [] = []"
| "demo_list_text (s # ss) = concat (map (\<lambda>c. [CHR ''1'', c]) s) @ CHR ''0'' # demo_list_text ss"

fun demo_read :: "string \<Rightarrow> string \<Rightarrow> string list" where
  "demo_read acc (a # b # s) = (if a = CHR ''1'' then demo_read (acc @ [b]) s else acc # demo_read [] (b # s))"
| "demo_read acc [a] = [acc]"
| "demo_read acc [] = []"

lemma demo_read_text: "demo_read acc (concat (map (\<lambda>c. [CHR ''1'', c]) s) @ CHR ''0'' # t) = (acc @ s) # demo_read [] t"
proof (induction s arbitrary: acc)
  case Nil
  show ?case by (cases t) simp_all
qed simp

lemma demo_read_list [simp]: "demo_read [] (demo_list_text ss) = ss"
  by (induction ss) (simp_all add: demo_read_text)

definition demo_transform_text :: "transform_config \<Rightarrow> string" where
  "demo_transform_text t = demo_list_text (map demo_list_text
     [map fst (add_request_headers t), map snd (add_request_headers t), remove_request_headers t,
      map fst (add_response_headers t), map snd (add_response_headers t), remove_response_headers t])"

definition demo_read_transform :: "string \<Rightarrow> transform_config option" where
  "demo_read_transform s =
     (case map (demo_read []) (demo_read [] s) of
        [a, b, c, d, e, f] \<Rightarrow> Some \<lparr>add_request_headers = zip a b, remove_request_headers = c,
          add_response_headers = zip d e, remove_response_headers = f\<rparr>
      | _ \<Rightarrow> None)"

definition demo_codecs :: table_env where
  "demo_codecs =
     \<lparr>uuid_text = show_nat, parse_uuid = (\<lambda>s. Some (digits_value 10 s)),
      list_text = demo_list_text, parse_list = (\<lambda>s. Some (demo_read [] s)),
      transform_text = demo_transform_text, parse_transform_text = demo_read_transform,
      time_text = show_nat, parse_time = (\<lambda>s. Some (digits_value 10 s))\<rparr>"

lemma demo_codecs_ok: "codecs_ok demo_codecs"
  by (auto simp: codecs_ok_def demo_codecs_def show_nat_value demo_transform_text_def demo_read_transform_def zip_map_fst_snd
      simp del: demo_list_text.simps demo_read.simps)

definition demo_events :: "node_event list" where
  "demo_events = [RegCall 1 (RegRegister 7 3 ''api'' ''/api'' ''http://a'' ''/health''), RegCall 2 (RegCount 7)]"

definition demo_node :: "registry \<times> service_db" where
  "demo_node = fold (node_step demo_codecs) demo_events (registry_new, db_new)"


lemmas demo_registry_simps =
  registry_new_def reg_register_def Let_def replace_prefix_def find_by_prefix_def find_prefix_key_def
  add_entry_def reg_call_def service_entry_new_def entry_prefix_def trim_end_matches_def dm_remove_def
  increment_request_count_def dm_update_def wrap_add64_def u64_max_def

lemma demo_registry:
  "emitted (RegRegister 7 3 ''api'' ''/api'' ''http://a'' ''/health'') registry_new =
     [SaveService (service_entry_new 7 3 ''api'' ''/api'' ''http://a'' ''/health''),
      LogEvent ''service_registered'' 7 ''api'']"
  "fst demo_node = \<lparr>services = [(7, (service_entry_new 7 3 ''api'' ''/api'' ''http://a'' ''/health'')
     \<lparr>request_count := 1\<rparr>)], reg_storage = Some []\<rparr>"
  by (simp_all add: demo_node_def demo_events_def emitted_def demo_registry_simps)

lemma demo_undisturbed: "undisturbed demo_codecs demo_events (registry_new, db_new)"
  by (simp add: demo_events_def demo_registry) (simp add: emitted_def undisturbed_call_def demo_registry_simps)

lemma demo_named: "list_all named_prefixes demo_events" by (simp add: demo_events_def)

theorem restart_restores_registry_witness:
  "dm_get (services (restarted demo_codecs 9 (snd demo_node))) 7 =
     Some (service_entry_new 7 3 ''api'' ''/api'' ''http://a'' ''/health'')"
proof -
  obtain r db where s: "demo_node = (r, db)" by force
  have "filter stored_node demo_events = demo_events" by (simp add: demo_events_def)
  then have "dm_get (services (restarted demo_codecs 9 db)) 7 =
      map_option (\<lambda>e. e\<lparr>svc_status := Unknown, last_health_check := None,
        request_count := request_count e - request_count e mod 100\<rparr>) (dm_get (services r) 7)"
    using restart_restores_registry [OF demo_codecs_ok demo_named demo_undisturbed, of r db r db 9 7] s
    by (simp add: demo_node_def)
  moreover have "dm_get (services r) 7 = Some ((service_entry_new 7 3 ''api'' ''/api'' ''http://a'' ''/health'')\<lparr>request_count := 1\<rparr>)"
    using demo_registry(2) by (simp add: s)
  ultimately show ?thesis by (simp add: s service_entry_new_def)
qed


end
