(* ===== verification/Secret_Store.thy ===== *)
theory Secret_Store
  imports Users
begin

text \<open>
  src/src/identity/secret_box.rs: sealing of secrets before they are stored. Bytes are characters.
  AES-256-GCM, Argon2id and base64 are parameters, with the laws that the code relies on in
  \<open>crypto_ok\<close>: a cipher text can be decrypted under its key and nonce and has a tag of 16 bytes more
  than the plain text, and base64 can be decoded. The environment variables and the random nonce
  are arguments.
\<close>

section \<open>Keys\<close>

datatype secret_box_error =
    NoKey
  | WeakKey nat
  | InvalidCiphertext string
  | DecryptionFailed
  | EncryptionFailed string

record 'k crypto =
  aes_key :: "string \<Rightarrow> 'k"
  aes_encrypt :: "'k \<Rightarrow> string \<Rightarrow> string \<Rightarrow> string option"
  aes_decrypt :: "'k \<Rightarrow> string \<Rightarrow> string \<Rightarrow> string option"
  argon2_key :: "string \<Rightarrow> string \<Rightarrow> string + string"
  b64_encode :: "string \<Rightarrow> string"
  b64_decode :: "string \<Rightarrow> string + string"

definition crypto_ok :: "'k crypto \<Rightarrow> bool" where
  "crypto_ok c \<longleftrightarrow>
     (\<forall>k n m x. aes_encrypt c k n m = Some x \<longrightarrow> aes_decrypt c k n x = Some m \<and> length x = length m + 16) \<and>
     (\<forall>s. b64_decode c (b64_encode c s) = Inr s)"

text \<open>\<open>u8::from_str_radix(h, 16)\<close> of two hexadecimal digits.\<close>

fun hex_bytes :: "string \<Rightarrow> string" where
  "hex_bytes (a # b # s) = char_of (16 * the (to_digit 16 a) + the (to_digit 16 b) :: nat) # hex_bytes s"
| "hex_bytes _ = []"

definition from_raw_hex :: "'k crypto \<Rightarrow> string \<Rightarrow> secret_box_error + 'k" where
  "from_raw_hex c hex =
     (if length hex \<noteq> 64
      then Inl (InvalidCiphertext (''from_raw_hex requires exactly 64 hex chars (got '' @ show_nat (length hex) @ '')''))
      else if \<not> list_all (is_digit 16) hex
      then Inl (InvalidCiphertext ''from_raw_hex requires ASCII hex digits'')
      else Inr (aes_key c (hex_bytes hex)))"

definition default_salt :: string where
  "default_salt = ''xira-default-salt-rotate-via-env''"

definition from_passphrase_argon2 :: "'k crypto \<Rightarrow> string option \<Rightarrow> string \<Rightarrow> secret_box_error + 'k" where
  "from_passphrase_argon2 c salt_var pass =
     (let salt = (case salt_var of Some s \<Rightarrow> s | None \<Rightarrow> default_salt) in
      if length salt < 16 then Inl (WeakKey (length salt))
      else case argon2_key c pass salt of
             Inr out \<Rightarrow> Inr (aes_key c out)
           | Inl e \<Rightarrow> Inl (EncryptionFailed (''argon2: '' @ e)))"

definition from_kdf :: "'k crypto \<Rightarrow> string option \<Rightarrow> string \<Rightarrow> secret_box_error + 'k" where
  "from_kdf c salt_var pass =
     (if length pass < 32 then Inl (WeakKey (length pass)) else from_passphrase_argon2 c salt_var pass)"

definition from_passphrase :: "'k crypto \<Rightarrow> string option \<Rightarrow> string \<Rightarrow> secret_box_error + 'k" where
  "from_passphrase c salt_var pass =
     (if length pass < 32 then Inl (WeakKey (length pass))
      else if length pass = 64 \<and> list_all (is_digit 16) pass then from_raw_hex c pass
      else from_kdf c salt_var pass)"

definition from_env :: "'k crypto \<Rightarrow> string option \<Rightarrow> string option \<Rightarrow> secret_box_error + 'k" where
  "from_env c salt_var key_var =
     (case key_var of
        None \<Rightarrow> Inl NoKey
      | Some raw \<Rightarrow>
          if length raw = 64 \<and> list_all (is_digit 16) raw then from_raw_hex c raw else from_kdf c salt_var raw)"

section \<open>Sealing\<close>

definition seal :: "'k crypto \<Rightarrow> 'k \<Rightarrow> string \<Rightarrow> string \<Rightarrow> secret_box_error + string" where
  "seal c k nonce plaintext =
     (case aes_encrypt c k nonce plaintext of
        None \<Rightarrow> Inl (EncryptionFailed ''aead::Error'')
      | Some ct \<Rightarrow> Inr (b64_encode c (CHR 0x01 # nonce @ ct)))"

definition open_sealed :: "'k crypto \<Rightarrow> 'k \<Rightarrow> string \<Rightarrow> secret_box_error + string" where
  "open_sealed c k sealed =
     (case b64_decode c sealed of
        Inl e \<Rightarrow> Inl (InvalidCiphertext e)
      | Inr buf \<Rightarrow>
          if length buf < 1 + 12 + 16 then Inl (InvalidCiphertext ''too short'')
          else if hd buf \<noteq> CHR 0x01
          then Inl (InvalidCiphertext (''unknown version 0x'' @
                 (let v = of_char (hd buf) :: nat in (if v < 16 then ''0'' else []) @ show_hex v)))
          else case aes_decrypt c k (take 12 (drop 1 buf)) (drop 13 buf) of
                 None \<Rightarrow> Inl DecryptionFailed
               | Some m \<Rightarrow> Inr m)"

text \<open>The box as the user manager sees it, for one nonce.\<close>

definition secret_box_of :: "'k crypto \<Rightarrow> (string \<Rightarrow> bool) \<Rightarrow> 'k \<Rightarrow> string \<Rightarrow> secret_box" where
  "secret_box_of c utf8 k nonce =
     \<lparr>sb_seal = (\<lambda>p. case seal c k nonce p of Inr s \<Rightarrow> Some s | Inl _ \<Rightarrow> None),
      sb_open = (\<lambda>s. case open_sealed c k s of
                   Inr m \<Rightarrow> Inr (if utf8 m then Some m else None) | Inl _ \<Rightarrow> Inl ())\<rparr>"

section \<open>What the box promises\<close>

text \<open>A sealed secret is opened under the same key, whatever the nonce.\<close>

theorem open_seal:
  assumes "crypto_ok c" "length nonce = 12" "seal c k nonce m = Inr s"
  shows "open_sealed c k s = Inr m"
proof -
  from assms(3) obtain ct where ct: "aes_encrypt c k nonce m = Some ct" "s = b64_encode c (CHR 0x01 # nonce @ ct)"
    by (auto simp: seal_def split: option.splits)
  then have "b64_decode c s = Inr (CHR 0x01 # nonce @ ct)" "aes_decrypt c k nonce ct = Some m" "length ct = length m + 16"
    using assms(1) by (auto simp: crypto_ok_def)
  then show ?thesis using assms(2) by (simp add: open_sealed_def)
qed

text \<open>
  So an enrolled second factor survives the way through the table: what \<open>user_row\<close> stores is read
  back as the secret, encrypted or, when sealing fails, in plain text that does not open.
\<close>

theorem mfa_secret_round:
  assumes "crypto_ok c" "length nonce = 12" "utf8 secret" "seal c k nonce secret = Inr s"
  shows "decrypt_mfa_secret (Some (secret_box_of c utf8 k nonce'))
    (encrypt_mfa_secret (Some (secret_box_of c utf8 k nonce)) (Some secret)) = Some secret"
  using open_seal [OF assms(1,2,4)] assms(3,4)
  by (simp add: decrypt_mfa_secret_def encrypt_mfa_secret_def secret_box_of_def)

text \<open>
  Under another key the stored cipher text is taken for a secret of the time before encryption: the
  user's codes are then computed from the cipher text.
\<close>

theorem other_key_uses_ciphertext:
  assumes "open_sealed c k' s = Inl e"
  shows "decrypt_mfa_secret (Some (secret_box_of c utf8 k' nonce)) (Some s) = Some s"
  using assms by (simp add: decrypt_mfa_secret_def secret_box_of_def)

text \<open>
  The constructor that the comment calls deprecated for choosing the mode silently is the
  one the gateway uses: both read every text alike.
\<close>

theorem from_env_is_from_passphrase: "from_env c salt_var (Some p) = from_passphrase c salt_var p"
  by (auto simp: from_env_def from_passphrase_def from_kdf_def)

text \<open>
  Every key of 32 bytes has a text in hexadecimal that gives it, so no key is out of reach of the configuration.
\<close>

definition hex_of_byte :: "char \<Rightarrow> string" where
  "hex_of_byte b = [hex_char (of_char b div 16), hex_char (of_char b mod 16)]"

lemma to_digit_hex [simp]: "d < 16 \<Longrightarrow> to_digit 16 (hex_char d) = Some d"
  by (simp add: to_digit_def hex_char_def Let_def)

lemma hex_of_byte_digits [simp]:
  "is_digit 16 (hex_char (of_char b div 16))" "is_digit 16 (hex_char (of_char b mod 16))"
  "hex_bytes (hex_of_byte b @ s) = b # hex_bytes s"
proof -
  have b: "(of_char b :: nat) div 16 < 16"
    by (rule less_mult_imp_div_less) (use nat_of_char_less_256 [of b] in simp)
  then show "is_digit 16 (hex_char (of_char b div 16))" "is_digit 16 (hex_char (of_char b mod 16))"
    by (simp_all add: is_digit_def)
  have "16 * (of_char b div 16) + of_char b mod 16 = (of_char b :: nat)" by simp
  then show "hex_bytes (hex_of_byte b @ s) = b # hex_bytes s" using b by (simp add: hex_of_byte_def)
qed

theorem raw_hex_round:
  assumes "length bs = 32"
  shows "from_raw_hex c (concat (map hex_of_byte bs)) = Inr (aes_key c bs)"
proof -
  have "length (concat (map hex_of_byte bs)) = 2 * length bs" for bs
    by (induction bs) (simp_all add: hex_of_byte_def)
  moreover have "list_all (is_digit 16) (concat (map hex_of_byte bs))" for bs
    by (induction bs) (simp_all add: hex_of_byte_def)
  moreover have "hex_bytes (concat (map hex_of_byte bs)) = bs" for bs by (induction bs) simp_all
  ultimately show ?thesis using assms by (simp add: from_raw_hex_def)
qed

text \<open>Only what has the form of a sealed text reaches the decryption.\<close>

theorem open_needs_form:
  assumes "open_sealed c k s = Inr m"
  shows "\<exists>nonce ct. b64_decode c s = Inr (CHR 0x01 # nonce @ ct) \<and> length nonce = 12 \<and> 16 \<le> length ct \<and>
    aes_decrypt c k nonce ct = Some m"
proof -
  from assms obtain buf where buf: "b64_decode c s = Inr buf" "29 \<le> length buf" "hd buf = CHR 0x01"
    "aes_decrypt c k (take 12 (drop 1 buf)) (drop 13 buf) = Some m"
    by (auto simp: open_sealed_def split: sum.splits if_splits option.splits)
  then obtain rest where rest: "buf = CHR 0x01 # rest" by (cases buf) auto
  from buf show ?thesis
    by (intro exI [of _ "take 12 rest"] exI [of _ "drop 12 rest"]) (auto simp: rest)
qed

end
