(* ===== verification/Oauth2.thy ===== *)
theory Oauth2
  imports Body_Transform
begin

text \<open>
  OAuth 2 by token introspection: the middleware of src/src/middleware/oauth2.rs and the gateway with
  its cache of src/src/middleware/oauth2_gateway.rs. The answer of the introspection end point, the
  SHA-256 hash of a token and the clock (seconds) are arguments; a JSON value is that of
  \<open>Body_Transform\<close>. The middleware calls the next service before it asks about the token: that call
  is the function \<open>begin_call\<close> on the state of what is behind it, and its answer is awaited
  when the token is good.
\<close>

section \<open>The middleware\<close>

record oauth_auth =
  oa_url :: string
  oa_client_id :: string
  oa_client_secret :: string
  expected_aud :: "string option"
  expected_iss :: "string option"
  oa_enabled :: bool

definition oauth_new_with_validation ::
  "string \<Rightarrow> string \<Rightarrow> string \<Rightarrow> string option \<Rightarrow> string option \<Rightarrow> bool \<Rightarrow> oauth_auth" where
  "oauth_new_with_validation url client secret aud iss enabled =
     \<lparr>oa_url = url, oa_client_id = client, oa_client_secret = secret, expected_aud = aud, expected_iss = iss,
      oa_enabled = enabled\<rparr>"

definition oauth_new :: "string \<Rightarrow> string \<Rightarrow> string \<Rightarrow> bool \<Rightarrow> oauth_auth" where
  "oauth_new url client secret enabled = oauth_new_with_validation url client secret None None enabled"

text \<open>What comes of an introspection: no answer, a body that is late or no JSON, or a body.\<close>

datatype introspection = NoAnswer | LateBody | BadBody | Body json

datatype oauth_answer = OauthPass | OauthUnauthorized string | OauthUnavailable string

definition oauth_exempt :: "string \<Rightarrow> bool" where
  "oauth_exempt path \<longleftrightarrow>
     prefix ''/xira/'' path \<or> path = ''/xira'' \<or> path = ''/metrics'' \<or> path = ''/health'' \<or> path = ''/dashboard'' \<or>
     prefix ''/ws/'' path \<or> prefix ''/auth/'' path \<or> path = ''/auth''"

definition bearer_token :: "string option \<Rightarrow> string option" where
  "bearer_token header = Option.bind header (strip_prefix ''Bearer '')"

definition is_active :: "json \<Rightarrow> bool" where
  "is_active body \<longleftrightarrow> Option.bind (json_get ''active'' body) as_bool = Some True"

definition expired :: "int \<Rightarrow> json \<Rightarrow> bool" where
  "expired now body \<longleftrightarrow> (case Option.bind (json_get ''exp'' body) as_i64 of Some e \<Rightarrow> e \<le> now | None \<Rightarrow> False)"

definition aud_match :: "string \<Rightarrow> json \<Rightarrow> bool" where
  "aud_match expected body \<longleftrightarrow>
     (case json_get ''aud'' body of
        Some (JStr s) \<Rightarrow> s = expected
      | Some (JArr xs) \<Rightarrow> list_ex (\<lambda>v. as_text v = Some expected) xs
      | _ \<Rightarrow> False)"

definition iss_match :: "string \<Rightarrow> json \<Rightarrow> bool" where
  "iss_match expected body \<longleftrightarrow> Option.bind (json_get ''iss'' body) as_text = Some expected"

definition check_body :: "oauth_auth \<Rightarrow> int \<Rightarrow> json \<Rightarrow> oauth_answer" where
  "check_body auth now body =
     (if \<not> is_active body then OauthUnauthorized ''Token is not active''
      else if expired now body then OauthUnauthorized ''Token expired''
      else if (case expected_aud auth of Some a \<Rightarrow> \<not> aud_match a body | None \<Rightarrow> False)
      then OauthUnauthorized ''Token audience mismatch''
      else if (case expected_iss auth of Some i \<Rightarrow> \<not> iss_match i body | None \<Rightarrow> False)
      then OauthUnauthorized ''Token issuer mismatch''
      else OauthPass)"

definition check_introspection :: "oauth_auth \<Rightarrow> int \<Rightarrow> introspection \<Rightarrow> oauth_answer" where
  "check_introspection auth now answer =
     (case answer of
        NoAnswer \<Rightarrow> OauthUnavailable ''OAuth2 introspection unavailable''
      | LateBody \<Rightarrow> OauthUnavailable ''Auth provider slow''
      | BadBody \<Rightarrow> OauthUnauthorized ''Token validation failed''
      | Body body \<Rightarrow> check_body auth now body)"

definition oauth_call ::
  "(string \<Rightarrow> introspection) \<Rightarrow> ('s \<Rightarrow> 's) \<Rightarrow> int \<Rightarrow> oauth_auth \<Rightarrow> string \<Rightarrow> string option \<Rightarrow> 's \<Rightarrow>
     's \<times> oauth_answer" where
  "oauth_call introspect begin_call now auth path header s =
     (if \<not> oa_enabled auth then (begin_call s, OauthPass)
      else if oauth_exempt path then (begin_call s, OauthPass)
      else case bearer_token header of
             None \<Rightarrow> (s, OauthUnauthorized ''Missing Bearer token for OAuth2'')
           | Some token \<Rightarrow> (begin_call s, check_introspection auth now (introspect token)))"

text \<open>
  A request passes an enabled check on a path that is not exempt exactly with a token that the
  end point calls active, that has not expired, and that has the audience and the issuer asked for.
\<close>

theorem oauth_pass_exact:
  assumes "oa_enabled auth" "\<not> oauth_exempt path"
  shows "snd (oauth_call introspect begin_call now auth path header s) = OauthPass \<longleftrightarrow>
    (\<exists>token body. header = Some (''Bearer '' @ token) \<and> introspect token = Body body \<and> is_active body \<and>
       \<not> expired now body \<and> (\<forall>a. expected_aud auth = Some a \<longrightarrow> aud_match a body) \<and>
       (\<forall>i. expected_iss auth = Some i \<longrightarrow> iss_match i body))"
proof -
  have token: "bearer_token header = Some token \<longleftrightarrow> header = Some (''Bearer '' @ token)" for token
    unfolding bearer_token_def by (cases header) (simp_all only: Option.bind.simps strip_prefix_eq option.simps option.inject)
  have body: "check_body auth now body = OauthPass \<longleftrightarrow> is_active body \<and> \<not> expired now body \<and>
      (\<forall>a. expected_aud auth = Some a \<longrightarrow> aud_match a body) \<and> (\<forall>i. expected_iss auth = Some i \<longrightarrow> iss_match i body)" for body
    by (auto simp: check_body_def split: option.splits)
  show ?thesis
  proof (cases "bearer_token header")
    case None
    then show ?thesis using assms token by (auto simp: oauth_call_def)
  next
    case (Some t)
    then have "header = Some (''Bearer '' @ t)" using token by blast
    then show ?thesis using assms Some body
      by (auto simp: oauth_call_def check_introspection_def split: introspection.splits)
  qed
qed

text \<open>
  The refusal comes late: whatever the end point says about a token, the next service has been
  called.
\<close>

theorem refused_token_reaches_service:
  "fst (oauth_call introspect begin_call now auth path (Some (''Bearer '' @ token)) s) = begin_call s"
  by (simp add: oauth_call_def bearer_token_def strip_prefix_def)

section \<open>The gateway and its cache\<close>

record token_entry =
  tok_valid :: bool
  tok_claims :: json
  tok_cached_at :: nat
  tok_ttl :: nat

record oauth_gateway =
  og_enabled :: bool
  og_issuer_url :: string
  og_introspection_url :: "string option"
  og_jwks_url :: "string option"
  og_client_id :: string
  og_client_secret :: string
  og_cache :: "(string, token_entry) dashmap"

datatype token_validation = TokenValid string json | TokenInvalid string | TokenError string

definition oauth_gateway_new ::
  "bool \<Rightarrow> string \<Rightarrow> string option \<Rightarrow> string \<Rightarrow> string \<Rightarrow> oauth_gateway" where
  "oauth_gateway_new enabled issuer introspection client secret =
     \<lparr>og_enabled = enabled, og_issuer_url = issuer, og_introspection_url = introspection,
      og_jwks_url = (if issuer \<noteq> [] then Some (issuer @ ''/.well-known/openid-configuration'') else None),
      og_client_id = client, og_client_secret = secret, og_cache = []\<rparr>"

text \<open>The answer of the end point: a body, or an error in sending or in parsing.\<close>

datatype gateway_answer = SendError string | ParseError string | Claims json

definition subject_of :: "json \<Rightarrow> string" where
  "subject_of claims = (case Option.bind (json_get ''sub'' claims) as_text of Some s \<Rightarrow> s | None \<Rightarrow> ''?'')"

definition cached_verdict :: "nat \<Rightarrow> token_entry option \<Rightarrow> token_validation option" where
  "cached_verdict now cached =
     (case cached of
        Some e \<Rightarrow>
          if now < wrap_add64 (tok_cached_at e) (tok_ttl e)
          then Some (if tok_valid e then TokenValid (subject_of (tok_claims e)) (tok_claims e)
                     else TokenInvalid ''Cached invalid token'')
          else None
      | None \<Rightarrow> None)"

definition validate_token ::
  "(string \<Rightarrow> string) \<Rightarrow> (string \<Rightarrow> string \<Rightarrow> gateway_answer) \<Rightarrow> nat \<Rightarrow> string \<Rightarrow> oauth_gateway \<Rightarrow>
     oauth_gateway \<times> token_validation" where
  "validate_token sha introspect now token g =
     (if \<not> og_enabled g then (g, TokenValid ''anonymous'' (JObj []))
      else case cached_verdict now (dm_get (og_cache g) (sha token)) of
             Some v \<Rightarrow> (g, v)
           | None \<Rightarrow>
               (case og_introspection_url g of
                  None \<Rightarrow> (g, TokenError ''No introspection endpoint configured'')
                | Some url \<Rightarrow>
                    (case introspect url token of
                       SendError e \<Rightarrow> (g, TokenError (''Introspection failed: '' @ e))
                     | ParseError e \<Rightarrow> (g, TokenError (''Parse error: '' @ e))
                     | Claims body \<Rightarrow>
                         (g\<lparr>og_cache := dm_insert (sha token)
                              \<lparr>tok_valid = is_active body, tok_claims = body, tok_cached_at = now, tok_ttl = 300\<rparr>
                              (og_cache g)\<rparr>,
                          if is_active body then TokenValid (subject_of body) body
                          else TokenInvalid ''Token not active''))))"

definition oauth_clear_cache :: "oauth_gateway \<Rightarrow> oauth_gateway" where
  "oauth_clear_cache g = g\<lparr>og_cache := []\<rparr>"

definition oauth_cache_size :: "oauth_gateway \<Rightarrow> nat" where
  "oauth_cache_size g = length (og_cache g)"

text \<open>A later question: the answers of the end point, the clock and the token.\<close>

type_synonym token_query = "(string \<Rightarrow> string \<Rightarrow> gateway_answer) \<times> nat \<times> string"

definition ask :: "(string \<Rightarrow> string) \<Rightarrow> token_query \<Rightarrow> oauth_gateway \<Rightarrow> oauth_gateway" where
  "ask sha = (\<lambda>(introspect, now, token) g. fst (validate_token sha introspect now token g))"

lemma ask_enabled [simp]: "og_enabled (fst (validate_token sha introspect now token g)) = og_enabled g"
  by (simp add: validate_token_def split: option.split gateway_answer.split)

lemma run_enabled: "og_enabled (fold (ask sha) qs g) = og_enabled g"
proof (induction qs arbitrary: g)
  case (Cons q qs)
  have "og_enabled (ask sha q g) = og_enabled g" by (cases q) (simp add: ask_def)
  with Cons show ?case by simp
qed simp

lemma cached_within:
  assumes "og_enabled g" "dm_get (og_cache g) (sha token) = Some e" "now < wrap_add64 (tok_cached_at e) (tok_ttl e)"
  shows "validate_token sha introspect now token g =
    (g, if tok_valid e then TokenValid (subject_of (tok_claims e)) (tok_claims e) else TokenInvalid ''Cached invalid token'')"
  using assms by (simp add: validate_token_def cached_verdict_def)

lemma ask_keeps:
  assumes "dm_get (og_cache g) k = Some e" "now < wrap_add64 (tok_cached_at e) (tok_ttl e)"
  shows "dm_get (og_cache (fst (validate_token sha introspect now token g))) k = Some e"
proof (cases "sha token = k \<and> og_enabled g")
  case True
  with assms show ?thesis using cached_within [of g sha token e now introspect] by simp
next
  case False
  with assms(1) show ?thesis
    by (auto simp: validate_token_def dashmap_simps split: option.split gateway_answer.split)
qed

lemma run_keeps:
  "\<forall>(introspect, t, token) \<in> set qs. t < wrap_add64 (tok_cached_at e) (tok_ttl e) \<Longrightarrow>
   dm_get (og_cache g) k = Some e \<Longrightarrow> dm_get (og_cache (fold (ask sha) qs g)) k = Some e"
proof (induction qs arbitrary: g)
  case (Cons q qs)
  then show ?case by (cases q) (auto simp: ask_def ask_keeps)
qed simp

text \<open>
  A verdict lasts five minutes. Once the end point has called a token active, the gateway accepts it
  for 300 seconds with the same claims, whatever is asked in between: a revocation is not seen, and
  an expiry time among the claims is not looked at. A token that was found inactive is refused as
  long.
\<close>

theorem verdict_for_five_minutes:
  assumes "og_enabled g" "cached_verdict now (dm_get (og_cache g) (sha token)) = None"
    and "og_introspection_url g = Some url" "introspect url token = Claims body"
    and "g' = fst (validate_token sha introspect now token g)"
    and "\<forall>(i, t, tk) \<in> set qs. t < now + 300" "t' < now + 300" "now + 300 \<le> u64_max"
  shows "snd (validate_token sha introspect' t' token (fold (ask sha) qs g')) =
    (if is_active body then TokenValid (subject_of body) body else TokenInvalid ''Cached invalid token'')"
proof -
  let ?e = "\<lparr>tok_valid = is_active body, tok_claims = body, tok_cached_at = now, tok_ttl = 300\<rparr>"
  have g': "dm_get (og_cache g') (sha token) = Some ?e"
    unfolding assms(5) by (simp add: validate_token_def assms(1,2,3,4) dashmap_simps)
  have end_of: "wrap_add64 (tok_cached_at ?e) (tok_ttl ?e) = now + 300"
    using assms(8) by (simp add: wrap_add64_exact)
  have on: "og_enabled (fold (ask sha) qs g')" using assms(1,5) by (simp add: run_enabled)
  have "\<forall>(i, t, tk) \<in> set qs. t < wrap_add64 (tok_cached_at ?e) (tok_ttl ?e)"
    unfolding end_of by (rule assms(6))
  from run_keeps [OF this g'] have "dm_get (og_cache (fold (ask sha) qs g')) (sha token) = Some ?e" .
  from cached_within [where sha = sha and token = token and now = t' and introspect = introspect', OF on this] assms(7) show ?thesis unfolding end_of by simp
qed

text \<open>The cache only grows: an entry, good or bad, stays until the cache is cleared as a whole.\<close>

theorem cache_never_shrinks:
  "fst ` set (og_cache g) \<subseteq> fst ` set (og_cache (fold (ask sha) qs g))"
proof (induction qs arbitrary: g)
  case (Cons q qs)
  have "fst ` set (og_cache g) \<subseteq> fst ` set (og_cache (ask sha q g))"
    by (cases q) (auto simp: ask_def validate_token_def keys_insert split: option.split gateway_answer.split)
  with Cons [of "ask sha q g"] show ?case by auto
qed simp

text \<open>A gateway that is not enabled calls every token valid.\<close>

theorem disabled_accepts_all:
  "\<not> og_enabled g \<Longrightarrow> snd (validate_token sha introspect now token g) = TokenValid ''anonymous'' (JObj [])"
  by (simp add: validate_token_def)

end
