(* ===== verification/Traffic_Policy.thy ===== *)
theory Traffic_Policy
  imports Proxy
begin

text \<open>
  The policies a request may be subject to before it is routed: tenants
  (src/src/middleware/tenant.rs), traffic splitting (src/src/gateway/canary.rs), countries
  (src/src/middleware/geoip.rs), origins (src/src/middleware/cors_manager.rs) and the interceptor
  chain (src/src/gateway/interceptors.rs). Header maps are association lists from lower-case names;
  a hash map is a list in the order in which it happens to iterate. Random numbers are arguments.
\<close>

section \<open>Tenants\<close>

record tenant_config =
  tn_id :: string
  tn_name :: string
  tn_rate_limit :: nat
  tn_rate_window_secs :: nat
  tn_quota_daily :: "nat option"
  tn_allowed_prefixes :: "string list"
  tn_custom_headers :: "(string \<times> string) list"
  tn_request_count :: nat
  tn_daily_count :: nat

record tenant_mgr =
  tenants :: "(string, tenant_config) dashmap"
  tn_enabled :: bool
  tn_header_name :: string

definition tenant_new :: "bool \<Rightarrow> string \<Rightarrow> tenant_mgr" where
  "tenant_new enabled header = \<lparr>tenants = [], tn_enabled = enabled, tn_header_name = header\<rparr>"

definition create_tenant ::
  "string \<Rightarrow> string \<Rightarrow> nat \<Rightarrow> nat option \<Rightarrow> tenant_mgr \<Rightarrow> tenant_mgr \<times> tenant_config" where
  "create_tenant i name limit quota m =
     (let c = \<lparr>tn_id = i, tn_name = name, tn_rate_limit = limit, tn_rate_window_secs = 60, tn_quota_daily = quota,
               tn_allowed_prefixes = [], tn_custom_headers = [], tn_request_count = 0, tn_daily_count = 0\<rparr>
      in (m\<lparr>tenants := dm_insert i c (tenants m)\<rparr>, c))"

definition policy_header :: "string \<Rightarrow> (string \<times> string) list \<Rightarrow> string option" where
  "policy_header name headers = Option.bind (map_of headers (to_ascii_lowercase name)) header_str"

definition identify_tenant :: "(string \<times> string) list \<Rightarrow> string \<Rightarrow> tenant_mgr \<Rightarrow> tenant_config option" where
  "identify_tenant headers host m =
     (if \<not> tn_enabled m then None
      else case Option.bind (policy_header (tn_header_name m) headers) (dm_get (tenants m)) of
             Some t \<Rightarrow> Some t
           | None \<Rightarrow> dm_get (tenants m) host)"

definition check_quota :: "string \<Rightarrow> tenant_mgr \<Rightarrow> bool" where
  "check_quota i m =
     (case dm_get (tenants m) i of
        Some t \<Rightarrow> (case tn_quota_daily t of Some quota \<Rightarrow> tn_daily_count t < quota | None \<Rightarrow> True)
      | None \<Rightarrow> True)"

definition tenant_record_request :: "string \<Rightarrow> tenant_mgr \<Rightarrow> tenant_mgr" where
  "tenant_record_request i m =
     m\<lparr>tenants := dm_update i (\<lambda>t. t\<lparr>tn_request_count := wrap_add64 (tn_request_count t) 1,
                               tn_daily_count := wrap_add64 (tn_daily_count t) 1\<rparr>) (tenants m)\<rparr>"

definition reset_daily_counts :: "tenant_mgr \<Rightarrow> tenant_mgr" where
  "reset_daily_counts m = m\<lparr>tenants := map (\<lambda>(k, t). (k, t\<lparr>tn_daily_count := 0\<rparr>)) (tenants m)\<rparr>"

definition list_tenants :: "tenant_mgr \<Rightarrow> tenant_config list" where
  "list_tenants m = map snd (tenants m)"

lemma record_get:
  "dm_get (tenants (tenant_record_request i m)) j =
     (if j = i then map_option (\<lambda>t. t\<lparr>tn_request_count := wrap_add64 (tn_request_count t) 1,
        tn_daily_count := wrap_add64 (tn_daily_count t) 1\<rparr>) (dm_get (tenants m) i)
      else dm_get (tenants m) j)"
  by (simp add: tenant_record_request_def dashmap_simps)

lemma record_many_get:
  "dm_get (tenants m) i = Some t \<Longrightarrow> tn_daily_count t + n \<le> u64_max \<Longrightarrow>
   \<exists>t'. dm_get (tenants ((tenant_record_request i ^^ n) m)) i = Some t' \<and>
     tn_daily_count t' = tn_daily_count t + n \<and> tn_quota_daily t' = tn_quota_daily t"
proof (induction n)
  case (Suc n)
  then obtain t' where "dm_get (tenants ((tenant_record_request i ^^ n) m)) i = Some t'"
    "tn_daily_count t' = tn_daily_count t + n" "tn_quota_daily t' = tn_quota_daily t" by auto
  with Suc.prems(2) show ?case by (simp add: record_get wrap_add64_exact)
qed simp

text \<open>A tenant may make as many requests a day as its quota says: the check fails from the last one on.\<close>

theorem quota_exact:
  assumes "dm_get (tenants m) i = Some t" "tn_quota_daily t = Some quota" "n \<le> u64_max"
  shows "check_quota i ((tenant_record_request i ^^ n) (reset_daily_counts m)) \<longleftrightarrow> n < quota"
proof -
  have "dm_get (tenants (reset_daily_counts m)) i = Some (t\<lparr>tn_daily_count := 0\<rparr>)"
    using assms(1) by (simp add: reset_daily_counts_def map_of_map)
  from record_many_get [OF this, of n] assms(2,3) show ?thesis by (auto simp: check_quota_def)
qed

section \<open>Canaries\<close>

record canary_config =
  cn_enabled :: bool
  cn_weights :: "(string \<times> nat) list"
  cn_header_name :: "string option"
  cn_header_value :: "string option"
  cn_upstream :: "string option"

definition total_weight :: "(string \<times> nat) list \<Rightarrow> nat" where
  "total_weight ws = fold (\<lambda>(_, w) acc. wrap_add32 acc w) ws 0"

fun canary_pick :: "nat \<Rightarrow> nat \<Rightarrow> (string \<times> nat) list \<Rightarrow> string option" where
  "canary_pick roll cumulative [] = None"
| "canary_pick roll cumulative ((u, w) # ws) =
     (let c = wrap_add32 cumulative w in if roll < c then Some u else canary_pick roll c ws)"

definition canary_select_upstream :: "nat \<Rightarrow> string list \<Rightarrow> canary_config \<Rightarrow> string option" where
  "canary_select_upstream random upstreams c =
     (if \<not> cn_enabled c \<or> cn_weights c = [] then None
      else (let t = total_weight (cn_weights c) in
            if t = 0 then None
            else case canary_pick (random mod t) 0 (cn_weights c) of
                   Some u \<Rightarrow> Some u
                 | None \<Rightarrow> (case upstreams of u # _ \<Rightarrow> Some u | [] \<Rightarrow> None)))"

definition check_header_routing :: "(string \<times> string) list \<Rightarrow> canary_config \<Rightarrow> string option" where
  "check_header_routing headers c =
     (if \<not> cn_enabled c then None
      else case (cn_header_name c, cn_header_value c, cn_upstream c) of
             (Some name, Some v, Some upstream) \<Rightarrow>
               if policy_header name headers = Some v then Some upstream else None
           | _ \<Rightarrow> None)"

definition select_canary_or_lb ::
  "nat \<Rightarrow> canary_config option \<Rightarrow> (string \<times> string) list \<Rightarrow> string list \<Rightarrow> string option" where
  "select_canary_or_lb random canary headers upstreams =
     (case canary of
        None \<Rightarrow> None
      | Some c \<Rightarrow>
          (case check_header_routing headers c of
             Some u \<Rightarrow> Some u
           | None \<Rightarrow> canary_select_upstream random upstreams c))"

definition weight_sum :: "(string \<times> nat) list \<Rightarrow> nat" where
  "weight_sum ws = sum_list (map snd ws)"

lemma total_weight_exact: "weight_sum ws \<le> u32_max \<Longrightarrow> total_weight ws = weight_sum ws"
proof -
  have "fold (\<lambda>(_, w) acc. wrap_add32 acc w) ws a = a + weight_sum ws" if "a + weight_sum ws \<le> u32_max" for a
    using that by (induction ws arbitrary: a) (auto simp: weight_sum_def wrap_add32_exact)
  from this [of 0] show "weight_sum ws \<le> u32_max \<Longrightarrow> ?thesis" by (simp add: total_weight_def)
qed

lemma pick_total:
  "c + weight_sum ws \<le> u32_max \<Longrightarrow> c \<le> roll \<Longrightarrow>
   canary_pick roll c ws = None \<longleftrightarrow> c + weight_sum ws \<le> roll"
  by (induction roll c ws rule: canary_pick.induct) (auto simp: weight_sum_def wrap_add32_exact Let_def)

lemma pick_member: "canary_pick roll c ws = Some u \<Longrightarrow> u \<in> fst ` set ws"
  by (induction roll c ws rule: canary_pick.induct) (auto simp: Let_def split: if_splits)

lemma pick_share:
  assumes "distinct (map fst ws)" "(u, w) \<in> set ws" "c + weight_sum ws \<le> u32_max"
  shows "card {roll. c \<le> roll \<and> roll < c + weight_sum ws \<and> canary_pick roll c ws = Some u} = w"
  using assms
proof (induction ws arbitrary: c)
  case (Cons x ws)
  obtain v x' where x: "x = (v, x')" by (cases x)
  have c: "wrap_add32 c x' = c + x'" using Cons.prems(3) by (simp add: x weight_sum_def wrap_add32_exact)
  have sum: "weight_sum ((v, x') # ws) = x' + weight_sum ws" by (simp add: weight_sum_def)
  show ?case
  proof (cases "u = v")
    case True
    have no: "canary_pick roll d ws \<noteq> Some v" for roll d
      using pick_member [of roll d ws v] Cons.prems(1) by (auto simp: x)
    have w: "w = x'" using True Cons.prems(1,2) by (force simp: x)
    have "{roll. c \<le> roll \<and> roll < c + weight_sum (x # ws) \<and> canary_pick roll c (x # ws) = Some u} = {c ..< c + x'}"
      using no True by (auto simp: x c sum Let_def split: if_splits)
    then show ?thesis by (simp add: w)
  next
    case False
    have "{roll. c \<le> roll \<and> roll < c + weight_sum (x # ws) \<and> canary_pick roll c (x # ws) = Some u} =
        {roll. c + x' \<le> roll \<and> roll < c + x' + weight_sum ws \<and> canary_pick roll (c + x') ws = Some u}"
      using False by (auto simp: x c sum Let_def split: if_splits)
    with Cons.IH [of "c + x'"] Cons.prems False show ?thesis by (simp add: x sum add.assoc)
  qed
qed simp

text \<open>
  The traffic is split by weight. Of the rolls below the total weight, exactly as many select an
  upstream as its weight says, in whatever order the map iterates, and the fallback is
  never used, as long as the weights add up within 32 bits.
\<close>

theorem canary_share_exact:
  assumes "cn_enabled c" "distinct (map fst (cn_weights c))" "(u, w) \<in> set (cn_weights c)"
    and "weight_sum (cn_weights c) \<le> u32_max" "0 < weight_sum (cn_weights c)"
  shows "card {roll. roll < weight_sum (cn_weights c) \<and> canary_select_upstream roll upstreams c = Some u} = w"
proof -
  let ?ws = "cn_weights c"
  have "canary_select_upstream roll upstreams c = canary_pick roll 0 ?ws" if "roll < weight_sum ?ws" for roll
    using assms that pick_total [of 0 ?ws roll]
    by (auto simp: canary_select_upstream_def Let_def total_weight_exact split: option.split)
  then have "{roll. roll < weight_sum ?ws \<and> canary_select_upstream roll upstreams c = Some u} =
      {roll. 0 \<le> roll \<and> roll < 0 + weight_sum ?ws \<and> canary_pick roll 0 ?ws = Some u}" by auto
  with pick_share [OF assms(2,3), of 0] assms(4) show ?thesis by simp
qed

text \<open>Weights that add up to a multiple of the word switch the split off.\<close>

theorem canary_overflow_off:
  assumes "cn_weights c = [(a, 2 ^ 31), (b, 2 ^ 31)]"
  shows "canary_select_upstream roll upstreams c = None"
  using assms by (simp add: canary_select_upstream_def total_weight_def wrap_add32_def u32_max_def)

section \<open>Countries\<close>

record geo_info =
  country_code :: string
  country_name :: string
  continent :: string

record geo_ip =
  geo_enabled :: bool
  ip_ranges :: "(string, geo_info) dashmap"
  blocked_countries :: "string list"

definition geo_new :: "bool \<Rightarrow> string list \<Rightarrow> geo_ip" where
  "geo_new enabled blocked = \<lparr>geo_enabled = enabled, ip_ranges = [], blocked_countries = blocked\<rparr>"

definition geo_lookup :: "string \<Rightarrow> geo_ip \<Rightarrow> geo_info option" where
  "geo_lookup ip g =
     (if \<not> geo_enabled g then None
      else if prefix ''127.'' ip \<or> prefix ''10.'' ip \<or> prefix ''192.168.'' ip \<or> prefix ''172.'' ip \<or> ip = ''::1''
      then Some \<lparr>country_code = ''LO'', country_name = ''Local'', continent = ''Local''\<rparr>
      else dm_get (ip_ranges g) ip)"

definition geo_is_blocked :: "string \<Rightarrow> geo_ip \<Rightarrow> bool" where
  "geo_is_blocked ip g =
     (if \<not> geo_enabled g \<or> blocked_countries g = [] then False
      else case geo_lookup ip g of Some info \<Rightarrow> country_code info \<in> set (blocked_countries g) | None \<Rightarrow> False)"

definition geo_register :: "string \<Rightarrow> string \<Rightarrow> string \<Rightarrow> geo_ip \<Rightarrow> geo_ip" where
  "geo_register ip code name g =
     g\<lparr>ip_ranges := dm_insert ip \<lparr>country_code = code, country_name = name, continent = ''Unknown''\<rparr> (ip_ranges g)\<rparr>"

text \<open>
  All of 172.0.0.0/8 counts as local, most of which is public: an address there is not blocked
  with its country, even when it has been registered.
\<close>

theorem public_172_is_local:
  assumes "''LO'' \<notin> set (blocked_countries g)"
  shows "\<not> geo_is_blocked (''172.'' @ rest) (geo_register (''172.'' @ rest) code name g)"
  using assms by (simp add: geo_is_blocked_def geo_lookup_def geo_register_def)

section \<open>Origins\<close>

record cors_policy =
  cp_allowed_origins :: "string list"
  cp_allowed_methods :: "string list"
  cp_allowed_headers :: "string list"
  cp_expose_headers :: "string list"
  cp_max_age :: nat
  cp_allow_credentials :: bool

definition cors_policy_default :: cors_policy where
  "cors_policy_default =
     \<lparr>cp_allowed_origins = [''*''], cp_allowed_methods = [''GET'', ''POST'', ''PUT'', ''DELETE'', ''OPTIONS''],
      cp_allowed_headers = [''Content-Type'', ''Authorization'', ''X-Api-Key''],
      cp_expose_headers = [''X-Request-Id'', ''X-Response-Time''], cp_max_age = 86400, cp_allow_credentials = False\<rparr>"

record cors_mgr =
  cors_policies :: "(string, cors_policy) dashmap"
  cors_default :: cors_policy

definition cors_new :: cors_mgr where
  "cors_new = \<lparr>cors_policies = [], cors_default = cors_policy_default\<rparr>"

definition cors_set_policy :: "string \<Rightarrow> cors_policy \<Rightarrow> cors_mgr \<Rightarrow> cors_mgr" where
  "cors_set_policy pref p m = m\<lparr>cors_policies := dm_insert pref p (cors_policies m)\<rparr>"

definition cors_get_policy :: "string \<Rightarrow> cors_mgr \<Rightarrow> cors_policy" where
  "cors_get_policy path m =
     (case find (\<lambda>(k, _). prefix k path) (cors_policies m) of Some (_, p) \<Rightarrow> p | None \<Rightarrow> cors_default m)"

definition cors_allow_origin :: "cors_policy \<Rightarrow> string option \<Rightarrow> string option" where
  "cors_allow_origin p origin_header =
     (let origin = (case origin_header of Some o1 \<Rightarrow> o1 | None \<Rightarrow> ''*'') in
      if ''*'' \<in> set (cp_allowed_origins p) then Some ''*''
      else if origin \<in> set (cp_allowed_origins p) then Some origin
      else None)"

definition cors_build_headers :: "string \<Rightarrow> string option \<Rightarrow> cors_mgr \<Rightarrow> (string \<times> string) list" where
  "cors_build_headers path origin_header m =
     (let p = cors_get_policy path m in
      case cors_allow_origin p origin_header of
        None \<Rightarrow> []
      | Some allow \<Rightarrow>
          [(''Access-Control-Allow-Origin'', allow),
           (''Access-Control-Allow-Methods'', join_with '', '' (cp_allowed_methods p)),
           (''Access-Control-Allow-Headers'', join_with '', '' (cp_allowed_headers p)),
           (''Access-Control-Expose-Headers'', join_with '', '' (cp_expose_headers p)),
           (''Access-Control-Max-Age'', show_nat (cp_max_age p))] @
          (if cp_allow_credentials p then [(''Access-Control-Allow-Credentials'', ''true'')] else []))"

definition cors_list_policies :: "cors_mgr \<Rightarrow> (string \<times> cors_policy) list" where
  "cors_list_policies m = cors_policies m"

text \<open>An origin is only let in that the policy of the path lists, or when it lists all.\<close>

theorem cors_origin_listed:
  assumes "(''Access-Control-Allow-Origin'', v) \<in> set (cors_build_headers path (Some origin) m)"
  shows "v = ''*'' \<and> ''*'' \<in> set (cp_allowed_origins (cors_get_policy path m)) \<or>
    v = origin \<and> origin \<in> set (cp_allowed_origins (cors_get_policy path m))"
  using assms
  by (auto simp: cors_build_headers_def cors_allow_origin_def Let_def split: option.splits if_splits)

text \<open>
  Which policy a path has is not the most specific one but the first in the order of the map, and
  segments are not respected: a strict policy for a part of a service is used or not as it happens.
\<close>

theorem cors_policy_by_chance:
  assumes "prefix k path" "prefix k' path" "k \<noteq> k'"
  shows "\<exists>m m'. mset (cors_policies m) = mset (cors_policies m') \<and>
    cors_get_policy path m = p \<and> cors_get_policy path m' = p'"
proof (intro exI conjI)
  let ?m = "\<lparr>cors_policies = [(k, p), (k', p')], cors_default = cors_policy_default\<rparr>"
  let ?m' = "\<lparr>cors_policies = [(k', p'), (k, p)], cors_default = cors_policy_default\<rparr>"
  show "mset (cors_policies ?m) = mset (cors_policies ?m')" by simp
  show "cors_get_policy path ?m = p" "cors_get_policy path ?m' = p'" using assms by (simp_all add: cors_get_policy_def)
qed

section \<open>Interceptors\<close>

record interceptor_context =
  ic_method :: string
  ic_path :: string
  ic_ip :: string
  ic_headers :: "(string \<times> string) list"
  ic_body_size :: nat
  ic_service_name :: "string option"
  ic_metadata :: "(string \<times> string) list"

datatype interceptor_action =
    Reject nat string
  | Redirect string
  | ModifyHeaders "(string \<times> string) list"

text \<open>A trait object is the record of its answers.\<close>

record interceptor =
  in_name :: string
  in_priority :: int
  on_request :: "interceptor_context \<Rightarrow> interceptor_context \<times> interceptor_action option"
  on_response :: "interceptor_context \<Rightarrow> nat \<Rightarrow> string \<Rightarrow> interceptor_context \<times> string option"

definition chain_add :: "interceptor \<Rightarrow> interceptor list \<Rightarrow> interceptor list" where
  "chain_add i chain = sort_key in_priority (chain @ [i])"

fun run_request :: "interceptor list \<Rightarrow> interceptor_context \<Rightarrow> interceptor_context \<times> interceptor_action option" where
  "run_request [] ctx = (ctx, None)"
| "run_request (i # chain) ctx =
     (case on_request i ctx of
        (ctx', Some a) \<Rightarrow> (ctx', Some a)
      | (ctx', None) \<Rightarrow> run_request chain ctx')"

fun run_response :: "interceptor list \<Rightarrow> interceptor_context \<Rightarrow> nat \<Rightarrow> string \<Rightarrow> interceptor_context \<times> string option" where
  "run_response [] ctx status body = (ctx, None)"
| "run_response (i # chain) ctx status body =
     (case on_response i ctx status body of
        (ctx', Some b) \<Rightarrow> (ctx', Some b)
      | (ctx', None) \<Rightarrow> run_response chain ctx' status body)"

definition size_limiter :: "nat \<Rightarrow> interceptor" where
  "size_limiter max_body_bytes =
     \<lparr>in_name = ''size_limiter'', in_priority = -100,
      on_request = (\<lambda>ctx. (ctx,
        if max_body_bytes < ic_body_size ctx
        then Some (Reject 413 (''{'' @ CHR 0x22 # ''error'' @ CHR 0x22 # '':'' @ CHR 0x22 # ''Request body too large'' @
               CHR 0x22 # '','' @ CHR 0x22 # ''max_bytes'' @ CHR 0x22 # '':'' @ show_nat max_body_bytes @ ''}''))
        else None)),
      on_response = (\<lambda>ctx _ _. (ctx, None))\<rparr>"

definition security_headers :: "nat \<Rightarrow> bool \<Rightarrow> string option \<Rightarrow> interceptor" where
  "security_headers hsts_max_age hsts_preload csp =
     \<lparr>in_name = ''security_headers'', in_priority = 100,
      on_request = (\<lambda>ctx. (ctx, Some (ModifyHeaders (
        [(''Strict-Transport-Security'', ''max-age='' @ show_nat hsts_max_age @ ''; includeSubDomains'' @
            (if hsts_preload then ''; preload'' else [])),
         (''X-Content-Type-Options'', ''nosniff''), (''X-Frame-Options'', ''DENY''),
         (''Referrer-Policy'', ''strict-origin-when-cross-origin'')] @
        (case csp of Some v \<Rightarrow> [(''Content-Security-Policy'', v)] | None \<Rightarrow> []))))),
      on_response = (\<lambda>ctx _ _. (ctx, None))\<rparr>"

lemma priority_stable:
  "filter (\<lambda>x. in_priority k = in_priority x) (sort_key in_priority xs) = filter (\<lambda>x. in_priority k = in_priority x) xs"
  using sort_key_stable [of in_priority "in_priority k" xs] by (simp add: eq_commute)

text \<open>
  The chain is in the order of the priorities, and of the additions among equals, however it is
  built.
\<close>

theorem chain_order: "fold chain_add ics [] = sort_key in_priority ics"
proof (induction ics rule: rev_induct)
  case (snoc i ics)
  have "sort_key in_priority (sort_key in_priority ics @ [i]) = sort_key in_priority (ics @ [i])"
    by (rule properties_for_sort_key) (simp_all add: priority_stable)
  with snoc show ?case by (simp add: chain_add_def)
qed simp

text \<open>
  The interceptor that adds headers ends the chain. Adding headers is an action like a rejection,
  so every request is \<open>blocked\<close> by it, and an interceptor behind it never sees one.
\<close>

theorem security_headers_end_chain:
  "run_request (before @ security_headers age preload csp # behind) ctx =
     run_request (before @ [security_headers age preload csp]) ctx"
  "snd (run_request (before @ security_headers age preload csp # behind) ctx) \<noteq> None"
  by (induction before arbitrary: ctx) (auto simp: security_headers_def split: prod.split option.split)

text \<open>A body above the limit is rejected before any other built-in interceptor runs.\<close>

theorem size_limit_first:
  assumes "\<forall>i \<in> set ics. in_priority (size_limiter n) < in_priority i" "n < ic_body_size ctx"
  shows "\<exists>body. run_request (fold chain_add (ics @ [size_limiter n]) []) ctx = (ctx, Some (Reject 413 body))"
proof -
  have none: "filter (\<lambda>x. in_priority (size_limiter n) = in_priority x) ics = []"
    using assms(1) by (auto simp: filter_empty_conv)
  have "fold chain_add (ics @ [size_limiter n]) [] = size_limiter n # sort_key in_priority ics"
    unfolding chain_order
    by (rule properties_for_sort_key) (use assms(1) none in \<open>auto simp: priority_stable\<close>)
  then show ?thesis using assms(2) by (simp add: size_limiter_def)
qed

end
