(* ===== verification/Log_Aggregator.thy ===== *)
theory Log_Aggregator
  imports Interfaces Complex_Main
begin

text \<open>
  src/src/observability/log_aggregator.rs and src/src/metrics/trace_collector.rs: the collected
  log lines with their keyword index and the traces of requests. Both keep a bounded number of
  entries; the clock is an argument. The counts of the statistics are lists of pairs. Durations of
  spans are reals.
\<close>

section \<open>Log lines\<close>

datatype log_level = LvTrace | LvDebug | LvInfo | LvWarn | LvError | LvFatal

record log_entry =
  le_id :: nat
  le_timestamp :: nat
  le_source :: string
  le_level :: log_level
  le_message :: string
  le_metadata :: "(string \<times> string) list"

record log_source =
  ls_name :: string
  ls_url :: string
  ls_log_count :: nat
  ls_last_received :: nat

record log_aggregator =
  la_logs :: "log_entry list"
  la_index :: "(string, nat list) dashmap"
  la_next_id :: nat
  la_min_kept_id :: nat
  la_max_entries :: nat
  la_sources :: "(string, log_source) dashmap"

definition max_indexed_word_len :: nat where "max_indexed_word_len = 64"
definition max_words_per_log :: nat where "max_words_per_log = 32"

text \<open>\<open>char::is_control\<close>: U+0000 to U+001F and U+007F to U+009F, here as the bytes of the character.\<close>

definition control_char :: "string \<Rightarrow> bool" where
  "control_char c \<longleftrightarrow>
     (case map of_char c of
        [n :: nat] \<Rightarrow> n < 0x20 \<or> n = 0x7F
      | [n, m] \<Rightarrow> n = 0xC2 \<and> 0x80 \<le> m \<and> m \<le> 0x9F
      | _ \<Rightarrow> False)"

definition clean_char :: "string \<Rightarrow> string" where
  "clean_char c =
     (if c \<in> {[CHR 0x0D], [CHR 0x0A], [CHR 0x09]} then '' ''
      else if control_char c then ''?'' else c)"

definition sanitize_message :: "string \<Rightarrow> string" where
  "sanitize_message input = concat (map clean_char (take 8192 (utf8_chars input)))"

text \<open>\<open>split_whitespace\<close>: the runs of characters that are no white space.\<close>

fun words_of :: "string \<Rightarrow> string list \<Rightarrow> string list" where
  "words_of w [] = (if w = [] then [] else [w])"
| "words_of w (c # cs) =
     (if c \<in> set whitespace then (if w = [] then [] else [w]) @ words_of [] cs else words_of (w @ c) cs)"

definition split_whitespace :: "string \<Rightarrow> string list" where
  "split_whitespace s = words_of [] (utf8_chars s)"

text \<open>
  The keywords of a message: \<open>seen\<close> are the words met so far. The word that makes them more than
  the bound ends the loop before it is indexed.
\<close>

fun index_words :: "string list \<Rightarrow> string list \<Rightarrow> string list" where
  "index_words seen [] = []"
| "index_words seen (word # ws) =
     (if length word \<le> 2 \<or> max_indexed_word_len < length word then index_words seen ws
      else if to_lowercase word \<in> set seen then index_words seen ws
      else if max_words_per_log < length (to_lowercase word # seen) then []
      else to_lowercase word # index_words (to_lowercase word # seen) ws)"

definition keywords_of :: "string \<Rightarrow> string list" where
  "keywords_of msg = index_words [] (split_whitespace msg)"

definition index_one :: "nat \<Rightarrow> string \<Rightarrow> (string, nat list) dashmap \<Rightarrow> (string, nat list) dashmap" where
  "index_one i w m = dm_insert w (dm_or_insert m w [] @ [i]) m"

definition prune_index :: "nat \<Rightarrow> (string, nat list) dashmap \<Rightarrow> (string, nat list) dashmap" where
  "prune_index cutoff m =
     dm_retain (\<lambda>_ ids. ids \<noteq> []) (map (\<lambda>(w, ids). (w, filter (\<lambda>i. cutoff \<le> i) ids)) m)"

definition agg_new :: "nat \<Rightarrow> log_aggregator" where
  "agg_new m = \<lparr>la_logs = [], la_index = [], la_next_id = 0, la_min_kept_id = 0,
                la_max_entries = max m 1, la_sources = []\<rparr>"

text \<open>The lines after a new one, and the first identifier that is kept if the older half goes.\<close>

definition push_line :: "log_entry \<Rightarrow> log_aggregator \<Rightarrow> log_aggregator" where
  "push_line entry a =
     (let ls = la_logs a @ [entry]
      in if la_max_entries a < length ls
         then let k = length ls div 2; cutoff = wrap_add64 (le_id (ls ! (k - 1))) 1
              in a\<lparr>la_logs := drop k ls, la_min_kept_id := cutoff, la_index := prune_index cutoff (la_index a)\<rparr>
         else a\<lparr>la_logs := ls\<rparr>)"

definition track_source :: "string \<Rightarrow> nat \<Rightarrow> log_aggregator \<Rightarrow> log_aggregator" where
  "track_source source now a =
     (let s = dm_or_insert (la_sources a) source \<lparr>ls_name = source, ls_url = [], ls_log_count = 0, ls_last_received = 0\<rparr>
      in a\<lparr>la_sources := dm_insert source
             (s\<lparr>ls_log_count := min (ls_log_count s + 1) u64_max, ls_last_received := now\<rparr>) (la_sources a)\<rparr>)"

definition ingest ::
  "nat \<Rightarrow> string \<Rightarrow> log_level \<Rightarrow> string \<Rightarrow> (string \<times> string) list \<Rightarrow> log_aggregator \<Rightarrow> log_aggregator" where
  "ingest now source level msg meta a =
     (let sanitized = sanitize_message msg; i = la_next_id a;
          a1 = a\<lparr>la_next_id := wrap_add64 i 1, la_index := fold (index_one i) (keywords_of sanitized) (la_index a)\<rparr>;
          entry = \<lparr>le_id = i, le_timestamp = now, le_source = source, le_level = level,
                   le_message = sanitized, le_metadata = meta\<rparr>
      in track_source source now (push_line entry a1))"

section \<open>Queries\<close>

definition newest :: "(log_entry \<Rightarrow> bool) \<Rightarrow> nat \<Rightarrow> log_aggregator \<Rightarrow> log_entry list" where
  "newest P limit a = take limit (filter P (rev (la_logs a)))"

definition search_logs :: "string \<Rightarrow> nat \<Rightarrow> log_aggregator \<Rightarrow> log_entry list" where
  "search_logs query = newest (\<lambda>l. str_contains (to_lowercase (le_message l)) (to_lowercase query))"

definition by_level :: "log_level \<Rightarrow> nat \<Rightarrow> log_aggregator \<Rightarrow> log_entry list" where
  "by_level level = newest (\<lambda>l. le_level l = level)"

definition by_source :: "string \<Rightarrow> nat \<Rightarrow> log_aggregator \<Rightarrow> log_entry list" where
  "by_source source = newest (\<lambda>l. le_source l = source)"

definition recent_logs :: "nat \<Rightarrow> log_aggregator \<Rightarrow> log_entry list" where
  "recent_logs = newest (\<lambda>_. True)"

record log_stats =
  st_total_logs :: nat
  st_indexed_keywords :: nat
  st_sources :: nat
  st_levels :: "(log_level, nat) dashmap"

definition agg_stats :: "log_aggregator \<Rightarrow> log_stats" where
  "agg_stats a =
     \<lparr>st_total_logs = length (la_logs a), st_indexed_keywords = length (la_index a),
      st_sources = length (la_sources a),
      st_levels = fold (\<lambda>l m. dm_insert (le_level l) (dm_or_insert m (le_level l) 0 + 1) m) (la_logs a) []\<rparr>"

definition list_sources :: "log_aggregator \<Rightarrow> log_source list" where
  "list_sources a = map snd (la_sources a)"

section \<open>Traces\<close>

record trace_span =
  tsp_id :: string
  tsp_parent :: "string option"
  tsp_service :: string
  tsp_operation :: string
  tsp_start_ms :: real
  tsp_duration_ms :: real
  tsp_status :: nat
  tsp_tags :: "(string \<times> string) list"

record trace_tree =
  tr_id :: string
  tr_spans :: "trace_span list"
  tr_started_at :: nat
  tr_total_ms :: real

record trace_collector =
  tc_traces :: "(string, trace_tree) dashmap"
  tc_max :: nat

definition traces_new :: "nat \<Rightarrow> trace_collector" where
  "traces_new m = \<lparr>tc_traces = [], tc_max = m\<rparr>"

text \<open>\<open>min_by_key\<close>: the first entry in the order of the map that started earliest.\<close>

fun oldest :: "(string, trace_tree) dashmap \<Rightarrow> string option" where
  "oldest [] = None"
| "oldest [(k, _)] = Some k"
| "oldest ((k, t) # (k', t') # m) =
     (if tr_started_at t \<le> tr_started_at t' then oldest ((k, t) # m) else oldest ((k', t') # m))"

definition start_trace :: "nat \<Rightarrow> string \<Rightarrow> trace_collector \<Rightarrow> trace_collector \<times> string" where
  "start_trace now request_id c =
     (let m = (if tc_max c \<le> length (tc_traces c)
               then (case oldest (tc_traces c) of Some k \<Rightarrow> dm_remove k (tc_traces c) | None \<Rightarrow> tc_traces c)
               else tc_traces c)
      in (c\<lparr>tc_traces := dm_insert request_id
              \<lparr>tr_id = request_id, tr_spans = [], tr_started_at = now, tr_total_ms = 0\<rparr> m\<rparr>, request_id))"

definition add_span :: "string \<Rightarrow> trace_span \<Rightarrow> trace_collector \<Rightarrow> trace_collector" where
  "add_span trace_id sp c =
     c\<lparr>tc_traces := dm_update trace_id
         (\<lambda>t. let ss = tr_spans t @ [sp]
              in t\<lparr>tr_spans := ss,
                   tr_total_ms := fold max (map (\<lambda>s. tsp_start_ms s + tsp_duration_ms s) ss) 0\<rparr>) (tc_traces c)\<rparr>"

definition get_trace :: "string \<Rightarrow> trace_collector \<Rightarrow> trace_tree option" where
  "get_trace trace_id c = dm_get (tc_traces c) trace_id"

text \<open>A stable sort, the latest start first.\<close>

definition recent_traces :: "nat \<Rightarrow> trace_collector \<Rightarrow> trace_tree list" where
  "recent_traces limit c = take limit (sort_key (\<lambda>t. - int (tr_started_at t)) (map snd (tc_traces c)))"

definition trace_count :: "trace_collector \<Rightarrow> nat" where
  "trace_count c = length (tc_traces c)"

section \<open>Keywords\<close>

lemma index_words_disjoint: "w \<in> set (index_words seen ws) \<Longrightarrow> w \<notin> set seen"
  by (induction seen ws rule: index_words.induct) (auto split: if_splits)

lemma index_words_distinct: "distinct (index_words seen ws)"
  by (induction seen ws rule: index_words.induct) (auto dest: index_words_disjoint)

lemma index_words_bound: "length seen \<le> max_words_per_log \<Longrightarrow> length (index_words seen ws) + length seen \<le> max_words_per_log"
  by (induction seen ws rule: index_words.induct) (auto simp del: length_Cons simp: length_Cons [THEN sym])

lemma index_fold_get:
  "distinct ws \<Longrightarrow> dm_get (fold (index_one i) ws m) w =
     (if w \<in> set ws then Some (dm_or_insert m w [] @ [i]) else dm_get m w)"
  by (induction ws arbitrary: m) (auto simp: index_one_def dashmap_simps)

lemma index_fold_wf: "dm_wf m \<Longrightarrow> dm_wf (fold (index_one i) ws m)"
  by (induction ws arbitrary: m) (simp_all add: index_one_def dashmap_simps)

lemma dm_map_values [simp]: "dm_wf (map (\<lambda>(w, v). (w, f v)) m) = dm_wf m"
  "dm_get (map (\<lambda>(w, v). (w, f v)) m) w = map_option f (dm_get m w)"
  by (simp_all add: dm_wf_def comp_def case_prod_unfold) (induction m, auto)

lemma prune_get:
  "dm_wf m \<Longrightarrow> dm_get (prune_index cutoff m) w =
     (case dm_get m w of
        None \<Rightarrow> None
      | Some ids \<Rightarrow> if filter (\<lambda>i. cutoff \<le> i) ids = [] then None else Some (filter (\<lambda>i. cutoff \<le> i) ids))"
  by (simp add: prune_index_def dm_get_retain split: option.split)

lemma prune_wf: "dm_wf m \<Longrightarrow> dm_wf (prune_index cutoff m)"
  by (simp add: prune_index_def dm_wf_retain)

section \<open>The index is exact\<close>

definition some_unless_empty :: "'a list \<Rightarrow> 'a list option" where
  "some_unless_empty xs = (if xs = [] then None else Some xs)"

text \<open>The identifiers of the lines that have a keyword.\<close>

definition lines_with :: "string \<Rightarrow> log_entry list \<Rightarrow> nat list" where
  "lines_with w ls = map le_id (filter (\<lambda>l. w \<in> set (keywords_of (le_message l))) ls)"

definition agg_ok :: "log_aggregator \<Rightarrow> bool" where
  "agg_ok a \<longleftrightarrow>
     1 \<le> la_max_entries a \<and> length (la_logs a) \<le> la_max_entries a \<and>
     sorted_wrt (<) (map le_id (la_logs a) @ [la_next_id a]) \<and>
     dm_wf (la_index a) \<and> (\<forall>w. dm_get (la_index a) w = some_unless_empty (lines_with w (la_logs a)))"

lemma agg_new_ok: "agg_ok (agg_new m)"
  by (simp add: agg_ok_def agg_new_def lines_with_def some_unless_empty_def)

lemma lines_with_snoc:
  "lines_with w (ls @ [l]) = lines_with w ls @ (if w \<in> set (keywords_of (le_message l)) then [le_id l] else [])"
  by (simp add: lines_with_def)

text \<open>Cutting the older half off the lines and the identifiers below the cut off the index agree.\<close>

lemma lines_with_drop:
  assumes "sorted_wrt (<) (map le_id ls)" "0 < k" "k \<le> length ls"
  shows "filter (\<lambda>i. Suc (le_id (ls ! (k - 1))) \<le> i) (lines_with w ls) = lines_with w (drop k ls)"
proof -
  have sorted: "le_id (ls ! i) < le_id (ls ! j)" if "i < j" "j < length ls" for i j
    using sorted_wrt_nth_less [OF assms(1)] that by simp
  have lo: "\<not> Suc (le_id (ls ! (k - 1))) \<le> le_id l" if "l \<in> set (take k ls)" for l
  proof -
    obtain i where "i < k" "l = ls ! i" using \<open>l \<in> _\<close> assms(3) by (auto simp: in_set_conv_nth)
    moreover from this have "i = k - 1 \<or> i < k - 1" "k - 1 < length ls" using assms(2,3) by auto
    ultimately show ?thesis using sorted [of i "k - 1"] by auto
  qed
  have hi: "Suc (le_id (ls ! (k - 1))) \<le> le_id l" if "l \<in> set (drop k ls)" for l
  proof -
    obtain i where "k \<le> i" "i < length ls" "l = ls ! i"
      using \<open>l \<in> _\<close> by (auto simp: in_set_conv_nth) (metis le_add1 less_diff_conv add.commute)
    moreover from this have "k - 1 < i" using assms(2) by simp
    ultimately show ?thesis using sorted [of "k - 1" i] by simp
  qed
  have "lines_with w ls = lines_with w (take k ls) @ lines_with w (drop k ls)"
    by (simp add: lines_with_def flip: map_append filter_append)
  moreover have "filter (\<lambda>i. Suc (le_id (ls ! (k - 1))) \<le> i) (lines_with w (take k ls)) = []"
    using lo by (auto simp: lines_with_def filter_empty_conv)
  moreover have "filter (\<lambda>i. Suc (le_id (ls ! (k - 1))) \<le> i) (lines_with w (drop k ls)) = lines_with w (drop k ls)"
    using hi by (intro filter_True) (auto simp: lines_with_def)
  ultimately show ?thesis by simp
qed

lemma push_line_ok:
  assumes sorted: "sorted_wrt (<) (map le_id (la_logs a) @ [le_id l])" and below: "le_id l < la_next_id a"
    and len: "1 \<le> la_max_entries a" "length (la_logs a) \<le> la_max_entries a"
    and wf: "dm_wf (la_index a)" and bound: "le_id l < u64_max"
    and idx: "\<And>w. dm_get (la_index a) w = some_unless_empty (lines_with w (la_logs a @ [l]))"
  shows "agg_ok (push_line l a)"
proof (cases "la_max_entries a < length (la_logs a @ [l])")
  case False
  with assms show ?thesis
    by (auto simp: push_line_def Let_def agg_ok_def sorted_wrt_append dest: less_trans)
next
  case True
  define ls k where "ls = la_logs a @ [l]" and "k = length ls div 2"
  have k: "0 < k" "k \<le> length ls" using True len(1) by (auto simp: k_def ls_def)
  have s: "sorted_wrt (<) (map le_id ls)" using sorted by (simp add: ls_def)
  have "le_id (ls ! (k - 1)) \<le> le_id l"
    using sorted_wrt_nth_less [OF s, of "k - 1" "length (la_logs a)"] k
    by (cases "k - 1 = length (la_logs a)") (auto simp: ls_def nth_append)
  then have cutoff: "wrap_add64 (le_id (ls ! (k - 1))) 1 = Suc (le_id (ls ! (k - 1)))"
    using bound by (simp add: wrap_add64_exact)
  have ids: "le_id x \<le> le_id l" if "x \<in> set ls" for x
    using that sorted by (auto simp: ls_def sorted_wrt_append)
  have "sorted_wrt (<) (map le_id (drop k ls) @ [la_next_id a])"
    using s below ids by (auto simp: sorted_wrt_append drop_map [symmetric] sorted_wrt_drop
        dest!: in_set_dropD ids)
  moreover have "length (drop k ls) \<le> la_max_entries a" using len by (simp add: ls_def k_def)
  moreover have "dm_get (prune_index (Suc (le_id (ls ! (k - 1)))) (la_index a)) w =
      some_unless_empty (lines_with w (drop k ls))" for w
    by (simp add: prune_get [OF wf] idx [folded ls_def] some_unless_empty_def flip: lines_with_drop [OF s k])
  ultimately show ?thesis
    using True len(1) prune_wf [OF wf]
    by (simp add: push_line_def Let_def agg_ok_def cutoff [simplified] flip: ls_def k_def)
qed

lemma track_source_ok [simp]: "agg_ok (track_source src now a) = agg_ok a"
  by (simp add: track_source_def Let_def agg_ok_def)

lemma next_id_ingest [simp]: "la_next_id (ingest now src level msg md a) = wrap_add64 (la_next_id a) 1"
  by (simp add: ingest_def Let_def track_source_def push_line_def)

lemma ingest_ok:
  assumes "agg_ok a" "la_next_id a < u64_max"
  shows "agg_ok (ingest now src level msg md a)"
proof -
  let ?i = "la_next_id a" and ?m = "sanitize_message msg"
  let ?l = "\<lparr>le_id = ?i, le_timestamp = now, le_source = src, le_level = level, le_message = ?m, le_metadata = md\<rparr>"
  let ?a = "a\<lparr>la_next_id := Suc ?i, la_index := fold (index_one ?i) (keywords_of ?m) (la_index a)\<rparr>"
  have d: "distinct (keywords_of ?m)" by (simp add: keywords_of_def index_words_distinct)
  have "agg_ok (push_line ?l ?a)"
  proof (rule push_line_ok)
    show "dm_get (la_index ?a) w = some_unless_empty (lines_with w (la_logs ?a @ [?l]))" for w
      using assms(1) by (simp add: agg_ok_def index_fold_get [OF d] dm_or_insert_def lines_with_snoc
          some_unless_empty_def split: option.split)
  qed (use assms in \<open>auto simp: agg_ok_def index_fold_wf\<close>)
  then show ?thesis
    using assms(2) by (simp add: ingest_def Let_def wrap_add64_exact)
qed

type_synonym log_input = "nat \<times> string \<times> log_level \<times> string \<times> (string \<times> string) list"

definition ingest_input :: "log_input \<Rightarrow> log_aggregator \<Rightarrow> log_aggregator" where
  "ingest_input = (\<lambda>(now, src, level, msg, md). ingest now src level msg md)"

lemma ingest_all_ok:
  assumes "length es \<le> u64_max"
  shows "agg_ok (fold ingest_input es (agg_new m)) \<and> la_next_id (fold ingest_input es (agg_new m)) = length es"
  using assms
proof (induction es rule: rev_induct)
  case Nil
  then show ?case by (simp add: agg_new_ok) (simp add: agg_new_def)
next
  case (snoc e es)
  then show ?case
    by (cases e) (simp add: ingest_input_def ingest_ok wrap_add64_exact)
qed

lemma max_entries_kept [simp]: "la_max_entries (ingest_input e a) = la_max_entries a"
  by (cases e) (simp add: ingest_input_def ingest_def Let_def track_source_def push_line_def)

lemma max_entries_run [simp]: "la_max_entries (fold ingest_input es a) = la_max_entries a"
  by (induction es arbitrary: a) simp_all

text \<open>
  The memory is bounded and the index exact. However many lines are collected, at most the
  configured number is kept (at least one), and the index has, for each keyword of the kept
  lines and for no other, the identifiers of the lines with that keyword: a line that is evicted
  leaves no trace in it. A line has at most 32 keywords.
\<close>

theorem log_index_exact:
  assumes "length es \<le> u64_max" "fold ingest_input es (agg_new m) = a"
  shows "length (la_logs a) \<le> max m 1"
    and "dm_get (la_index a) w = some_unless_empty (lines_with w (la_logs a))"
    and "length (keywords_of msg) \<le> 32"
proof -
  have ok: "agg_ok a" using ingest_all_ok [OF assms(1), of m] assms(2) by simp
  moreover have "la_max_entries a = max m 1" using assms(2) by (auto simp: agg_new_def)
  ultimately show "length (la_logs a) \<le> max m 1"
    "dm_get (la_index a) w = some_unless_empty (lines_with w (la_logs a))"
    by (simp_all add: agg_ok_def)
  show "length (keywords_of msg) \<le> 32"
    using index_words_bound [of "[]" "split_whitespace msg"] by (simp add: keywords_of_def max_words_per_log_def)
qed

section \<open>Messages and traces\<close>

text \<open>
  No line feed, no other control byte: what is stored cannot break a line or steer a terminal,
  for every text (the characters of a text of several bytes have no byte below 128).
\<close>

theorem stored_line_clean:
  assumes "\<forall>c \<in> set (utf8_chars msg). 1 < length c \<longrightarrow> list_all (\<lambda>b. 128 \<le> (of_char b :: nat)) c"
  shows "list_all (\<lambda>b. let n = of_char b :: nat in 32 \<le> n \<and> n \<noteq> 127) (sanitize_message msg)"
proof -
  let ?ok = "\<lambda>b. let n = of_char b :: nat in 32 \<le> n \<and> n \<noteq> 127"
  have one: "list_all ?ok (clean_char c)" if "c \<in> set (utf8_chars msg)" for c
  proof (cases "\<exists>b. c = [b]")
    case True
    then show ?thesis by (auto simp: clean_char_def control_char_def Let_def)
  next
    case False
    then have "c = [] \<or> 1 < length c" by (cases c) (auto simp: neq_Nil_conv)
    then have "list_all (\<lambda>b. 128 \<le> (of_char b :: nat)) c" using assms that by auto
    then have "list_all ?ok c" by (auto simp: list_all_iff Let_def)
    then show ?thesis by (auto simp: clean_char_def)
  qed
  then show ?thesis
    by (auto simp: sanitize_message_def list_all_iff dest!: in_set_takeD)
qed

text \<open>The traces are bounded, and a trace that was started is there.\<close>

lemma oldest_mem: "oldest m = Some k \<Longrightarrow> k \<in> fst ` set m"
  by (induction m rule: oldest.induct) (simp_all split: if_splits, blast+)

lemma oldest_None: "oldest m = None \<longleftrightarrow> m = []"
  by (induction m rule: oldest.induct) simp_all

theorem traces_bounded:
  assumes "length (tc_traces c) \<le> max (tc_max c) 1"
  shows "length (tc_traces (fst (start_trace now i c))) \<le> max (tc_max c) 1"
    and "get_trace i (fst (start_trace now i c)) =
      Some \<lparr>tr_id = i, tr_spans = [], tr_started_at = now, tr_total_ms = 0\<rparr>"
proof -
  have "length (dm_remove k (tc_traces c)) < length (tc_traces c)" if "oldest (tc_traces c) = Some k" for k
    using oldest_mem [OF that] dm_get_None_iff [of "tc_traces c" k] length_remove_less [of "tc_traces c" k]
    by blast
  then show "length (tc_traces (fst (start_trace now i c))) \<le> max (tc_max c) 1"
    using assms by (fastforce simp: start_trace_def Let_def length_insert oldest_None split: option.split)
  show "get_trace i (fst (start_trace now i c)) =
      Some \<lparr>tr_id = i, tr_spans = [], tr_started_at = now, tr_total_ms = 0\<rparr>"
    by (simp add: start_trace_def get_trace_def Let_def dm_get_insert)
qed

text \<open>The duration of a trace is the latest end of its spans.\<close>

lemma fold_max_snoc: "fold max (xs @ [x]) (b::real) = max (fold max xs b) x"
  by (simp add: max.commute)

theorem trace_duration_exact:
  assumes "get_trace i c = Some t" "tr_total_ms t = fold max (map (\<lambda>s. tsp_start_ms s + tsp_duration_ms s) (tr_spans t)) 0"
  shows "\<exists>t'. get_trace i (add_span i sp c) = Some t' \<and> tr_spans t' = tr_spans t @ [sp] \<and>
    tr_total_ms t' = max (tr_total_ms t) (tsp_start_ms sp + tsp_duration_ms sp)"
  using assms by (simp add: get_trace_def add_span_def dm_get_update Let_def max.commute)

end
