(* ===== verification/Config_Api.thy ===== *)
theory Config_Api
  imports Boot
begin

text \<open>
  src/src/admin/config_api.rs: reading and changing the configuration of the running gateway. A
  change goes to the shared configuration and, for most sections, to the component at once; the
  state is that of \<open>Boot\<close>. \<open>as_f64\<close>, which reads the text of a floating-point number off a
  JSON value, and \<open>show_f64\<close>, which prints one, are arguments.
\<close>

section \<open>Reading\<close>

abbreviation jnat :: "nat \<Rightarrow> json" where
  "jnat n \<equiv> JNum (int n)"

definition get_config :: "(string \<Rightarrow> json) \<Rightarrow> string \<Rightarrow> xira_config \<Rightarrow> json" where
  "get_config show_f64 version c = JObj
     [(''version'', JStr version),
      (''gateway'', JObj [(''host'', JStr (c_gateway_host (c_gateway c))), (''port'', jnat (c_gateway_port (c_gateway c))),
                         (''workers'', jnat (c_gateway_workers (c_gateway c)))]),
      (''rate_limit'', JObj [(''max_requests'', jnat (c_rate_limit_max_requests (c_rate_limit c))),
                            (''window_secs'', jnat (c_rate_limit_window_secs (c_rate_limit c)))]),
      (''cache'', JObj [(''enabled'', JBool (c_cache_enabled (c_cache c))),
                       (''max_entries'', jnat (c_cache_max_entries (c_cache c))),
                       (''ttl_secs'', jnat (c_cache_ttl_secs (c_cache c)))]),
      (''circuit_breaker'', JObj [(''failure_threshold'', jnat (c_cb_failure_threshold (c_circuit_breaker c))),
                                 (''reset_timeout_secs'', jnat (c_cb_reset_timeout_secs (c_circuit_breaker c))),
                                 (''half_open_max_requests'', jnat (c_cb_half_open_max_requests (c_circuit_breaker c)))]),
      (''retry'', JObj [(''max_retries'', jnat (c_retry_max_retries (c_retry c))),
                       (''delay_ms'', jnat (c_retry_delay_ms (c_retry c))),
                       (''backoff_multiplier'', show_f64 (c_retry_backoff_multiplier (c_retry c)))]),
      (''health'', JObj [(''interval_secs'', jnat (c_health_interval_secs (c_health c))),
                        (''timeout_secs'', jnat (c_health_timeout_secs (c_health c)))]),
      (''jwt'', JObj [(''enabled'', JBool (c_jwt_enabled (c_jwt c))), (''algorithm'', JStr (c_jwt_algorithm (c_jwt c)))]),
      (''ip_filter'', JObj [(''enabled'', JBool (c_ip_filter_enabled (c_ip_filter c))),
                           (''whitelist_count'', jnat (length (c_ip_filter_whitelist (c_ip_filter c)))),
                           (''blacklist_count'', jnat (length (c_ip_filter_blacklist (c_ip_filter c))))]),
      (''plugins'', JObj [(''enabled'', JBool (c_plugin_enabled (c_plugins c))),
                         (''directory'', JStr (c_plugin_directory (c_plugins c)))]),
      (''alerting'', JObj [(''enabled'', JBool (c_alerting_enabled (c_alerting c))),
                          (''on_service_down'', JBool (c_alerting_on_service_down (c_alerting c))),
                          (''on_service_up'', JBool (c_alerting_on_service_up (c_alerting c)))]),
      (''logging'', JObj [(''level'', JStr (c_logging_level (c_logging c))),
                         (''file_enabled'', JBool (c_logging_file_enabled (c_logging c)))])]"

section \<open>Changing\<close>

text \<open>\<open>as_u64\<close>, and the casts \<open>as u32\<close>.\<close>

fun as_u64 :: "json \<Rightarrow> nat option" where
  "as_u64 (JNum n) = (if 0 \<le> n \<and> n \<le> int u64_max then Some (nat n) else None)"
| "as_u64 _ = None"

definition as_u32 :: "nat \<Rightarrow> nat" where
  "as_u32 n = n mod 2 ^ 32"

text \<open>A field of the request, when it is there and has the right type.\<close>

definition set_from :: "json \<Rightarrow> string \<Rightarrow> (json \<Rightarrow> 'a option) \<Rightarrow> ('a \<Rightarrow> 'b \<Rightarrow> 'b) \<Rightarrow> 'b \<Rightarrow> 'b" where
  "set_from values key get upd c =
     (case Option.bind (json_get key values) get of Some x \<Rightarrow> upd x c | None \<Rightarrow> c)"

text \<open>Requests read retry and cache settings from the shared configuration.\<close>

definition share :: "'k boot_env \<Rightarrow> xira_config \<Rightarrow> ('c, 'k) app_state \<Rightarrow> ('c, 'k) app_state" where
  "share env c s =
     s\<lparr>ap_shared := c, ap_gateway := (ap_gateway s)\<lparr>gw_config := gw_config_of (be_scale env) c\<rparr>\<rparr>"

definition put_rate_limit :: "'k boot_env \<Rightarrow> json \<Rightarrow> ('c, 'k) app_state \<Rightarrow> ('c, 'k) app_state" where
  "put_rate_limit env values s =
     (let rl = set_from values ''window_secs'' as_u64 (\<lambda>n c. c\<lparr>c_rate_limit_window_secs := n\<rparr>)
                 (set_from values ''max_requests'' as_u64 (\<lambda>n c. c\<lparr>c_rate_limit_max_requests := as_u32 n\<rparr>)
                   (c_rate_limit (ap_shared s)));
          s1 = share env ((ap_shared s)\<lparr>c_rate_limit := rl\<rparr>) s
      in s1\<lparr>ap_limiter := rl_set_limits (c_rate_limit_max_requests rl) (c_rate_limit_window_secs rl) (ap_limiter s1)\<rparr>)"

definition put_cache ::
  "('c, cached_response) lru_ops \<Rightarrow> 'k boot_env \<Rightarrow> json \<Rightarrow> ('c, 'k) app_state \<Rightarrow> ('c, 'k) app_state \<times> string list" where
  "put_cache L env values s =
     (let cc = set_from values ''max_entries'' as_u64 (\<lambda>n c. c\<lparr>c_cache_max_entries := n\<rparr>)
                 (set_from values ''ttl_secs'' as_u64 (\<lambda>n c. c\<lparr>c_cache_ttl_secs := n\<rparr>)
                   (set_from values ''enabled'' as_bool (\<lambda>b c. c\<lparr>c_cache_enabled := b\<rparr>) (c_cache (ap_shared s))));
          s1 = share env ((ap_shared s)\<lparr>c_cache := cc\<rparr>) s;
          g = ap_gateway s1;
          cache = rc_set_ttl_secs (c_cache_ttl_secs cc) (rc_set_enabled L (c_cache_enabled cc) (gw_cache g))
      in (s1\<lparr>ap_gateway := g\<lparr>gw_cache := cache\<rparr>\<rparr>,
          set_from values ''max_entries'' as_u64 (\<lambda>_ needs. needs @ [''cache.max_entries'']) []))"

definition put_circuit_breaker :: "'k boot_env \<Rightarrow> json \<Rightarrow> ('c, 'k) app_state \<Rightarrow> ('c, 'k) app_state" where
  "put_circuit_breaker env values s =
     (let cb = set_from values ''half_open_max_requests'' as_u64 (\<lambda>n c. c\<lparr>c_cb_half_open_max_requests := as_u32 n\<rparr>)
                 (set_from values ''reset_timeout_secs'' as_u64 (\<lambda>n c. c\<lparr>c_cb_reset_timeout_secs := n\<rparr>)
                   (set_from values ''failure_threshold'' as_u64 (\<lambda>n c. c\<lparr>c_cb_failure_threshold := as_u32 n\<rparr>)
                     (c_circuit_breaker (ap_shared s))));
          s1 = share env ((ap_shared s)\<lparr>c_circuit_breaker := cb\<rparr>) s;
          g = ap_gateway s1
      in s1\<lparr>ap_gateway := g\<lparr>gw_cb := cb_update_config (c_cb_failure_threshold cb) (c_cb_reset_timeout_secs cb)
                                    (c_cb_half_open_max_requests cb) (gw_cb g)\<rparr>\<rparr>)"

definition put_retry :: "(json \<Rightarrow> string option) \<Rightarrow> 'k boot_env \<Rightarrow> json \<Rightarrow> ('c, 'k) app_state \<Rightarrow> ('c, 'k) app_state" where
  "put_retry as_f64 env values s =
     (let r = set_from values ''backoff_multiplier'' as_f64 (\<lambda>x c. c\<lparr>c_retry_backoff_multiplier := x\<rparr>)
                (set_from values ''delay_ms'' as_u64 (\<lambda>n c. c\<lparr>c_retry_delay_ms := n\<rparr>)
                  (set_from values ''max_retries'' as_u64 (\<lambda>n c. c\<lparr>c_retry_max_retries := as_u32 n\<rparr>)
                    (c_retry (ap_shared s))))
      in share env ((ap_shared s)\<lparr>c_retry := r\<rparr>) s)"

definition put_alerting :: "'k boot_env \<Rightarrow> json \<Rightarrow> ('c, 'k) app_state \<Rightarrow> ('c, 'k) app_state" where
  "put_alerting env values s =
     (let al = set_from values ''webhook_url'' Some (\<lambda>v c. c\<lparr>c_alerting_webhook_url := as_text v\<rparr>)
                 (set_from values ''on_service_up'' as_bool (\<lambda>b c. c\<lparr>c_alerting_on_service_up := b\<rparr>)
                   (set_from values ''on_service_down'' as_bool (\<lambda>b c. c\<lparr>c_alerting_on_service_down := b\<rparr>)
                     (set_from values ''enabled'' as_bool (\<lambda>b c. c\<lparr>c_alerting_enabled := b\<rparr>)
                       (c_alerting (ap_shared s)))));
          s1 = share env ((ap_shared s)\<lparr>c_alerting := al\<rparr>) s
      in s1\<lparr>ap_alerts := alert_update_config (c_alerting_webhook_url al) (c_alerting_enabled al)
                           (c_alerting_on_service_down al) (c_alerting_on_service_up al) (ap_alerts s1)\<rparr>)"

text \<open>The answer: the fields that need a restart, or that the section is unknown.\<close>

datatype put_answer = UnknownSection string | SectionUpdated string "string list"

definition update_config ::
  "('c, cached_response) lru_ops \<Rightarrow> (json \<Rightarrow> string option) \<Rightarrow> 'k boot_env \<Rightarrow> string \<Rightarrow> json \<Rightarrow> ('c, 'k) app_state \<Rightarrow>
     ('c, 'k) app_state \<times> put_answer" where
  "update_config L as_f64 env part values s =
     (if part = ''rate_limit'' then (put_rate_limit env values s, SectionUpdated part [])
      else if part = ''cache''
      then (case put_cache L env values s of (s', needs) \<Rightarrow> (s', SectionUpdated part needs))
      else if part = ''circuit_breaker'' then (put_circuit_breaker env values s, SectionUpdated part [])
      else if part = ''retry'' then (put_retry as_f64 env values s, SectionUpdated part [])
      else if part = ''alerting'' then (put_alerting env values s, SectionUpdated part [])
      else (s, UnknownSection part))"

section \<open>The components follow the configuration\<close>





lemmas put_defs = put_rate_limit_def put_cache_def put_circuit_breaker_def put_retry_def put_alerting_def


lemma rc_clear_flags [simp]:
  "rc_enabled (rc_set_enabled L b rc) = b" "rc_ttl_secs (rc_set_enabled L b rc) = rc_ttl_secs rc"
  by (simp_all add: rc_set_enabled_def rc_clear_def Let_def)









text \<open>A change touches nothing but its section and its component; an unknown section nothing.\<close>

theorem put_config_exact:
  assumes "update_config L f env part values s = (s', answer)"
  shows "(case answer of UnknownSection p \<Rightarrow> s' = s | SectionUpdated p _ \<Rightarrow> p = part) \<and>
    (answer = UnknownSection part \<longleftrightarrow>
       part \<notin> {''rate_limit'', ''cache'', ''circuit_breaker'', ''retry'', ''alerting''}) \<and>
    ap_jwt s' = ap_jwt s \<and> ap_api_key s' = ap_api_key s \<and> ap_ip_filter s' = ap_ip_filter s \<and>
    ap_sessions s' = ap_sessions s \<and> gw_waf (ap_gateway s') = gw_waf (ap_gateway s) \<and>
    gw_registry (ap_gateway s') = gw_registry (ap_gateway s) \<and>
    (part \<noteq> ''rate_limit'' \<longrightarrow> ap_limiter s' = ap_limiter s) \<and> (part \<noteq> ''alerting'' \<longrightarrow> ap_alerts s' = ap_alerts s) \<and>
    (part \<noteq> ''cache'' \<longrightarrow> gw_cache (ap_gateway s') = gw_cache (ap_gateway s)) \<and>
    (part \<noteq> ''circuit_breaker'' \<longrightarrow> gw_cb (ap_gateway s') = gw_cb (ap_gateway s))"
  using assms by (auto simp: update_config_def put_defs Let_def share_def split: if_splits)

text \<open>
  A change is not validated. The limit is cut to 32 bits first: 2 to the 32 is stored and shown as
  zero, which a start would refuse as blocking every request, while the limiter lets one through.
\<close>

theorem put_unvalidated:
  assumes "s' = fst (update_config L f env ''rate_limit'' (JObj [(''max_requests'', JNum 4294967296)]) s)"
  shows "RateLimitBlocksAll \<in> set (rep_errors (validate file_exists rsa (ap_shared s')))"
    and "fst (rl_snapshot (ap_limiter s')) = 1"
  unfolding assms
  by (simp_all add: update_config_def put_rate_limit_def Let_def share_def set_from_def as_u32_def u64_max_def
      validate_def rl_snapshot_def rl_set_limits_def json_get_def)

text \<open>
  Reading the configuration tells no secret: the answer is the same whatever the administration
  key, the JWT secret, the webhook, and the settings of OAuth 2, Redis, the bus and the identity
  subsystem are.
\<close>

theorem config_view_hides_secrets:
  "get_config show_f64 version
     (c\<lparr>c_admin := admin', c_jwt := (c_jwt c)\<lparr>c_jwt_secret := secret\<rparr>,
        c_alerting := (c_alerting c)\<lparr>c_alerting_webhook_url := webhook\<rparr>, c_oauth2 := oauth, c_redis := redis,
        c_bus := bus, c_identity := ident\<rparr>) = get_config show_f64 version c"
  by (simp add: get_config_def)


end
