(* ===== verification/Admin_Api.thy ===== *)
theory Admin_Api
  imports Config_Api Cron Workflows Event_Bus Health_Monitor Deployment Db_Gateway Data_Pipeline Discovery
    Oauth2 Log_Aggregator Service_Table
begin

text \<open>
  The administration interface under \<open>/xira\<close>: the routes of src/src/admin/mod.rs, the handlers of
  src/src/admin/handlers.rs and those of src/src/admin/v2_handlers.rs that \<open>Identity_Api\<close> does not
  have. A handler gets the body as JSON and reads it the way serde reads the struct of its
  request: a missing field takes its default or fails, a field of the wrong type fails, and the
  extractor answers 400. A reply is a status with the values of its body; message texts are left
  out. The middlewares around the scope are those of \<open>Boot\<close>.
\<close>

section \<open>Requests\<close>

definition required :: "string \<Rightarrow> (json \<Rightarrow> 'a option) \<Rightarrow> json \<Rightarrow> 'a option" where
  "required key get j = Option.bind (json_get key j) get"

definition defaulted :: "string \<Rightarrow> (json \<Rightarrow> 'a option) \<Rightarrow> 'a \<Rightarrow> json \<Rightarrow> 'a option" where
  "defaulted key get d j = (case json_get key j of None \<Rightarrow> Some d | Some v \<Rightarrow> get v)"

fun as_list :: "(json \<Rightarrow> 'a option) \<Rightarrow> json \<Rightarrow> 'a list option" where
  "as_list get (JArr vs) = those (map get vs)"
| "as_list get _ = None"

text \<open>An \<open>Option\<close>: null is none.\<close>

fun as_optional :: "(json \<Rightarrow> 'a option) \<Rightarrow> json \<Rightarrow> 'a option option" where
  "as_optional get JNull = Some None"
| "as_optional get v = map_option Some (get v)"

definition as_uint :: "nat \<Rightarrow> json \<Rightarrow> nat option" where
  "as_uint bound j = Option.bind (as_u64 j) (\<lambda>n. if n \<le> bound then Some n else None)"

record admin_env =
  ad_net :: net_env
  ad_now :: nat
  ad_uuid :: uuid
  ad_fresh_id :: string
  ad_parse_uuid :: "string \<Rightarrow> uuid option"
  ad_http_get :: "string \<Rightarrow> string + nat"
  ad_regex_error :: "string \<Rightarrow> string option"
  ad_cron_env :: cron_env
  ad_sha :: "string \<Rightarrow> string"
  ad_introspect :: "string \<Rightarrow> string \<Rightarrow> gateway_answer"
  ad_transform :: "json \<Rightarrow> transform_config option"
  ad_f64 :: "json \<Rightarrow> real option"

definition read_register_request :: "admin_env \<Rightarrow> json \<Rightarrow> register_request option" where
  "read_register_request env j = do {
     name \<leftarrow> required ''name'' as_text j;
     pref \<leftarrow> required ''prefix'' as_text j;
     upstream \<leftarrow> required ''upstream'' as_text j;
     health \<leftarrow> defaulted ''health_endpoint'' as_text ''/health'' j;
     upstreams \<leftarrow> defaulted ''upstreams'' (as_list as_text) [] j;
     lb \<leftarrow> defaulted ''load_balance'' (as_optional as_text) None j;
     version \<leftarrow> defaulted ''version'' (as_optional as_text) None j;
     schema \<leftarrow> defaulted ''validation_schema'' (as_optional as_text) None j;
     white \<leftarrow> defaulted ''ip_whitelist'' (as_list as_text) [] j;
     black \<leftarrow> defaulted ''ip_blacklist'' (as_list as_text) [] j;
     tr \<leftarrow> defaulted ''transform'' (as_optional (ad_transform env)) None j;
     Some \<lparr>req_name = name, req_prefix = pref, req_upstream = upstream, req_health = health,
           req_upstreams = upstreams, req_load_balance = lb, req_version = version, req_schema = schema,
           req_whitelist = white, req_blacklist = black, req_transform = tr\<rparr> }"

definition read_cron_job :: "json \<Rightarrow> (string \<times> string \<times> string \<times> nat) option" where
  "read_cron_job j = do {
     name \<leftarrow> defaulted ''name'' as_text ''unnamed'' j;
     url \<leftarrow> required ''url'' as_text j;
     verb \<leftarrow> defaulted ''method'' as_text ''GET'' j;
     secs \<leftarrow> defaulted ''interval_secs'' as_u64 60 j;
     Some (name, url, verb, secs) }"

definition read_event :: "json \<Rightarrow> (string \<times> string \<times> json) option" where
  "read_event j = do {
     topic \<leftarrow> defaulted ''topic'' as_text ''default'' j;
     source \<leftarrow> defaulted ''source'' as_text ''api'' j;
     data \<leftarrow> defaulted ''data'' Some JNull j;
     Some (topic, source, data) }"

definition read_incident :: "json \<Rightarrow> (string \<times> string \<times> string list) option" where
  "read_incident j = do {
     title \<leftarrow> defaulted ''title'' as_text ''Untitled'' j;
     sev \<leftarrow> defaulted ''severity'' as_text ''Minor'' j;
     names \<leftarrow> defaulted ''services'' (as_list as_text) [] j;
     Some (title, sev, names) }"

definition read_incident_update :: "json \<Rightarrow> (string \<times> string \<times> string option) option" where
  "read_incident_update j = do {
     msg \<leftarrow> defaulted ''message'' as_text '''' j;
     author \<leftarrow> defaulted ''author'' as_text ''admin'' j;
     st \<leftarrow> defaulted ''status'' (as_optional as_text) None j;
     Some (msg, author, st) }"

definition read_flag :: "json \<Rightarrow> (string \<times> string \<times> bool \<times> nat) option" where
  "read_flag j = do {
     name \<leftarrow> required ''name'' as_text j;
     descr \<leftarrow> defaulted ''description'' as_text '''' j;
     on \<leftarrow> defaulted ''enabled'' as_bool False j;
     pct \<leftarrow> defaulted ''percentage'' (as_uint u32_max) 100 j;
     Some (name, descr, on, pct) }"

definition read_release :: "admin_env \<Rightarrow> json \<Rightarrow> (string \<times> string \<times> string \<times> real) option" where
  "read_release env j = do {
     service \<leftarrow> required ''service'' as_text j;
     blue \<leftarrow> required ''blue'' as_text j;
     green \<leftarrow> required ''green'' as_text j;
     threshold \<leftarrow> defaulted ''error_threshold'' (ad_f64 env) (1 / 10) j;
     Some (service, blue, green, threshold) }"

definition read_watcher :: "json \<Rightarrow> (string \<times> string) option" where
  "read_watcher j = do {
     endpoint \<leftarrow> required ''endpoint'' as_text j;
     webhook \<leftarrow> required ''webhook_url'' as_text j;
     Some (endpoint, webhook) }"

definition read_waf_rule :: "json \<Rightarrow> (string \<times> string) option" where
  "read_waf_rule j = do {
     pattern \<leftarrow> required ''pattern'' as_text j;
     label \<leftarrow> defaulted ''label'' as_text '''' j;
     Some (pattern, label) }"

definition read_mesh :: "json \<Rightarrow> (string \<times> nat \<times> bool \<times> string list) option" where
  "read_mesh j = do {
     name \<leftarrow> required ''name'' as_text j;
     port \<leftarrow> required ''sidecar_port'' (as_uint 65535) j;
     mtls \<leftarrow> defaulted ''mtls'' as_bool False j;
     tags \<leftarrow> defaulted ''tags'' (as_list as_text) [] j;
     Some (name, port, mtls, tags) }"

section \<open>State and replies\<close>

record 'c admin_state =
  adm_gateway :: "'c gateway"
  adm_cron :: cron
  adm_events :: "json event_bus"
  adm_flows :: "workflow list"
  adm_logs :: log_aggregator
  adm_uptime :: uptime_page
  adm_incidents :: "incident list"
  adm_dbs :: db_proxy
  adm_queries :: query_firewall
  adm_flags :: flag_mgr
  adm_releases :: release_mgr
  adm_watchers :: "cdc_watcher list"
  adm_analytics :: analytics
  adm_oauth :: oauth_gateway
  adm_mesh :: service_mesh
  adm_sla :: sla_monitor

datatype admin_body =
    BError | BDone
  | BService service_entry
  | BHealth string "nat option"
  | BId string
  | BRule nat string
  | BFlag string bool
  | BColor string
  | BActive string json
  | BInactive string

type_synonym 'c admin_result = "'c admin_state \<times> nat \<times> admin_body"

abbreviation adm_registry :: "'c admin_state \<Rightarrow> registry" where
  "adm_registry s \<equiv> gw_registry (adm_gateway s)"

definition with_registry :: "registry \<Rightarrow> 'c admin_state \<Rightarrow> 'c admin_state" where
  "with_registry r s = s\<lparr>adm_gateway := (adm_gateway s)\<lparr>gw_registry := r\<rparr>\<rparr>"

definition with_waf :: "waf \<Rightarrow> 'c admin_state \<Rightarrow> 'c admin_state" where
  "with_waf w s = s\<lparr>adm_gateway := (adm_gateway s)\<lparr>gw_waf := w\<rparr>\<rparr>"

section \<open>Services\<close>

definition register_service :: "admin_env \<Rightarrow> register_request \<Rightarrow> 'c admin_state \<Rightarrow> 'c admin_result" where
  "register_service env req s =
     (if req_name req = [] \<or> req_prefix req = [] \<or> req_upstream req = [] then (s, 400, BError)
      else case validate_upstream_url (ad_net env) (req_upstream req) of
             Inl e \<Rightarrow> (s, 400, BError)
           | Inr _ \<Rightarrow> (case register_advanced (ad_uuid env) (ad_now env) req (adm_registry s) of
                        (r, e) \<Rightarrow> (with_registry r s, 201, BService e)))"

definition unregister_service :: "admin_env \<Rightarrow> string \<Rightarrow> 'c admin_state \<Rightarrow> 'c admin_result" where
  "unregister_service env id_text s =
     (case ad_parse_uuid env id_text of
        None \<Rightarrow> (s, 400, BError)
      | Some i \<Rightarrow> (case unregister i (adm_registry s) of
                    (r, Some e) \<Rightarrow> (with_registry r s, 200, BService e)
                  | (r, None) \<Rightarrow> (with_registry r s, 404, BError)))"

definition check_service_health :: "admin_env \<Rightarrow> string \<Rightarrow> 'c admin_state \<Rightarrow> 'c admin_result" where
  "check_service_health env id_text s =
     (case ad_parse_uuid env id_text of
        None \<Rightarrow> (s, 400, BError)
      | Some i \<Rightarrow>
          (case find (\<lambda>e. svc_id e = i) (list_all_services (adm_registry s)) of
             None \<Rightarrow> (s, 404, BError)
           | Some e \<Rightarrow>
               (let mark = (\<lambda>st. with_registry (update_status (ad_now env) i st (adm_registry s)) s)
                in case ad_http_get env (svc_upstream e @ health_endpoint e) of
                     Inr status \<Rightarrow> if is_success status then (mark Up, 200, BHealth ''UP'' None)
                                   else (mark Down, 200, BHealth ''DOWN'' (Some status))
                   | Inl _ \<Rightarrow> (mark Down, 200, BHealth ''DOWN'' None))))"

record stats_view =
  sv_total :: nat
  sv_up :: nat
  sv_down :: nat
  sv_unknown :: nat
  sv_requests :: nat
  sv_uptime :: nat
  sv_db :: "(nat \<times> real \<times> nat) option"

definition stats_response :: "nat \<Rightarrow> service_db option \<Rightarrow> 'c admin_state \<Rightarrow> stats_view" where
  "stats_response uptime db s =
     \<lparr>sv_total = reg_count (adm_registry s), sv_up = count_by_status Up (adm_registry s),
      sv_down = count_by_status Down (adm_registry s), sv_unknown = count_by_status Unknown (adm_registry s),
      sv_requests = total_requests (adm_registry s), sv_uptime = uptime, sv_db = map_option get_stats db\<rparr>"

definition list_services :: "'c admin_state \<Rightarrow> nat \<times> service_entry list" where
  "list_services s = (let es = list_all_services (adm_registry s) in (length es, es))"

definition get_events :: "service_db option \<Rightarrow> event_row list" where
  "get_events db = (case db of Some d \<Rightarrow> get_recent_events 100 d | None \<Rightarrow> [])"

definition get_logs :: "service_db option \<Rightarrow> log_row list" where
  "get_logs db = (case db of Some d \<Rightarrow> get_recent_logs 100 d | None \<Rightarrow> [])"

definition clear_cache :: "('c, cached_response) lru_ops \<Rightarrow> 'c admin_state \<Rightarrow> 'c admin_result" where
  "clear_cache L s =
     (s\<lparr>adm_gateway := (adm_gateway s)\<lparr>gw_cache := rc_clear L (gw_cache (adm_gateway s))\<rparr>\<rparr>, 200, BDone)"

definition get_circuit_breakers :: "instant \<Rightarrow> 'c admin_state \<Rightarrow> (uuid \<times> string \<times> nat \<times> nat) list" where
  "get_circuit_breakers now s = cb_report now (gw_cb (adm_gateway s))"

definition get_plugins :: "'c admin_state \<Rightarrow> string list" where
  "get_plugins s = list_plugins (gw_plugins (adm_gateway s))"

section \<open>Automation\<close>

definition create_cron_job ::
  "admin_env \<Rightarrow> string \<times> string \<times> string \<times> nat \<Rightarrow> 'c admin_state \<Rightarrow> 'c admin_result" where
  "create_cron_job env = (\<lambda>(name, url, verb, secs) s.
     case validate_upstream_url (ad_net env) url of
       Inl e \<Rightarrow> (s, 400, BError)
     | Inr _ \<Rightarrow>
         (case add_job (ad_cron_env env) (ad_now env) (ad_fresh_id env) name (EverySeconds secs) url verb (adm_cron s) of
            (c, i) \<Rightarrow> (s\<lparr>adm_cron := c\<rparr>, 201, BId i)))"

definition delete_cron_job :: "string \<Rightarrow> 'c admin_state \<Rightarrow> 'c admin_result" where
  "delete_cron_job i s =
     (case remove_job i (adm_cron s) of
        (c, True) \<Rightarrow> (s\<lparr>adm_cron := c\<rparr>, 200, BDone)
      | (c, False) \<Rightarrow> (s\<lparr>adm_cron := c\<rparr>, 404, BError))"

definition list_cron_jobs :: "'c admin_state \<Rightarrow> cron_job list \<times> nat" where
  "list_cron_jobs s = (cron_jobs (adm_cron s), length (cron_jobs (adm_cron s)))"

definition list_workflows :: "'c admin_state \<Rightarrow> workflow list \<times> nat" where
  "list_workflows s = (adm_flows s, length (adm_flows s))"

definition publish_event :: "admin_env \<Rightarrow> string \<times> string \<times> json \<Rightarrow> 'c admin_state \<Rightarrow> 'c admin_result" where
  "publish_event env = (\<lambda>(topic, source, data) s.
     case eb_publish (ad_fresh_id env) (ad_now env) topic source data (adm_events s) of
       (b, i) \<Rightarrow> (s\<lparr>adm_events := b\<rparr>, 201, BId i))"

definition list_events :: "'c admin_state \<Rightarrow> json bus_entry list" where
  "list_events s = recent_events 100 (adm_events s)"

section \<open>Observability\<close>

definition query_limit :: "nat \<Rightarrow> (string, string) dashmap \<Rightarrow> nat" where
  "query_limit d q = (case Option.bind (dm_get q ''limit'') (parse_uint u64_max) of Some n \<Rightarrow> n | None \<Rightarrow> d)"

definition level_of_text :: "string \<Rightarrow> log_level" where
  "level_of_text t =
     (if t = ''Error'' then LvError else if t = ''Warn'' then LvWarn else if t = ''Info'' then LvInfo
      else if t = ''Debug'' then LvDebug else LvInfo)"

definition search_logs_call :: "(string, string) dashmap \<Rightarrow> 'c admin_state \<Rightarrow> log_entry list \<times> log_stats" where
  "search_logs_call q s =
     (let limit = query_limit 50 q; a = adm_logs s in
      (case dm_get q ''q'' of
         Some words \<Rightarrow> search_logs words limit a
       | None \<Rightarrow> (case dm_get q ''level'' of
                   Some l \<Rightarrow> by_level (level_of_text l) limit a
                 | None \<Rightarrow> recent_logs limit a),
       agg_stats a))"

definition get_uptime :: "'c admin_state \<Rightarrow> bool \<times> string \<times> (string \<times> uptime_service) list" where
  "get_uptime s =
     (all_operational (adm_uptime s), up_message (adm_uptime s), up_services (adm_uptime s))"

definition list_incidents :: "'c admin_state \<Rightarrow> incident list \<times> incident list" where
  "list_incidents s = (incidents_active (adm_incidents s), incidents_list (adm_incidents s))"

definition severity_of_text :: "string \<Rightarrow> severity" where
  "severity_of_text t =
     (if t = ''Critical'' then Critical else if t = ''Major'' then Major else if t = ''Info'' then Info else Minor)"

definition create_incident ::
  "admin_env \<Rightarrow> string \<times> string \<times> string list \<Rightarrow> 'c admin_state \<Rightarrow> 'c admin_result" where
  "create_incident env = (\<lambda>(title, sev, names) s.
     case incident_create (ad_fresh_id env) (ad_now env) title (severity_of_text sev) names (adm_incidents s) of
       (xs, i) \<Rightarrow> (s\<lparr>adm_incidents := xs\<rparr>, 201, BId i))"

definition status_of_text :: "string \<Rightarrow> incident_status" where
  "status_of_text t =
     (if t = ''Identified'' then Identified else if t = ''Monitoring'' then Monitoring
      else if t = ''Resolved'' then Resolved else Investigating)"

definition update_incident ::
  "admin_env \<Rightarrow> string \<Rightarrow> string \<times> string \<times> string option \<Rightarrow> 'c admin_state \<Rightarrow> 'c admin_result" where
  "update_incident env i = (\<lambda>(msg, author, st) s.
     let xs = (case st of Some t \<Rightarrow> fst (incident_update_status (ad_now env) i (status_of_text t) (adm_incidents s))
               | None \<Rightarrow> adm_incidents s);
         ys = (if msg \<noteq> [] then fst (incident_add_update (ad_now env) i msg author xs) else xs)
     in (s\<lparr>adm_incidents := ys\<rparr>, 200, BDone))"

section \<open>Databases, deployment and pipeline\<close>

definition list_db_connections :: "'c admin_state \<Rightarrow> db_connection list \<times> nat" where
  "list_db_connections s = (db_list (adm_dbs s), db_count (adm_dbs s))"

definition get_slow_query_view :: "'c admin_state \<Rightarrow> slow_query list \<times> query_stats" where
  "get_slow_query_view s = (get_slow_queries 50 (adm_queries s), fw_stats (adm_queries s))"

definition get_firewall_stats :: "'c admin_state \<Rightarrow> query_stats" where
  "get_firewall_stats s = fw_stats (adm_queries s)"

definition list_flags :: "'c admin_state \<Rightarrow> feature_flag list" where
  "list_flags s = flag_list (adm_flags s)"

definition create_flag :: "admin_env \<Rightarrow> string \<times> string \<times> bool \<times> nat \<Rightarrow> 'c admin_state \<Rightarrow> 'c admin_result" where
  "create_flag env = (\<lambda>(name, descr, on, pct) s.
     (s\<lparr>adm_flags := flag_create (ad_now env) name descr on pct (adm_flags s)\<rparr>, 201, BId name))"

definition toggle_flag :: "string \<Rightarrow> 'c admin_state \<Rightarrow> 'c admin_result" where
  "toggle_flag name s =
     (case flag_toggle name (adm_flags s) of
        (m, Some on) \<Rightarrow> (s\<lparr>adm_flags := m\<rparr>, 200, BFlag name on)
      | (m, None) \<Rightarrow> (s\<lparr>adm_flags := m\<rparr>, 404, BError))"

definition list_releases :: "'c admin_state \<Rightarrow> release list" where
  "list_releases s = release_list (adm_releases s)"

definition create_release ::
  "admin_env \<Rightarrow> string \<times> string \<times> string \<times> real \<Rightarrow> 'c admin_state \<Rightarrow> 'c admin_result" where
  "create_release env = (\<lambda>(service, blue, green, threshold) s.
     case release_create (ad_now env) (ad_fresh_id env) service blue green BlueGreen threshold (adm_releases s) of
       (m, i) \<Rightarrow> (s\<lparr>adm_releases := m\<rparr>, 201, BId i))"

definition switch_release :: "admin_env \<Rightarrow> string \<Rightarrow> 'c admin_state \<Rightarrow> 'c admin_result" where
  "switch_release env i s =
     (case release_switch (ad_now env) i (adm_releases s) of
        (m, Some color) \<Rightarrow> (s\<lparr>adm_releases := m\<rparr>, 200, BColor color)
      | (m, None) \<Rightarrow> (s\<lparr>adm_releases := m\<rparr>, 404, BError))"

definition list_watchers :: "'c admin_state \<Rightarrow> cdc_watcher list" where
  "list_watchers s = adm_watchers s"

definition create_watcher :: "admin_env \<Rightarrow> string \<times> string \<Rightarrow> 'c admin_state \<Rightarrow> 'c admin_result" where
  "create_watcher env = (\<lambda>(endpoint, webhook) s.
     case add_watcher (ad_fresh_id env) endpoint webhook (adm_watchers s) of
       (ws, i) \<Rightarrow> (s\<lparr>adm_watchers := ws\<rparr>, 201, BId i))"

definition get_analytics :: "'c admin_state \<Rightarrow> analytics_event list \<times> nat" where
  "get_analytics s = (let es = analytics_export (adm_analytics s) in (es, length es))"

section \<open>Security, metrics, OAuth 2 and mesh\<close>

definition list_waf_rules :: "'c admin_state \<Rightarrow> custom_rule list \<times> nat" where
  "list_waf_rules s = (let rs = waf_custom (gw_waf (adm_gateway s)) in (rs, length rs))"

definition add_waf_rule :: "admin_env \<Rightarrow> string \<times> string \<Rightarrow> 'c admin_state \<Rightarrow> 'c admin_result" where
  "add_waf_rule env = (\<lambda>(pattern, label) s.
     case add_custom_pattern (ad_regex_error env) (ad_now env) pattern label (gw_waf (adm_gateway s)) of
       (w, Inr i) \<Rightarrow> (with_waf w s, 201, BRule i label)
     | (w, Inl e) \<Rightarrow> (with_waf w s, 400, BError))"

text \<open>A path segment that is no number is answered by the extractor.\<close>

definition delete_waf_rule :: "string \<Rightarrow> 'c admin_state \<Rightarrow> 'c admin_result" where
  "delete_waf_rule id_text s =
     (case parse_uint u64_max id_text of
        None \<Rightarrow> (s, 404, BError)
      | Some i \<Rightarrow> (case remove_custom_pattern i (gw_waf (adm_gateway s)) of
                    (w, True) \<Rightarrow> (with_waf w s, 200, BRule i [])
                  | (w, False) \<Rightarrow> (with_waf w s, 404, BError)))"

definition get_waf_stats :: "'c admin_state \<Rightarrow> bool \<times> waf_mode" where
  "get_waf_stats s = (waf_enabled (gw_waf (adm_gateway s)), waf_mode (gw_waf (adm_gateway s)))"

definition get_bot_stats :: "'c admin_state \<Rightarrow> nat \<times> nat \<times> nat" where
  "get_bot_stats s = bot_stats (gw_bots (adm_gateway s))"

definition get_audit_log :: "(string, string) dashmap \<Rightarrow> 'c admin_state \<Rightarrow> audit_entry list \<times> nat \<times> nat" where
  "get_audit_log q s =
     (audit_recent (query_limit 100 q) (gw_audit (adm_gateway s)), audit_stats (gw_audit (adm_gateway s)))"

definition get_advanced_metrics :: "'c admin_state \<Rightarrow> (string \<times> service_metrics) list" where
  "get_advanced_metrics s = am_services (gw_metrics (adm_gateway s))"

definition get_health_scores :: "'c admin_state \<Rightarrow> upstream_score list" where
  "get_health_scores s = map snd (gw_health (adm_gateway s))"

definition get_sla_report :: "'c admin_state \<Rightarrow> sla_metrics list \<times> (string \<times> sla_violation) list" where
  "get_sla_report s = (sla_all_metrics (adm_sla s), check_violations (adm_sla s))"

definition oauth2_introspect :: "admin_env \<Rightarrow> string \<Rightarrow> 'c admin_state \<Rightarrow> 'c admin_result" where
  "oauth2_introspect env token s =
     (case validate_token (ad_sha env) (ad_introspect env) (ad_now env) token (adm_oauth s) of
        (g, TokenValid sub claims) \<Rightarrow> (s\<lparr>adm_oauth := g\<rparr>, 200, BActive sub claims)
      | (g, TokenInvalid reason) \<Rightarrow> (s\<lparr>adm_oauth := g\<rparr>, 200, BInactive reason)
      | (g, TokenError reason) \<Rightarrow> (s\<lparr>adm_oauth := g\<rparr>, 502, BError))"

definition oauth2_clear_cache :: "'c admin_state \<Rightarrow> 'c admin_result" where
  "oauth2_clear_cache s = (s\<lparr>adm_oauth := oauth_clear_cache (adm_oauth s)\<rparr>, 200, BDone)"

definition oauth2_status :: "'c admin_state \<Rightarrow> bool \<times> nat" where
  "oauth2_status s = (og_enabled (adm_oauth s), oauth_cache_size (adm_oauth s))"

definition mesh_list_call :: "'c admin_state \<Rightarrow> bool \<times> mesh_service list \<times> nat" where
  "mesh_list_call s = (mesh_enabled (adm_mesh s), mesh_list (adm_mesh s), mesh_count (adm_mesh s))"

definition mesh_register_call :: "string \<times> nat \<times> bool \<times> string list \<Rightarrow> 'c admin_state \<Rightarrow> 'c admin_result" where
  "mesh_register_call = (\<lambda>(name, port, mtls, tags) s.
     (s\<lparr>adm_mesh := mesh_register name port mtls tags (adm_mesh s)\<rparr>, 201, BId name))"

section \<open>Routes\<close>

text \<open>
  The routes of the scope, a segment in braces standing for any non-empty one, and the operations
  that change something, with the path segment or the body they take.
\<close>

definition xira_routes :: "(string \<times> string) list" where
  "xira_routes =
     [(''GET'', ''/services''), (''POST'', ''/services''), (''DELETE'', ''/services/{id}''),
      (''GET'', ''/services/{id}/health''), (''GET'', ''/stats''), (''GET'', ''/health''), (''GET'', ''/events''),
      (''GET'', ''/logs''), (''POST'', ''/cache/clear''), (''GET'', ''/circuit-breakers''), (''GET'', ''/plugins''),
      (''GET'', ''/versions''), (''GET'', ''/log-stats''), (''GET'', ''/config''), (''PUT'', ''/config''),
      (''GET'', ''/docs''), (''GET'', ''/docs/spec''), (''GET'', ''/identity/users''), (''POST'', ''/identity/users''),
      (''GET'', ''/identity/sessions''), (''POST'', ''/identity/sessions/flush''), (''GET'', ''/automation/cron''),
      (''POST'', ''/automation/cron''), (''DELETE'', ''/automation/cron/{id}''), (''GET'', ''/automation/workflows''),
      (''GET'', ''/automation/events''), (''POST'', ''/automation/events/publish''), (''GET'', ''/observability/logs''),
      (''GET'', ''/observability/uptime''), (''GET'', ''/observability/incidents''),
      (''POST'', ''/observability/incidents''), (''POST'', ''/observability/incidents/{id}/update''),
      (''GET'', ''/db/connections''), (''GET'', ''/db/slow-queries''), (''GET'', ''/db/firewall/stats''),
      (''GET'', ''/deployment/flags''), (''POST'', ''/deployment/flags''), (''POST'', ''/deployment/flags/{name}/toggle''),
      (''GET'', ''/deployment/releases''), (''POST'', ''/deployment/releases''),
      (''POST'', ''/deployment/releases/{id}/switch''), (''GET'', ''/pipeline/watchers''), (''POST'', ''/pipeline/watchers''),
      (''GET'', ''/pipeline/analytics''), (''GET'', ''/security/waf''), (''GET'', ''/security/waf/rules''),
      (''POST'', ''/security/waf/rules''), (''DELETE'', ''/security/waf/rules/{id}''), (''GET'', ''/security/bots''),
      (''GET'', ''/security/audit''), (''GET'', ''/advanced-metrics''), (''GET'', ''/health-scoring''), (''GET'', ''/sla''),
      (''GET'', ''/oauth2/status''), (''POST'', ''/oauth2/introspect''), (''POST'', ''/oauth2/cache/clear''),
      (''GET'', ''/mesh/services''), (''POST'', ''/mesh/services'')]"

definition segment_matches :: "string \<Rightarrow> string \<Rightarrow> bool" where
  "segment_matches pat seg \<longleftrightarrow> (if prefix ''{'' pat then seg \<noteq> [] else seg = pat)"

definition path_fits :: "string \<Rightarrow> string \<Rightarrow> bool" where
  "path_fits pat path \<longleftrightarrow> list_all2 segment_matches (split_on CHR ''/'' pat) (split_on CHR ''/'' path)"

definition xira_route :: "string \<Rightarrow> string \<Rightarrow> string option" where
  "xira_route verb path =
     (case strip_prefix ''/xira'' path of
        None \<Rightarrow> None
      | Some rest \<Rightarrow> map_option snd (find (\<lambda>(v, pat). v = verb \<and> path_fits pat rest) xira_routes))"

datatype admin_op =
    RegisterService json
  | UnregisterService string
  | CheckServiceHealth string
  | ClearCache
  | CreateCronJob json
  | DeleteCronJob string
  | PublishEvent json
  | CreateIncident json
  | UpdateIncident string json
  | CreateFlag json
  | ToggleFlag string
  | CreateRelease json
  | SwitchRelease string
  | CreateWatcher json
  | AddWafRule json
  | DeleteWafRule string
  | OauthIntrospect json
  | OauthClearCache
  | MeshRegister json

text \<open>The JSON extractor in front of a handler.\<close>

definition with_body :: "'a option \<Rightarrow> ('a \<Rightarrow> 'c admin_state \<Rightarrow> 'c admin_result) \<Rightarrow> 'c admin_state \<Rightarrow> 'c admin_result" where
  "with_body req handler s = (case req of None \<Rightarrow> (s, 400, BError) | Some r \<Rightarrow> handler r s)"

fun admin_serve ::
  "('c, cached_response) lru_ops \<Rightarrow> admin_env \<Rightarrow> admin_op \<Rightarrow> 'c admin_state \<Rightarrow> 'c admin_result" where
  "admin_serve L env (RegisterService j) = with_body (read_register_request env j) (register_service env)"
| "admin_serve L env (UnregisterService i) = unregister_service env i"
| "admin_serve L env (CheckServiceHealth i) = check_service_health env i"
| "admin_serve L env ClearCache = clear_cache L"
| "admin_serve L env (CreateCronJob j) = with_body (read_cron_job j) (create_cron_job env)"
| "admin_serve L env (DeleteCronJob i) = delete_cron_job i"
| "admin_serve L env (PublishEvent j) = with_body (read_event j) (publish_event env)"
| "admin_serve L env (CreateIncident j) = with_body (read_incident j) (create_incident env)"
| "admin_serve L env (UpdateIncident i j) = with_body (read_incident_update j) (update_incident env i)"
| "admin_serve L env (CreateFlag j) = with_body (read_flag j) (create_flag env)"
| "admin_serve L env (ToggleFlag name) = toggle_flag name"
| "admin_serve L env (CreateRelease j) = with_body (read_release env j) (create_release env)"
| "admin_serve L env (SwitchRelease i) = switch_release env i"
| "admin_serve L env (CreateWatcher j) = with_body (read_watcher j) (create_watcher env)"
| "admin_serve L env (AddWafRule j) = with_body (read_waf_rule j) (add_waf_rule env)"
| "admin_serve L env (DeleteWafRule i) = delete_waf_rule i"
| "admin_serve L env (OauthIntrospect j) = with_body (required ''token'' as_text j) (oauth2_introspect env)"
| "admin_serve L env OauthClearCache = oauth2_clear_cache"
| "admin_serve L env (MeshRegister j) = with_body (read_mesh j) mesh_register_call"

section \<open>What a refusal leaves behind\<close>

lemma filter_not_shorter: "\<not> length (filter P xs) < length xs \<Longrightarrow> filter P xs = xs"
  using length_filter_less by (metis filter_True)

lemma remove_job_absent:
  "remove_job i c = (c', False) \<Longrightarrow> i \<notin> job_id ` set (cron_jobs c) \<and>
     c' = c\<lparr>cron_storage := map_option (\<lambda>log. log @ [Delete i]) (cron_storage c), in_flight := filter (\<lambda>x. x \<noteq> i) (in_flight c)\<rparr>"
proof -
  assume "remove_job i c = (c', False)"
  then have c': "c' = c\<lparr>cron_storage := map_option (\<lambda>log. log @ [Delete i]) (cron_storage c),
        cron_jobs := filter (\<lambda>j. job_id j \<noteq> i) (cron_jobs c), in_flight := filter (\<lambda>x. x \<noteq> i) (in_flight c)\<rparr>"
    and "\<not> length (filter (\<lambda>j. job_id j \<noteq> i) (cron_jobs c)) < length (cron_jobs c)"
    by (auto simp: remove_job_def remove_entry_def remove_row_def Let_def)
  from filter_not_shorter [OF this(2)] show ?thesis
    unfolding c' by (auto simp: filter_id_conv)
qed

lemma add_pattern_refused:
  "add_custom_pattern regex_error now src label w = (w', Inl e) \<Longrightarrow>
     w' = w\<lparr>waf_next_rule_id := wrap_add64 (waf_next_rule_id w) 1\<rparr>"
  by (auto simp: add_custom_pattern_def apply_add_pattern_with_id_def waf_fresh_id_def Let_def split: option.splits if_splits)

lemma remove_pattern_absent: "remove_custom_pattern i w = (w', False) \<Longrightarrow> w' = w"
  by (auto simp: remove_custom_pattern_def apply_remove_pattern_def Let_def split: if_splits dest: filter_not_shorter)

lemma not_found_unchanged:
  "unregister i r = (r', None) \<Longrightarrow> r' = r" "flag_toggle n m = (m', None) \<Longrightarrow> m' = m"
  "release_switch now k rm = (rm', None) \<Longrightarrow> rm' = rm"
  by (auto simp: unregister_def flag_toggle_def release_switch_def Let_def split: option.splits if_splits)

lemma token_error_unchanged: "validate_token sha endpoint now tok g = (g', TokenError e) \<Longrightarrow> g' = g"
  by (auto simp: validate_token_def cached_verdict_def split: if_splits option.splits gateway_answer.splits)

lemma with_same [simp]: "with_registry (adm_registry s) s = s" "with_waf (gw_waf (adm_gateway s)) s = s"
  by (simp_all add: with_registry_def with_waf_def)

lemma delete_job_refused:
  "delete_cron_job i s = (s', st, b) \<Longrightarrow> 400 \<le> st \<Longrightarrow>
     i \<notin> job_id ` set (cron_jobs (adm_cron s)) \<and>
     s' = s\<lparr>adm_cron := (adm_cron s)\<lparr>cron_storage := map_option (\<lambda>log. log @ [Delete i]) (cron_storage (adm_cron s)),
                                    in_flight := filter (\<lambda>x. x \<noteq> i) (in_flight (adm_cron s))\<rparr>\<rparr>"
  by (auto simp: delete_cron_job_def dest: remove_job_absent split: prod.splits bool.splits)

lemmas handler_defs = register_service_def unregister_service_def check_service_health_def clear_cache_def
  create_cron_job_def publish_event_def create_incident_def update_incident_def create_flag_def
  toggle_flag_def create_release_def switch_release_def create_watcher_def add_waf_rule_def delete_waf_rule_def
  oauth2_introspect_def oauth2_clear_cache_def mesh_register_call_def

text \<open>
  C37: A refusal changes nothing. When the interface answers a request with an error, for a body that
  cannot be read, an address that is refused, an entry that is not there or a verdict that cannot be
  had, the state is exactly what it was, with two exceptions, whose whole effect is this: deleting a
  job that is not there appends the statement that deletes its row and takes the mark of a run
  under its name off, and a readable rule whose pattern does not compile uses up one rule number.
\<close>

theorem refusals_change_nothing:
  assumes "admin_serve L env op s = (s', st, b)" "400 \<le> st"
  shows "s' = (case op of
      DeleteCronJob i \<Rightarrow>
        s\<lparr>adm_cron := (adm_cron s)\<lparr>cron_storage := map_option (\<lambda>log. log @ [Delete i]) (cron_storage (adm_cron s)),
                                  in_flight := filter (\<lambda>x. x \<noteq> i) (in_flight (adm_cron s))\<rparr>\<rparr>
    | AddWafRule j \<Rightarrow>
        if read_waf_rule j = None then s
        else with_waf ((gw_waf (adm_gateway s))\<lparr>waf_next_rule_id :=
                          wrap_add64 (waf_next_rule_id (gw_waf (adm_gateway s))) 1\<rparr>) s
    | _ \<Rightarrow> s) \<and>
    (case op of DeleteCronJob i \<Rightarrow> i \<notin> job_id ` set (cron_jobs (adm_cron s)) | _ \<Rightarrow> True)"
proof (cases op)
  case (DeleteCronJob i)
  then show ?thesis using assms by (auto dest: delete_job_refused)
next
  case (AddWafRule j)
  then show ?thesis using assms
    by (auto simp: with_body_def add_waf_rule_def split: option.splits prod.splits sum.splits dest: add_pattern_refused)
qed (use assms in \<open>auto simp: with_body_def handler_defs Let_def
      split: option.splits prod.splits sum.splits if_splits bool.splits token_validation.splits
      dest!: remove_pattern_absent dest: not_found_unchanged token_error_unchanged\<close>)

section \<open>What is checked and what is not\<close>

lemma all_upstreams_set: "set (all_upstreams e) = insert (svc_upstream e) (set (svc_upstreams e))"
proof -
  have "set (foldl (\<lambda>all u. if u \<in> set all then all else all @ [u]) acc us) = set acc \<union> set us" for acc us :: "string list"
    by (induction us arbitrary: acc) auto
  then show ?thesis by (simp add: all_upstreams_def)
qed

lemma register_advanced_entry:
  assumes "register_advanced fresh now req r = (r', e)"
  shows "e = request_entry fresh now req" "dm_get (services r') (svc_id e) = Some e"
  using assms by (auto simp: register_advanced_def add_entry_def Let_def reg_call_def dm_get_insert)

definition upstream_ok :: "admin_env \<Rightarrow> string \<Rightarrow> bool" where
  "upstream_ok env url \<longleftrightarrow> validate_upstream_url (ad_net env) url = Inr ()"

text \<open>
  C38: The guard looks at one of the addresses. A service is registered exactly when name, prefix
  and upstream are given and the upstream passes the guard. The service is then sent requests
  at that upstream and at every further upstream of the request, and its health is checked at the
  upstream followed by the health end point, and none of these was checked: an address the
  guard refuses as the upstream is accepted in the list.
\<close>

theorem register_guard_partial:
  assumes "register_service env req s = (s', st, b)"
  shows "(st = 201 \<longleftrightarrow> req_name req \<noteq> [] \<and> req_prefix req \<noteq> [] \<and> req_upstream req \<noteq> [] \<and>
      upstream_ok env (req_upstream req)) \<and>
    (st = 201 \<longrightarrow> (\<exists>e. b = BService e \<and> dm_get (services (adm_registry s')) (svc_id e) = Some e \<and>
      set (all_upstreams e) = insert (trim_end_matches CHR ''/'' (req_upstream req)) (set (req_upstreams req)) \<and>
      svc_upstream e @ health_endpoint e = trim_end_matches CHR ''/'' (req_upstream req) @ req_health req)) \<and>
    (st \<noteq> 201 \<longrightarrow> s' = s)"
proof (cases "req_name req = [] \<or> req_prefix req = [] \<or> req_upstream req = [] \<or> \<not> upstream_ok env (req_upstream req)")
  case True
  then show ?thesis
    using assms by (auto simp: register_service_def upstream_ok_def split: sum.splits prod.splits if_splits)
next
  case False
  obtain r e where reg: "register_advanced (ad_uuid env) (ad_now env) req (adm_registry s) = (r, e)" by fastforce
  with False assms have "s' = with_registry r s" "st = 201" "b = BService e"
    by (auto simp: register_service_def upstream_ok_def)
  with False register_advanced_entry [OF reg] show ?thesis
    by (auto simp: all_upstreams_set with_registry_def request_entry_def service_entry_new_def)
qed

text \<open>A job, in contrast, is only created for an address that passes; a watcher for any address.\<close>

theorem job_url_guarded:
  assumes "create_cron_job env (name, url, verb, secs) s = (s', st, b)"
  shows "(st = 201 \<longleftrightarrow> upstream_ok env url) \<and>
    (if upstream_ok env url then cron_jobs (adm_cron s') =
        cron_jobs (adm_cron s) @ [new_job (ad_now env) (ad_fresh_id env) name (EverySeconds secs) url verb]
     else s' = s)"
  using assms
  by (auto simp: create_cron_job_def upstream_ok_def add_job_def persist_job_def Let_def split: sum.splits)

theorem watcher_unguarded:
  "\<exists>w. adm_watchers (fst (create_watcher env (endpoint, webhook) s)) = adm_watchers s @ [w] \<and>
     cdc_endpoint w = endpoint \<and> cdc_webhook w = webhook \<and> cdc_enabled w"
  by (simp add: create_watcher_def add_watcher_def)

text \<open>An incident that is not there is updated with success.\<close>

theorem unknown_incident_updated:
  assumes "\<forall>x \<in> set (adm_incidents s). inc_id x \<noteq> i"
  shows "update_incident env i r s = (s, 200, BDone)"
proof -
  have absent: "update_first (\<lambda>x. inc_id x = i) f xs = (xs, False)" if "\<forall>x \<in> set xs. inc_id x \<noteq> i" for f xs
    using that by (induction xs) auto
  show ?thesis
    by (cases r) (auto simp: update_incident_def Let_def incident_update_status_def incident_add_update_def absent [OF assms]
        split: option.split)
qed

text \<open>A rule that is added and deleted again leaves the rules as they were, and both are told the other nodes.\<close>

theorem waf_rule_add_delete:
  assumes "rules_wf (gw_waf (adm_gateway s))" "waf_next_rule_id (gw_waf (adm_gateway s)) < u64_max"
    and "ad_regex_error env pattern = None" "add_waf_rule env (pattern, label) s = (s1, st, BRule i l)"
  shows "\<exists>s2. delete_waf_rule (show_nat i) s1 = (s2, 200, BRule i []) \<and>
    waf_custom (gw_waf (adm_gateway s2)) = waf_custom (gw_waf (adm_gateway s)) \<and>
    waf_published (gw_waf (adm_gateway s2)) =
      waf_published (gw_waf (adm_gateway s)) @ [WafRuleAdded i pattern label, WafRuleRemoved i]"
proof -
  let ?w = "gw_waf (adm_gateway s)"
  obtain w1 where w1: "add_custom_pattern (ad_regex_error env) (ad_now env) pattern label ?w = (w1, Inr i)"
    and s1: "s1 = with_waf w1 s"
    using assms(4) by (auto simp: add_waf_rule_def split: prod.splits sum.splits)
  have i: "i = waf_next_rule_id ?w"
    using w1 by (auto simp: add_custom_pattern_def waf_fresh_id_def Let_def split: prod.splits sum.splits)
  obtain r where r: "waf_custom w1 = waf_custom ?w @ [r]" "cr_id r = i"
    "waf_published w1 = waf_published ?w @ [WafRuleAdded i pattern label]"
    using add_custom_pattern_adds(1) [OF assms(1,2), of "ad_regex_error env" pattern "ad_now env" label] assms(3) w1 i by auto
  have "filter (\<lambda>r. cr_id r \<noteq> i) (waf_custom ?w) = waf_custom ?w"
    using assms(1) i by (auto simp: rules_wf_def filter_id_conv)
  moreover have "parse_uint u64_max (show_nat i) = Some i" using assms(2) i by (simp add: parse_show_nat)
  ultimately show ?thesis
    by (simp add: s1 delete_waf_rule_def with_waf_def remove_custom_pattern_def apply_remove_pattern_def r Let_def)
qed

text \<open>Asking for the fatal lines shows the informational ones.\<close>

theorem fatal_level_shows_info:
  assumes "dm_get q ''q'' = None" "dm_get q ''level'' = Some ''Fatal''"
  shows "fst (search_logs_call q s) = by_level LvInfo (query_limit 50 q) (adm_logs s)"
  using assms by (simp add: search_logs_call_def level_of_text_def Let_def)

section \<open>Instances\<close>

definition demo_admin :: admin_env where
  "demo_admin =
     \<lparr>ad_net = \<lparr>parse_url = (\<lambda>s. Inr \<lparr>url_scheme = ''http'',
                    url_host_str = Some (if s = ''http://m'' then ''metadata'' else ''svc''),
                    url_port = None, url_port_or_known_default = Some 80\<rparr>),
                lookup_host = (\<lambda>_. Inr [V4 10 0 0 7])\<rparr>,
      ad_now = 5, ad_uuid = 1, ad_fresh_id = ''i'', ad_parse_uuid = (\<lambda>_. None), ad_http_get = (\<lambda>_. Inr 200),
      ad_regex_error = (\<lambda>_. None),
      ad_cron_env = \<lparr>sched_to_json = (\<lambda>_. []), sched_of_json = (\<lambda>_. None), cron_net = Url_Guard.demo_env,
        build_client = (\<lambda>_ _. Inr ()), send_request = (\<lambda>_ _. Inr 200), guard_text = (\<lambda>_. [])\<rparr>,
      ad_sha = (\<lambda>t. t), ad_introspect = (\<lambda>_ _. SendError []), ad_transform = (\<lambda>_. None), ad_f64 = (\<lambda>_. None)\<rparr>"

definition demo_registration :: register_request where
  "demo_registration =
     \<lparr>req_name = ''a'', req_prefix = ''/a'', req_upstream = ''http://svc'', req_health = ''/health'',
      req_upstreams = [''http://m''], req_load_balance = None, req_version = None, req_schema = None,
      req_whitelist = [], req_blacklist = [], req_transform = None\<rparr>"

lemma demo_upstreams: "upstream_ok demo_admin ''http://svc''" "\<not> upstream_ok demo_admin ''http://m''"
proof -
  have "\<not> is_blocked_metadata_hostname (to_ascii_lowercase ''svc'')"
    "is_blocked_metadata_hostname (to_ascii_lowercase ''metadata'')" by code_simp+
  then show "upstream_ok demo_admin ''http://svc''" "\<not> upstream_ok demo_admin ''http://m''"
    by (simp_all add: upstream_ok_def validate_upstream_url_def validate_url_def demo_admin_def ensure_def ok_or_def
        map_err_def parse_ip_svc is_ip_allowed_def Let_def)
qed

theorem register_guard_partial_witness:
  "\<forall>s :: unit admin_state. \<exists>s' e. register_service demo_admin demo_registration s = (s', 201, BService e) \<and>
     ''http://m'' \<in> set (all_upstreams e) \<and> \<not> upstream_ok demo_admin ''http://m''"
proof
  fix s :: "unit admin_state"
  obtain s' st b where r: "register_service demo_admin demo_registration s = (s', st, b)" by (rule prod_cases3)
  have "st = 201 \<and> (\<exists>e. b = BService e \<and> ''http://m'' \<in> set (all_upstreams e))"
    using register_guard_partial [OF r] demo_upstreams(1) by (auto simp: demo_registration_def)
  with r demo_upstreams(2) show "\<exists>s' e. register_service demo_admin demo_registration s = (s', 201, BService e) \<and>
     ''http://m'' \<in> set (all_upstreams e) \<and> \<not> upstream_ok demo_admin ''http://m''" by auto
qed

theorem refusals_change_nothing_witness:
  "\<forall>(s :: unit admin_state) L. fst (admin_serve L demo_admin (DeleteCronJob ''x'')
      (s\<lparr>adm_cron := cron_new\<lparr>cron_storage := Some []\<rparr>\<rparr>)) = s\<lparr>adm_cron := cron_new\<lparr>cron_storage := Some [Delete ''x'']\<rparr>\<rparr>"
proof (intro allI)
  fix s :: "unit admin_state" and L
  let ?s = "s\<lparr>adm_cron := cron_new\<lparr>cron_storage := Some []\<rparr>\<rparr>"
  obtain s' where r: "admin_serve L demo_admin (DeleteCronJob ''x'') ?s = (s', 404, BError)"
    by (auto simp: delete_cron_job_def remove_job_def remove_entry_def remove_row_def cron_new_def)
  show "fst (admin_serve L demo_admin (DeleteCronJob ''x'') ?s) = s\<lparr>adm_cron := cron_new\<lparr>cron_storage := Some [Delete ''x'']\<rparr>\<rparr>"
    using refusals_change_nothing [OF r] r by (simp add: cron_new_def)
qed

end
