(* ===== verification/Cli.thy ===== *)
theory Cli
  imports Admin_Api
begin

text \<open>
  src/src/cli/mod.rs and src/src/cli/token_store.rs: the commands of the client, the requests they
  send, what they make of the answers, and the file with the session token. A run takes what it
  meets (the answers of the gateway, files, environment, a typed line) as arguments and returns the
  requests it has sent, in order, and its outcome; what is printed is kept where it depends on an
  answer. A decoding that fails ends a command with an error, like a request that cannot be sent.
\<close>

section \<open>Commands\<close>

datatype service_command =
    SvcList string string
  | SvcAdd string string string string string "string list" "string option" "string option"
  | SvcRemove string string string
  | SvcTest string string string string

datatype security_command = SecAudit nat string string | SecWaf string string

datatype ops_command =
    OpsStats string string
  | OpsBreakers string string
  | OpsLogs nat string string
  | OpsBench string nat nat
  | OpsCacheClear string string

datatype user_command =
    AdmUsers string string
  | AdmSetRole string string string string bool
  | AdmDisable string string string bool
  | AdmLogout string string string bool
  | AdmMfaReset string string string bool
  | AdmLogin string string string
  | AdmLogoff
  | AdmWhoami string string

datatype system_command =
    SysInit
  | SysValidate string
  | SysDoctor string
  | SysExport string string string
  | SysImport string string string
  | SysGenerateCerts

text \<open>The arguments of a command in the order of the source; the gateway comes before the key.\<close>

datatype cli_command =
    CServe string "nat option"
  | CStatus string string
  | CService service_command
  | CSecurity security_command
  | COps ops_command
  | CSystem system_command
  | CAdmin user_command
  | CAdd string string string string string "string list" "string option" "string option"
  | CRemove string string string
  | CList string string
  | CHealth string string
  | CStats string string
  | CCircuitBreakers string string
  | CCacheClear string string
  | CGenerateCerts
  | CValidate string
  | CLogs nat string string
  | CBench string nat nat
  | CInit
  | CDoctor string
  | CExport string string string
  | CImport string string string
  | CProxyTest string string string string

fun service_key :: "service_command \<Rightarrow> string option" where
  "service_key (SvcAdd name pref up gw key ups lb ver) = Some key"
| "service_key (SvcRemove i gw key) = Some key"
| "service_key (SvcList gw key) = Some key"
| "service_key (SvcTest path verb gw key) = Some key"

fun security_key :: "security_command \<Rightarrow> string option" where
  "security_key (SecWaf gw key) = Some key"
| "security_key (SecAudit n gw key) = Some key"

fun ops_key :: "ops_command \<Rightarrow> string option" where
  "ops_key (OpsStats gw key) = Some key"
| "ops_key (OpsBreakers gw key) = Some key"
| "ops_key (OpsLogs n gw key) = Some key"
| "ops_key (OpsCacheClear gw key) = Some key"
| "ops_key (OpsBench url n k) = None"

fun system_key :: "system_command \<Rightarrow> string option" where
  "system_key (SysExport gw key out) = Some key"
| "system_key (SysImport inp gw key) = Some key"
| "system_key _ = None"

fun command_key :: "cli_command \<Rightarrow> string option" where
  "command_key (CStatus gw key) = Some key"
| "command_key (CAdd name pref up gw key ups lb ver) = Some key"
| "command_key (CRemove i gw key) = Some key"
| "command_key (CList gw key) = Some key"
| "command_key (CHealth gw key) = Some key"
| "command_key (CStats gw key) = Some key"
| "command_key (CCircuitBreakers gw key) = Some key"
| "command_key (CCacheClear gw key) = Some key"
| "command_key (CLogs n gw key) = Some key"
| "command_key (CExport gw key out) = Some key"
| "command_key (CImport inp gw key) = Some key"
| "command_key (CProxyTest path verb gw key) = Some key"
| "command_key (CService sc) = service_key sc"
| "command_key (CSecurity sc) = security_key sc"
| "command_key (COps sc) = ops_key sc"
| "command_key (CSystem sc) = system_key sc"
| "command_key _ = None"

section \<open>The session file\<close>

abbreviation quote :: string where "quote \<equiv> [CHR 0x22]"
abbreviation newline :: string where "newline \<equiv> [CHR 0x0A]"

definition session_text :: "string \<Rightarrow> string \<Rightarrow> string" where
  "session_text token gateway =
     ''# xiraNET CLI session '' @ [CHR 0xE2, CHR 0x80, CHR 0x94] @ '' auto-managed, do not edit by hand'' @ newline @
     ''token = '' @ quote @ token @ quote @ newline @ ''gateway = '' @ quote @ gateway @ quote @ newline"

definition parse_quoted :: "string \<Rightarrow> string option" where
  "parse_quoted s = do {
     s1 \<leftarrow> strip_prefix ''='' (trim_start s);
     s2 \<leftarrow> strip_prefix quote (trim_start s1);
     map_option fst (split_once CHR 0x22 s2) }"

definition read_session_line :: "string \<Rightarrow> string option \<times> string option \<Rightarrow> string option \<times> string option" where
  "read_session_line line = (\<lambda>(token, gateway).
     let l = trim line in
     if prefix ''#'' l \<or> l = [] then (token, gateway)
     else case strip_prefix ''token'' l of
            Some rest \<Rightarrow> (parse_quoted rest, gateway)
          | None \<Rightarrow> (case strip_prefix ''gateway'' l of
                      Some rest \<Rightarrow> (token, parse_quoted rest)
                    | None \<Rightarrow> (token, gateway)))"

definition load_session :: "string option \<Rightarrow> (string \<times> string) option" where
  "load_session content = do {
     text \<leftarrow> content;
     case fold read_session_line (split_on CHR 0x0A text) (None, None) of
       (Some t, Some g) \<Rightarrow> Some (t, g)
     | _ \<Rightarrow> None }"

definition no_session_token :: string where
  "no_session_token = ''no session token''"

definition resolve_token :: "string option \<Rightarrow> string option \<Rightarrow> string \<Rightarrow> string + (string \<times> string option)" where
  "resolve_token env_token session_file provided =
     (if provided \<noteq> [] then Inr (provided, None)
      else case (case env_token of Some t \<Rightarrow> if t \<noteq> [] then Some t else None | None \<Rightarrow> None) of
             Some t \<Rightarrow> Inr (t, None)
           | None \<Rightarrow> (case load_session session_file of
                       Some (t, g) \<Rightarrow> Inr (t, Some g)
                     | None \<Rightarrow> Inl no_session_token))"

definition default_gateway :: string where
  "default_gateway = ''http://localhost:9000''"

text \<open>The gateway a stored token is sent to.\<close>

definition resolve_target :: "string option \<Rightarrow> string option \<Rightarrow> string \<Rightarrow> string \<Rightarrow> string + (string \<times> string)" where
  "resolve_target env_token session_file provided gateway_arg =
     and_then (resolve_token env_token session_file provided) (\<lambda>(t, stored).
       Inr (t, case stored of
                 Some g \<Rightarrow> if gateway_arg = default_gateway then g else gateway_arg
               | None \<Rightarrow> gateway_arg))"

section \<open>Measurements\<close>

record bench_numbers =
  bn_success :: nat
  bn_errors :: nat
  bn_avg :: real
  bn_p50 :: real
  bn_p95 :: real
  bn_p99 :: real
  bn_min :: real
  bn_max :: real
  bn_codes :: "(nat \<times> nat) list"

datatype bench_outcome = BenchHangs | BenchPanics | BenchShown bench_numbers

text \<open>\<open>(n as f64 * p) as usize\<close>; the rounding of the product is not modelled.\<close>

definition share_of :: "nat \<Rightarrow> nat \<Rightarrow> nat" where
  "share_of percent n = n * percent div 100"

text \<open>
  The answers in the order of the requests: whether there was one, its status, the time in
  milliseconds. Without permits the first request waits for ever; without answers there is no
  median to take.
\<close>

definition bench :: "nat \<Rightarrow> nat \<Rightarrow> (bool \<times> nat \<times> real) list \<Rightarrow> bench_outcome" where
  "bench requests concurrency results =
     (if 0 < requests \<and> concurrency = 0 then BenchHangs
      else (let ds = sort (map (\<lambda>(_, _, d). d) results); n = length ds;
                good = filter fst results; codes = map (\<lambda>(_, c, _). c) good
            in if n = 0 then BenchPanics
               else BenchShown
                 \<lparr>bn_success = length good, bn_errors = n - length good, bn_avg = sum_list ds / real n,
                  bn_p50 = ds ! (n div 2), bn_p95 = ds ! share_of 95 n, bn_p99 = ds ! share_of 99 n,
                  bn_min = hd ds, bn_max = last ds,
                  bn_codes = map (\<lambda>c. (c, length (filter ((=) c) codes))) (sort (remdups codes))\<rparr>))"

section \<open>Diagnosis\<close>

datatype doctor_error =
    SecretsKeyShort | ConfigInvalid config_error | ConfigUnreadable | ConfigMissing | DbNotWritable string | AdminOpen nat

datatype doctor_warning =
    SecretsKeyUnset | ConfigDoubtful config_warning | DbParentMissing string | GatewayDown string | MetricsStale

text \<open>What the diagnosis sees: environment, files, sockets, and the statuses and bodies of its requests;
  \<open>dr_socket_addr\<close> tells which texts parse as a \<open>SocketAddr\<close>.\<close>

record doctor_env =
  dr_secrets_key :: "string option"
  dr_db_path :: "string option"
  dr_exists :: "string \<Rightarrow> bool"
  dr_appendable :: "string \<Rightarrow> bool"
  dr_parent :: "string \<Rightarrow> string"
  dr_config :: "string \<Rightarrow> xira_config option"
  dr_rsa_ok :: "string \<Rightarrow> bool"
  dr_socket_addr :: "string \<Rightarrow> bool"
  dr_connects :: "string \<Rightarrow> bool"
  dr_get :: "string \<Rightarrow> string + (nat \<times> string)"

definition doctor_secrets :: "doctor_env \<Rightarrow> doctor_error list \<times> doctor_warning list" where
  "doctor_secrets d =
     (case dr_secrets_key d of
        Some v \<Rightarrow> if 32 \<le> length v then ([], []) else ([SecretsKeyShort], [])
      | None \<Rightarrow> ([], [SecretsKeyUnset]))"

definition doctor_config :: "doctor_env \<Rightarrow> doctor_error list \<times> doctor_warning list" where
  "doctor_config d =
     (if dr_exists d ''xiranet.toml''
      then (case dr_config d ''xiranet.toml'' of
              None \<Rightarrow> ([ConfigUnreadable], [])
            | Some c \<Rightarrow> (let r = validate (dr_exists d) (dr_rsa_ok d) c
                        in if report_ok r then ([], map ConfigDoubtful (rep_warnings r))
                           else (map ConfigInvalid (rep_errors r), [])))
      else ([ConfigMissing], []))"

definition doctor_files :: "doctor_env \<Rightarrow> doctor_error list \<times> doctor_warning list" where
  "doctor_files d =
     (let db = (case dr_db_path d of Some p \<Rightarrow> p | None \<Rightarrow> ''data/xiranet.db'') in
      if dr_exists d db then (if dr_appendable d db then ([], []) else ([DbNotWritable db], []))
      else if dr_exists d (dr_parent d db) then ([], []) else ([], [DbParentMissing (dr_parent d db)]))"

text \<open>
  The address that is tried for the gateway. A name is not resolved: what does not parse as a
  socket address stands for port 0 of the local host.
\<close>

definition doctor_address :: "(string \<Rightarrow> bool) \<Rightarrow> string \<Rightarrow> string" where
  "doctor_address is_socket_addr gateway =
     (let port = (case parse_uint 65535 (last (split_on CHR '':'' gateway)) of Some p \<Rightarrow> p | None \<Rightarrow> 9000);
          plain = strip_front [''https://''] (strip_front [''http://''] gateway);
          host = (case split_once CHR '':'' (rev plain) of Some (_, h) \<Rightarrow> rev h | None \<Rightarrow> ''127.0.0.1'');
          addr = host @ '':'' @ show_nat port
      in if is_socket_addr addr then addr else ''127.0.0.1:0'')"

definition doctor_live :: "doctor_env \<Rightarrow> string \<Rightarrow> doctor_error list \<times> doctor_warning list" where
  "doctor_live d gateway =
     ((case dr_get d (gateway @ ''/xira/services'') of
         Inr (st, _) \<Rightarrow> if st = 401 then [] else [AdminOpen st]
       | Inl _ \<Rightarrow> []),
      (if dr_connects d (doctor_address (dr_socket_addr d) gateway) then [] else [GatewayDown gateway]) @
      (case dr_get d (gateway @ ''/metrics'') of
         Inr (st, body) \<Rightarrow>
           if is_success st \<and> \<not> (str_contains body ''xiranet_auth_rejects_total'' \<and>
                str_contains body ''xiranet_ssrf_rejects_total'' \<and> str_contains body ''xiranet_session_events_total'')
           then [MetricsStale] else []
       | Inl _ \<Rightarrow> []))"

text \<open>The parts in their order; with an error the client exits with status 1.\<close>

definition doctor :: "doctor_env \<Rightarrow> string \<Rightarrow> doctor_error list \<times> doctor_warning list" where
  "doctor d gateway =
     (let parts = [doctor_secrets d, doctor_config d, doctor_files d, doctor_live d gateway]
      in (concat (map fst parts), concat (map snd parts)))"

section \<open>Runs\<close>

record cli_request =
  cq_verb :: string
  cq_url :: string
  cq_headers :: "(string \<times> string) list"
  cq_body :: "json option"

record cli_env =
  ce_answer :: "cli_request \<Rightarrow> string + (nat \<times> json option)"
  ce_raw :: "cli_request \<Rightarrow> string + (nat \<times> string)"
  ce_file :: "string \<Rightarrow> string option"
  ce_writable :: "string \<Rightarrow> bool"
  ce_json :: "string \<Rightarrow> json option"
  ce_print :: "json \<Rightarrow> string"
  ce_config :: "string \<Rightarrow> xira_config option"
  ce_exists :: "string \<Rightarrow> bool"
  ce_rsa_ok :: "string \<Rightarrow> bool"
  ce_token :: "string option"
  ce_session :: "string option"
  ce_typed :: "string option"
  ce_bench :: "string \<Rightarrow> nat \<Rightarrow> (bool \<times> nat \<times> real) list"
  ce_doctor :: doctor_env
  ce_version :: string
  ce_time :: string

text \<open>What a command shows; \<open>ExitOne\<close> is the exit with status 1.\<close>

datatype cli_report =
    Shown json
  | ServiceLines "(string \<times> string \<times> string \<times> string) list"
  | StatsShown "nat list"
  | Unreachable
  | StatusShown bool "nat option" "nat list option" "json list option"
  | LogLines "json list"
  | NoLogs json
  | ConfigValid nat
  | Exported string string
  | Imported nat
  | NoServices
  | ProxyShown nat nat
  | ProxyUnreachable
  | CliPanic
  | UserLines "json list"
  | Accepted json
  | Rejected nat json
  | Aborted
  | MfaNeeded string
  | LoggedIn string string
  | Forgotten
  | TemplateWritten
  | TemplateKept
  | BenchDone bench_outcome
  | Diagnosed "doctor_error list" "doctor_warning list"
  | ExitOne
  | NothingShown

type_synonym cli_run = "cli_request list \<times> (string + cli_report)"

definition request_to :: "string \<Rightarrow> string \<Rightarrow> string \<Rightarrow> (string \<times> string) list \<Rightarrow> json option \<Rightarrow> cli_request" where
  "request_to verb gateway path hs body = \<lparr>cq_verb = verb, cq_url = gateway @ path, cq_headers = hs, cq_body = body\<rparr>"

definition with_key :: "string \<Rightarrow> (string \<times> string) list" where
  "with_key key = [(''X-Api-Key'', key)]"

definition with_bearer :: "string \<Rightarrow> (string \<times> string) list" where
  "with_bearer token = [(''Authorization'', ''Bearer '' @ token)]"

text \<open>\<open>send().await?\<close> and \<open>json().await?\<close>.\<close>

definition exchange :: "cli_env \<Rightarrow> cli_request \<Rightarrow> (nat \<Rightarrow> json \<Rightarrow> cli_report) \<Rightarrow> cli_run" where
  "exchange env req show =
     ([req], case ce_answer env req of
               Inl e \<Rightarrow> Inl e
             | Inr (st, None) \<Rightarrow> Inl ''error decoding response body''
             | Inr (st, Some body) \<Rightarrow> Inr (show st body))"

text \<open>\<open>if let Ok(resp) = .. { if let Ok(body) = .. { .. } }\<close>\<close>

definition answered :: "cli_env \<Rightarrow> cli_request \<Rightarrow> json option" where
  "answered env req = (case ce_answer env req of Inl _ \<Rightarrow> None | Inr (_, body) \<Rightarrow> body)"

definition text_or :: "string \<Rightarrow> string \<Rightarrow> json \<Rightarrow> string" where
  "text_or d key j = (case Option.bind (json_get key j) as_text of Some s \<Rightarrow> s | None \<Rightarrow> d)"

definition number_or :: "nat \<Rightarrow> string \<Rightarrow> json \<Rightarrow> nat" where
  "number_or d key j = (case Option.bind (json_get key j) as_u64 of Some n \<Rightarrow> n | None \<Rightarrow> d)"

fun as_array :: "json \<Rightarrow> json list option" where
  "as_array (JArr xs) = Some xs"
| "as_array _ = None"

definition services_in :: "json \<Rightarrow> json list option" where
  "services_in body = do { d \<leftarrow> json_get ''data'' body; s \<leftarrow> json_get ''services'' d; as_array s }"

definition stats_in :: "json \<Rightarrow> nat list option" where
  "stats_in body = map_option (\<lambda>d. map (\<lambda>k. number_or 0 k d)
     [''total_services'', ''services_up'', ''services_down'', ''total_requests'', ''uptime_seconds'']) (json_get ''data'' body)"

definition run_add ::
  "cli_env \<Rightarrow> string \<Rightarrow> string \<Rightarrow> string \<Rightarrow> string \<Rightarrow> string \<Rightarrow> string list \<Rightarrow> string option \<Rightarrow> string option \<Rightarrow> cli_run" where
  "run_add env name pref upstream gateway key upstreams lb version =
     (let opt = (\<lambda>x. case x of Some s \<Rightarrow> JStr s | None \<Rightarrow> JNull) in
      exchange env (request_to ''POST'' gateway ''/xira/services'' (with_key key)
        (Some (JObj [(''name'', JStr name), (''prefix'', JStr pref), (''upstream'', JStr upstream),
                     (''health_endpoint'', JStr ''/health''), (''upstreams'', JArr (map JStr upstreams)),
                     (''load_balance'', opt lb), (''version'', opt version)])))
        (\<lambda>_. Shown))"

definition run_list :: "cli_env \<Rightarrow> string \<Rightarrow> string \<Rightarrow> cli_run" where
  "run_list env gateway key =
     exchange env (request_to ''GET'' gateway ''/xira/services'' (with_key key) None)
       (\<lambda>_ body. case json_get ''data'' body of
          None \<Rightarrow> Shown body
        | Some d \<Rightarrow> (case services_in body of
              None \<Rightarrow> NothingShown
            | Some svcs \<Rightarrow> ServiceLines (map (\<lambda>s. (text_or ''?'' ''status'' s, text_or ''?'' ''prefix'' s,
                              text_or ''?'' ''upstream'' s, text_or ''?'' ''name'' s)) svcs)))"

definition run_stats :: "cli_env \<Rightarrow> string \<Rightarrow> string \<Rightarrow> cli_run" where
  "run_stats env gateway key =
     exchange env (request_to ''GET'' gateway ''/xira/stats'' (with_key key) None)
       (\<lambda>_ body. case stats_in body of Some ns \<Rightarrow> StatsShown ns | None \<Rightarrow> Shown body)"

text \<open>The gateway is shown as healthy when its answer says so in the word \<open>healthy\<close>.\<close>

definition run_status :: "cli_env \<Rightarrow> string \<Rightarrow> string \<Rightarrow> cli_run" where
  "run_status env gateway key =
     (let q = (\<lambda>path. request_to ''GET'' gateway path (with_key key) None);
          health = q ''/xira/health''; stats = q ''/xira/stats''; svcs = q ''/xira/services''
      in case ce_answer env health of
           Inl _ \<Rightarrow> ([health], Inr Unreachable)
         | Inr (_, answer) \<Rightarrow>
             (let body = (case answer of Some b \<Rightarrow> b | None \<Rightarrow> JNull)
              in ([health, stats, svcs],
                  Inr (StatusShown (text_or ''unknown'' ''status'' body = ''healthy'')
                         (Option.bind (json_get ''uptime_seconds'' body) as_u64)
                         (Option.bind (answered env stats) stats_in)
                         (Option.bind (answered env svcs) services_in)))))"

definition run_logs :: "cli_env \<Rightarrow> nat \<Rightarrow> string \<Rightarrow> string \<Rightarrow> cli_run" where
  "run_logs env tail gateway key =
     exchange env (request_to ''GET'' gateway ''/xira/log-stats'' (with_key key) None)
       (\<lambda>_ body. case do { d \<leftarrow> json_get ''data'' body; l \<leftarrow> json_get ''recent_logs'' d; as_array l } of
          Some logs \<Rightarrow> LogLines (take tail logs)
        | None \<Rightarrow> NoLogs body)"

definition run_validate :: "cli_env \<Rightarrow> string \<Rightarrow> cli_run" where
  "run_validate env path =
     ([], Inr (if \<not> ce_exists env path then ExitOne
               else case ce_config env path of
                      None \<Rightarrow> ExitOne
                    | Some c \<Rightarrow> (let r = validate (ce_exists env) (ce_rsa_ok env) c
                                in if report_ok r then ConfigValid (length (rep_warnings r)) else ExitOne)))"

definition run_export :: "cli_env \<Rightarrow> string \<Rightarrow> string \<Rightarrow> string \<Rightarrow> cli_run" where
  "run_export env gateway key out =
     (let q = (\<lambda>path. request_to ''GET'' gateway path (with_key key) None);
          svcs = q ''/xira/services''; conf = q ''/xira/config'';
          part = (\<lambda>name req. case answered env req of Some b \<Rightarrow> [(name, b)] | None \<Rightarrow> []);
          doc = JObj ([(''version'', JStr (ce_version env)), (''exported_at'', JStr (ce_time env))] @
                      part ''services'' svcs @ part ''config'' conf)
      in ([svcs, conf], if ce_writable env out then Inr (Exported out (ce_print env doc)) else Inl ''write error''))"

definition import_request :: "string \<Rightarrow> string \<Rightarrow> json \<Rightarrow> cli_request option" where
  "import_request gateway key svc =
     (let upstream = text_or [] ''upstream'' svc in
      if upstream = [] then None
      else Some (request_to ''POST'' gateway ''/xira/services'' (with_key key)
        (Some (JObj [(''name'', JStr (text_or ''unknown'' ''name'' svc)), (''prefix'', JStr (text_or ''/'' ''prefix'' svc)),
                     (''upstream'', JStr upstream), (''health_endpoint'', JStr ''/health'')]))))"

definition exported_services :: "json \<Rightarrow> json list option" where
  "exported_services doc = Option.bind (json_get ''services'' doc) services_in"

text \<open>A request that is answered counts, whatever the answer.\<close>

definition run_import :: "cli_env \<Rightarrow> string \<Rightarrow> string \<Rightarrow> string \<Rightarrow> cli_run" where
  "run_import env path gateway key =
     (case ce_file env path of
        None \<Rightarrow> ([], Inl ''read error'')
      | Some content \<Rightarrow>
          (case ce_json env content of
             None \<Rightarrow> ([], Inl ''parse error'')
           | Some doc \<Rightarrow>
               (case exported_services doc of
                  None \<Rightarrow> ([], Inr NoServices)
                | Some svcs \<Rightarrow>
                    (let reqs = List.map_filter (import_request gateway key) svcs
                     in (reqs, Inr (Imported (length (filter (\<lambda>q. case ce_answer env q of Inl _ \<Rightarrow> False | Inr _ \<Rightarrow> True) reqs))))))))"

text \<open>The first 500 bytes of a long body are cut out of the text.\<close>

definition run_proxy_test :: "cli_env \<Rightarrow> string \<Rightarrow> string \<Rightarrow> string \<Rightarrow> string \<Rightarrow> cli_run" where
  "run_proxy_test env path verb gateway key =
     (let v = str_upper verb;
          req = request_to (if v \<in> {''POST'', ''PUT'', ''DELETE''} then v else ''GET'') gateway path (with_key key) None
      in ([req], Inr (case ce_raw env req of
                        Inl _ \<Rightarrow> ProxyUnreachable
                      | Inr (st, body) \<Rightarrow>
                          if length body < 500 \<or> is_char_boundary body 500 then ProxyShown st (length body) else CliPanic)))"

definition run_remove :: "cli_env \<Rightarrow> string \<Rightarrow> string \<Rightarrow> string \<Rightarrow> cli_run" where
  "run_remove env i gateway key =
     exchange env (request_to ''DELETE'' gateway (''/xira/services/'' @ i) (with_key key) None) (\<lambda>_. Shown)"

definition run_health :: "cli_env \<Rightarrow> string \<Rightarrow> string \<Rightarrow> cli_run" where
  "run_health env gateway key =
     exchange env (request_to ''GET'' gateway ''/xira/health'' (with_key key) None) (\<lambda>_. Shown)"

definition run_breakers :: "cli_env \<Rightarrow> string \<Rightarrow> string \<Rightarrow> cli_run" where
  "run_breakers env gateway key =
     exchange env (request_to ''GET'' gateway ''/xira/circuit-breakers'' (with_key key) None) (\<lambda>_. Shown)"

definition run_cache_clear :: "cli_env \<Rightarrow> string \<Rightarrow> string \<Rightarrow> cli_run" where
  "run_cache_clear env gateway key =
     exchange env (request_to ''POST'' gateway ''/xira/cache/clear'' (with_key key) None) (\<lambda>_. Shown)"

definition run_waf :: "cli_env \<Rightarrow> string \<Rightarrow> string \<Rightarrow> cli_run" where
  "run_waf env gateway key =
     exchange env (request_to ''GET'' gateway ''/xira/security/waf'' (with_key key) None) (\<lambda>_. Shown)"

definition run_init :: "cli_env \<Rightarrow> cli_run" where
  "run_init env = ([], Inr (if ce_exists env ''xiranet.toml'' then TemplateKept else TemplateWritten))"

definition run_doctor :: "cli_env \<Rightarrow> string \<Rightarrow> cli_run" where
  "run_doctor env gateway = ([], Inr (case doctor (ce_doctor env) gateway of (es, ws) \<Rightarrow> Diagnosed es ws))"

section \<open>User administration\<close>

definition confirmed :: "cli_env \<Rightarrow> bool \<Rightarrow> bool" where
  "confirmed env yes \<longleftrightarrow> yes \<or>
     (case ce_typed env of None \<Rightarrow> False | Some line \<Rightarrow> to_ascii_lowercase (trim line) \<in> {''y'', ''yes''})"

definition with_session :: "cli_env \<Rightarrow> string \<Rightarrow> string \<Rightarrow> (string \<Rightarrow> string \<Rightarrow> cli_run) \<Rightarrow> cli_run" where
  "with_session env token gateway run =
     (case resolve_target (ce_token env) (ce_session env) token gateway of
        Inl e \<Rightarrow> ([], Inl e)
      | Inr (t, g) \<Rightarrow> run t g)"

definition confirmed_call ::
  "cli_env \<Rightarrow> bool \<Rightarrow> string \<Rightarrow> string \<Rightarrow> string \<Rightarrow> string \<Rightarrow> json option \<Rightarrow> cli_run" where
  "confirmed_call env yes token gateway verb path body =
     (if \<not> confirmed env yes then ([], Inr Aborted)
      else with_session env token gateway (\<lambda>t g.
        exchange env (request_to verb g path (with_bearer t) body)
          (\<lambda>st b. if is_success st then Accepted b else Rejected st b)))"

definition run_login :: "cli_env \<Rightarrow> string \<Rightarrow> string \<Rightarrow> string \<Rightarrow> cli_run" where
  "run_login env mail pass gateway =
     exchange env (request_to ''POST'' gateway ''/auth/login'' []
         (Some (JObj [(''email'', JStr mail), (''password'', JStr pass)])))
       (\<lambda>st body.
          if \<not> is_success st then Rejected st body
          else if Option.bind (json_get ''mfa_required'' body) as_bool = Some True
          then MfaNeeded (text_or ''?'' ''user_id'' body)
          else case Option.bind (json_get ''token'' body) as_text of
                 Some tok \<Rightarrow> LoggedIn tok (session_text tok gateway)
               | None \<Rightarrow> Shown body)"

fun run_user :: "cli_env \<Rightarrow> user_command \<Rightarrow> cli_run" where
  "run_user env (AdmUsers gateway token) =
     with_session env token gateway (\<lambda>t g.
       exchange env (request_to ''GET'' g ''/auth/admin/users'' (with_bearer t) None)
         (\<lambda>st body. if \<not> is_success st then Rejected st body
                    else case Option.bind (json_get ''users'' body) as_array of
                           Some us \<Rightarrow> UserLines us
                         | None \<Rightarrow> NothingShown))"
| "run_user env (AdmSetRole user rl gateway token yes) =
     confirmed_call env yes token gateway ''PUT'' (''/auth/admin/users/'' @ user @ ''/role'') (Some (JObj [(''role'', JStr rl)]))"
| "run_user env (AdmDisable user gateway token yes) =
     confirmed_call env yes token gateway ''POST'' (''/auth/admin/users/'' @ user @ ''/disable'') None"
| "run_user env (AdmLogout user gateway token yes) =
     confirmed_call env yes token gateway ''POST'' (''/auth/admin/users/'' @ user @ ''/logout-all'') None"
| "run_user env (AdmMfaReset user gateway token yes) =
     confirmed_call env yes token gateway ''POST'' (''/auth/admin/users/'' @ user @ ''/mfa/disable'') None"
| "run_user env (AdmLogin mail pass gateway) = run_login env mail pass gateway"
| "run_user env AdmLogoff = ([], Inr Forgotten)"
| "run_user env (AdmWhoami gateway token) =
     with_session env token gateway (\<lambda>t g.
       exchange env (request_to ''GET'' g ''/auth/me'' (with_bearer t) None)
         (\<lambda>st b. if is_success st then Accepted b else Rejected st b))"

section \<open>Dispatch\<close>

definition key_missing :: string where
  "key_missing = ''API key not provided. Set XIRA_API_KEY env variable, or pass --key <KEY>''"

text \<open>A nested command runs the command it stands for, from the start.\<close>

fun nested :: "cli_command \<Rightarrow> nat" where
  "nested (CService _) = 1"
| "nested (CSecurity _) = 1"
| "nested (COps _) = 1"
| "nested (CSystem _) = 1"
| "nested _ = 0"

function run_cli :: "cli_env \<Rightarrow> cli_command \<Rightarrow> cli_run" where
  "run_cli env cmd =
     (if command_key cmd = Some [] then ([], Inl key_missing)
      else case cmd of
        CAdd name pref up gw key ups lb ver \<Rightarrow> run_add env name pref up gw key ups lb ver
      | CRemove i gw key \<Rightarrow> run_remove env i gw key
      | CList gw key \<Rightarrow> run_list env gw key
      | CHealth gw key \<Rightarrow> run_health env gw key
      | CStats gw key \<Rightarrow> run_stats env gw key
      | CCircuitBreakers gw key \<Rightarrow> run_breakers env gw key
      | CCacheClear gw key \<Rightarrow> run_cache_clear env gw key
      | CValidate path \<Rightarrow> run_validate env path
      | CStatus gw key \<Rightarrow> run_status env gw key
      | CLogs n gw key \<Rightarrow> run_logs env n gw key
      | CBench url n k \<Rightarrow> ([], Inr (BenchDone (bench n k (ce_bench env url n))))
      | CServe path port \<Rightarrow> ([], Inr NothingShown)
      | CGenerateCerts \<Rightarrow> ([], Inr NothingShown)
      | CService sc \<Rightarrow>
          (case sc of
             SvcList gw key \<Rightarrow> run_cli env (CList gw key)
           | SvcAdd name pref up gw key ups lb ver \<Rightarrow> run_cli env (CAdd name pref up gw key ups lb ver)
           | SvcRemove i gw key \<Rightarrow> run_cli env (CRemove i gw key)
           | SvcTest path verb gw key \<Rightarrow> run_cli env (CProxyTest path verb gw key))
      | CSecurity sc \<Rightarrow>
          (case sc of
             SecAudit n gw key \<Rightarrow> run_cli env (CLogs n gw key)
           | SecWaf gw key \<Rightarrow> run_waf env gw key)
      | COps oc \<Rightarrow>
          (case oc of
             OpsStats gw key \<Rightarrow> run_cli env (CStats gw key)
           | OpsBreakers gw key \<Rightarrow> run_cli env (CCircuitBreakers gw key)
           | OpsLogs n gw key \<Rightarrow> run_cli env (CLogs n gw key)
           | OpsBench url n k \<Rightarrow> run_cli env (CBench url n k)
           | OpsCacheClear gw key \<Rightarrow> run_cli env (CCacheClear gw key))
      | CAdmin ac \<Rightarrow> run_user env ac
      | CSystem sc \<Rightarrow>
          (case sc of
             SysInit \<Rightarrow> run_cli env CInit
           | SysValidate path \<Rightarrow> run_cli env (CValidate path)
           | SysDoctor gw \<Rightarrow> run_cli env (CDoctor gw)
           | SysExport gw key out \<Rightarrow> run_cli env (CExport gw key out)
           | SysImport path gw key \<Rightarrow> run_cli env (CImport path gw key)
           | SysGenerateCerts \<Rightarrow> ([], Inr NothingShown))
      | CInit \<Rightarrow> run_init env
      | CDoctor gw \<Rightarrow> run_doctor env gw
      | CExport gw key out \<Rightarrow> run_export env gw key out
      | CImport path gw key \<Rightarrow> run_import env path gw key
      | CProxyTest path verb gw key \<Rightarrow> run_proxy_test env path verb gw key)"
  by pat_completeness auto
termination
  by (relation "measure (\<lambda>(_, cmd). nested cmd)") auto

declare run_cli.simps [simp del]

end
