(* ===== verification/Cli_Use.thy ===== *)
theory Cli_Use
  imports Cli
begin

text \<open>
  What the commands of the client come to against the gateway of this library: the session file
  reads back as it was written, the requests are ones the gateway serves, and where the client and
  the gateway disagree (the template of \<open>init\<close>, the status, the log lines) the disagreement.
\<close>

section \<open>The session file\<close>

abbreviation unquoted :: "string \<Rightarrow> string" where
  "unquoted \<equiv> takeWhile (\<lambda>c. c \<noteq> CHR 0x22)"

lemma trim_start_blank:
  assumes "hd s \<in> {CHR ''='', CHR 0x22}" "s \<noteq> []"
  shows "trim_start (CHR '' '' # s) = s"
proof -
  have "leading_ws whitespace (CHR '' '' # s) = Some '' ''"
    by (simp add: leading_ws_def whitespace_def)
  moreover have "leading_ws whitespace s = None"
    using assms by (cases s) (auto simp: leading_ws_None whitespace_def)
  ultimately show ?thesis
    by (simp add: trim_start_def strip_front.simps [of _ "CHR '' '' # s"] strip_front_id)
qed

lemma parse_quoted_value: "parse_quoted ('' = '' @ quote @ v @ quote) = Some (unquoted v)"
proof -
  have cut: "map_option fst (split_once CHR 0x22 (v @ [CHR 0x22])) = Some (unquoted v)"
    by (induction v) (auto simp: option.map_comp comp_def)
  have "strip_prefix ''='' (''= '' @ quote @ v @ quote) = Some ('' '' @ quote @ v @ quote)"
    "strip_prefix quote (quote @ v @ quote) = Some (v @ quote)"
    by (simp_all add: strip_prefix_eq)
  then show ?thesis
    using trim_start_blank [of "''= '' @ quote @ v @ quote"] trim_start_blank [of "quote @ v @ quote"]
    by (simp add: parse_quoted_def cut)
qed

lemma session_line_trim:
  assumes "c \<in> {CHR ''t'', CHR ''g'', CHR ''#''}" "d \<in> {CHR 0x22, CHR ''d''}" "hd s = c" "last s = d"
  shows "trim s = s"
  by (rule trim_noop) (use assms in \<open>auto simp: whitespace_def\<close>)

lemma read_token_line:
  "read_session_line (''token = '' @ quote @ t @ quote) (x, y) = (Some (unquoted t), y)"
proof -
  have "trim (''token = '' @ quote @ t @ quote) = ''token = '' @ quote @ t @ quote"
    by (rule session_line_trim [of "CHR ''t''" "CHR 0x22"]) simp_all
  moreover have "strip_prefix ''token'' (''token = '' @ quote @ t @ quote) = Some ('' = '' @ quote @ t @ quote)"
    by (simp add: strip_prefix_eq)
  ultimately show ?thesis
    by (simp add: read_session_line_def Let_def parse_quoted_value [simplified])
qed

lemma read_gateway_line:
  "read_session_line (''gateway = '' @ quote @ g @ quote) (x, y) = (x, Some (unquoted g))"
proof -
  have "trim (''gateway = '' @ quote @ g @ quote) = ''gateway = '' @ quote @ g @ quote"
    by (rule session_line_trim [of "CHR ''g''" "CHR 0x22"]) simp_all
  moreover have "strip_prefix ''gateway'' (''gateway = '' @ quote @ g @ quote) = Some ('' = '' @ quote @ g @ quote)"
    by (simp add: strip_prefix_eq)
  ultimately show ?thesis
    by (simp add: read_session_line_def Let_def parse_quoted_value [simplified] strip_prefix_def)
qed

definition session_comment :: string where
  "session_comment = ''# xiraNET CLI session '' @ [CHR 0xE2, CHR 0x80, CHR 0x94] @ '' auto-managed, do not edit by hand''"

lemma read_comment_line: "read_session_line session_comment p = p" "read_session_line [] p = p"
proof -
  have "trim session_comment = session_comment"
    by (rule session_line_trim [of "CHR ''#''" "CHR ''d''"]) (simp_all add: session_comment_def)
  then show "read_session_line session_comment p = p"
    by (simp add: read_session_line_def session_comment_def case_prod_unfold)
  have "trim [] = []"
    using trim_start_suffix [of "trim_end []"] trim_end_prefix [of "[]"] by (simp add: trim_def)
  then show "read_session_line [] p = p"
    by (simp add: read_session_line_def case_prod_unfold)
qed

lemma split_on_lines:
  assumes "c \<notin> set x" "c \<notin> set y" "c \<notin> set z"
  shows "split_on c (x @ c # y @ c # z @ [c]) = [x, y, z, []]"
  using assms by (simp add: split_on_append split_on_single)

lemma session_text_lines:
  assumes "CHR 0x0A \<notin> set t" "CHR 0x0A \<notin> set g"
  shows "split_on CHR 0x0A (session_text t g) =
    [session_comment, ''token = '' @ quote @ t @ quote, ''gateway = '' @ quote @ g @ quote, []]"
proof -
  have joined: "session_text t g = session_comment @ CHR 0x0A # (''token = '' @ quote @ t @ quote) @ CHR 0x0A #
      (''gateway = '' @ quote @ g @ quote) @ [CHR 0x0A]"
    by (simp add: session_text_def session_comment_def)
  show ?thesis
    unfolding joined by (rule split_on_lines) (use assms in \<open>simp_all add: session_comment_def\<close>)
qed

lemma session_loads:
  assumes "CHR 0x0A \<notin> set t" "CHR 0x0A \<notin> set g"
  shows "load_session (Some (session_text t g)) = Some (unquoted t, unquoted g)"
  by (simp only: load_session_def session_text_lines [OF assms] bind.bind_lunit fold_simps read_comment_line
      read_token_line read_gateway_line option.case prod.case)

text \<open>
  A login is remembered: when no token is given and none is set in the environment, the token
  and the gateway that \<open>admin login\<close> has stored are the ones the next command uses, provided
  they hold no quotation mark and no line break. A gateway named on the command line gets the
  stored token whatever its host, except that naming the default gateway counts as naming none.
\<close>

theorem login_remembered:
  assumes "run_login env mail pass gateway = (reqs, Inr (LoggedIn token content))"
    and "CHR 0x0A \<notin> set token \<union> set gateway" "CHR 0x22 \<notin> set token \<union> set gateway"
    and "env_token = None \<or> env_token = Some []"
  shows "resolve_target env_token (Some content) [] named =
    Inr (token, if named = default_gateway then gateway else named)"
proof -
  have content: "content = session_text token gateway"
    using assms(1) by (auto simp: run_login_def exchange_def split: sum.splits option.splits if_splits)
  have "load_session (Some content) = Some (token, gateway)"
    unfolding content using assms(2,3)
    by (subst session_loads) (auto simp: takeWhile_eq_all_conv)
  then show ?thesis
    using assms(4) by (auto simp: resolve_target_def resolve_token_def)
qed

section \<open>Requests\<close>

text \<open>
  The gateway of a command with a key, and the commands whose path is the user's: \<open>service test\<close>, and
  the removal of an identifier that is empty or has a slash, which no path of the interface has.
\<close>

definition odd_id :: "string \<Rightarrow> bool" where
  "odd_id i \<longleftrightarrow> i = [] \<or> CHR ''/'' \<in> set i"

fun command_gateway :: "cli_command \<Rightarrow> string" where
  "command_gateway (CStatus gw key) = gw"
| "command_gateway (CAdd name pref up gw key ups lb ver) = gw"
| "command_gateway (CRemove i gw key) = gw"
| "command_gateway (CList gw key) = gw"
| "command_gateway (CHealth gw key) = gw"
| "command_gateway (CStats gw key) = gw"
| "command_gateway (CCircuitBreakers gw key) = gw"
| "command_gateway (CCacheClear gw key) = gw"
| "command_gateway (CLogs n gw key) = gw"
| "command_gateway (CExport gw key out) = gw"
| "command_gateway (CImport inp gw key) = gw"
| "command_gateway (CProxyTest path verb gw key) = gw"
| "command_gateway (CService (SvcList gw key)) = gw"
| "command_gateway (CService (SvcAdd name pref up gw key ups lb ver)) = gw"
| "command_gateway (CService (SvcRemove i gw key)) = gw"
| "command_gateway (CService (SvcTest path verb gw key)) = gw"
| "command_gateway (CSecurity (SecAudit n gw key)) = gw"
| "command_gateway (CSecurity (SecWaf gw key)) = gw"
| "command_gateway (COps (OpsStats gw key)) = gw"
| "command_gateway (COps (OpsBreakers gw key)) = gw"
| "command_gateway (COps (OpsLogs n gw key)) = gw"
| "command_gateway (COps (OpsCacheClear gw key)) = gw"
| "command_gateway (CSystem (SysExport gw key out)) = gw"
| "command_gateway (CSystem (SysImport inp gw key)) = gw"
| "command_gateway _ = []"

fun user_path :: "cli_command \<Rightarrow> bool" where
  "user_path (CProxyTest path verb gw key) \<longleftrightarrow> True"
| "user_path (CService (SvcTest path verb gw key)) \<longleftrightarrow> True"
| "user_path (CRemove i gw key) \<longleftrightarrow> odd_id i"
| "user_path (CService (SvcRemove i gw key)) \<longleftrightarrow> odd_id i"
| "user_path _ \<longleftrightarrow> False"

definition xira_request :: "string \<Rightarrow> string \<Rightarrow> cli_request \<Rightarrow> bool" where
  "xira_request gateway key q \<longleftrightarrow>
     key \<noteq> [] \<and> cq_headers q = [(''X-Api-Key'', key)] \<and>
     (\<exists>path. cq_url q = gateway @ path \<and> xira_route (cq_verb q) path \<noteq> None)"

lemma exchange_sends: "fst (exchange env q show) = [q]"
  by (simp add: exchange_def)

lemma cli_routes:
  "xira_route ''GET'' ''/xira/services'' \<noteq> None" "xira_route ''POST'' ''/xira/services'' \<noteq> None"
  "xira_route ''GET'' ''/xira/stats'' \<noteq> None" "xira_route ''GET'' ''/xira/health'' \<noteq> None"
  "xira_route ''GET'' ''/xira/log-stats'' \<noteq> None" "xira_route ''GET'' ''/xira/config'' \<noteq> None"
  "xira_route ''GET'' ''/xira/circuit-breakers'' \<noteq> None" "xira_route ''POST'' ''/xira/cache/clear'' \<noteq> None"
  "xira_route ''GET'' ''/xira/security/waf'' \<noteq> None"
  by code_simp+

lemma service_route:
  assumes "i \<noteq> []" "CHR ''/'' \<notin> set i"
  shows "xira_route ''DELETE'' (''/xira/services/'' @ i) \<noteq> None"
proof -
  have "split_on CHR ''/'' (''/services/'' @ i) = [[], ''services'', i]"
    using split_on_append [of "CHR ''/''" "''/services''" i] assms(2) by (simp add: split_on_single)
  then have "path_fits ''/services/{id}'' (''/services/'' @ i)"
    using assms(1) by (simp add: path_fits_def segment_matches_def)
  then show ?thesis
    by (auto simp: xira_route_def strip_prefix_def xira_routes_def find_None_iff)
qed

lemma xira_request_to:
  "xira_request gateway key (request_to verb gateway path (with_key key) body) \<longleftrightarrow>
     key \<noteq> [] \<and> (\<exists>p. gateway @ path = gateway @ p \<and> xira_route verb p \<noteq> None)"
  by (auto simp: xira_request_def request_to_def with_key_def)

lemma import_requests:
  "import_request gateway key svc = Some q \<Longrightarrow> key \<noteq> [] \<Longrightarrow> xira_request gateway key q"
  using cli_routes(2) by (auto simp: import_request_def Let_def xira_request_to split: if_splits)

lemma run_import_requests:
  "q \<in> set (fst (run_import env path gateway key)) \<Longrightarrow> key \<noteq> [] \<Longrightarrow> xira_request gateway key q"
  by (auto simp: run_import_def Let_def List.map_filter_def import_requests split: option.splits)

lemma run_status_requests:
  "q \<in> set (fst (run_status env gateway key)) \<Longrightarrow> key \<noteq> [] \<Longrightarrow> xira_request gateway key q"
  using cli_routes by (auto simp: run_status_def Let_def xira_request_to split: sum.splits)

lemmas cli_runs = run_add_def run_list_def run_stats_def run_logs_def run_export_def run_remove_def run_health_def
  run_breakers_def run_cache_clear_def run_waf_def

lemma keyed_run:
  "command_key cmd = Some [] \<Longrightarrow> fst (run_cli env cmd) = []"
  by (simp add: run_cli.simps)

text \<open>What the theorem below says of one request.\<close>

definition fits :: "cli_command \<Rightarrow> string \<Rightarrow> cli_request \<Rightarrow> bool" where
  "fits cmd key q \<longleftrightarrow>
     key \<noteq> [] \<and> cq_headers q = [(''X-Api-Key'', key)] \<and>
     (\<exists>path. cq_url q = command_gateway cmd @ path \<and> (\<not> user_path cmd \<longrightarrow> xira_route (cq_verb q) path \<noteq> None))"

lemma fits_xira: "xira_request (command_gateway cmd) key q \<Longrightarrow> fits cmd key q"
  by (auto simp: fits_def xira_request_def)

lemma fits_user: "user_path cmd \<Longrightarrow> key \<noteq> [] \<Longrightarrow>
  fits cmd key (request_to verb (command_gateway cmd) path (with_key key) body)"
  by (simp add: fits_def request_to_def with_key_def)

lemma flat_served:
  assumes "q \<in> set (fst (run_cli env cmd))" "command_key cmd = Some key" "nested cmd = 0"
  shows "fits cmd key q"
proof (cases "user_path cmd")
  case True
  then show ?thesis
    using assms fits_user [OF True]
    by (cases cmd) (auto simp: run_cli.simps run_remove_def run_proxy_test_def Let_def exchange_sends split: if_splits)
next
  case False
  have "xira_request (command_gateway cmd) key q"
    using assms False cli_routes
    by (cases cmd)
      (auto simp: run_cli.simps exchange_sends cli_runs Let_def xira_request_to service_route [simplified] odd_id_def
        run_status_requests run_import_requests split: if_splits)
  then show ?thesis by (rule fits_xira)
qed

text \<open>A grouped command is the flat command of the same arguments; \<open>security waf\<close> has none.\<close>

lemma fits_grouped:
  "fits (CService (SvcList gw k)) = fits (CList gw k)"
  "fits (CService (SvcAdd name pref up gw k ups lb ver)) = fits (CAdd name pref up gw k ups lb ver)"
  "fits (CService (SvcRemove i gw k)) = fits (CRemove i gw k)"
  "fits (CService (SvcTest path verb gw k)) = fits (CProxyTest path verb gw k)"
  "fits (CSecurity (SecAudit n gw k)) = fits (CLogs n gw k)"
  "fits (COps (OpsStats gw k)) = fits (CStats gw k)"
  "fits (COps (OpsBreakers gw k)) = fits (CCircuitBreakers gw k)"
  "fits (COps (OpsLogs n gw k)) = fits (CLogs n gw k)"
  "fits (COps (OpsCacheClear gw k)) = fits (CCacheClear gw k)"
  "fits (CSystem (SysExport gw k out)) = fits (CExport gw k out)"
  "fits (CSystem (SysImport inp gw k)) = fits (CImport inp gw k)"
  by (simp_all add: fun_eq_iff fits_def)

lemma waf_served:
  "q \<in> set (fst (run_waf env gw key)) \<Longrightarrow> key \<noteq> [] \<Longrightarrow> fits (CSecurity (SecWaf gw key)) key q"
  using cli_routes(9) by (intro fits_xira) (auto simp: run_waf_def exchange_sends xira_request_to)

lemma cli_served:
  assumes "command_key cmd = Some key" "q \<in> set (fst (run_cli env cmd))"
  shows "fits cmd key q"
proof (cases "nested cmd = 0")
  case True
  then show ?thesis using assms flat_served by blast
next
  case False
  have key: "key \<noteq> []" using assms keyed_run [of cmd env] by auto
  show ?thesis
  proof (cases cmd)
    case (CService sc)
    then show ?thesis using assms key flat_served [of q env _ key]
      by (cases sc) (auto simp: run_cli.simps [of env "CService x" for x] fits_grouped)
  next
    case (CSecurity sc)
    then show ?thesis using assms key flat_served [of q env _ key] waf_served
      by (cases sc) (auto simp: run_cli.simps [of env "CSecurity x" for x] fits_grouped)
  next
    case (COps sc)
    then show ?thesis using assms key flat_served [of q env _ key]
      by (cases sc) (auto simp: run_cli.simps [of env "COps x" for x] fits_grouped)
  next
    case (CSystem sc)
    then show ?thesis using assms key flat_served [of q env _ key]
      by (cases sc) (auto simp: run_cli.simps [of env "CSystem x" for x] fits_grouped)
  qed (use False in simp_all)
qed

text \<open>
  C39: The client and the gateway agree on the interface. Every request that a command with a key
  sends carries that key, which is not empty, and goes to the gateway of the command; and it has a
  method and a path for which the administration interface has a handler, except where the path
  is the user's: that of \<open>service test\<close>, and an identifier to remove that is empty or has a slash.
  Without a key nothing is sent.
\<close>

theorem cli_requests_served:
  assumes "command_key cmd = Some key" "q \<in> set (fst (run_cli env cmd))"
  shows "key \<noteq> [] \<and> cq_headers q = [(''X-Api-Key'', key)] \<and>
    (\<exists>path. cq_url q = command_gateway cmd @ path \<and> (\<not> user_path cmd \<longrightarrow> xira_route (cq_verb q) path \<noteq> None))"
  using cli_served [OF assms] by (simp add: fits_def)

fun destructive :: "user_command \<Rightarrow> (string \<times> string \<times> bool) option" where
  "destructive (AdmSetRole user rl gw token yes) = Some (gw, token, yes)"
| "destructive (AdmDisable user gw token yes) = Some (gw, token, yes)"
| "destructive (AdmLogout user gw token yes) = Some (gw, token, yes)"
| "destructive (AdmMfaReset user gw token yes) = Some (gw, token, yes)"
| "destructive _ = None"

text \<open>
  Nothing is sent before a destructive command is confirmed; what is sent then carries the session
  token and goes to the gateway that were resolved together.
\<close>

theorem unconfirmed_sends_nothing:
  assumes "destructive ac = Some (gw, token, yes)" "\<not> confirmed env yes"
  shows "run_cli env (CAdmin ac) = ([], Inr Aborted)"
  using assms by (cases ac) (auto simp: run_cli.simps confirmed_call_def)

theorem confirmed_request_resolved:
  assumes "destructive ac = Some (gw, token, yes)" "q \<in> set (fst (run_cli env (CAdmin ac)))"
  obtains t g where "resolve_target (ce_token env) (ce_session env) token gw = Inr (t, g)"
    "cq_headers q = [(''Authorization'', ''Bearer '' @ t)]" "prefix g (cq_url q)"
proof -
  from assms obtain t g where "resolve_target (ce_token env) (ce_session env) token gw = Inr (t, g)"
    "cq_headers q = with_bearer t" "prefix g (cq_url q)"
    by (cases ac) (auto simp: run_cli.simps confirmed_call_def with_session_def exchange_sends request_to_def
        split: sum.splits if_splits)
  with that show thesis by (simp add: with_bearer_def)
qed

section \<open>The template\<close>

text \<open>What \<open>init\<close> writes, as its parser reads it; it has an \<open>[auth]\<close> section and no \<open>[admin]\<close>.\<close>

definition init_template :: table where
  "init_template =
     [(''gateway'', T_table [(''host'', T_str ''0.0.0.0''), (''port'', T_int 9000), (''workers'', T_int 4)]),
      (''rate_limit'', T_table [(''max_requests'', T_int 100), (''window_secs'', T_int 60)]),
      (''health'', T_table [(''interval_secs'', T_int 30), (''timeout_secs'', T_int 5)]),
      (''cache'', T_table [(''enabled'', T_bool True), (''ttl_secs'', T_int 300), (''max_entries'', T_int 1000)]),
      (''jwt'', T_table [(''enabled'', T_bool False), (''secret'', T_str ''change-me'')]),
      (''auth'', T_table [(''api_key'', T_str ''xira-secret-key-change-me'')]),
      (''alerting'', T_table [(''enabled'', T_bool False)]),
      (''plugins'', T_table [(''enabled'', T_bool True), (''directory'', T_str ''plugins'')]),
      (''grpc'', T_table [(''enabled'', T_bool False), (''port'', T_int 9001)]),
      (''services'', T_arr
         [T_table [(''name'', T_str ''my-api''), (''prefix'', T_str ''/api''),
                   (''upstream'', T_str ''http://localhost:3001''), (''health_endpoint'', T_str ''/health'')]])]"

lemma no_admin_section:
  "de_config t \<noteq> None \<Longrightarrow> map_of t ''admin'' \<noteq> None"
  by (auto simp: de_config_def field_def bind_eq_Some_conv split: option.splits)

lemma init_template_unreadable: "de_config init_template = None"
proof (rule ccontr)
  assume "de_config init_template \<noteq> None"
  then have "map_of init_template ''admin'' \<noteq> None" by (rule no_admin_section)
  then show False by (simp add: init_template_def)
qed

lemma fallback_config_rejected:
  "\<not> report_ok (validate file_exists rsa (override_port port xira_config_default))"
  by (simp add: report_ok_iff admin_errors_def override_port_def xira_config_default_def is_default_admin_key_def
      binds_externally_def split: option.split)

text \<open>
  C40: The file that \<open>init\<close> writes cannot be used: with nothing but this file, \<open>validate\<close> exits
  with status 1, the diagnosis reports it as unreadable, and \<open>serve\<close>, on whatever port, refuses
  to start, because it falls back to a built-in configuration that its own validation rejects.
\<close>

theorem init_template_unusable:
  assumes "read ''xiranet.toml'' = Some content" "parse content = Some init_template"
    and "ce_exists env = (\<lambda>p. p = ''xiranet.toml'')" "ce_config env = load_config read parse"
    and "dr_exists (ce_doctor env) = ce_exists env" "dr_config (ce_doctor env) = ce_config env"
  shows "run_cli env CInit = ([], Inr TemplateKept) \<and>
    run_cli env (CValidate ''xiranet.toml'') = ([], Inr ExitOne) \<and>
    (\<exists>es ws. run_cli env (CDoctor gateway) = ([], Inr (Diagnosed es ws)) \<and> ConfigUnreadable \<in> set es) \<and>
    (\<exists>n. serve L benv (override_port port (load_for_serve (ce_config env) (ce_exists env) ''xiranet.toml'')) =
      Inl (ConfigRejected n))"
proof -
  have none: "load_config read parse ''xiranet.toml'' = None"
    using assms(1,2) by (simp add: load_config_def init_template_unreadable)
  then have "load_for_serve (ce_config env) (ce_exists env) ''xiranet.toml'' = xira_config_default"
    by (simp add: assms(3,4) load_for_serve_def load_or_default_def config_paths_def)
  then have "\<exists>n. serve L benv (override_port port (load_for_serve (ce_config env) (ce_exists env) ''xiranet.toml'')) =
      Inl (ConfigRejected n)"
    using fallback_config_rejected by (simp add: serve_def Let_def)
  moreover have "ConfigUnreadable \<in> set (fst (doctor (ce_doctor env) gateway))"
    using none by (simp add: doctor_def doctor_config_def assms(3-6) Let_def)
  ultimately show ?thesis
    using none by (simp add: run_cli.simps run_validate_def run_init_def run_doctor_def assms(3,4) case_prod_unfold)
qed

section \<open>The diagnosis\<close>

text \<open>
  Host names are no socket addresses, so the diagnosis of a gateway on the default address says it
  cannot be reached, while its requests to the same gateway may well be answered.
\<close>

theorem default_gateway_reported_down:
  assumes "\<not> dr_socket_addr d ''localhost:9000''" "\<not> dr_connects d ''127.0.0.1:0''"
  shows "GatewayDown default_gateway \<in> set (snd (doctor d default_gateway))"
proof -
  have "char_of (57 :: nat) = CHR ''9''" "char_of (48 :: nat) = CHR ''0''"
    by (simp_all add: char_of_def bit_0 bit_Suc)
  then have digits: "show_nat 9000 = ''9000''"
    by (simp add: show_nat.simps [of 9000] show_nat.simps [of 900] show_nat.simps [of 90] show_nat.simps [of 9] digit_char_def)
  have "last (split_on CHR '':'' default_gateway) = ''9000''"
    by (simp add: default_gateway_def)
  with digits parse_show_nat [of 9000 65535]
  have port: "parse_uint 65535 (last (split_on CHR '':'' default_gateway)) = Some 9000"
    by simp
  have "leading_ws [''http://''] default_gateway = Some ''http://''" "leading_ws [''http://''] ''localhost:9000'' = None"
    "leading_ws [''https://''] ''localhost:9000'' = None" "drop (length ''http://'') default_gateway = ''localhost:9000''"
    by code_simp+
  then have plain: "strip_front [''https://''] (strip_front [''http://''] default_gateway) = ''localhost:9000''"
    by (simp only: strip_front.simps [of _ default_gateway] option.case strip_front_id)
  have host: "split_once CHR '':'' (rev ''localhost:9000'') = Some (''0009'', rev ''localhost'')"
    by code_simp
  from digits have "doctor_address (dr_socket_addr d) default_gateway =
      (if dr_socket_addr d ''localhost:9000'' then ''localhost:9000'' else ''127.0.0.1:0'')"
    by (simp only: doctor_address_def port plain host Let_def option.case prod.case rev_rev_ident append.simps)
  with assms show ?thesis by (simp add: doctor_def doctor_live_def Let_def)
qed

text \<open>
  A diagnosis without errors of a configuration file: the file exists, parses and passes the
  validation that \<open>serve\<close> starts with.
\<close>

theorem clean_diagnosis_validates:
  assumes "fst (doctor d gateway) = []"
  obtains c where "dr_config d ''xiranet.toml'' = Some c" "report_ok (validate (dr_exists d) (dr_rsa_ok d) c)"
  using assms that
  by (auto simp: doctor_def doctor_config_def report_ok_def Let_def split: if_splits option.splits)

section \<open>Answers of the gateway\<close>

text \<open>\<open>ApiResponse::ok\<close> as JSON, and two answers of the administration interface.\<close>

definition api_ok :: "string \<Rightarrow> json \<Rightarrow> json" where
  "api_ok message data = JObj [(''success'', JBool True), (''message'', JStr message), (''data'', data)]"

definition gateway_health :: "string \<Rightarrow> string \<Rightarrow> nat \<times> json" where
  "gateway_health version timestamp =
     (200, JObj [(''status'', JStr ''UP''), (''service'', JStr ''XIRA''), (''version'', JStr version),
                 (''timestamp'', JStr timestamp)])"

text \<open>A directory that exists, as its entries: the name, when it is UTF-8, and the length, when it can be read.\<close>

type_synonym log_directory = "(string option \<times> nat option) list option"

definition list_log_files :: "log_directory \<Rightarrow> string list" where
  "list_log_files d =
     (case d of None \<Rightarrow> []
      | Some entries \<Rightarrow> sort (filter (\<lambda>n. suffix ''.log'' n \<or> str_contains n ''xiranet'') (List.map_filter fst entries)))"

definition get_log_size :: "log_directory \<Rightarrow> nat" where
  "get_log_size d =
     (case d of None \<Rightarrow> 0 | Some entries \<Rightarrow> fold (\<lambda>n total_size. wrap_add64 total_size n) (List.map_filter snd entries) 0)"

text \<open>The formatting of the size in megabytes is an argument.\<close>

definition log_files_stats :: "(nat \<Rightarrow> string) \<Rightarrow> string \<Rightarrow> log_directory \<Rightarrow> json" where
  "log_files_stats megabytes dir d =
     (let files = list_log_files d; total_size = get_log_size d in
      JObj [(''log_directory'', JStr dir), (''file_count'', jnat (length files)), (''total_size_bytes'', jnat total_size),
            (''total_size_mb'', JStr (megabytes total_size)), (''files'', JArr (map JStr files))])"

definition get_log_stats :: "(nat \<Rightarrow> string) \<Rightarrow> log_directory \<Rightarrow> nat \<times> json" where
  "get_log_stats megabytes d = (200, api_ok ''Log statistics'' (log_files_stats megabytes ''logs'' d))"

lemma log_files_exact:
  "set (list_log_files (Some entries)) =
     {n. (\<exists>l. (Some n, l) \<in> set entries) \<and> (suffix ''.log'' n \<or> str_contains n ''xiranet'')}"
  "sorted (list_log_files d)"
  by (force simp: list_log_files_def List.map_filter_def split: option.splits)
    (simp add: list_log_files_def split: option.split)

lemma log_size_exact:
  "get_log_size (Some entries) = sum_list (List.map_filter snd entries) mod (u64_max + 1)"
proof -
  have fold: "fold (\<lambda>n t. wrap_add64 t n) ns t = (t + sum_list ns) mod (u64_max + 1)" if "t = t mod (u64_max + 1)" for ns t
    using that by (induction ns arbitrary: t) (simp_all add: wrap_add64_def mod_add_left_eq add.assoc)
  show ?thesis
    unfolding get_log_size_def option.case by (subst fold) simp_all
qed

text \<open>
  Two answers the client does not understand: a gateway that answers is shown as not healthy and
  without its uptime, and the log lines of \<open>logs\<close> are never there.
\<close>

theorem running_gateway_shown_unhealthy:
  assumes "ce_answer env (request_to ''GET'' gateway ''/xira/health'' (with_key key) None) =
      Inr (st, Some (snd (gateway_health version timestamp)))"
  shows "\<exists>stats svcs. snd (run_status env gateway key) = Inr (StatusShown False None stats svcs)"
  using assms by (simp add: run_status_def Let_def gateway_health_def text_or_def json_get_def)

theorem log_lines_never_shown:
  assumes "ce_answer env (request_to ''GET'' gateway ''/xira/log-stats'' (with_key key) None) =
      Inr (st, Some (snd (get_log_stats megabytes d)))"
  shows "snd (run_logs env n gateway key) = Inr (NoLogs (snd (get_log_stats megabytes d)))"
  using assms
  by (simp add: run_logs_def exchange_def get_log_stats_def api_ok_def log_files_stats_def Let_def json_get_def)

section \<open>Measurements, imports and the proxy test\<close>

lemma share_of_bounds:
  assumes "0 < n" shows "share_of 95 n < n" "share_of 99 n < n" "n div 2 \<le> share_of 95 n" "share_of 95 n \<le> share_of 99 n"
  using assms by (simp_all add: share_of_def div_less_iff_less_mult div_le_mono)

lemma length_filter_sum:
  "sum_list (map (\<lambda>c. length (filter ((=) c) xs)) (sort (remdups xs))) = length xs"
proof -
  have "sum_list (map (\<lambda>c. length (filter ((=) c) xs)) (sort (remdups xs))) = (\<Sum>c \<in> set xs. count_list xs c)"
    by (simp add: sum_list_distinct_conv_sum_set count_list_eq_length_filter)
  then show ?thesis by (simp add: sum_count_set)
qed

text \<open>
  With at least one answer and one permit the measurement ends without a panic; its counts add up
  and its figures are measured times in ascending order.
\<close>

theorem bench_exact:
  assumes "results \<noteq> []" "0 < concurrency" "ts = map (\<lambda>(_, _, d). d) results"
  obtains b where "bench (length results) concurrency results = BenchShown b"
    "bn_success b + bn_errors b = length results" "bn_success b = sum_list (map snd (bn_codes b))"
    "sorted [bn_min b, bn_p50 b, bn_p95 b, bn_p99 b, bn_max b]"
    "{bn_min b, bn_p50 b, bn_p95 b, bn_p99 b, bn_max b} \<subseteq> set ts"
    "\<forall>t \<in> set ts. bn_min b \<le> t \<and> t \<le> bn_max b"
proof -
  let ?s = "sort ts" and ?n = "length results"
  define good where "good = filter fst results"
  define codes where "codes = map (\<lambda>(_, c, _ :: real). c) good"
  have n: "0 < ?n" "length ?s = ?n" "ts \<noteq> []"
    using assms(1,3) by simp_all
  have mono: "?s ! i \<le> ?s ! j" if "i \<le> j" "j < ?n" for i j
    using that n by (simp add: sorted_nth_mono)
  have ends: "hd ?s = ?s ! 0" "last ?s = ?s ! (?n - 1)"
    using n by (metis hd_conv_nth length_greater_0_conv) (metis last_conv_nth length_greater_0_conv n)
  note at = share_of_bounds [OF n(1)]
  have ordered: "sorted [hd ?s, ?s ! (?n div 2), ?s ! share_of 95 ?n, ?s ! share_of 99 ?n, last ?s]"
    using at n mono by (simp add: ends)
  have members: "{hd ?s, ?s ! (?n div 2), ?s ! share_of 95 ?n, ?s ! share_of 99 ?n, last ?s} \<subseteq> set ts"
    using at n nth_mem [of _ ?s] by (simp add: ends)
  have bounds: "\<forall>t \<in> set ts. hd ?s \<le> t \<and> t \<le> last ?s"
  proof
    fix t assume "t \<in> set ts"
    then obtain i where "i < ?n" "?s ! i = t"
      using n(2) by (metis in_set_conv_nth set_sort)
    then show "hd ?s \<le> t \<and> t \<le> last ?s"
      using mono [of 0 i] mono [of i "?n - 1"] n(1) by (simp add: ends)
  qed
  have counts: "length good = sum_list (map (\<lambda>c. length (filter ((=) c) codes)) (sort (remdups codes)))"
    using length_filter_sum [of codes] by (simp add: codes_def)
  let ?b = "\<lparr>bn_success = length good, bn_errors = ?n - length good, bn_avg = sum_list ?s / real ?n,
    bn_p50 = ?s ! (?n div 2), bn_p95 = ?s ! share_of 95 ?n, bn_p99 = ?s ! share_of 99 ?n, bn_min = hd ?s, bn_max = last ?s,
    bn_codes = map (\<lambda>c. (c, length (filter ((=) c) codes))) (sort (remdups codes))\<rparr>"
  have shown: "bench ?n concurrency results = BenchShown ?b"
    unfolding bench_def Let_def assms(3) [symmetric] good_def [symmetric] codes_def [symmetric]
    using n assms(2) by simp
  have "length good \<le> ?n"
    by (simp add: good_def)
  then show thesis
    by (intro that [OF shown]) (use ordered members bounds counts in \<open>simp_all add: comp_def\<close>)
qed

text \<open>Without permits the measurement never ends, without requests it panics.\<close>

lemma bench_degenerate:
  "0 < n \<Longrightarrow> bench n 0 results = BenchHangs" "bench 0 k [] = BenchPanics"
  by (simp_all add: bench_def)

text \<open>
  An import keeps four fields of a service: its further upstreams, its balancing and its version
  are lost, and its health endpoint becomes the default. A refusal counts as imported.
\<close>

theorem import_loses_fields:
  assumes "import_request gateway key svc = Some q" "cq_body q = Some body"
  shows "json_get ''upstreams'' body = None" "json_get ''load_balance'' body = None" "json_get ''version'' body = None"
    "json_get ''health_endpoint'' body = Some (JStr ''/health'')"
    "json_get ''upstream'' body = Some (JStr (text_or [] ''upstream'' svc))"
  using assms by (auto simp: import_request_def request_to_def json_get_def Let_def split: if_splits)

theorem import_counts_refusals:
  assumes "\<And>q. ce_answer env q = Inr (409, answer q)" "run_import env path gateway key = (reqs, Inr (Imported n))"
  shows "n = length reqs"
  using assms by (auto simp: run_import_def Let_def split: option.splits)

text \<open>A long answer with a character across its 500th byte ends the proxy test in a panic.\<close>

theorem proxy_test_panics:
  assumes "ce_raw env q = Inr (st, body)" "500 \<le> length body" "\<not> is_char_boundary body 500"
    and "fst (run_proxy_test env path verb gateway key) = [q]"
  shows "snd (run_proxy_test env path verb gateway key) = Inr CliPanic"
  using assms by (auto simp: run_proxy_test_def Let_def)

section \<open>Concrete runs\<close>

definition demo_cli :: cli_env where
  "demo_cli =
     \<lparr>ce_answer = (\<lambda>_. Inr (200, Some (JObj [(''token'', JStr ''t'')]))), ce_raw = (\<lambda>_. Inl []), ce_file = (\<lambda>_. Some []),
      ce_writable = (\<lambda>_. True), ce_json = (\<lambda>_. None), ce_print = (\<lambda>_. []),
      ce_config = load_config (\<lambda>_. Some []) (\<lambda>_. Some init_template), ce_exists = (\<lambda>p. p = ''xiranet.toml''),
      ce_rsa_ok = (\<lambda>_. False), ce_token = None, ce_session = None, ce_typed = None, ce_bench = (\<lambda>_ _. []),
      ce_doctor = \<lparr>dr_secrets_key = None, dr_db_path = None, dr_exists = (\<lambda>p. p = ''xiranet.toml''),
        dr_appendable = (\<lambda>_. True), dr_parent = (\<lambda>_. []), dr_config = load_config (\<lambda>_. Some []) (\<lambda>_. Some init_template),
        dr_rsa_ok = (\<lambda>_. False), dr_socket_addr = (\<lambda>_. True),
        dr_connects = (\<lambda>_. False), dr_get = (\<lambda>_. Inl [])\<rparr>,
      ce_version = [], ce_time = []\<rparr>"

theorem login_remembered_witness:
  "resolve_target None (Some (session_text ''t'' ''http://g'')) [] default_gateway = Inr (''t'', ''http://g'')"
proof -
  have "run_login demo_cli ''a'' ''b'' ''http://g'' =
      ([request_to ''POST'' ''http://g'' ''/auth/login'' []
         (Some (JObj [(''email'', JStr ''a''), (''password'', JStr ''b'')]))],
       Inr (LoggedIn ''t'' (session_text ''t'' ''http://g'')))"
    by (simp add: run_login_def exchange_def demo_cli_def is_success_def json_get_def)
  from login_remembered [OF this, of None default_gateway] show ?thesis by simp
qed

theorem cli_requests_served_witness:
  "\<exists>q path. fst (run_cli demo_cli (CService (SvcList ''http://g'' ''k''))) = [q] \<and> cq_url q = ''http://g'' @ path \<and>
     xira_route (cq_verb q) path \<noteq> None"
proof -
  obtain q where q: "fst (run_cli demo_cli (CService (SvcList ''http://g'' ''k''))) = [q]"
    by (simp add: run_cli.simps [of demo_cli "CService sc" for sc] run_cli.simps [of demo_cli "CList gw k" for gw k]
        run_list_def exchange_sends)
  with cli_requests_served [of "CService (SvcList ''http://g'' ''k'')" "''k''" q demo_cli]
  show ?thesis by auto
qed

theorem init_template_unusable_witness:
  "run_cli demo_cli (CValidate ''xiranet.toml'') = ([], Inr ExitOne) \<and>
   (\<exists>n. serve list_lru demo_boot (override_port None (load_for_serve (ce_config demo_cli) (ce_exists demo_cli) ''xiranet.toml'')) =
      Inl (ConfigRejected n))"
  using init_template_unusable [of "\<lambda>_. Some []" "[]" "\<lambda>_. Some init_template" demo_cli "[]" list_lru demo_boot None]
  by (simp add: demo_cli_def)

end
