(* ===== verification/Tunnels.thy ===== *)
theory Tunnels
  imports Service_Table Alerts Admin_Api
begin

text \<open>
  The entries beside the HTTP proxy: src/src/grpc/mod.rs, src/src/gateway/websocket.rs,
  graphql.rs, request_replay.rs, connection_pool.rs, ws_metrics.rs, the authorization of the live
  pages in src/src/dashboard/mod.rs, and the distributed limiter src/src/middleware/redis_rate_limit.rs.
  An answer of an upstream or of Redis is an argument. Of these, main.rs runs the gRPC proxy, the
  WebSocket routes and the live pages.
\<close>

section \<open>gRPC\<close>

definition is_hop_by_hop :: "string \<Rightarrow> bool" where
  "is_hop_by_hop name \<longleftrightarrow> to_ascii_lowercase name \<in>
     {''connection'', ''keep-alive'', ''proxy-authenticate'', ''proxy-authorization'', ''te'', ''trailer'',
      ''transfer-encoding'', ''upgrade'', ''host'', ''content-length''}"

record grpc_request =
  gq_path :: string
  gq_headers :: "(string \<times> string) list"
  gq_body :: "string option"

record grpc_call =
  gl_url :: string
  gl_headers :: "(string \<times> string) list"
  gl_body :: string

text \<open>An answer: its status, its headers, and its body when it could be read to the end.\<close>

type_synonym grpc_reply = "string + (nat \<times> (string \<times> string) list \<times> string option)"

record grpc_response =
  gp_status :: nat
  gp_headers :: "(string \<times> string) list"
  gp_body :: string

definition end_to_end :: "(string \<times> string) list \<Rightarrow> (string \<times> string) list" where
  "end_to_end hs = str_headers (filter (\<lambda>(k, _). \<not> is_hop_by_hop k) hs)"

definition grpc_failure :: "nat \<Rightarrow> string \<Rightarrow> string \<Rightarrow> grpc_response" where
  "grpc_failure st code message =
     \<lparr>gp_status = st, gp_headers = [(''content-type'', ''application/grpc''), (''grpc-status'', code), (''grpc-message'', message)],
      gp_body = []\<rparr>"

definition internal_grpc_error :: grpc_response where
  "internal_grpc_error = grpc_failure 500 ''13'' ''proxy internal error''"

definition grpc_forward :: "service_entry \<Rightarrow> grpc_request \<Rightarrow> grpc_call" where
  "grpc_forward svc req =
     \<lparr>gl_url = svc_upstream svc @ (case strip_prefix (svc_prefix svc) (gq_path req) of Some p \<Rightarrow> p | None \<Rightarrow> gq_path req),
      gl_headers = end_to_end (gq_headers req),
      gl_body = (case gq_body req of Some b \<Rightarrow> b | None \<Rightarrow> [])\<rparr>"

text \<open>The call that is made, if any, and the answer. \<open>from_u16\<close> takes the statuses from 100 to 999.\<close>

definition handle_grpc_request :: "(grpc_call \<Rightarrow> grpc_reply) \<Rightarrow> registry \<Rightarrow> grpc_request \<Rightarrow> grpc_call option \<times> grpc_response" where
  "handle_grpc_request send reg req =
     (case reg_lookup (gq_path req) reg of
        None \<Rightarrow> (None, grpc_failure 404 ''12'' ''no service registered for path'')
      | Some svc \<Rightarrow>
          (let call = grpc_forward svc req in
           (Some call, case send call of
                         Inl _ \<Rightarrow> grpc_failure 502 ''14'' ''upstream unavailable''
                       | Inr (st, hs, body) \<Rightarrow>
                           (case body of
                              None \<Rightarrow> internal_grpc_error
                            | Some b \<Rightarrow> \<lparr>gp_status = status_or 500 st, gp_headers = end_to_end hs, gp_body = b\<rparr>))))"

lemma end_to_end_mem:
  "(k, v) \<in> set (end_to_end hs) \<longleftrightarrow> (k, v) \<in> set hs \<and> \<not> is_hop_by_hop k \<and> header_str v = Some v"
  by (force simp: end_to_end_def str_headers_def List.map_filter_def header_str_def split: if_splits)

lemma failure_headers: "(k, v) \<in> set (gp_headers (grpc_failure st code message)) \<Longrightarrow> \<not> is_hop_by_hop k"
proof -
  have "\<not> is_hop_by_hop ''content-type''" "\<not> is_hop_by_hop ''grpc-status''" "\<not> is_hop_by_hop ''grpc-message''"
    by code_simp+
  then show "(k, v) \<in> set (gp_headers (grpc_failure st code message)) \<Longrightarrow> \<not> is_hop_by_hop k"
    by (auto simp: grpc_failure_def)
qed

text \<open>
  What a gRPC client sends reaches the service with the longest matching prefix, whoever it is from:
  no key, session, address or limit is asked for. Hop-by-hop headers and values that are not text are
  left out in both directions, everything else stays.
\<close>

theorem grpc_forwards_to_service:
  assumes "handle_grpc_request send reg req = (Some call, resp)"
  obtains svc where "reg_lookup (gq_path req) reg = Some svc" "prefix (svc_upstream svc) (gl_url call)"
    "\<forall>k v. (k, v) \<in> set (gl_headers call) \<longleftrightarrow> (k, v) \<in> set (gq_headers req) \<and> \<not> is_hop_by_hop k \<and> header_str v = Some v"
    "\<forall>k v. (k, v) \<in> set (gp_headers resp) \<longrightarrow> \<not> is_hop_by_hop k"
proof -
  obtain svc where svc: "reg_lookup (gq_path req) reg = Some svc" "call = grpc_forward svc req"
    using assms by (auto simp: handle_grpc_request_def Let_def split: option.splits)
  have "\<not> is_hop_by_hop k" if "(k, v) \<in> set (gp_headers resp)" for k v
    using assms that svc(1) failure_headers
    by (auto simp: handle_grpc_request_def Let_def end_to_end_mem internal_grpc_error_def split: sum.splits option.splits)
  then show thesis
    by (intro that [OF svc(1)]) (simp_all add: svc(2) grpc_forward_def end_to_end_mem)
qed

text \<open>
  A service registered under its gRPC name is called without it: the upstream sees the method alone,
  which is not a gRPC path. The header that a gRPC server requires, te, is always dropped.
\<close>

theorem grpc_service_name_stripped:
  assumes "reg_lookup (''/'' @ name @ ''/'' @ meth) reg = Some svc" "svc_prefix svc = ''/'' @ name"
    and "gq_path req = ''/'' @ name @ ''/'' @ meth"
  shows "\<exists>call resp. handle_grpc_request send reg req = (Some call, resp) \<and>
    gl_url call = svc_upstream svc @ ''/'' @ meth \<and> (\<forall>v. (''te'', v) \<notin> set (gl_headers call))"
proof -
  have "strip_prefix (svc_prefix svc) (gq_path req) = Some (''/'' @ meth)"
    by (simp add: strip_prefix_eq assms)
  moreover have "is_hop_by_hop ''te''" by (simp add: is_hop_by_hop_def to_ascii_lowercase_def ascii_lower_def)
  ultimately show ?thesis
    using assms by (simp add: handle_grpc_request_def grpc_forward_def end_to_end_mem Let_def)
qed

section \<open>WebSocket\<close>

definition ws_url :: "service_entry \<Rightarrow> string \<Rightarrow> string" where
  "ws_url svc path =
     (let down = (case strip_prefix (svc_prefix svc) path of Some p \<Rightarrow> p | None \<Rightarrow> ''/'');
          down = (if down = [] then ''/'' else down)
      in str_replace ''https://'' ''wss://'' (str_replace ''http://'' ''ws://'' (svc_upstream svc)) @ down)"

text \<open>The messages of both libraries; \<open>WsOther\<close> are the parts of a fragmented message and the like.\<close>

datatype ws_message =
    WsText string | WsBinary string | WsPing string | WsPong string | WsClose "(nat \<times> string) option" | WsOther

text \<open>
  One direction of the tunnel: the messages handed to the other side. The messages read come with
  whether the other side takes them, up to the end of the stream or an error (\<open>None\<close>); a
  close message is handed on and ends the direction. When the client's direction ends the other
  one is cut short.
\<close>

fun ws_relay :: "(ws_message \<times> bool) option list \<Rightarrow> ws_message list" where
  "ws_relay [] = []"
| "ws_relay (None # _) = []"
| "ws_relay (Some (WsOther, _) # ms) = ws_relay ms"
| "ws_relay (Some (WsClose r, _) # _) = [WsClose r]"
| "ws_relay (Some (m, ok) # ms) = m # (if ok then ws_relay ms else [])"

definition websocket_proxy ::
  "(string \<Rightarrow> bool) \<Rightarrow> registry \<Rightarrow> string \<Rightarrow> (ws_message \<times> bool) option list \<Rightarrow> (ws_message \<times> bool) option list \<Rightarrow>
   nat + (string \<times> ws_message list \<times> ws_message list)" where
  "websocket_proxy connects reg path from_client from_upstream =
     (case reg_lookup path reg of
        None \<Rightarrow> Inl 404
      | Some svc \<Rightarrow>
          (let url = ws_url svc path in
           if connects url then Inr (url, ws_relay from_client, ws_relay from_upstream) else Inr (url, [], [])))"

text \<open>What is passed on is, in order, what was read, without the fragments and nothing after a close.\<close>

theorem ws_relay_order:
  "prefix (ws_relay ms) (filter ((\<noteq>) WsOther) (map fst (map the (takeWhile (\<lambda>m. m \<noteq> None) ms))))"
  "WsOther \<notin> set (ws_relay ms)"
  "ws_relay ms = xs @ WsClose r # ys \<Longrightarrow> ys = []"
proof -
  show "prefix (ws_relay ms) (filter ((\<noteq>) WsOther) (map fst (map the (takeWhile (\<lambda>m. m \<noteq> None) ms))))"
    by (induction ms rule: ws_relay.induct) auto
  show "WsOther \<notin> set (ws_relay ms)"
    by (induction ms rule: ws_relay.induct) auto
  show "ws_relay ms = xs @ WsClose r # ys \<Longrightarrow> ys = []"
    by (induction ms arbitrary: xs rule: ws_relay.induct) (auto simp: Cons_eq_append_conv split: if_splits)
qed

text \<open>A message that a client sends in fragments never arrives.\<close>

lemma fragments_lost: "ws_relay (replicate n (Some (WsOther, ok))) = []"
  by (induction n) auto

section \<open>GraphQL\<close>

text \<open>The services come in the order of the map.\<close>

definition determine_target_service :: "string \<Rightarrow> service_entry list \<Rightarrow> service_entry option" where
  "determine_target_service query svcs =
     (case find (\<lambda>s. str_contains query (dropWhile ((=) CHR ''/'') (svc_prefix s))) svcs of
        Some s \<Rightarrow> Some s
      | None \<Rightarrow> (case svcs of [] \<Rightarrow> None | s # _ \<Rightarrow> Some s))"

definition serve_combined_schema :: "service_entry list \<Rightarrow> json" where
  "serve_combined_schema svcs =
     JObj [(''data'', JObj [(''__schema'', JObj
       [(''queryType'', JObj [(''name'', JStr ''Query'')]),
        (''types'', JArr (map (\<lambda>s. JObj
           [(''name'', JStr (svc_name s)),
            (''fields'', JArr [JObj [(''name'', JStr ''id''), (''type'', JObj [(''name'', JStr ''ID'')])]]),
            (''upstream'', JStr (svc_upstream s))]) svcs)),
        (''description'', JStr ''XIRA federated GraphQL schema'')])])]"

datatype graphql_answer =
    GqlInvalid | GqlProxied nat string | GqlUpstreamUnread | GqlUpstreamDown | GqlSchema json | GqlNoService

text \<open>\<open>parse\<close> reads JSON; \<open>send\<close> posts a body to an address.\<close>

definition graphql_handler ::
  "(string \<Rightarrow> json option) \<Rightarrow> (string \<Rightarrow> string \<Rightarrow> string + (nat \<times> string option)) \<Rightarrow> service_entry list \<Rightarrow> string \<Rightarrow> graphql_answer" where
  "graphql_handler parse send svcs body =
     (case parse (from_utf8_lossy body) of
        None \<Rightarrow> GqlInvalid
      | Some req \<Rightarrow>
          (let query = (case Option.bind (json_get ''query'' req) as_text of Some q \<Rightarrow> q | None \<Rightarrow> []) in
           case determine_target_service query svcs of
             Some s \<Rightarrow> (case send (svc_upstream s @ ''/graphql'') body of
                         Inl _ \<Rightarrow> GqlUpstreamDown
                       | Inr (st, None) \<Rightarrow> GqlUpstreamUnread
                       | Inr (st, Some b) \<Rightarrow> GqlProxied st b)
           | None \<Rightarrow> if str_contains query ''__schema'' \<or> str_contains query ''__type''
                     then GqlSchema (serve_combined_schema svcs) else GqlNoService))"

lemma determine_target_None: "determine_target_service query svcs = None \<longleftrightarrow> svcs = []"
  by (auto simp: determine_target_service_def split: option.split list.split)

text \<open>
  Every query goes to some service as long as there is one, so the combined schema is only served
  when there is nothing to combine; a service at the root takes every query that reaches it.
\<close>

theorem combined_schema_empty:
  assumes "graphql_handler parse send svcs body = GqlSchema j"
  shows "svcs = []" and "j = serve_combined_schema []"
proof -
  show "svcs = []"
    using assms determine_target_None
    by (auto simp: graphql_handler_def Let_def split: option.splits sum.splits if_splits)
  then show "j = serve_combined_schema []"
    using assms by (auto simp: graphql_handler_def Let_def split: option.splits sum.splits if_splits)
qed

lemma root_service_takes_all:
  "svc_prefix s = [] \<Longrightarrow> determine_target_service query (s # svcs) = Some s"
  by (simp add: determine_target_service_def str_contains_sublist)

section \<open>The distributed limiter\<close>

record distributed_limiter =
  dl_connected :: bool
  dl_max_requests :: nat
  dl_window_secs :: nat

text \<open>\<open>connect\<close> is \<open>Client::open\<close> and the connection: whether it comes about.\<close>

definition distributed_new :: "(string \<Rightarrow> bool) \<Rightarrow> string option \<Rightarrow> nat \<Rightarrow> nat \<Rightarrow> distributed_limiter" where
  "distributed_new connect url max_requests window_secs =
     \<lparr>dl_connected = (case url of Some u \<Rightarrow> connect u | None \<Rightarrow> False), dl_max_requests = max_requests,
      dl_window_secs = window_secs\<rparr>"

definition is_enabled :: "distributed_limiter \<Rightarrow> bool" where
  "is_enabled l \<longleftrightarrow> dl_connected l"

datatype redis_command = Incr string nat | Expire string nat

text \<open>
  A check: the commands it sends, given the counter that Redis answers (\<open>None\<close> when it fails), whether
  the request may pass, and how many are left. The answer to EXPIRE is not looked at.
\<close>

definition check_rate_limit :: "distributed_limiter \<Rightarrow> string \<Rightarrow> nat option \<Rightarrow> redis_command list \<times> bool \<times> nat" where
  "check_rate_limit l ip counter =
     (if \<not> dl_connected l then ([], True, 0)
      else let key = ''xiranet:rl:'' @ ip in
        case counter of
          None \<Rightarrow> ([Incr key 1], True, 0)
        | Some n \<Rightarrow> (Incr key 1 # (if n = 1 then [Expire key (dl_window_secs l)] else []),
                     n \<le> dl_max_requests l, dl_max_requests l - n))"

definition check_service_rate_limit ::
  "distributed_limiter \<Rightarrow> string \<Rightarrow> string \<Rightarrow> nat \<Rightarrow> nat option \<Rightarrow> redis_command list \<times> bool" where
  "check_service_rate_limit l ip service_id max_allowed counter =
     (if \<not> dl_connected l then ([], True)
      else let key = ''xiranet:rl:'' @ service_id @ '':'' @ ip; n = (case counter of Some n \<Rightarrow> n | None \<Rightarrow> 0) in
        (Incr key 1 # (if n = 1 then [Expire key (dl_window_secs l)] else []), n \<le> max_allowed))"

text \<open>The commands of one client's requests, as Redis counts them up from one.\<close>

definition counted_commands :: "distributed_limiter \<Rightarrow> string \<Rightarrow> nat \<Rightarrow> redis_command list" where
  "counted_commands l ip n = concat (map (\<lambda>i. fst (check_rate_limit l ip (Some i))) [1..<Suc n])"

text \<open>
  With Redis counting, exactly the first requests up to the limit pass. The life time of the key is set
  with the first request, in a command of its own, and never again: when that one command is lost
  the key never expires, and once the limit is reached the client is refused for good.
\<close>

theorem distributed_limit_exact:
  assumes "dl_connected l" "0 < n"
  shows "(fst (snd (check_rate_limit l ip (Some n))) \<longleftrightarrow> n \<le> dl_max_requests l) \<and>
    filter (\<lambda>c. \<exists>k w. c = Expire k w) (counted_commands l ip n) = [Expire (''xiranet:rl:'' @ ip) (dl_window_secs l)] \<and>
    hd (tl (counted_commands l ip n)) = Expire (''xiranet:rl:'' @ ip) (dl_window_secs l)"
proof -
  have cmds: "fst (check_rate_limit l ip (Some i)) =
      Incr (''xiranet:rl:'' @ ip) 1 # (if i = 1 then [Expire (''xiranet:rl:'' @ ip) (dl_window_secs l)] else [])" for i
    using assms(1) by (simp add: check_rate_limit_def Let_def)
  have upt: "[1..<Suc n] = 1 # [Suc 1..<Suc n]"
    using assms(2) by (subst upt_conv_Cons) simp_all
  have "filter (\<lambda>c. \<exists>k w. c = Expire k w) (concat (map (\<lambda>i. fst (check_rate_limit l ip (Some i))) [Suc 1..<Suc n])) = []"
    by (auto simp: cmds filter_empty_conv)
  then show ?thesis
    using assms(1) unfolding counted_commands_def upt by (simp add: cmds, simp add: check_rate_limit_def Let_def)
qed

text \<open>Without Redis, or when it fails, everything passes; the local limiter is not asked.\<close>

lemma redis_down_allows:
  "\<not> dl_connected l \<Longrightarrow> fst (snd (check_rate_limit l ip c))" "fst (snd (check_rate_limit l ip None))"
  "snd (check_service_rate_limit l ip s m None)"
  by (auto simp: check_rate_limit_def check_service_rate_limit_def Let_def)

text \<open>A service and an address share their keys with an address that is spelled with both.\<close>

lemma rate_limit_keys_collide:
  "dl_connected l \<Longrightarrow> hd (fst (check_service_rate_limit l ip s m c)) = hd (fst (check_rate_limit l (s @ '':'' @ ip) c))"
  by (auto simp: check_rate_limit_def check_service_rate_limit_def Let_def split: option.split)

section \<open>Replay\<close>

record replay_result =
  rp_status :: nat
  rp_body_size :: nat
  rp_original_method :: string
  rp_original_url :: string

text \<open>The rows that the storage hands out, as JSON.\<close>

definition log_row_json :: "log_row \<Rightarrow> json" where
  "log_row_json l = JObj
     [(''service_id'', case lg_service l of Some i \<Rightarrow> JStr i | None \<Rightarrow> JNull), (''method'', JStr (lg_method l)),
      (''path'', JStr (lg_path l)), (''status'', jnat (lg_status l)), (''duration_ms'', JNum (lg_duration_ms l)),
      (''peer_ip'', JStr (lg_peer l)), (''timestamp'', JStr (lg_timestamp l))]"

definition replay_by_id ::
  "(string \<Rightarrow> string \<Rightarrow> string + (nat \<times> nat option)) \<Rightarrow> string \<Rightarrow> json list \<Rightarrow> string + replay_result" where
  "replay_by_id send log_id logs =
     (case find (\<lambda>l. Option.bind (json_get ''id'' l) as_text = Some log_id) logs of
        None \<Rightarrow> Inl ''Log entry not found''
      | Some l \<Rightarrow>
          (let verb = (case Option.bind (json_get ''method'' l) as_text of Some m \<Rightarrow> m | None \<Rightarrow> ''GET'');
               url = (case Option.bind (json_get ''url'' l) as_text of Some u \<Rightarrow> u | None \<Rightarrow> [])
           in if url = [] then Inl ''Log entry has no URL''
              else case send (if verb \<in> {''POST'', ''PUT'', ''DELETE''} then verb else ''GET'') url of
                     Inl e \<Rightarrow> Inl (''Replay failed: '' @ e)
                   | Inr (st, len) \<Rightarrow>
                       Inr \<lparr>rp_status = st, rp_body_size = (case len of Some n \<Rightarrow> n | None \<Rightarrow> 0),
                            rp_original_method = verb, rp_original_url = url\<rparr>))"

text \<open>No logged request can be replayed: the rows of the storage have no id and no url.\<close>

theorem replay_never_finds:
  "replay_by_id send log_id (map log_row_json (get_recent_logs 100 db)) = Inl ''Log entry not found''"
proof -
  have "find (\<lambda>l. Option.bind (json_get ''id'' l) as_text = Some log_id) (map log_row_json (get_recent_logs 100 db)) = None"
    by (auto simp: find_None_iff log_row_json_def json_get_def)
  then show ?thesis by (simp add: replay_by_id_def)
qed

section \<open>The connection pool\<close>

record pool_stats =
  pool_total :: nat
  pool_reused :: nat
  pool_failed :: nat

definition record_connection :: "bool \<Rightarrow> pool_stats \<Rightarrow> pool_stats" where
  "record_connection reused p =
     p\<lparr>pool_total := wrap_add64 (pool_total p) 1,
       pool_reused := (if reused then wrap_add64 (pool_reused p) 1 else pool_reused p)\<rparr>"

definition record_failure_of_pool :: "pool_stats \<Rightarrow> pool_stats" where
  "record_failure_of_pool p = p\<lparr>pool_failed := wrap_add64 (pool_failed p) 1\<rparr>"

lemma pool_counts_exact:
  assumes "pool_total p + length rs \<le> u64_max" "pool_reused p \<le> pool_total p"
  shows "pool_total (fold record_connection rs p) = pool_total p + length rs \<and>
    pool_reused (fold record_connection rs p) = pool_reused p + length (filter (\<lambda>r. r) rs)"
  using assms
proof (induction rs arbitrary: p)
  case (Cons r rs)
  have "pool_total (record_connection r p) = pool_total p + 1"
    "pool_reused (record_connection r p) = pool_reused p + (if r then 1 else 0)"
    using Cons.prems by (auto simp: record_connection_def wrap_add64_exact)
  with Cons.IH [of "record_connection r p"] Cons.prems show ?case by simp
qed simp

section \<open>Live pages\<close>

text \<open>The key of a live page: a header of its own, a bearer token, or a protocol a browser can name.\<close>

definition extract_admin_token :: "gw_request \<Rightarrow> string option" where
  "extract_admin_token req =
     (case req_header ''x-api-key'' req of
        Some v \<Rightarrow> Some v
      | None \<Rightarrow>
          (case Option.bind (req_header ''authorization'' req) (strip_prefix ''Bearer '') of
             Some v \<Rightarrow> Some v
           | None \<Rightarrow>
               Option.bind (req_header ''sec-websocket-protocol'' req) (\<lambda>ps.
                 Option.bind (find (\<lambda>p. strip_prefix ''xira.token.'' p \<noteq> None) (map trim (split_on CHR '','' ps)))
                   (strip_prefix ''xira.token.''))))"

definition authorize_admin_request :: "xira_config \<Rightarrow> gw_request \<Rightarrow> bool" where
  "authorize_admin_request c req =
     (case extract_admin_token req of Some token \<Rightarrow> ct_eq_str token (c_admin_api_key (c_admin c)) | None \<Rightarrow> False)"

text \<open>What the page is sent every five seconds, and the metrics every two, as long as it listens.\<close>

definition dashboard_payload :: "registry \<Rightarrow> nat \<Rightarrow> json" where
  "dashboard_payload reg uptime =
     (let svcs = list_all_services reg; up = length (filter (\<lambda>s. svc_status s = Up) svcs) in
      JObj [(''type'', JStr ''stats''), (''data'', JObj
        [(''total_services'', jnat (length svcs)), (''services_up'', jnat up), (''services_down'', jnat (length svcs - up)),
         (''total_requests'', jnat (fold (\<lambda>s n. wrap_add64 n (request_count s)) svcs 0)), (''uptime_seconds'', jnat uptime)])])"

definition ws_dashboard_handler :: "xira_config \<Rightarrow> gw_request \<Rightarrow> (registry \<times> nat) list \<Rightarrow> json list option" where
  "ws_dashboard_handler c req ticks =
     (if authorize_admin_request c req then Some (map (\<lambda>(reg, uptime). dashboard_payload reg uptime) ticks) else None)"

text \<open>
  A live page opens exactly for a request whose first token, in the order header, bearer, protocol, is
  the key of the current configuration; the query string is not looked at.
\<close>

theorem live_page_exact:
  "(ws_dashboard_handler c req ticks \<noteq> None \<longleftrightarrow> extract_admin_token req = Some (c_admin_api_key (c_admin c))) \<and>
   ws_dashboard_handler c (req\<lparr>gr_query := q\<rparr>) ticks = ws_dashboard_handler c req ticks"
  by (auto simp: ws_dashboard_handler_def authorize_admin_request_def extract_admin_token_def req_header_def
      split: option.splits)

text \<open>Services never checked count as down on the page.\<close>

lemma unknown_counts_as_down:
  assumes "\<forall>s \<in> set (list_all_services reg). svc_status s = Unknown"
  shows "json_get ''services_down'' (the (json_get ''data'' (dashboard_payload reg t))) = Some (jnat (length (list_all_services reg)))"
proof -
  have "filter (\<lambda>s. svc_status s = Up) (list_all_services reg) = []"
    using assms by (auto simp: filter_empty_conv)
  then show ?thesis by (simp add: dashboard_payload_def Let_def json_get_def)
qed

end
