(* ===== verification/Audit_Sink.thy ===== *)
theory Audit_Sink
  imports Audit_Log Url_Guard
begin

text \<open>
  src/src/middleware/audit_sink.rs: entries of the audit log are also written outside the database.
  The dispatcher is a bounded queue in front of a task that takes an entry and hands it to every
  sink in turn; a queue that is full refuses. What the file system and the receiver answer, and the
  JSON text of an entry, are arguments.
\<close>

section \<open>Sinks\<close>

datatype audit_sink = FileSink string | HttpSink string "(string \<times> string) list"

fun sink_name :: "audit_sink \<Rightarrow> string" where
  "sink_name (FileSink path) = ''file''"
| "sink_name (HttpSink url headers) = ''http''"

text \<open>How far an append came: not opened, a part of the line written, the line without its end, all.\<close>

datatype append_outcome = OpenFails string | LineFails nat string | EndFails string | Appended

definition file_sink_write ::
  "(audit_entry \<Rightarrow> string + string) \<Rightarrow> audit_entry \<Rightarrow> append_outcome \<Rightarrow> string \<Rightarrow> string \<times> (string + unit)" where
  "file_sink_write to_json entry outcome content =
     (case to_json entry of
        Inl e \<Rightarrow> (content, Inl (''ser: '' @ e))
      | Inr line \<Rightarrow>
          (case outcome of
             OpenFails e \<Rightarrow> (content, Inl (''open: '' @ e))
           | LineFails n e \<Rightarrow> (content @ take n line, Inl (''write: '' @ e))
           | EndFails e \<Rightarrow> (content @ line, Inl (''nl: '' @ e))
           | Appended \<Rightarrow> (content @ line @ [CHR 0x0A], Inr ())))"

record http_post =
  hp_url :: string
  hp_headers :: "(string \<times> string) list"
  hp_entry :: audit_entry

text \<open>The request that is sent, if any; the address is looked at by the strict guard before each.\<close>

definition http_sink_write ::
  "net_env \<Rightarrow> (http_post \<Rightarrow> string + nat) \<Rightarrow> string \<Rightarrow> (string \<times> string) list \<Rightarrow> audit_entry \<Rightarrow> http_post option \<times> (string + unit)" where
  "http_sink_write net send url headers entry =
     (case validate_outbound_url net url of
        Inl _ \<Rightarrow> (None, Inl ''url_guard'')
      | Inr _ \<Rightarrow>
          (let post = \<lparr>hp_url = url, hp_headers = headers, hp_entry = entry\<rparr> in
           (Some post, case send post of
                         Inl e \<Rightarrow> Inl (''send: '' @ e)
                       | Inr st \<Rightarrow> if 200 \<le> st \<and> st < 300 then Inr () else Inl ''status'')))"

text \<open>The file only grows, and an entry that is reported as written is a line of its own when its text has no line break.\<close>

lemma file_sink_appends: "prefix content (fst (file_sink_write to_json entry outcome content))"
  by (simp add: file_sink_write_def split: sum.split append_outcome.split)

lemma file_sink_lines:
  assumes "file_sink_write to_json entry outcome content = (content', Inr ())" "to_json entry = Inr line"
    and "CHR 0x0A \<notin> set line" "content = [] \<or> last content = CHR 0x0A"
  shows "last content' = CHR 0x0A" and "\<exists>before. split_on CHR 0x0A content' = before @ [line, []]"
proof -
  have written: "content' = content @ line @ [CHR 0x0A]"
    using assms(1,2) by (simp add: file_sink_write_def split: append_outcome.splits)
  then show "last content' = CHR 0x0A" by simp
  have one: "split_on CHR 0x0A (line @ [CHR 0x0A]) = [line, []]"
    using assms(3) split_on_append [of "CHR 0x0A" line "[]"] by (simp add: split_on_single)
  show "\<exists>before. split_on CHR 0x0A content' = before @ [line, []]"
  proof (cases "content = []")
    case True
    then show ?thesis using written one by simp
  next
    case False
    then obtain c where "content = c @ [CHR 0x0A]"
      using assms(4) by (metis append_butlast_last_id)
    then have "content' = c @ CHR 0x0A # (line @ [CHR 0x0A])" using written by simp
    then show ?thesis using one by (simp only: split_on_append) blast
  qed
qed

text \<open>After a write that failed half way the next entry continues the broken line.\<close>

lemma failed_write_joins_lines:
  assumes "to_json a = Inr l1" "to_json b = Inr l2"
  shows "fst (file_sink_write to_json b Appended (fst (file_sink_write to_json a (EndFails e) []))) = l1 @ l2 @ [CHR 0x0A]"
  using assms by (simp add: file_sink_write_def)

lemma http_sink_guarded:
  "http_sink_write net send url headers entry = (Some post, r) \<Longrightarrow> validate_outbound_url net (hp_url post) = Inr ()"
  by (auto simp: http_sink_write_def Let_def split: sum.splits)

section \<open>The dispatcher\<close>

text \<open>
  \<open>dp_hand\<close> is the entry the task has taken, with the number of sinks that have been served, and
  \<open>dp_written\<close> what was handed to which sink, in order.
\<close>

record audit_dispatcher =
  dp_sinks :: nat
  dp_capacity :: nat
  dp_queue :: "audit_entry list"
  dp_hand :: "(audit_entry \<times> nat) option"
  dp_written :: "(nat \<times> audit_entry) list"
  dp_failed :: "nat list"
  dp_full :: nat

definition dispatcher_new :: "nat \<Rightarrow> nat \<Rightarrow> audit_dispatcher" where
  "dispatcher_new sinks buffer_size =
     \<lparr>dp_sinks = sinks, dp_capacity = max buffer_size 1, dp_queue = [], dp_hand = None, dp_written = [], dp_failed = [],
      dp_full = 0\<rparr>"

text \<open>Without sinks there is no task, and the queue is closed from the start.\<close>

definition has_room :: "audit_dispatcher \<Rightarrow> bool" where
  "has_room d \<longleftrightarrow> dp_sinks d \<noteq> 0 \<and> length (dp_queue d) < dp_capacity d"

definition audit_dispatch :: "audit_entry \<Rightarrow> audit_dispatcher \<Rightarrow> audit_dispatcher" where
  "audit_dispatch entry d =
     (if has_room d then d\<lparr>dp_queue := dp_queue d @ [entry]\<rparr>
      else if dp_sinks d = 0 then d
      else d\<lparr>dp_full := dp_full d + 1\<rparr>)"

text \<open>The task: it takes the next entry when it has none in hand, and hands one to the next sink.\<close>

definition take_entry :: "audit_dispatcher \<Rightarrow> audit_dispatcher" where
  "take_entry d =
     (case (dp_hand d, dp_queue d) of
        (None, e # es) \<Rightarrow> d\<lparr>dp_queue := es, dp_hand := Some (e, 0)\<rparr>
      | _ \<Rightarrow> d)"

definition hand_over :: "bool \<Rightarrow> audit_dispatcher \<Rightarrow> audit_dispatcher" where
  "hand_over ok d =
     (case dp_hand d of
        None \<Rightarrow> d
      | Some (e, i) \<Rightarrow>
          d\<lparr>dp_written := dp_written d @ [(i, e)], dp_failed := (if ok then dp_failed d else dp_failed d @ [i]),
            dp_hand := (if i + 1 < dp_sinks d then Some (e, i + 1) else None)\<rparr>)"

datatype dispatcher_event = Dispatch audit_entry | TakeEntry | HandOver bool

fun dispatcher_step :: "dispatcher_event \<Rightarrow> audit_dispatcher \<Rightarrow> audit_dispatcher" where
  "dispatcher_step (Dispatch e) = audit_dispatch e"
| "dispatcher_step TakeEntry = take_entry"
| "dispatcher_step (HandOver ok) = hand_over ok"

text \<open>The entries that found room, of a sequence of events.\<close>

fun accepted :: "audit_dispatcher \<Rightarrow> dispatcher_event list \<Rightarrow> audit_entry list" where
  "accepted d [] = []"
| "accepted d (Dispatch e # es) = (if has_room d then [e] else []) @ accepted (audit_dispatch e d) es"
| "accepted d (ev # es) = accepted (dispatcher_step ev d) es"

fun dispatched :: "dispatcher_event \<Rightarrow> audit_entry option" where
  "dispatched (Dispatch e) = Some e"
| "dispatched _ = None"

definition written_to :: "nat \<Rightarrow> audit_dispatcher \<Rightarrow> audit_entry list" where
  "written_to i d = map snd (filter (\<lambda>(j, _). j = i) (dp_written d))"

text \<open>What sink \<open>i\<close> has yet to be given: the entry in hand, if it is not that far, and the queue.\<close>

definition pending :: "nat \<Rightarrow> audit_dispatcher \<Rightarrow> audit_entry list" where
  "pending i d = (case dp_hand d of Some (e, j) \<Rightarrow> if j \<le> i then [e] else [] | None \<Rightarrow> []) @ dp_queue d"

definition dispatcher_invar :: "audit_dispatcher \<Rightarrow> bool" where
  "dispatcher_invar d \<longleftrightarrow> length (dp_queue d) \<le> dp_capacity d \<and> 0 < dp_capacity d \<and>
     (case dp_hand d of Some (_, i) \<Rightarrow> i < dp_sinks d | None \<Rightarrow> True) \<and> (dp_sinks d = 0 \<longrightarrow> dp_queue d = [] \<and> dp_hand d = None)"

lemma dispatcher_step_invar: "dispatcher_invar d \<Longrightarrow> dispatcher_invar (dispatcher_step ev d)"
  by (cases ev)
    (auto simp: dispatcher_invar_def audit_dispatch_def has_room_def take_entry_def hand_over_def
      split: option.splits list.splits if_splits)

interpretation dispatcher: invariant_machine dispatcher_step dispatcher_invar
  by unfold_locales (rule dispatcher_step_invar)

lemma dispatcher_new_invar: "dispatcher_invar (dispatcher_new n b)"
  by (simp add: dispatcher_invar_def dispatcher_new_def)

lemma dispatcher_step_frame [simp]:
  "dp_sinks (dispatcher_step ev d) = dp_sinks d" "dp_capacity (dispatcher_step ev d) = dp_capacity d"
  by (cases ev; auto simp: audit_dispatch_def take_entry_def hand_over_def split: option.split list.split)+

text \<open>One event moves an entry from the queue to the hand to the sinks, or adds one that found room.\<close>

lemma dispatcher_step_flow:
  assumes "i < dp_sinks d"
  shows "written_to i (dispatcher_step ev d) @ pending i (dispatcher_step ev d) = (written_to i d @ pending i d) @ accepted d [ev]"
  using assms
  by (cases ev)
    (auto simp: written_to_def pending_def audit_dispatch_def has_room_def take_entry_def hand_over_def
      split: option.split list.split)

lemma accepted_Cons: "accepted d (ev # es) = accepted d [ev] @ accepted (dispatcher_step ev d) es"
  by (cases ev) auto

lemma dispatcher_run_flow:
  "i < dp_sinks d \<Longrightarrow>
    written_to i (fold dispatcher_step es d) @ pending i (fold dispatcher_step es d) = (written_to i d @ pending i d) @ accepted d es"
proof (induction es arbitrary: d)
  case (Cons ev es)
  then show ?case
    using Cons.IH [of "dispatcher_step ev d"] dispatcher_step_flow [of i d ev]
    by (simp add: accepted_Cons [of d ev es])
qed simp

lemma accepted_subseq: "subseq (accepted d es) (List.map_filter dispatched es)"
proof (induction d es rule: accepted.induct)
  case (2 d e es)
  then show ?case by (auto simp: List.map_filter_simps intro: list_emb_Cons)
qed (simp_all add: List.map_filter_simps)

lemma full_counts:
  "dp_sinks d \<noteq> 0 \<Longrightarrow>
    dp_full (fold dispatcher_step es d) + length (accepted d es) = dp_full d + length (List.map_filter dispatched es)"
proof (induction es arbitrary: d)
  case (Cons ev es)
  have "dp_full (dispatcher_step ev d) + length (accepted d [ev]) = dp_full d + length (List.map_filter dispatched [ev])"
    using Cons.prems
    by (cases ev)
      (auto simp: audit_dispatch_def take_entry_def hand_over_def List.map_filter_simps split: option.split list.split)
  moreover have "List.map_filter dispatched (ev # es) = List.map_filter dispatched [ev] @ List.map_filter dispatched es"
    by (simp add: List.map_filter_simps split: option.split)
  moreover have "dp_full (fold dispatcher_step es (dispatcher_step ev d)) + length (accepted (dispatcher_step ev d) es) =
      dp_full (dispatcher_step ev d) + length (List.map_filter dispatched es)"
    by (rule Cons.IH) (use Cons.prems in simp)
  ultimately show ?case
    unfolding accepted_Cons [of d ev es] by (simp only: fold_Cons comp_apply length_append)
qed simp

text \<open>
  Every sink is handed the entries that found room, each once and in their order, a failing sink no
  fewer than the others; what it has not been handed yet is in the hand of the task or in the queue,
  which never holds more than its capacity. The entries that found no room are the newest
  ones, and the counter is their number.
\<close>

theorem dispatcher_in_order:
  assumes "i < n" "d = fold dispatcher_step es (dispatcher_new n b)"
  shows "written_to i d @ pending i d = accepted (dispatcher_new n b) es"
    and "subseq (accepted (dispatcher_new n b) es) (List.map_filter dispatched es)"
    and "dp_full d + length (accepted (dispatcher_new n b) es) = length (List.map_filter dispatched es)"
    and "length (dp_queue d) \<le> max b 1"
proof -
  have new: "dp_sinks (dispatcher_new n b) = n" "dp_full (dispatcher_new n b) = 0"
    "written_to i (dispatcher_new n b) = []" "pending i (dispatcher_new n b) = []"
    by (simp_all add: dispatcher_new_def written_to_def pending_def)
  show "written_to i d @ pending i d = accepted (dispatcher_new n b) es"
    using dispatcher_run_flow [of i "dispatcher_new n b" es] assms by (simp add: new)
  show "subseq (accepted (dispatcher_new n b) es) (List.map_filter dispatched es)"
    by (rule accepted_subseq)
  show "dp_full d + length (accepted (dispatcher_new n b) es) = length (List.map_filter dispatched es)"
    using full_counts [of "dispatcher_new n b" es] assms by (simp add: new)
  have "dp_capacity (fold dispatcher_step es c) = dp_capacity c" for c
    by (induction es arbitrary: c) simp_all
  then show "length (dp_queue d) \<le> max b 1"
    using dispatcher.run_invar [OF dispatcher_new_invar, of es n b] assms(2)
    by (simp add: dispatcher_invar_def dispatcher_new_def)
qed

text \<open>A full queue keeps the entries it has and refuses the new one.\<close>

lemma full_queue_drops_newest:
  "dp_sinks d \<noteq> 0 \<Longrightarrow> length (dp_queue d) = dp_capacity d \<Longrightarrow>
    dp_queue (audit_dispatch e d) = dp_queue d \<and> dp_full (audit_dispatch e d) = dp_full d + 1"
  by (simp add: audit_dispatch_def has_room_def)

end
